(* ===== verification/Veda_Prelude.thy ===== *)
theory Veda_Prelude
  imports Main "HOL-Library.AList"
begin

text \<open>
  The prelude of the development: the collections of hints the component theories fill,
  and the generic lemmas on association lists, options and decimal numerals they share.
  JavaScript objects keep their string keys in insertion order; an association list with
  \<^term>\<open>AList.update\<close> (which overwrites in place or appends at the end) has exactly that
  behaviour, so objects are association lists throughout.
\<close>

named_theorems js_defs \<open>definitions that symbolic execution unfolds\<close>
named_theorems js_frame \<open>introduction rules: a program respects a relation of worlds\<close>

section \<open>Objects as association lists\<close>

type_synonym 'v obj = "(string \<times> 'v) list"

abbreviation oget :: "'v obj \<Rightarrow> string \<Rightarrow> 'v option" where
  "oget ob k \<equiv> map_of ob k"

abbreviation oset :: "string \<Rightarrow> 'v \<Rightarrow> 'v obj \<Rightarrow> 'v obj" where
  "oset k v ob \<equiv> AList.update k v ob"

abbreviation odel :: "string \<Rightarrow> 'v obj \<Rightarrow> 'v obj" where
  "odel k ob \<equiv> AList.delete k ob"

lemma oget_oset [simp]: "oget (oset k v ob) k' = (if k = k' then Some v else oget ob k')"
  by (simp add: update_conv')

lemma oget_odel [simp]: "oget (odel k ob) k' = (if k = k' then None else oget ob k')"
  by (simp add: delete_conv')

lemma oget_filter_keys [simp]:
  "oget (filter (\<lambda>p. P (fst p)) ob) k = (if P k then oget ob k else None)"
  by (induction ob) auto

lemma oget_map_snd:
  "oget (map (\<lambda>(k, v). (k, f v)) ob) k = map_option f (oget ob k)"
  by (induction ob) auto

lemma oget_in_keys: "oget ob k = Some v \<Longrightarrow> k \<in> fst ` set ob"
  by (force dest: map_of_SomeD)

section \<open>Lists and options\<close>

lemma map_filter_Some_id: "List.map_filter (\<lambda>x. Some (f x)) xs = map f xs"
  by (induction xs) (auto simp: List.map_filter_def)

lemma map_filter_append [simp]:
  "List.map_filter f (xs @ ys) = List.map_filter f xs @ List.map_filter f ys"
  by (simp add: List.map_filter_def)

lemma map_filter_Nil [simp]: "List.map_filter f [] = []"
  by (simp add: List.map_filter_def)

lemma map_filter_Cons [simp]:
  "List.map_filter f (x # xs) =
     (case f x of None \<Rightarrow> List.map_filter f xs | Some y \<Rightarrow> y # List.map_filter f xs)"
  by (simp add: List.map_filter_def split: option.splits)

lemma length_one_iff: "length xs = 1 \<longleftrightarrow> (\<exists>x. xs = [x])"
  by (cases xs) auto

text \<open>\<open>v % 2 = 0\<close>-style prefix tests on strings (\<open>String.indexOf (p) === 0\<close>).\<close>

fun starts_with :: "string \<Rightarrow> string \<Rightarrow> bool" where
  "starts_with [] s = True"
| "starts_with (p # ps) [] = False"
| "starts_with (p # ps) (c # s) = (p = c \<and> starts_with ps s)"

lemma starts_with_append: "starts_with p s \<longleftrightarrow> (\<exists>r. s = p @ r)"
  by (induction p s rule: starts_with.induct) auto

text \<open>\<open>s.indexOf (p) !== -1\<close>\<close>

fun has_text :: "string \<Rightarrow> string \<Rightarrow> bool" where
  "has_text p [] = (p = [])"
| "has_text p (c # cs) = (starts_with p (c # cs) \<or> has_text p cs)"

text \<open>\<open>s.split (c)\<close> for one character.\<close>

fun split_on :: "char \<Rightarrow> string \<Rightarrow> string list" where
  "split_on c [] = [[]]"
| "split_on c (x # xs) =
     (if x = c then [] # split_on c xs
      else (case split_on c xs of [] \<Rightarrow> [[x]] | y # ys \<Rightarrow> (x # y) # ys))"

lemma split_on_not_Nil [simp]: "split_on c s \<noteq> []"
  by (induction s) (auto split: list.splits)

lemma split_on_none: "c \<notin> set s \<Longrightarrow> split_on c s = [s]"
  by (induction s) auto

lemma split_on_append: "c \<notin> set s \<Longrightarrow> split_on c (s @ c # t) = s # split_on c t"
  by (induction s) auto

text \<open>
  \<open>Array.prototype.sort\<close> with a comparator that may be no order: V8's insertion sort for short
  arrays. An element moves to the left past the ones that compare greater (\<open>gt\<close>).
\<close>

definition shift_in :: "('a \<Rightarrow> 'a \<Rightarrow> bool) \<Rightarrow> 'a list \<Rightarrow> 'a \<Rightarrow> 'a list" where
  "shift_in gt xs x =
     (let r = rev xs in rev (dropWhile (\<lambda>y. gt y x) r) @ [x] @ rev (takeWhile (\<lambda>y. gt y x) r))"

definition js_sort :: "('a \<Rightarrow> 'a \<Rightarrow> bool) \<Rightarrow> 'a list \<Rightarrow> 'a list" where
  "js_sort gt xs = foldl (shift_in gt) [] xs"

lemma shift_in_perm: "set (shift_in gt xs x) = insert x (set xs) \<and> length (shift_in gt xs x) = Suc (length xs)"
proof -
  have "set (dropWhile (\<lambda>y. gt y x) (rev xs)) \<union> set (takeWhile (\<lambda>y. gt y x) (rev xs)) = set xs"
    by (metis Un_commute set_append set_rev takeWhile_dropWhile_id)
  moreover have "length (dropWhile (\<lambda>y. gt y x) (rev xs)) + length (takeWhile (\<lambda>y. gt y x) (rev xs)) = length xs"
    by (metis add.commute length_append length_rev takeWhile_dropWhile_id)
  ultimately show ?thesis by (auto simp: shift_in_def Let_def)
qed

lemma js_sort_perm: "set (js_sort gt xs) = set xs \<and> length (js_sort gt xs) = length xs"
  by (induction xs rule: rev_induct) (auto simp: js_sort_def shift_in_perm)

text \<open>The length of a text in UTF-16 units, from its UTF-8 bytes.\<close>

definition utf16_length :: "string \<Rightarrow> nat" where
  "utf16_length s =
     sum_list (map (\<lambda>c. let b = of_char c :: nat in if 128 \<le> b \<and> b < 192 then 0 else if 240 \<le> b then 2 else 1) s)"

section \<open>Decimal numerals\<close>

text \<open>
  \<open>Number.prototype.toString\<close> on integers and the digit loop of \<open>parseInt\<close>.
\<close>

definition digit_char :: "nat \<Rightarrow> char" where
  "digit_char d = char_of (48 + d)"

definition char_digit :: "char \<Rightarrow> nat option" where
  "char_digit c = (let n = of_char c :: nat in if 48 \<le> n \<and> n \<le> 57 then Some (n - 48) else None)"

fun show_nat :: "nat \<Rightarrow> string" where
  "show_nat n = (if n < 10 then [digit_char n] else show_nat (n div 10) @ [digit_char (n mod 10)])"

declare show_nat.simps [simp del]

text \<open>Evaluation: conditional rules, so that only ground numerals unfold.\<close>

lemma show_nat_less: "n < 10 \<Longrightarrow> show_nat n = [digit_char n]"
  by (simp add: show_nat.simps [of n])

lemma show_nat_ge: "10 \<le> n \<Longrightarrow> show_nat n = show_nat (n div 10) @ [digit_char (n mod 10)]"
  by (simp add: show_nat.simps [of n])

lemma digit_char_eval:
  "digit_char 0 = CHR ''0''" "digit_char (Suc 0) = CHR ''1''" "digit_char 1 = CHR ''1''"
  "digit_char 2 = CHR ''2''" "digit_char 3 = CHR ''3''" "digit_char 4 = CHR ''4''"
  "digit_char 5 = CHR ''5''" "digit_char 6 = CHR ''6''" "digit_char 7 = CHR ''7''"
  "digit_char 8 = CHR ''8''" "digit_char 9 = CHR ''9''"
  by (simp_all add: digit_char_def char_of_eq_iff)

lemma replicate_numeral: "replicate (numeral k) x = x # replicate (pred_numeral k) x"
  by (simp add: numeral_eq_Suc)

lemmas show_nat_eval = show_nat_less show_nat_ge digit_char_eval replicate_numeral

definition show_int :: "int \<Rightarrow> string" where
  "show_int i = (if i < 0 then CHR ''-'' # show_nat (nat (- i)) else show_nat (nat i))"

fun read_digits :: "nat \<Rightarrow> string \<Rightarrow> nat" where
  "read_digits acc [] = acc"
| "read_digits acc (c # cs) =
     (case char_digit c of None \<Rightarrow> acc | Some d \<Rightarrow> read_digits (10 * acc + d) cs)"

definition all_digits :: "string \<Rightarrow> bool" where
  "all_digits s \<longleftrightarrow> s \<noteq> [] \<and> list_all (\<lambda>c. char_digit c \<noteq> None) s"

lemma char_digit_digit_char: "d < 10 \<Longrightarrow> char_digit (digit_char d) = Some d"
  by (simp add: char_digit_def digit_char_def Let_def)

lemma read_digits_append:
  "list_all (\<lambda>c. char_digit c \<noteq> None) s \<Longrightarrow>
   read_digits acc (s @ t) = read_digits (read_digits acc s) t"
  by (induction s arbitrary: acc) (auto split: option.splits)

lemma show_nat_digits: "all_digits (show_nat n)"
proof (induction n rule: show_nat.induct)
  case (1 n)
  show ?case
  proof (cases "n < 10")
    case True
    then show ?thesis
      by (simp add: show_nat.simps [of n] all_digits_def char_digit_digit_char)
  next
    case False
    with 1 have "all_digits (show_nat (n div 10))" by simp
    with False show ?thesis
      by (simp add: show_nat.simps [of n] all_digits_def char_digit_digit_char)
  qed
qed

lemma show_nat_list_all: "list_all (\<lambda>c. char_digit c \<noteq> None) (show_nat n)"
  using show_nat_digits [of n] by (simp add: all_digits_def)

lemma show_nat_nonempty: "show_nat n \<noteq> []"
  using show_nat_digits [of n] by (simp add: all_digits_def)

lemma read_show_nat: "read_digits 0 (show_nat n) = n"
proof (induction n rule: show_nat.induct)
  case (1 n)
  show ?case
  proof (cases "n < 10")
    case True
    then show ?thesis by (simp add: show_nat.simps [of n] char_digit_digit_char)
  next
    case False
    with 1 have IH: "read_digits 0 (show_nat (n div 10)) = n div 10" by simp
    from False show ?thesis
      by (simp add: show_nat.simps [of n] read_digits_append [OF show_nat_list_all] IH
          char_digit_digit_char)
  qed
qed

end
