(* ===== verification/Js_Data.thy ===== *)
theory Js_Data
  imports Veda_Prelude
begin

text \<open>
  The data model of Veda individuals as the server scripts see them
  (\<^verbatim>\<open>source/v-v8/src/common.rs\<close>, \<open>individual2v8obj\<close>): an individual is an object with the
  key \<^verbatim>\<open>@\<close> (its URI) and, for every property, an array of values
  \<^verbatim>\<open>{data, type, lang}\<close>; and the accessors, constructors and tests of
  \<^verbatim>\<open>public/js/common/util.js\<close> that every component uses.
\<close>

section \<open>JavaScript primitive values\<close>

text \<open>
  \<open>DNum\<close> is a number with an integral value, \<open>DDec m e\<close> the number \<open>m * 10 ^ -e\<close> (the
  mantissa and scale the storage keeps), \<open>DNaN\<close> is NaN, \<open>DDate\<close> a Date object in milliseconds.
\<close>

datatype jdata =
    DUndef
  | DStr string
  | DNum int
  | DDec int nat
  | DNaN
  | DBool bool
  | DDate int

datatype vtype = TUri | TString | TInteger | TDecimal | TDatetime | TBoolean

record val =
  vtype :: vtype
  vdata :: jdata
  vlang :: "string option"

definition mkv :: "vtype \<Rightarrow> jdata \<Rightarrow> val" where
  "mkv t d = \<lparr>vtype = t, vdata = d, vlang = None\<rparr>"

lemma mkv_sel [simp]: "vtype (mkv t d) = t" "vdata (mkv t d) = d" "vlang (mkv t d) = None"
  by (simp_all add: mkv_def)

lemma mkv_inject [simp]: "mkv t d = mkv t' d' \<longleftrightarrow> t = t' \<and> d = d'"
  by (auto simp: mkv_def)

record individual =
  uri :: string
  props :: "val list obj"

abbreviation pget :: "individual \<Rightarrow> string \<Rightarrow> val list option" where
  "pget i k \<equiv> oget (props i) k"

definition set_prop :: "string \<Rightarrow> val list \<Rightarrow> individual \<Rightarrow> individual" where
  "set_prop k vs i = i\<lparr>props := oset k vs (props i)\<rparr>"

definition del_prop :: "string \<Rightarrow> individual \<Rightarrow> individual" where
  "del_prop k i = i\<lparr>props := odel k (props i)\<rparr>"

lemma pget_set_prop [simp]: "pget (set_prop k vs i) k' = (if k = k' then Some vs else pget i k')"
  by (simp add: set_prop_def)

lemma pget_del_prop [simp]: "pget (del_prop k i) k' = (if k = k' then None else pget i k')"
  by (simp add: del_prop_def)

lemma uri_set_prop [simp]: "uri (set_prop k vs i) = uri i"
  by (simp add: set_prop_def)

lemma uri_del_prop [simp]: "uri (del_prop k i) = uri i"
  by (simp add: del_prop_def)

section \<open>Coercions of the language\<close>

fun truthy :: "jdata \<Rightarrow> bool" where
  "truthy DUndef = False"
| "truthy (DStr s) = (s \<noteq> [])"
| "truthy (DNum i) = (i \<noteq> 0)"
| "truthy (DDec m e) = (m \<noteq> 0)"
| "truthy DNaN = False"
| "truthy (DBool b) = b"
| "truthy (DDate ms) = True"

definition is_space :: "char \<Rightarrow> bool" where
  "is_space c \<longleftrightarrow> (of_char c :: nat) \<in> {9, 10, 11, 12, 13, 32}"

definition strip :: "string \<Rightarrow> string" where
  "strip s = rev (dropWhile is_space (rev (dropWhile is_space s)))"

text \<open>
  \<open>parseInt (s)\<close> and \<open>parseInt (s, 10)\<close> on a string: white space, a sign, then the longest
  run of digits; \<open>None\<close> is NaN. Without a radix a leading \<open>0x\<close> selects hexadecimal.
\<close>

definition hex_digit :: "char \<Rightarrow> nat option" where
  "hex_digit c = (let n = of_char c :: nat in
     if 48 \<le> n \<and> n \<le> 57 then Some (n - 48)
     else if 97 \<le> n \<and> n \<le> 102 then Some (n - 87)
     else if 65 \<le> n \<and> n \<le> 70 then Some (n - 55) else None)"

fun read_hex :: "nat \<Rightarrow> string \<Rightarrow> nat" where
  "read_hex acc [] = acc"
| "read_hex acc (c # cs) =
     (case hex_digit c of None \<Rightarrow> acc | Some d \<Rightarrow> read_hex (16 * acc + d) cs)"

definition parse_unsigned :: "bool \<Rightarrow> string \<Rightarrow> nat option" where
  "parse_unsigned hex s =
     (case s of
        [] \<Rightarrow> None
      | c # cs \<Rightarrow>
          if hex \<and> c = CHR ''0'' \<and> cs \<noteq> [] \<and> (hd cs = CHR ''x'' \<or> hd cs = CHR ''X'')
          then (if tl cs \<noteq> [] \<and> hex_digit (hd (tl cs)) \<noteq> None then Some (read_hex 0 (tl cs)) else None)
          else if char_digit c = None then None else Some (read_digits 0 s))"

definition parse_int_str :: "bool \<Rightarrow> string \<Rightarrow> int option" where
  "parse_int_str hex s =
     (case dropWhile is_space s of
        [] \<Rightarrow> None
      | c # cs \<Rightarrow>
          if c = CHR ''-'' then map_option (\<lambda>n. - int n) (parse_unsigned hex cs)
          else if c = CHR ''+'' then map_option int (parse_unsigned hex cs)
          else map_option int (parse_unsigned hex (c # cs)))"

text \<open>A numeral is read back.\<close>

lemma digit_bounds:
  "c \<in> set (show_nat n) \<Longrightarrow> 48 \<le> (of_char c :: nat) \<and> (of_char c :: nat) \<le> 57"
  using show_nat_list_all [of n] by (auto simp: list_all_iff char_digit_def Let_def split: if_splits)

lemma parse_unsigned_show: "parse_unsigned True (show_nat n) = Some n"
proof -
  obtain c cs where s: "show_nat n = c # cs" using show_nat_nonempty [of n] by (cases "show_nat n") auto
  have "hd cs \<noteq> CHR ''x'' \<and> hd cs \<noteq> CHR ''X''" if "cs \<noteq> []"
    using digit_bounds [of "hd cs" n] s that by (cases cs) auto
  moreover have "char_digit c \<noteq> None" using show_nat_list_all [of n] s by simp
  ultimately show ?thesis using read_show_nat [of n] by (auto simp: parse_unsigned_def s)
qed

lemma parse_show_nat: "parse_int_str True (show_nat n) = Some (int n)"
proof -
  obtain c cs where s: "show_nat n = c # cs" using show_nat_nonempty [of n] by (cases "show_nat n") auto
  have "48 \<le> (of_char c :: nat)" using digit_bounds [of c n] s by simp
  then have "\<not> is_space c" and "c \<noteq> CHR ''-''" and "c \<noteq> CHR ''+''" by (auto simp: is_space_def)
  then show ?thesis using parse_unsigned_show [of n] by (simp add: parse_int_str_def s)
qed

lemma parse_show_int: "parse_int_str True (show_int i) = Some i"
  using parse_show_nat [of "nat i"] parse_unsigned_show [of "nat (- i)"]
  by (simp add: show_int_def parse_int_str_def is_space_def)

text \<open>
  \<open>Number (s)\<close> on a string, as loose equality and the relational operators coerce: the whole
  trimmed text must be an optionally signed decimal integer or fraction; the empty text is 0.
  The result is kept as mantissa and scale.
\<close>

definition parse_number :: "string \<Rightarrow> (int \<times> nat) option" where
  "parse_number s =
     (let t = strip s;
          neg = (t \<noteq> [] \<and> hd t = CHR ''-'');
          u = (if t \<noteq> [] \<and> (hd t = CHR ''-'' \<or> hd t = CHR ''+'') then tl t else t);
          whole = takeWhile (\<lambda>c. c \<noteq> CHR ''.'') u;
          frac = drop (Suc (length whole)) u;
          sg = (if neg then -1 else 1 :: int)
      in if t = [] then Some (0, 0)
         else if all_digits u then Some (sg * int (read_digits 0 u), 0)
         else if length whole < length u \<and> all_digits (whole @ frac)
         then Some (sg * int (read_digits 0 (whole @ frac)), length frac)
         else None)"

fun to_number :: "jdata \<Rightarrow> (int \<times> nat) option" where
  "to_number DUndef = None"
| "to_number (DStr s) = parse_number s"
| "to_number (DNum i) = Some (i, 0)"
| "to_number (DDec m e) = Some (m, e)"
| "to_number DNaN = None"
| "to_number (DBool b) = Some (if b then 1 else 0, 0)"
| "to_number (DDate ms) = Some (ms, 0)"

definition num_le :: "int \<times> nat \<Rightarrow> int \<times> nat \<Rightarrow> bool" where
  "num_le a b \<longleftrightarrow> fst a * 10 ^ snd b \<le> fst b * 10 ^ snd a"

definition num_less :: "int \<times> nat \<Rightarrow> int \<times> nat \<Rightarrow> bool" where
  "num_less a b \<longleftrightarrow> fst a * 10 ^ snd b < fst b * 10 ^ snd a"

definition num_eq :: "int \<times> nat \<Rightarrow> int \<times> nat \<Rightarrow> bool" where
  "num_eq a b \<longleftrightarrow> fst a * 10 ^ snd b = fst b * 10 ^ snd a"

definition num_rel :: "(int \<times> nat \<Rightarrow> int \<times> nat \<Rightarrow> bool) \<Rightarrow> jdata \<Rightarrow> jdata \<Rightarrow> bool" where
  "num_rel r a b \<longleftrightarrow>
     (case (to_number a, to_number b) of (Some x, Some y) \<Rightarrow> r x y | _ \<Rightarrow> False)"

text \<open>
  \<open>a <= b\<close> and \<open>a < b\<close> where at most one side is a string (two strings would compare as
  text; no code modelled here compares two strings).
\<close>

definition js_le :: "jdata \<Rightarrow> jdata \<Rightarrow> bool" where
  "js_le a b \<longleftrightarrow> num_rel num_le a b"

definition js_less :: "jdata \<Rightarrow> jdata \<Rightarrow> bool" where
  "js_less a b \<longleftrightarrow> num_rel num_less a b"

text \<open>
  Loose equality \<open>a == b\<close>. Two Date objects are compared by identity and every
  \<open>get_individual\<close> creates new ones, so a comparison of Dates is false.
\<close>

fun loose_eq :: "jdata \<Rightarrow> jdata \<Rightarrow> bool" where
  "loose_eq DUndef DUndef = True"
| "loose_eq DUndef _ = False"
| "loose_eq _ DUndef = False"
| "loose_eq (DStr a) (DStr b) = (a = b)"
| "loose_eq (DDate _) _ = False"
| "loose_eq _ (DDate _) = False"
| "loose_eq a b = num_rel num_eq a b"

text \<open>Strict equality of \<open>valueOf ()\<close>: a Date yields its milliseconds.\<close>

fun value_of :: "jdata \<Rightarrow> jdata" where
  "value_of (DDate ms) = DNum ms"
| "value_of d = d"

definition strict_value_eq :: "jdata \<Rightarrow> jdata \<Rightarrow> bool" where
  "strict_value_eq a b \<longleftrightarrow> a \<noteq> DNaN \<and> value_of a = value_of b"

text \<open>
  A fraction is printed without trailing zeros (the storage keeps the scale, JavaScript does
  not); numbers so small that JavaScript prints an exponent are outside the model.
\<close>

fun dec_reduce :: "int \<Rightarrow> nat \<Rightarrow> int \<times> nat" where
  "dec_reduce m 0 = (m, 0)"
| "dec_reduce m (Suc e) = (if m mod 10 = 0 then dec_reduce (m div 10) e else (m, Suc e))"

definition dec_str :: "int \<Rightarrow> nat \<Rightarrow> string" where
  "dec_str m0 e0 =
     (let m = fst (dec_reduce m0 e0); e = snd (dec_reduce m0 e0);
          p = show_nat (nat \<bar>m\<bar>); q = replicate (Suc e - length p) (CHR ''0'') @ p
      in (if m < 0 then ''-'' else []) @ take (length q - e) q
         @ (if e = 0 then [] else CHR ''.'' # drop (length q - e) q))"

text \<open>\<open>a < b\<close>: two texts by their characters, anything else as numbers.\<close>

fun text_less :: "string \<Rightarrow> string \<Rightarrow> bool" where
  "text_less s [] = False"
| "text_less [] (d # ds) = True"
| "text_less (c # cs) (d # ds) =
     (let a = of_char c :: nat; b = of_char d in a < b \<or> a = b \<and> text_less cs ds)"

definition any_less :: "jdata \<Rightarrow> jdata \<Rightarrow> bool" where
  "any_less a b = (case (a, b) of (DStr s, DStr t) \<Rightarrow> text_less s t | _ \<Rightarrow> js_less a b)"

text \<open>
  String conversion. The text of a Date depends on the time zone of the host, which is the
  argument \<open>ds\<close>.
\<close>

fun js_str :: "(int \<Rightarrow> string) \<Rightarrow> jdata \<Rightarrow> string" where
  "js_str ds DUndef = ''undefined''"
| "js_str ds (DStr s) = s"
| "js_str ds (DNum i) = show_int i"
| "js_str ds (DDec m e) = dec_str m e"
| "js_str ds DNaN = ''NaN''"
| "js_str ds (DBool b) = (if b then ''true'' else ''false'')"
| "js_str ds (DDate ms) = ds ms"

lemma js_le_num [simp]: "js_le (DNum a) (DNum b) \<longleftrightarrow> a \<le> b"
  by (simp add: js_le_def num_rel_def num_le_def)

lemma js_less_num [simp]: "js_less (DNum a) (DNum b) \<longleftrightarrow> a < b"
  by (simp add: js_less_def num_rel_def num_less_def)

lemma loose_eq_num [simp]: "loose_eq (DNum a) (DNum b) \<longleftrightarrow> a = b"
  by (simp add: num_rel_def num_eq_def)

section \<open>Constructors and accessors of property values (common/util.js)\<close>

definition newUri :: "jdata \<Rightarrow> val list" where
  "newUri u = [mkv TUri u]"

definition newStr :: "jdata \<Rightarrow> string option \<Rightarrow> val list" where
  "newStr d lang =
     [\<lparr>vtype = TString, vdata = d,
       vlang = (case lang of None \<Rightarrow> None
                | Some l \<Rightarrow> if l \<noteq> [] \<and> l \<noteq> ''NONE'' then Some l else None)\<rparr>]"

definition newBool :: "jdata \<Rightarrow> val list" where
  "newBool d = [mkv TBoolean d]"

definition newInt :: "jdata \<Rightarrow> val list" where
  "newInt d = [mkv TInteger d]"

definition newDecimal :: "jdata \<Rightarrow> val list" where
  "newDecimal d = [mkv TDecimal d]"

definition newDate :: "jdata \<Rightarrow> val list" where
  "newDate d = [mkv TDatetime d]"

definition mlstring :: "jdata \<Rightarrow> jdata \<Rightarrow> val list" where
  "mlstring ru en =
     [\<lparr>vtype = TString, vdata = ru, vlang = Some ''RU''\<rparr>,
      \<lparr>vtype = TString, vdata = en, vlang = Some ''EN''\<rparr>]"

lemma newUri_simps [simp]: "newUri u \<noteq> []" "hd (newUri u) = mkv TUri u" "length (newUri u) = 1"
  by (simp_all add: newUri_def)

lemma newStr_None [simp]: "newStr d None = [mkv TString d]"
  by (simp add: newStr_def mkv_def)

definition getValues :: "val list option \<Rightarrow> jdata list" where
  "getValues pv = (case pv of None \<Rightarrow> [] | Some vs \<Rightarrow> map vdata vs)"

definition getUris :: "val list option \<Rightarrow> jdata list" where
  "getUris pv = (case pv of None \<Rightarrow> [] | Some vs \<Rightarrow> map vdata vs)"

definition getStrings :: "val list option \<Rightarrow> jdata list" where
  "getStrings pv = (case pv of None \<Rightarrow> [] | Some vs \<Rightarrow> map vdata vs)"

definition getUri :: "val list option \<Rightarrow> jdata" where
  "getUri pv = (case pv of Some (v # _) \<Rightarrow> vdata v | _ \<Rightarrow> DUndef)"

lemma getUri_simps [simp]:
  "getUri None = DUndef" "getUri (Some []) = DUndef" "getUri (Some (v # vs)) = vdata v"
  by (simp_all add: getUri_def)

lemma getUri_newUri [simp]: "getUri (Some (newUri u)) = u"
  by (simp add: newUri_def)

text \<open>
  \<open>parseInt (d, 10)\<close>: the argument is converted to a string first; on an integral number the
  result is the number. A fraction is cut at the point.
\<close>

definition int_or_nan :: "int option \<Rightarrow> jdata" where
  "int_or_nan r = (case r of None \<Rightarrow> DNaN | Some i \<Rightarrow> DNum i)"

fun parse_int_data :: "bool \<Rightarrow> jdata \<Rightarrow> jdata" where
  "parse_int_data hex (DNum i) = DNum i"
| "parse_int_data hex (DStr s) = int_or_nan (parse_int_str hex s)"
| "parse_int_data hex (DDec m e) = DNum (sgn m * (\<bar>m\<bar> div 10 ^ e))"
| "parse_int_data hex _ = DNaN"

text \<open>
  \<open>new Date (d)\<close> of the stored data: a Date or a number of milliseconds; a text or any other
  value is left as it is (a stored Datetime always comes back as a Date object).
\<close>

fun new_date :: "jdata \<Rightarrow> jdata" where
  "new_date (DDate ms) = DDate ms"
| "new_date (DNum ms) = DDate ms"
| "new_date d = d"

definition getFirstValue :: "val list option \<Rightarrow> jdata" where
  "getFirstValue pv =
     (case pv of
        Some (v # _) \<Rightarrow>
          (if vtype v = TInteger then parse_int_data False (vdata v)
           else if vtype v = TDatetime then new_date (vdata v)
           else vdata v)
      | _ \<Rightarrow> DUndef)"

lemma getFirstValue_simps [simp]:
  "getFirstValue None = DUndef" "getFirstValue (Some []) = DUndef"
  "getFirstValue (Some (mkv TString d # vs)) = d"
  "getFirstValue (Some (mkv TUri d # vs)) = d"
  "getFirstValue (Some (mkv TBoolean d # vs)) = d"
  by (simp_all add: getFirstValue_def)

definition lang_is :: "string option \<Rightarrow> jdata \<Rightarrow> bool" where
  "lang_is l d = loose_eq (case l of None \<Rightarrow> DUndef | Some s \<Rightarrow> DStr s) d"

text \<open>\<open>null\<close>, the result when no language matches, is \<open>None\<close>.\<close>

definition getFirstValueUseLang :: "val list option \<Rightarrow> jdata \<Rightarrow> jdata option" where
  "getFirstValueUseLang pv lang =
     (case pv of None \<Rightarrow> None
      | Some vs \<Rightarrow> map_option vdata (List.find (\<lambda>v. lang_is (vlang v) lang) vs))"

section \<open>veda.Util.hasValue\<close>

definition has_prop :: "individual option \<Rightarrow> string \<Rightarrow> bool" where
  "has_prop oi p =
     (case oi of None \<Rightarrow> False
      | Some i \<Rightarrow> (case pget i p of None \<Rightarrow> False | Some vs \<Rightarrow> vs \<noteq> []))"

definition val_matches :: "val \<Rightarrow> val \<Rightarrow> bool" where
  "val_matches v w \<longleftrightarrow> vtype w = vtype v \<and> strict_value_eq (vdata w) (vdata v)"

definition hasValue :: "individual option \<Rightarrow> string \<Rightarrow> val option \<Rightarrow> bool" where
  "hasValue oi p ov =
     (case ov of
        None \<Rightarrow> has_prop oi p
      | Some v \<Rightarrow>
          has_prop oi p \<and>
          (case oi of None \<Rightarrow> False
           | Some i \<Rightarrow> list_ex (val_matches v) (case pget i p of None \<Rightarrow> [] | Some vs \<Rightarrow> vs)))"

abbreviation has_uri :: "individual \<Rightarrow> string \<Rightarrow> string \<Rightarrow> bool" where
  "has_uri i p u \<equiv> hasValue (Some i) p (Some (mkv TUri (DStr u)))"

abbreviation has_true :: "individual \<Rightarrow> string \<Rightarrow> bool" where
  "has_true i p \<equiv> hasValue (Some i) p (Some (mkv TBoolean (DBool True)))"

lemma strict_value_eq_str [simp]: "strict_value_eq (DStr a) d \<longleftrightarrow> d = DStr a"
  by (cases d) (auto simp: strict_value_eq_def)

lemma strict_value_eq_str2 [simp]: "strict_value_eq d (DStr a) \<longleftrightarrow> d = DStr a"
  by (cases d) (auto simp: strict_value_eq_def)

lemma strict_value_eq_bool [simp]: "strict_value_eq d (DBool a) \<longleftrightarrow> d = DBool a"
  by (cases d) (auto simp: strict_value_eq_def)

lemma hasValue_None_ind [simp]: "\<not> hasValue None p ov"
  by (simp add: hasValue_def has_prop_def split: option.splits)

lemma hasValue_Some_iff:
  "hasValue (Some i) p (Some v) \<longleftrightarrow> (\<exists>vs. pget i p = Some vs \<and> (\<exists>w \<in> set vs. val_matches v w))"
  by (auto simp: hasValue_def has_prop_def list_ex_iff split: option.splits)

lemma has_uri_iff:
  "has_uri i p u \<longleftrightarrow>
     (\<exists>vs. pget i p = Some vs \<and> (\<exists>w \<in> set vs. vtype w = TUri \<and> vdata w = DStr u))"
  by (auto simp: hasValue_Some_iff val_matches_def)

lemma hasValue_any_iff: "hasValue (Some i) p None \<longleftrightarrow> (\<exists>v vs. pget i p = Some (v # vs))"
  by (auto simp: hasValue_def has_prop_def neq_Nil_conv split: option.splits)

end
