(* ===== verification/Js_Host.thy ===== *)
theory Js_Host
  imports Js_Data
begin

text \<open>
  The host the server scripts run in: the functions \<^verbatim>\<open>get_individual\<close>,
  \<^verbatim>\<open>put_individual\<close>, \<^verbatim>\<open>add_to_individual\<close>, \<^verbatim>\<open>set_in_individual\<close>,
  \<^verbatim>\<open>remove_from_individual\<close> and \<^verbatim>\<open>remove_individual\<close> that
  \<^verbatim>\<open>source/v-v8/src/callback.rs\<close> installs, with the transaction of
  \<^verbatim>\<open>source/v-v8/src/session_cache.rs\<close>, and the effects of JavaScript itself (exceptions,
  early \<open>return\<close>, \<open>try\<close>) as a monad over the world. The ticket and event arguments are
  omitted: the host ignores the ticket when it reads and only stores both with the write.
\<close>

section \<open>The world\<close>

datatype indv_op = OpPut | OpAddTo | OpSetIn | OpRemoveFrom | OpRemove

datatype js_error = TypeError | RangeError | ScriptError string

text \<open>
  \<open>store\<close> is what \<^verbatim>\<open>get_individual\<close> returns (the transaction over the storage), \<open>queue\<close>
  the writes in the order in which the scripts issued them, each with the value it had then (the
  host also changes an earlier item of the same individual in place, which the commit of the
  later item overwrites), \<open>gvars\<close> the individuals named \<open>$...\<close>, \<open>errs\<close> the errors
  that a \<open>catch\<close> printed. The rest is the environment: \<open>guid_of n\<close> is the result of the
  \<open>n\<close>-th call of \<^verbatim>\<open>veda.Util.guid\<close> (it draws from the clock and \<open>Math.random\<close>), \<open>nguid\<close>
  the number of calls so far, \<open>now\<close> the clock, \<open>date_str\<close> the text of a Date in the host's
  time zone, \<open>parse_dt\<close> and \<open>parse_dec\<close> the parsers of the storage's libraries (seconds of a
  date text, mantissa and scale of a decimal text), \<open>stack_of\<close> the text of \<open>e.stack\<close>, and
  \<open>stack_max\<close> the depth of calls at which the engine raises a RangeError.
\<close>

record world =
  store :: "string \<Rightarrow> individual option"
  queue :: "(indv_op \<times> individual) list"
  gvars :: "string \<Rightarrow> individual option"
  errs :: "js_error list"
  nguid :: nat
  guid_of :: "nat \<Rightarrow> string"
  now :: int
  date_str :: "int \<Rightarrow> string"
  parse_dt :: "string \<Rightarrow> int option"
  parse_dec :: "string \<Rightarrow> (int \<times> nat) option"
  stack_of :: "js_error \<Rightarrow> string"
  stack_max :: nat

section \<open>What a value becomes in the storage\<close>

definition lower_char :: "char \<Rightarrow> char" where
  "lower_char c = (let n = of_char c :: nat in if 65 \<le> n \<and> n \<le> 90 then char_of (n + 32) else c)"

definition norm_lang :: "string option \<Rightarrow> string option" where
  "norm_lang l =
     (case l of None \<Rightarrow> None
      | Some s \<Rightarrow>
          (if map lower_char s = ''ru'' then Some ''RU''
           else if map lower_char s = ''en'' then Some ''EN'' else None))"

definition trunc_div :: "int \<Rightarrow> int \<Rightarrow> int" where
  "trunc_div a b = sgn a * (\<bar>a\<bar> div b)"

definition parse_i64 :: "string \<Rightarrow> int option" where
  "parse_i64 s =
     (let neg = (s \<noteq> [] \<and> hd s = CHR ''-'');
          u = (if s \<noteq> [] \<and> (hd s = CHR ''-'' \<or> hd s = CHR ''+'') then tl s else s);
          i = (if neg then - int (read_digits 0 u) else int (read_digits 0 u))
      in if all_digits u \<and> - (2 ^ 63) \<le> i \<and> i < 2 ^ 63 then Some i else None)"

text \<open>
  \<^verbatim>\<open>add_v8_value_obj_to_individual\<close> on the way in and \<^verbatim>\<open>individual2v8obj\<close> on the way
  back; \<open>None\<close> is a value the host drops. A Datetime given as a number is taken as seconds,
  a Date object as milliseconds.
\<close>

definition norm_data :: "world \<Rightarrow> vtype \<Rightarrow> jdata \<Rightarrow> jdata option" where
  "norm_data w t d =
     (case t of
        TDecimal \<Rightarrow>
          (case d of DNum i \<Rightarrow> Some (DNum i) | DDec m e \<Rightarrow> Some (DDec m e)
           | DStr s \<Rightarrow>
               map_option (\<lambda>(m, e). if m mod 10 ^ e = 0 then DNum (m div 10 ^ e) else DDec m e)
                 (parse_dec w s)
           | _ \<Rightarrow> None)
      | TInteger \<Rightarrow>
          (case d of DNum i \<Rightarrow> Some (DNum i) | DDec m e \<Rightarrow> Some (DNum (trunc_div m (10 ^ e)))
           | DNaN \<Rightarrow> Some (DNum 0) | DStr s \<Rightarrow> map_option DNum (parse_i64 s) | _ \<Rightarrow> None)
      | TDatetime \<Rightarrow>
          (case d of DNum i \<Rightarrow> Some (DDate (i * 1000))
           | DDec m e \<Rightarrow> Some (DDate (trunc_div m (10 ^ e) * 1000))
           | DNaN \<Rightarrow> Some (DDate 0)
           | DStr s \<Rightarrow> map_option (\<lambda>sec. DDate (sec * 1000)) (parse_dt w s)
           | DDate ms \<Rightarrow> Some (DDate (trunc_div ms 1000 * 1000))
           | _ \<Rightarrow> None)
      | TBoolean \<Rightarrow> (case d of DBool b \<Rightarrow> Some (DBool b) | _ \<Rightarrow> None)
      | TString \<Rightarrow> Some (DStr (js_str (date_str w) d))
      | TUri \<Rightarrow> Some (DStr (js_str (date_str w) d)))"

definition norm_val :: "world \<Rightarrow> val \<Rightarrow> val option" where
  "norm_val w v =
     map_option
       (\<lambda>d. \<lparr>vtype = vtype v, vdata = d,
             vlang = (if vtype v = TString then norm_lang (vlang v) else None)\<rparr>)
       (norm_data w (vtype v) (vdata v))"

definition norm_vals :: "world \<Rightarrow> val list \<Rightarrow> val list" where
  "norm_vals w vs = List.map_filter (norm_val w) vs"

text \<open>\<^verbatim>\<open>v8obj_into_individual\<close>: a property without a storable value leaves no trace.\<close>

definition norm_ind :: "world \<Rightarrow> individual \<Rightarrow> individual" where
  "norm_ind w i =
     i\<lparr>props := filter (\<lambda>p. snd p \<noteq> []) (map (\<lambda>(k, vs). (k, norm_vals w vs)) (props i))\<rparr>"

section \<open>Reads and writes of the transaction\<close>

text \<open>\<^verbatim>\<open>fn_callback_get_individual\<close>: the id is converted to a string.\<close>

definition get_id :: "world \<Rightarrow> string \<Rightarrow> individual option" where
  "get_id w s =
     (if s = ''undefined'' then None
      else if starts_with ''$'' s then gvars w s
      else store w s)"

definition lookup :: "world \<Rightarrow> jdata \<Rightarrow> individual option" where
  "lookup w d = (case d of DUndef \<Rightarrow> get_id w [] | _ \<Rightarrow> get_id w (js_str (date_str w) d))"

text \<open>\<^verbatim>\<open>indv_apply_cmd\<close> on one property, with the operations of \<^verbatim>\<open>IndividualObj\<close>.\<close>

fun add_unique :: "val list \<Rightarrow> val list \<Rightarrow> val list" where
  "add_unique vs [] = vs"
| "add_unique vs (b # bs) = add_unique (if b \<in> set vs then vs else vs @ [b]) bs"

definition apply_pred :: "indv_op \<Rightarrow> string \<Rightarrow> val list \<Rightarrow> individual \<Rightarrow> individual" where
  "apply_pred cmd k b i =
     (let vs = (case pget i k of None \<Rightarrow> [] | Some vs \<Rightarrow> vs)
      in case cmd of
           OpAddTo \<Rightarrow> set_prop k (add_unique vs b) i
         | OpSetIn \<Rightarrow> set_prop k b i
         | OpRemoveFrom \<Rightarrow>
             (let r = filter (\<lambda>v. v \<notin> set b) vs
              in if r = [] then del_prop k i else set_prop k r i)
         | _ \<Rightarrow> i)"

definition apply_cmd :: "indv_op \<Rightarrow> individual \<Rightarrow> individual \<Rightarrow> individual" where
  "apply_cmd cmd prev i =
     (if props prev = [] then prev
      else fold (\<lambda>(k, b) p. if k = ''v-s:updateCounter'' then p else apply_pred cmd k b p)
             (props i) prev)"

definition add_item :: "individual \<Rightarrow> world \<Rightarrow> world" where
  "add_item i w = w\<lparr>store := (store w)(uri i \<mapsto> i), queue := queue w @ [(OpPut, i)]\<rparr>"

definition do_put :: "individual \<Rightarrow> world \<Rightarrow> world" where
  "do_put i w = (if uri i = [] then w else add_item (norm_ind w i) w)"

definition do_update :: "indv_op \<Rightarrow> individual \<Rightarrow> world \<Rightarrow> world" where
  "do_update cmd i w =
     (if uri i = [] then w
      else case store w (uri i) of
             None \<Rightarrow> w
           | Some prev \<Rightarrow> add_item ((apply_cmd cmd prev (norm_ind w i))\<lparr>uri := uri i\<rparr>) w)"

text \<open>
  \<^verbatim>\<open>remove_individual\<close> only queues the removal; its transaction item carries the empty URI,
  so the individual stays visible to \<^verbatim>\<open>get_individual\<close> until the commit.
\<close>

definition do_remove :: "string \<Rightarrow> world \<Rightarrow> world" where
  "do_remove u w =
     (if u = [] then w
      else w\<lparr>store := (store w)([] \<mapsto> \<lparr>uri = u, props = []\<rparr>),
             queue := queue w @ [(OpRemove, \<lparr>uri = u, props = []\<rparr>)]\<rparr>)"

definition next_guid :: "world \<Rightarrow> world" where
  "next_guid w = w\<lparr>nguid := Suc (nguid w)\<rparr>"

definition log_err :: "js_error \<Rightarrow> world \<Rightarrow> world" where
  "log_err e w = w\<lparr>errs := errs w @ [e]\<rparr>"

lemma uri_norm_ind [simp]: "uri (norm_ind w i) = uri i"
  by (simp add: norm_ind_def)

section \<open>The effects of the language\<close>

text \<open>
  A statement ends normally with a value, by an early \<open>return\<close> of the enclosing function
  (all functions modelled with it return \<open>undefined\<close>), by an exception, or not at all
  (\<open>Hang\<close>: a loop that does not end).
\<close>

datatype 'a res = Val 'a | Ret | Throw js_error | Hang

type_synonym 'a js = "world \<Rightarrow> 'a res \<times> world"

definition js_ret :: "'a \<Rightarrow> 'a js" where
  "js_ret x = (\<lambda>w. (Val x, w))"

definition js_bind :: "'a js \<Rightarrow> ('a \<Rightarrow> 'b js) \<Rightarrow> 'b js" where
  "js_bind m f =
     (\<lambda>w. case m w of (Val x, w') \<Rightarrow> f x w' | (Ret, w') \<Rightarrow> (Ret, w') | (Throw e, w') \<Rightarrow> (Throw e, w')
               | (Hang, w') \<Rightarrow> (Hang, w'))"

definition js_seq :: "'a js \<Rightarrow> 'b js \<Rightarrow> 'b js" where
  "js_seq m n = js_bind m (\<lambda>_. n)"

definition js_return :: "'a js" where
  "js_return = (\<lambda>w. (Ret, w))"

definition js_throw :: "js_error \<Rightarrow> 'a js" where
  "js_throw e = (\<lambda>w. (Throw e, w))"

definition js_when :: "bool \<Rightarrow> unit js \<Rightarrow> unit js" where
  "js_when b m = (if b then m else js_ret ())"

text \<open>Reading a member of \<open>undefined\<close> raises a TypeError.\<close>

definition js_some :: "'a option \<Rightarrow> 'a js" where
  "js_some x = (case x of None \<Rightarrow> js_throw TypeError | Some y \<Rightarrow> js_ret y)"

text \<open>A loop whose result is \<open>None\<close> when it does not end.\<close>

definition js_loop :: "'a option \<Rightarrow> 'a js" where
  "js_loop x = (case x of None \<Rightarrow> (\<lambda>w. (Hang, w)) | Some y \<Rightarrow> js_ret y)"

text \<open>Reading the world: the model's pure functions of the store.\<close>

definition js_ask :: "(world \<Rightarrow> 'a) \<Rightarrow> 'a js" where
  "js_ask f = (\<lambda>w. (Val (f w), w))"

text \<open>Errors that a \<open>catch\<close> inside a called pure function printed.\<close>

definition js_log :: "js_error list \<Rightarrow> unit js" where
  "js_log es = (\<lambda>w. (Val (), foldl (\<lambda>w e. log_err e w) w es))"

text \<open>The boundary of a function call: an early return gives \<open>undefined\<close>.\<close>

definition js_call :: "'a js \<Rightarrow> 'a option js" where
  "js_call m =
     (\<lambda>w. case m w of (Val x, w') \<Rightarrow> (Val (Some x), w') | (Ret, w') \<Rightarrow> (Val None, w')
                    | (Throw e, w') \<Rightarrow> (Throw e, w') | (Hang, w') \<Rightarrow> (Hang, w'))"

text \<open>The body of a function without a result.\<close>

definition js_func :: "'a js \<Rightarrow> unit js" where
  "js_func m = js_bind (js_call m) (\<lambda>_. js_ret ())"

text \<open>\<open>try { m } catch (e) { h e }\<close>\<close>

definition js_handle :: "'a js \<Rightarrow> (js_error \<Rightarrow> 'a js) \<Rightarrow> 'a js" where
  "js_handle m h = (\<lambda>w. case m w of (Throw e, w') \<Rightarrow> h e w' | r \<Rightarrow> r)"

text \<open>\<open>try { m } catch (e) { print(e.stack) }\<close>, and with a result after the \<open>catch\<close>.\<close>

definition js_catch :: "'a js \<Rightarrow> 'a js \<Rightarrow> 'a js" where
  "js_catch m h =
     (\<lambda>w. case m w of (Throw e, w') \<Rightarrow> h (log_err e w') | r \<Rightarrow> r)"

definition js_try :: "unit js \<Rightarrow> unit js" where
  "js_try m = js_catch m (js_ret ())"

primrec js_fold :: "('a \<Rightarrow> 'b \<Rightarrow> 'a js) \<Rightarrow> 'a \<Rightarrow> 'b list \<Rightarrow> 'a js" where
  "js_fold f a [] = js_ret a"
| "js_fold f a (x # xs) = js_bind (f a x) (\<lambda>a'. js_fold f a' xs)"

definition js_for :: "'b list \<Rightarrow> ('b \<Rightarrow> unit js) \<Rightarrow> unit js" where
  "js_for xs f = js_fold (\<lambda>_. f) () xs"

text \<open>A loop with \<open>break\<close>: the body says whether to go on.\<close>

primrec js_fold_break :: "('a \<Rightarrow> 'b \<Rightarrow> ('a \<times> bool) js) \<Rightarrow> 'a \<Rightarrow> 'b list \<Rightarrow> 'a js" where
  "js_fold_break f a [] = js_ret a"
| "js_fold_break f a (x # xs) =
     js_bind (f a x) (\<lambda>(a', go). if go then js_fold_break f a' xs else js_ret a')"

section \<open>The host functions\<close>

definition get_individual :: "jdata \<Rightarrow> individual option js" where
  "get_individual d = (\<lambda>w. (Val (lookup w d), w))"

definition put_individual :: "individual \<Rightarrow> unit js" where
  "put_individual i = (\<lambda>w. (Val (), do_put i w))"

definition add_to_individual :: "individual \<Rightarrow> unit js" where
  "add_to_individual i = (\<lambda>w. (Val (), do_update OpAddTo i w))"

definition set_in_individual :: "individual \<Rightarrow> unit js" where
  "set_in_individual i = (\<lambda>w. (Val (), do_update OpSetIn i w))"

definition remove_from_individual :: "individual \<Rightarrow> unit js" where
  "remove_from_individual i = (\<lambda>w. (Val (), do_update OpRemoveFrom i w))"

definition remove_individual :: "string \<Rightarrow> unit js" where
  "remove_individual u = (\<lambda>w. (Val (), do_remove u w))"

text \<open>\<open>new Date ()\<close>, and the conversions that depend on the host's time zone.\<close>

definition new_Date :: "jdata js" where
  "new_Date = (\<lambda>w. (Val (DDate (now w)), w))"

definition to_str :: "jdata \<Rightarrow> string js" where
  "to_str d = (\<lambda>w. (Val (js_str (date_str w) d), w))"

text \<open>\<open>vs[0].data\<close> on the array of a property that may be absent or empty.\<close>

definition data0 :: "val list option \<Rightarrow> jdata js" where
  "data0 pv = (case pv of Some (v # _) \<Rightarrow> js_ret (vdata v) | _ \<Rightarrow> js_throw TypeError)"

lemmas js_monad_defs [js_defs] =
  js_ret_def js_bind_def js_seq_def js_return_def js_throw_def js_when_def js_some_def
  js_call_def js_func_def js_loop_def js_ask_def js_log_def js_handle_def js_catch_def js_try_def js_for_def get_individual_def put_individual_def
  add_to_individual_def set_in_individual_def remove_from_individual_def remove_individual_def
  new_Date_def to_str_def data0_def

section \<open>Unique names (veda.Util.genUri)\<close>

text \<open>
  \<^verbatim>\<open>genUri\<close> prefixes the guid with \<open>d:\<close>, and with \<open>d:a\<close> when the guid starts with a digit.
\<close>

definition uri_of_guid :: "string \<Rightarrow> string" where
  "uri_of_guid uid =
     (if uid \<noteq> [] \<and> char_digit (hd uid) \<noteq> None then ''d:a'' @ uid else ''d:'' @ uid)"

definition genUri :: "string js" where
  "genUri = (\<lambda>w. (Val (uri_of_guid (guid_of w (nguid w))), next_guid w))"

section \<open>Programs that respect a relation of worlds\<close>

definition keeps :: "(world \<Rightarrow> world \<Rightarrow> bool) \<Rightarrow> 'a js \<Rightarrow> bool" where
  "keeps R m \<longleftrightarrow> (\<forall>w. R w (snd (m w)))"

text \<open>
  The interface between the host and the handlers: a relation that is a preorder and holds
  across every host write holds across every program built from them. The handlers are proved
  once, for any such relation.
\<close>

locale host_rel =
  fixes R :: "world \<Rightarrow> world \<Rightarrow> bool"
  assumes R_refl: "R w w"
    and R_trans: "R u v \<Longrightarrow> R v w \<Longrightarrow> R u w"
    and R_item: "uri i \<noteq> [] \<Longrightarrow> R w (add_item i w)"
    and R_guid: "R w (next_guid w)"
    and R_err: "R w (log_err e w)"
begin

lemma R_put: "R w (do_put i w)"
  by (simp add: do_put_def R_refl R_item)

lemma R_update: "R w (do_update cmd i w)"
  by (simp add: do_update_def R_refl R_item split: option.splits)

lemma ret [js_frame]: "keeps R (js_ret x)"
  by (simp add: keeps_def js_ret_def R_refl)

lemma early_return [js_frame]: "keeps R js_return"
  by (simp add: keeps_def js_return_def R_refl)

lemma throw [js_frame]: "keeps R (js_throw e)"
  by (simp add: keeps_def js_throw_def R_refl)

lemma bind [js_frame]:
  assumes "keeps R m" and "\<And>x. keeps R (f x)"
  shows "keeps R (js_bind m f)"
  unfolding keeps_def
proof
  fix w
  from assms(1) have 1: "R w (snd (m w))" by (simp add: keeps_def)
  from assms(2) have 2: "R w' (snd (f x w'))" for x w' by (simp add: keeps_def)
  show "R w (snd (js_bind m f w))"
    using 1 2 by (auto simp: js_bind_def split: prod.splits res.splits intro: R_trans)
qed

lemma seq [js_frame]: "keeps R m \<Longrightarrow> keeps R n \<Longrightarrow> keeps R (js_seq m n)"
  by (simp add: js_seq_def bind)

lemma when_stmt [js_frame]: "keeps R m \<Longrightarrow> keeps R (js_when b m)"
  by (simp add: js_when_def ret)

lemma if_then_else [js_frame]:
  "keeps R m \<Longrightarrow> keeps R n \<Longrightarrow> keeps R (if b then m else n)"
  by simp

lemma case_opt [js_frame]:
  "keeps R m \<Longrightarrow> (\<And>x. keeps R (f x)) \<Longrightarrow> keeps R (case ox of None \<Rightarrow> m | Some x \<Rightarrow> f x)"
  by (cases ox) auto

lemma case_lst [js_frame]:
  "keeps R m \<Longrightarrow> (\<And>x xs. keeps R (f x xs)) \<Longrightarrow>
   keeps R (case l of [] \<Rightarrow> m | x # xs \<Rightarrow> f x xs)"
  by (cases l) auto

lemma case_pair [js_frame]:
  "(\<And>x y. keeps R (f x y)) \<Longrightarrow> keeps R (case p of (x, y) \<Rightarrow> f x y)"
  by (cases p) auto

lemma let_in [js_frame]: "(\<And>x. keeps R (f x)) \<Longrightarrow> keeps R (Let t f)"
  by simp

lemma some [js_frame]: "keeps R (js_some x)"
  by (simp add: js_some_def ret throw split: option.splits)

lemma while_loop [js_frame]: "keeps R (js_loop x)"
  by (simp add: js_loop_def keeps_def js_ret_def R_refl split: option.splits)

lemma ask [js_frame]: "keeps R (js_ask f)"
  by (simp add: js_ask_def keeps_def R_refl)

lemma log [js_frame]: "keeps R (js_log es)"
proof -
  have "R w (foldl (\<lambda>w e. log_err e w) w es)" for w
    by (induction es arbitrary: w) (auto intro: R_refl R_trans [OF R_err])
  then show ?thesis by (simp add: js_log_def keeps_def)
qed

lemma call [js_frame]: "keeps R m \<Longrightarrow> keeps R (js_call m)"
  unfolding keeps_def
proof
  fix w assume "\<forall>w. R w (snd (m w))"
  then have "R w (snd (m w))" by simp
  then show "R w (snd (js_call m w))"
    by (auto simp: js_call_def split: prod.splits res.splits)
qed

lemma func [js_frame]: "keeps R m \<Longrightarrow> keeps R (js_func m)"
  unfolding js_func_def by (intro bind call ret)

lemma handle [js_frame]:
  assumes "keeps R m" and "\<And>e. keeps R (h e)"
  shows "keeps R (js_handle m h)"
  unfolding keeps_def
proof
  fix w
  from assms(1) have 1: "R w (snd (m w))" by (simp add: keeps_def)
  from assms(2) have 2: "R w' (snd (h e w'))" for e w' by (simp add: keeps_def)
  show "R w (snd (js_handle m h w))"
    using 1 R_trans [OF _ 2]
    by (auto simp: js_handle_def split: prod.splits res.splits)
qed

lemma catch [js_frame]:
  assumes "keeps R m" and "keeps R h"
  shows "keeps R (js_catch m h)"
  unfolding keeps_def
proof
  fix w
  from assms(1) have 1: "R w (snd (m w))" by (simp add: keeps_def)
  from assms(2) have 2: "R w' (snd (h w'))" for w' by (simp add: keeps_def)
  show "R w (snd (js_catch m h w))"
    using 1 R_trans [OF R_trans [OF _ R_err] 2]
    by (auto simp: js_catch_def split: prod.splits res.splits)
qed

lemma try_stmt [js_frame]: "keeps R m \<Longrightarrow> keeps R (js_try m)"
  by (simp add: js_try_def catch ret)

lemma fold [js_frame]:
  assumes "\<And>a x. keeps R (f a x)"
  shows "keeps R (js_fold f a xs)"
  using assms by (induction xs arbitrary: a) (auto intro: ret bind)

lemma loop [js_frame]: "(\<And>x. keeps R (f x)) \<Longrightarrow> keeps R (js_for xs f)"
  by (simp add: js_for_def fold)

lemma fold_break [js_frame]:
  assumes "\<And>a x. keeps R (f a x)"
  shows "keeps R (js_fold_break f a xs)"
  using assms
  by (induction xs arbitrary: a) (auto intro!: ret bind split: prod.splits)

lemma host_calls [js_frame]:
  "keeps R (get_individual d)" "keeps R (put_individual i)"
  "keeps R (add_to_individual i)" "keeps R (set_in_individual i)"
  "keeps R (remove_from_individual i)" "keeps R new_Date" "keeps R (to_str d)"
  "keeps R genUri" "keeps R (data0 pv)"
  by (simp_all add: keeps_def get_individual_def put_individual_def add_to_individual_def
      set_in_individual_def remove_from_individual_def new_Date_def to_str_def genUri_def
      data0_def js_ret_def js_throw_def R_refl R_put R_update R_guid
      split: option.splits list.splits)

end

text \<open>Relations that also survive a removal.\<close>

locale host_rel_remove = host_rel +
  assumes R_remove: "R w (do_remove u w)"
begin

lemma host_remove [js_frame]: "keeps R (remove_individual u)"
  by (simp add: keeps_def remove_individual_def R_remove)

end

text \<open>
  First instance: the writes are faithful to the transaction. What \<^verbatim>\<open>get_individual\<close>
  returns after the program is what it returned before, overwritten by the individuals the
  program queued, in order; and the program queued only puts.
\<close>

definition replay :: "individual list \<Rightarrow> (string \<Rightarrow> individual option) \<Rightarrow> (string \<Rightarrow> individual option)" where
  "replay zs s = foldl (\<lambda>s i. s(uri i \<mapsto> i)) s zs"

definition writes :: "world \<Rightarrow> world \<Rightarrow> bool" where
  "writes w w' \<longleftrightarrow>
     (\<exists>zs. queue w' = queue w @ map (Pair OpPut) zs \<and> store w' = replay zs (store w) \<and>
           (\<forall>i \<in> set zs. uri i \<noteq> []))"

lemma replay_append: "replay (xs @ ys) s = replay ys (replay xs s)"
  by (simp add: replay_def)

lemma replay_Nil [simp]: "replay [] s = s"
  by (simp add: replay_def)

lemma replay_Cons [simp]: "replay (z # zs) s = replay zs (s(uri z \<mapsto> z))"
  by (simp add: replay_def)

lemma dom_replay: "dom s \<subseteq> dom (replay zs s)"
proof (induction zs arbitrary: s)
  case Nil
  then show ?case by simp
next
  case (Cons z zs)
  have "dom s \<subseteq> dom (s(uri z \<mapsto> z))" by (simp add: subset_insertI)
  also have "\<dots> \<subseteq> dom (replay zs (s(uri z \<mapsto> z)))" by (rule Cons.IH)
  finally show ?case by simp
qed

lemma writes_refl: "writes w w"
  by (auto simp: writes_def replay_def intro!: exI [of _ "[]"])

lemma writes_trans:
  assumes "writes u v" and "writes v w"
  shows "writes u w"
proof -
  from assms obtain xs ys
    where xs: "queue v = queue u @ map (Pair OpPut) xs" "store v = replay xs (store u)"
        "\<forall>i \<in> set xs. uri i \<noteq> []"
      and ys: "queue w = queue v @ map (Pair OpPut) ys" "store w = replay ys (store v)"
        "\<forall>i \<in> set ys. uri i \<noteq> []"
    by (auto simp: writes_def)
  show ?thesis
    unfolding writes_def
    by (rule exI [of _ "xs @ ys"]) (use xs ys in \<open>auto simp: replay_append\<close>)
qed

lemma writes_dom: "writes w w' \<Longrightarrow> dom (store w) \<subseteq> dom (store w')"
proof -
  assume "writes w w'"
  then obtain zs where "store w' = replay zs (store w)" by (auto simp: writes_def)
  then show ?thesis using dom_replay [of "store w" zs] by simp
qed

interpretation wr: host_rel writes
proof
  show "writes w w" for w by (rule writes_refl)
  show "writes u v \<Longrightarrow> writes v w \<Longrightarrow> writes u w" for u v w by (rule writes_trans)
  show "uri i \<noteq> [] \<Longrightarrow> writes w (add_item i w)" for i w
    by (auto simp: writes_def add_item_def replay_def intro!: exI [of _ "[i]"])
  show "writes w (next_guid w)" for w
    using writes_refl [of w] by (auto simp: writes_def next_guid_def)
  show "writes w (log_err e w)" for w e
    using writes_refl [of w] by (auto simp: writes_def log_err_def)
qed

text \<open>
  Second instance: the environment never changes, and the counter of names, the transaction
  and the error log only grow.
\<close>

definition same_env :: "world \<Rightarrow> world \<Rightarrow> bool" where
  "same_env w w' \<longleftrightarrow>
     gvars w' = gvars w \<and> guid_of w' = guid_of w \<and> now w' = now w \<and> date_str w' = date_str w \<and>
     parse_dt w' = parse_dt w \<and> parse_dec w' = parse_dec w \<and>
     stack_of w' = stack_of w \<and> stack_max w' = stack_max w \<and> nguid w \<le> nguid w' \<and>
     (\<exists>zs. queue w' = queue w @ zs) \<and> (\<exists>es. errs w' = errs w @ es)"

lemma same_env_trans: "same_env u v \<Longrightarrow> same_env v w \<Longrightarrow> same_env u w"
  by (auto simp: same_env_def)

interpretation env: host_rel_remove same_env
proof
  show "same_env w w" for w by (simp add: same_env_def)
  show "same_env u v \<Longrightarrow> same_env v w \<Longrightarrow> same_env u w" for u v w by (rule same_env_trans)
  show "uri i \<noteq> [] \<Longrightarrow> same_env w (add_item i w)" for i w
    by (simp add: same_env_def add_item_def)
  show "same_env w (next_guid w)" for w by (simp add: same_env_def next_guid_def)
  show "same_env w (log_err e w)" for w e by (simp add: same_env_def log_err_def)
  show "same_env w (do_remove u w)" for w u by (simp add: same_env_def do_remove_def)
qed

end
