(* ===== verification/Js_Json.thy ===== *)
theory Js_Json
  imports Js_Host
begin

text \<open>
  \<^verbatim>\<open>veda.Util.toJson\<close>, that is \<open>JSON.stringify (value, null, 2)\<close>, on the values the scripts
  print into trace journals: individuals, arrays of property values and work item results.
\<close>

section \<open>JSON text\<close>

datatype json =
    JNull
  | JRaw string
  | JText string
  | JArr "json list"
  | JObj "(string \<times> json) list"

definition hex_char :: "nat \<Rightarrow> char" where
  "hex_char d = (if d < 10 then char_of (48 + d) else char_of (87 + d))"

definition json_char :: "char \<Rightarrow> string" where
  "json_char c =
     (let n = of_char c :: nat in
      if n = 34 then [char_of (92::nat), char_of (34::nat)]
      else if n = 92 then [char_of (92::nat), char_of (92::nat)]
      else if n = 8 then char_of (92::nat) # ''b''
      else if n = 9 then char_of (92::nat) # ''t''
      else if n = 10 then char_of (92::nat) # ''n''
      else if n = 12 then char_of (92::nat) # ''f''
      else if n = 13 then char_of (92::nat) # ''r''
      else if n < 32 then char_of (92::nat) # ''u00'' @ [hex_char (n div 16), hex_char (n mod 16)]
      else [c])"

definition json_text :: "string \<Rightarrow> string" where
  "json_text s = char_of (34::nat) # concat (map json_char s) @ [char_of (34::nat)]"

definition nl :: string where
  "nl = [char_of (10::nat)]"

fun join :: "string \<Rightarrow> string list \<Rightarrow> string" where
  "join sep [] = []"
| "join sep [x] = x"
| "join sep (x # y # xs) = x @ sep @ join sep (y # xs)"

definition spaces :: "nat \<Rightarrow> string" where
  "spaces n = replicate n (CHR '' '')"

fun stringify :: "nat \<Rightarrow> json \<Rightarrow> string" where
  "stringify n JNull = ''null''"
| "stringify n (JRaw s) = s"
| "stringify n (JText s) = json_text s"
| "stringify n (JArr xs) =
     (if xs = [] then ''[]''
      else ''['' @ nl
           @ join ('','' @ nl) (map (\<lambda>x. spaces (n + 2) @ stringify (n + 2) x) xs)
           @ nl @ spaces n @ '']'')"
| "stringify n (JObj ps) =
     (if ps = [] then [CHR 0x7B, CHR 0x7D]
      else [CHR 0x7B] @ nl
           @ join ('','' @ nl)
               (map (\<lambda>(k, x). spaces (n + 2) @ json_text k @ '': '' @ stringify (n + 2) x) ps)
           @ nl @ spaces n @ [CHR 0x7D])"

section \<open>The text of a Date\<close>

text \<open>
  \<open>Date.prototype.toISOString\<close>, which \<open>JSON.stringify\<close> calls: the proleptic Gregorian date
  of the day number, counted from March so that the leap day is last.
\<close>

definition pad :: "nat \<Rightarrow> nat \<Rightarrow> string" where
  "pad k n = (let s = show_nat n in replicate (k - length s) (CHR ''0'') @ s)"

definition year_of_era :: "int \<Rightarrow> int" where
  "year_of_era doe = (doe - doe div 1460 + doe div 36524 - doe div 146096) div 365"

definition day_of_year :: "int \<Rightarrow> int \<Rightarrow> int" where
  "day_of_year yoe doe = doe - (365 * yoe + yoe div 4 - yoe div 100)"

definition month_day :: "int \<Rightarrow> int \<times> int" where
  "month_day doy =
     (if (5 * doy + 2) div 153 < 10 then (5 * doy + 2) div 153 + 3 else (5 * doy + 2) div 153 - 9,
      doy - (153 * ((5 * doy + 2) div 153) + 2) div 5 + 1)"

definition civil_of :: "int \<Rightarrow> int \<Rightarrow> int \<Rightarrow> int \<times> nat \<times> nat" where
  "civil_of era yoe doy =
     (yoe + era * 400 + (if fst (month_day doy) \<le> 2 then 1 else 0),
      nat (fst (month_day doy)), nat (snd (month_day doy)))"

definition civil_era :: "int \<Rightarrow> int \<Rightarrow> int \<times> nat \<times> nat" where
  "civil_era era doe = civil_of era (year_of_era doe) (day_of_year (year_of_era doe) doe)"

definition civil :: "int \<Rightarrow> int \<times> nat \<times> nat" where
  "civil days = civil_era ((days + 719468) div 146097) ((days + 719468) mod 146097)"

definition year_text :: "int \<Rightarrow> string" where
  "year_text y =
     (if 0 \<le> y \<and> y \<le> 9999 then pad 4 (nat y)
      else (if y < 0 then ''-'' else ''+'') @ pad 6 (nat \<bar>y\<bar>))"

definition clock_text :: "nat \<Rightarrow> string" where
  "clock_text t =
     pad 2 (t div 3600000) @ '':'' @ pad 2 (t div 60000 mod 60) @ '':''
     @ pad 2 (t div 1000 mod 60) @ ''.'' @ pad 3 (t mod 1000) @ ''Z''"

definition date_text :: "int \<times> nat \<times> nat \<Rightarrow> string" where
  "date_text p = year_text (fst p) @ ''-'' @ pad 2 (fst (snd p)) @ ''-'' @ pad 2 (snd (snd p))"

definition iso_date :: "int \<Rightarrow> string" where
  "iso_date ms = date_text (civil (ms div 86400000)) @ ''T'' @ clock_text (nat (ms mod 86400000))"

section \<open>Values and individuals\<close>

text \<open>\<open>None\<close> is \<open>undefined\<close>: a member of an object with that value is left out.\<close>

fun json_data :: "jdata \<Rightarrow> json option" where
  "json_data DUndef = None"
| "json_data (DStr s) = Some (JText s)"
| "json_data (DNum i) = Some (JRaw (show_int i))"
| "json_data (DDec m e) = Some (JRaw (dec_str m e))"
| "json_data DNaN = Some JNull"
| "json_data (DBool b) = Some (JRaw (if b then ''true'' else ''false''))"
| "json_data (DDate ms) = Some (JText (iso_date ms))"

definition members :: "(string \<times> json option) list \<Rightarrow> json" where
  "members ps = JObj (List.map_filter (\<lambda>(k, x). map_option (Pair k) x) ps)"

definition type_name :: "vtype \<Rightarrow> string" where
  "type_name t =
     (case t of TUri \<Rightarrow> ''Uri'' | TString \<Rightarrow> ''String'' | TInteger \<Rightarrow> ''Integer''
      | TDecimal \<Rightarrow> ''Decimal'' | TDatetime \<Rightarrow> ''Datetime'' | TBoolean \<Rightarrow> ''Boolean'')"

definition json_val :: "val \<Rightarrow> json" where
  "json_val v =
     members [(''lang'', map_option JText (vlang v)), (''data'', json_data (vdata v)),
              (''type'', Some (JText (type_name (vtype v))))]"

definition json_vals :: "val list \<Rightarrow> json" where
  "json_vals vs = JArr (map json_val vs)"

definition json_ind :: "individual \<Rightarrow> json" where
  "json_ind i = JObj ((''@'', JText (uri i)) # map (\<lambda>(k, vs). (k, json_vals vs)) (props i))"

definition toJson :: "json option \<Rightarrow> jdata" where
  "toJson x = (case x of None \<Rightarrow> DUndef | Some j \<Rightarrow> DStr (stringify 0 j))"

definition toJson_text :: "json option \<Rightarrow> string" where
  "toJson_text x = (case x of None \<Rightarrow> ''undefined'' | Some j \<Rightarrow> stringify 0 j)"

lemma iso_date_epoch: "iso_date 0 = ''1970-01-01T00:00:00.000Z''"
  by (simp add: iso_date_def civil_def civil_era_def civil_of_def year_of_era_def day_of_year_def
      month_day_def date_text_def clock_text_def year_text_def pad_def show_nat_eval)

lemma iso_date_leap: "iso_date 951782400123 = ''2000-02-29T00:00:00.123Z''"
  by (simp add: iso_date_def civil_def civil_era_def civil_of_def year_of_era_def day_of_year_def
      month_day_def date_text_def clock_text_def year_text_def pad_def show_nat_eval)

end
