(* ===== verification/Work_Result.thy ===== *)
theory Work_Result
  imports Js_Json
begin

text \<open>
  The objects that net scripts call: \<^verbatim>\<open>veda.Workflow.WorkItemResult\<close> (the collected results of
  the work orders of a work item), \<^verbatim>\<open>is_some_content_value\<close> and \<^verbatim>\<open>veda.Workflow.Context\<close> (the
  variables of a process, a work item or a work order), of \<^verbatim>\<open>docflow-util.js\<close>.
\<close>

section \<open>Work item results\<close>

text \<open>
  One element per work order: the URI of the order under \<^verbatim>\<open>workOrder\<close> and the value of every
  result variable under its name. \<open>RUndef\<close> is a name set to \<open>undefined\<close>.
\<close>

datatype rdata = RText string | RUndef | RVals "val list"

type_synonym result_obj = "rdata obj"

text \<open>
  \<open>el [name]\<close> where the code goes on to use an array of values: \<open>None\<close> is falsy, a text has
  characters instead of values and compares equal to no value.
\<close>

definition el_vals :: "result_obj \<Rightarrow> string \<Rightarrow> val list option" where
  "el_vals el name =
     (case oget el name of Some (RVals vs) \<Rightarrow> Some vs | _ \<Rightarrow> None)"

definition rdata_truthy :: "rdata option \<Rightarrow> bool" where
  "rdata_truthy r =
     (case r of None \<Rightarrow> False | Some RUndef \<Rightarrow> False | Some (RText s) \<Rightarrow> s \<noteq> []
      | Some (RVals vs) \<Rightarrow> True)"

text \<open>\<open>a.data == b.data && a.type == b.type\<close>\<close>

definition same_value :: "val \<Rightarrow> val \<Rightarrow> bool" where
  "same_value a b \<longleftrightarrow> loose_eq (vdata a) (vdata b) \<and> vtype a = vtype b"

definition wir_getValue :: "result_obj list \<Rightarrow> string \<Rightarrow> rdata option" where
  "wir_getValue rs var_name = (case rs of [] \<Rightarrow> None | el # _ \<Rightarrow> oget el var_name)"

text \<open>
  The two inner loops of \<open>compare\<close>: \<open>true_count\<close> is never reset, neither for the next value
  of \<open>wirv\<close> nor for the next element. \<open>None\<close> is the early \<open>return true\<close>.
\<close>

fun compare_vals :: "val list \<Rightarrow> val list \<Rightarrow> nat \<Rightarrow> nat option" where
  "compare_vals value_list [] true_count = Some true_count"
| "compare_vals value_list (x # xs) true_count =
     (let n = true_count + length (filter (same_value x) value_list)
      in if n = length value_list then None else compare_vals value_list xs n)"

fun compare_els :: "string \<Rightarrow> val list \<Rightarrow> result_obj list \<Rightarrow> nat \<Rightarrow> bool" where
  "compare_els var_name value_list [] true_count = False"
| "compare_els var_name value_list (el # els) true_count =
     (case el_vals el var_name of
        None \<Rightarrow> compare_els var_name value_list els true_count
      | Some wirv \<Rightarrow>
          if length wirv = length value_list
          then (case compare_vals value_list wirv true_count of
                  None \<Rightarrow> True
                | Some n \<Rightarrow> compare_els var_name value_list els n)
          else compare_els var_name value_list els true_count)"

definition wir_compare :: "result_obj list \<Rightarrow> string \<Rightarrow> val list \<Rightarrow> bool" where
  "wir_compare rs var_name value_list =
     (if value_list = [] then False
      else if rs = [] then False
      else compare_els var_name value_list rs 0)"

definition wir_is_exists_result :: "result_obj list \<Rightarrow> bool" where
  "wir_is_exists_result rs = list_ex (\<lambda>el. rdata_truthy (oget el ''result'')) rs"

definition took_decision :: "string \<Rightarrow> val list \<Rightarrow> result_obj \<Rightarrow> bool" where
  "took_decision var_name value_list el =
     (case el_vals el var_name of
        Some (v # _) \<Rightarrow> value_list \<noteq> [] \<and> same_value v (hd value_list)
      | _ \<Rightarrow> False)"

definition wir_all_taken_decision :: "result_obj list \<Rightarrow> string \<Rightarrow> val list \<Rightarrow> bool" where
  "wir_all_taken_decision rs var_name value_list =
     (if value_list = [] then False
      else foldl (\<lambda>n el. if took_decision var_name value_list el then Suc n else n) 0 rs
           = length rs)"

fun some_taken :: "string \<Rightarrow> val list \<Rightarrow> result_obj list \<Rightarrow> bool" where
  "some_taken var_name value_list [] = False"
| "some_taken var_name value_list (el # els) =
     (if took_decision var_name value_list el then True else some_taken var_name value_list els)"

definition wir_some_taken_decision :: "result_obj list \<Rightarrow> string \<Rightarrow> val list \<Rightarrow> bool" where
  "wir_some_taken_decision rs var_name value_list =
     (if value_list = [] then False else some_taken var_name value_list rs)"

fun is_some_content_value :: "val list \<Rightarrow> val list \<Rightarrow> bool" where
  "is_some_content_value [] b = False"
| "is_some_content_value (x # xs) b =
     (if list_ex (same_value x) b then True else is_some_content_value xs b)"

section \<open>Contexts\<close>

text \<open>
  \<open>getVariableValueIO\<close>: the value of the first variable of the list with the name. \<open>None\<close>
  is \<open>undefined\<close>; a found variable without a value also gives \<open>undefined\<close>. The code
  raises no exception here, so the \<open>catch\<close> with its result \<open>false\<close> is not reached.
\<close>

fun find_variable :: "world \<Rightarrow> jdata \<Rightarrow> val list \<Rightarrow> individual option" where
  "find_variable w var_name [] = None"
| "find_variable w var_name (v # vs) =
     (case lookup w (vdata v) of
        None \<Rightarrow> find_variable w var_name vs
      | Some variable \<Rightarrow>
          if loose_eq (getFirstValue (pget variable ''v-wf:variableName'')) var_name
          then Some variable else find_variable w var_name vs)"

definition getVariableValueIO :: "world \<Rightarrow> individual \<Rightarrow> jdata \<Rightarrow> string \<Rightarrow> val list option" where
  "getVariableValueIO w src_data var_name io =
     (case pget src_data io of
        None \<Rightarrow> None
      | Some variables \<Rightarrow>
          (case find_variable w var_name variables of
             None \<Rightarrow> None | Some variable \<Rightarrow> pget variable ''v-wf:variableValue''))"

definition getInputVariable :: "world \<Rightarrow> individual \<Rightarrow> jdata \<Rightarrow> val list option" where
  "getInputVariable w src_data var_name = getVariableValueIO w src_data var_name ''v-wf:inVars''"

definition getLocalVariable :: "world \<Rightarrow> individual \<Rightarrow> jdata \<Rightarrow> val list option" where
  "getLocalVariable w src_data var_name =
     getVariableValueIO w src_data var_name ''v-wf:localVars''"

definition getOutVariable :: "world \<Rightarrow> individual \<Rightarrow> jdata \<Rightarrow> val list option" where
  "getOutVariable w src_data var_name = getVariableValueIO w src_data var_name ''v-wf:outVars''"

definition getDecisionForms :: "individual \<Rightarrow> val list option" where
  "getDecisionForms src_data = pget src_data ''v-wf:decisionFormList''"

definition getExecutor :: "individual \<Rightarrow> val list option" where
  "getExecutor src_data = pget src_data ''v-wf:executor''"

definition getLabel :: "individual \<Rightarrow> val list option" where
  "getLabel src_data = pget src_data ''rdfs:label''"

text \<open>
  The two methods of a context over an array of plain results, \<^verbatim>\<open>{result: ...}\<close>.
\<close>

definition if_all_executors_taken_decision ::
  "jdata obj list \<Rightarrow> jdata \<Rightarrow> jdata \<Rightarrow> val list" where
  "if_all_executors_taken_decision src_data true_decision false_decision =
     (let result = (\<lambda>o1. case oget o1 ''result'' of None \<Rightarrow> DUndef | Some d \<Rightarrow> d);
          count_agreed =
            foldl (\<lambda>n o1. if loose_eq (result o1) true_decision then Suc n else n) 0 src_data
      in if count_agreed = length src_data then [mkv TUri true_decision]
         else [mkv TUri false_decision])"

text \<open>\<open>undefined\<close> on no results is \<open>None\<close>, \<open>null\<close> is \<open>Some []\<close> (both carry no value).\<close>

definition get_result_value :: "jdata obj list \<Rightarrow> string \<Rightarrow> vtype \<Rightarrow> val list option" where
  "get_result_value src_data field1 type1 =
     (case src_data of
        [] \<Rightarrow> None
      | o1 # _ \<Rightarrow>
          (case oget o1 field1 of
             None \<Rightarrow> Some []
           | Some rr \<Rightarrow> if truthy rr then Some [mkv type1 rr] else Some []))"

section \<open>Facts about the counting loops\<close>

lemma count_foldl:
  "foldl (\<lambda>n x. if P x then Suc n else n) k xs = k + length (filter P xs)"
  by (induction xs arbitrary: k) auto

lemma count_all_iff: "foldl (\<lambda>n x. if P x then Suc n else n) 0 xs = length xs \<longleftrightarrow> list_all P xs"
proof -
  have "length (filter P xs) = length xs \<longleftrightarrow> list_all P xs"
    by (induction xs) (auto simp: le_imp_less_Suc less_imp_neq)
  then show ?thesis by (simp add: count_foldl)
qed

lemma some_taken_iff: "some_taken n v els \<longleftrightarrow> (\<exists>el \<in> set els. took_decision n v el)"
  by (induction els) auto

lemma some_content_iff:
  "is_some_content_value a b \<longleftrightarrow> (\<exists>x \<in> set a. \<exists>y \<in> set b. same_value x y)"
  by (induction a) (auto simp: list_ex_iff)

text \<open>For a single value the count is 0 until the first match, so \<open>compare\<close> is exact.\<close>

lemma compare_vals_single:
  "compare_vals [v] xs 0 = (if \<exists>x \<in> set xs. same_value x v then None else Some 0)"
  by (induction xs) auto

lemma compare_els_single:
  "compare_els n [v] els 0 \<longleftrightarrow> (\<exists>el \<in> set els. \<exists>x. el_vals el n = Some [x] \<and> same_value x v)"
  by (induction els) (auto simp: compare_vals_single length_Suc_conv split: option.splits)

lemma find_variable_Some:
  "find_variable w n vs = Some i \<Longrightarrow>
   \<exists>v \<in> set vs. lookup w (vdata v) = Some i \<and>
     loose_eq (getFirstValue (pget i ''v-wf:variableName'')) n"
  by (induction vs) (auto split: option.splits if_splits)

end
