(* ===== verification/Journal.thy ===== *)
theory Journal
  imports Js_Json
begin

text \<open>
  Journals: the functions \<^verbatim>\<open>getJournalUri\<close>, \<^verbatim>\<open>newJournalRecord\<close>, \<^verbatim>\<open>logToJournal\<close>,
  \<^verbatim>\<open>traceToJournal\<close>, \<^verbatim>\<open>set_err_on_indv\<close> and \<^verbatim>\<open>set_field_to_document\<close> of
  \<^verbatim>\<open>public/js/server/util.js\<close>, \<^verbatim>\<open>addRight\<close> of \<^verbatim>\<open>public/js/common/util.js\<close> and
  the journal tree of \<^verbatim>\<open>docflow-util.js\<close> (\<^verbatim>\<open>create_new_journal\<close>,
  \<^verbatim>\<open>_create_new_subjournal\<close>, \<^verbatim>\<open>remove_empty_branches_from_journal\<close>).
\<close>

section \<open>Literals of the code\<close>

abbreviation uriv :: "string \<Rightarrow> val list" where
  "uriv s \<equiv> newUri (DStr s)"

abbreviation strv :: "string \<Rightarrow> val list" where
  "strv s \<equiv> [mkv TString (DStr s)]"

abbreviation boolv :: "bool \<Rightarrow> val list" where
  "boolv b \<equiv> newBool (DBool b)"

section \<open>Records and traces (server/util.js)\<close>

definition getJournalUri :: "string \<Rightarrow> string" where
  "getJournalUri object_uri = object_uri @ ''j''"

definition getTraceJournalUri :: "string \<Rightarrow> string" where
  "getTraceJournalUri object_uri = object_uri @ ''t''"

definition newJournalRecord :: "string \<Rightarrow> individual js" where
  "newJournalRecord journal_uri = (js_bind (genUri) (\<lambda>u.
     js_bind (new_Date) (\<lambda>d.
     js_ret \<lparr>uri = u @ ''-jr'',
             props = [(''rdf:type'', uriv ''v-s:JournalRecord''),
                      (''v-s:parentJournal'', uriv journal_uri),
                      (''v-s:created'', newDate d)]\<rparr>)))"

definition logToJournal :: "string \<Rightarrow> individual \<Rightarrow> unit js" where
  "logToJournal journal_uri journal_record = (js_seq (put_individual journal_record) (
     add_to_individual \<lparr>uri = journal_uri,
                        props = [(''v-s:childRecord'', uriv (uri journal_record))]\<rparr>))"

definition traceToJournal :: "string \<Rightarrow> string \<Rightarrow> jdata \<Rightarrow> unit js" where
  "traceToJournal journal_uri label data = (js_bind (newJournalRecord journal_uri) (\<lambda>r.
     logToJournal journal_uri
       (set_prop ''rdfs:comment'' [mkv TString data]
         (set_prop ''rdfs:label'' (strv label)
           (set_prop ''rdf:type'' (uriv ''v-wf:TraceRecord'') r)))))"

text \<open>\<open>if (trace_journal_uri) traceToJournal (...)\<close>\<close>

definition trace_if :: "string option \<Rightarrow> string \<Rightarrow> jdata \<Rightarrow> unit js" where
  "trace_if tj label data =
     (case tj of None \<Rightarrow> js_ret () | Some j \<Rightarrow> js_when (j \<noteq> []) (traceToJournal j label data))"

definition set_err_on_indv :: "string \<Rightarrow> individual \<Rightarrow> string \<Rightarrow> unit js" where
  "set_err_on_indv msg indv src = (js_bind (genUri) (\<lambda>u.
     js_bind (new_Date) (\<lambda>d.
     let bug = u @ ''-err'' in
     js_seq (put_individual
       \<lparr>uri = bug,
        props = [(''rdf:type'', uriv ''v-s:BugReport''), (''v-s:created'', newDate d),
                 (''rdfs:comment'', newStr (DStr src) None),
                 (''v-s:errorMessage'', newStr (DStr msg) None),
                 (''v-s:resource'', uriv (uri indv))]\<rparr>) (
     add_to_individual \<lparr>uri = uri indv, props = [(''v-s:hasError'', uriv bug)]\<rparr>))))"

definition set_field_to_document :: "string \<Rightarrow> val list \<Rightarrow> string \<Rightarrow> unit js" where
  "set_field_to_document field_name new_value doc_id =
     set_in_individual \<lparr>uri = doc_id, props = [(field_name, new_value)]\<rparr>"

section \<open>Permission statements (common/util.js)\<close>

definition set_rights :: "bool \<Rightarrow> string list \<Rightarrow> individual \<Rightarrow> individual" where
  "set_rights b rights i = fold (\<lambda>r. set_prop r (boolv b)) rights i"

definition permission_of :: "string \<Rightarrow> jdata \<Rightarrow> jdata \<Rightarrow> string list \<Rightarrow> string list \<Rightarrow> individual" where
  "permission_of u subj_uri obj_uri allow deny =
     set_rights False deny
       (set_rights True allow
         \<lparr>uri = u,
          props = [(''rdf:type'', uriv ''v-s:PermissionStatement''),
                   (''v-s:permissionObject'', newUri obj_uri),
                   (''v-s:permissionSubject'', newUri subj_uri)]\<rparr>)"

definition addRight :: "jdata \<Rightarrow> jdata \<Rightarrow> string list \<Rightarrow> string list \<Rightarrow> unit js" where
  "addRight subj_uri obj_uri allow deny =
     (if subj_uri = DUndef \<or> obj_uri = DUndef then js_ret ()
      else (js_bind (genUri) (\<lambda>u.
        put_individual (permission_of (u @ ''-r'') subj_uri obj_uri allow deny))))"

section \<open>The tree of journals (docflow-util.js)\<close>

text \<open>
  The argument \<open>label\<close> is \<open>undefined\<close>, a text or an array of values. A text stored as a property
  is not an array of values, so the host drops it: it is carried as an empty array.
\<close>

datatype jlabel = LNone | LText string | LVals "val list"

definition label_of :: "val list option \<Rightarrow> jlabel" where
  "label_of pv = (case pv of None \<Rightarrow> LNone | Some vs \<Rightarrow> LVals vs)"

fun label_given :: "jlabel \<Rightarrow> bool" where
  "label_given LNone = False"
| "label_given (LText s) = (s \<noteq> [])"
| "label_given (LVals vs) = True"

fun label_raw :: "jlabel \<Rightarrow> val list" where
  "label_raw (LVals vs) = vs"
| "label_raw _ = []"

fun label_vals :: "jlabel \<Rightarrow> val list" where
  "label_vals (LVals vs) = vs"
| "label_vals (LText s) = strv s"
| "label_vals LNone = []"

definition new_journal_body :: "string \<Rightarrow> jdata \<Rightarrow> string option \<Rightarrow> jlabel \<Rightarrow> bool \<Rightarrow> individual" where
  "new_journal_body u d parent label is_trace =
     (let j0 = \<lparr>uri = u, props = [(''rdf:type'', uriv ''v-s:Journal''), (''v-s:created'', newDate d)]\<rparr>;
          j1 = (case parent of None \<Rightarrow> j0 | Some p \<Rightarrow> set_prop ''v-s:parentJournal'' (uriv p) j0);
          j2 = (if label_given label then set_prop ''rdfs:label'' (label_raw label) j1 else j1)
      in if is_trace then set_prop ''v-wf:isTrace'' (boolv True) j2 else j2)"

text \<open>
  The recursion is one level deep: the parent is created without a parent of its own. The date
  is taken before the parent is created.
\<close>

function create_new_journal :: "string \<Rightarrow> string option \<Rightarrow> jlabel \<Rightarrow> bool \<Rightarrow> string js" where
  "create_new_journal new_journal_uri None label is_trace = (js_bind (get_individual (DStr new_journal_uri)) (\<lambda>exists_journal.
     js_seq (js_when (exists_journal = None) (js_bind (new_Date) (\<lambda>d.
       put_individual (new_journal_body new_journal_uri d None label is_trace)))) (
     js_ret new_journal_uri)))"
| "create_new_journal new_journal_uri (Some parent_journal_uri) label is_trace = (js_bind (get_individual (DStr new_journal_uri)) (\<lambda>exists_journal.
     js_seq (js_when (exists_journal = None) (js_bind (new_Date) (\<lambda>d.
       js_seq (create_new_journal parent_journal_uri None (LText []) is_trace) (
       put_individual
         (new_journal_body new_journal_uri d (Some parent_journal_uri) label is_trace))))) (
     js_ret new_journal_uri)))"
  by pat_completeness auto

termination
  by (relation "measure (\<lambda>(u, p, l, t). case p of None \<Rightarrow> 0 | Some q \<Rightarrow> 1)") auto

definition create_new_subjournal_any :: "bool \<Rightarrow> string \<Rightarrow> string \<Rightarrow> jlabel \<Rightarrow> string \<Rightarrow> string js" where
  "create_new_subjournal_any is_trace parent_uri el_uri label jtype =
     (let new_sub_journal_uri = (if is_trace then getTraceJournalUri el_uri else getJournalUri el_uri);
          parent_journal_uri = (if is_trace then getTraceJournalUri parent_uri else getJournalUri parent_uri)
      in (js_bind (get_individual (DStr new_sub_journal_uri)) (\<lambda>cj.
        (case cj of
           Some x \<Rightarrow> js_ret new_sub_journal_uri
         | None \<Rightarrow> (js_seq (create_new_journal new_sub_journal_uri (Some parent_journal_uri) label is_trace) (
             js_bind (newJournalRecord parent_journal_uri) (\<lambda>r.
             let r1 = set_prop ''rdf:type'' (uriv jtype) r in
             let r2 = (if label_given label then set_prop ''rdfs:label'' (label_vals label) r1 else r1) in
             let r3 = set_prop ''v-s:subJournal'' (uriv new_sub_journal_uri) r2 in
             js_seq (logToJournal parent_journal_uri r3) (
             js_seq (put_individual r3) (
             js_ret new_sub_journal_uri)))))))))"

definition create_new_subjournal :: "string \<Rightarrow> string \<Rightarrow> jlabel \<Rightarrow> string \<Rightarrow> string js" where
  "create_new_subjournal parent_uri el_uri label jtype =
     create_new_subjournal_any False parent_uri el_uri label jtype"

definition create_new_trace_subjournal ::
  "string \<Rightarrow> individual \<Rightarrow> jlabel \<Rightarrow> string \<Rightarrow> string option js" where
  "create_new_trace_subjournal parent_uri net_element_impl label jtype =
     (let isTrace = pget net_element_impl ''v-wf:isTrace''
      in if isTrace = None \<or> loose_eq (getFirstValue isTrace) (DBool False) then js_ret None
         else (js_bind (create_new_subjournal_any True parent_uri (uri net_element_impl) label jtype) (\<lambda>j.
           js_bind (new_Date) (\<lambda>d.
           js_seq (add_to_individual
             \<lparr>uri = uri net_element_impl,
              props = [(''v-wf:traceJournal'', uriv j), (''v-s:created'', newDate d)]\<rparr>) (
           js_ret (Some j))))))"

definition get_trace_journal :: "individual \<Rightarrow> individual \<Rightarrow> string option" where
  "get_trace_journal document process =
     (let isTrace = pget document ''v-wf:isTrace''
      in if isTrace \<noteq> None \<and> loose_eq (getFirstValue isTrace) (DBool True)
         then Some (getTraceJournalUri (uri process)) else None)"

definition remove_child_record :: "string \<Rightarrow> string \<Rightarrow> unit \<Rightarrow> val \<Rightarrow> (unit \<times> bool) js" where
  "remove_child_record journal_uri parent_uri a record = (js_bind (get_individual (vdata record)) (\<lambda>chr.
     (case chr of
        None \<Rightarrow> js_ret ((), True)
      | Some c \<Rightarrow>
          if loose_eq (getUri (pget c ''v-s:subJournal'')) (DStr journal_uri)
          then (js_seq (remove_from_individual
              \<lparr>uri = parent_uri, props = [(''v-s:childRecord'', newUri (vdata record))]\<rparr>) (
            js_ret ((), False)))
          else js_ret ((), True))))"

definition remove_empty_branches_from_journal :: "string \<Rightarrow> unit js" where
  "remove_empty_branches_from_journal journal_uri = (js_bind (get_individual (DStr journal_uri)) (\<lambda>jrn.
     (case jrn of
        None \<Rightarrow> js_ret ()
      | Some j \<Rightarrow>
          if pget j ''v-s:childRecord'' \<noteq> None then js_ret ()
          else if \<not> truthy (getUri (pget j ''v-s:parentJournal'')) then js_ret ()
          else (js_bind (get_individual (getUri (pget j ''v-s:parentJournal''))) (\<lambda>op.
            js_bind (js_some op) (\<lambda>parent_jrn.
            js_bind (to_str (getUri (pget j ''v-s:parentJournal''))) (\<lambda>pu.
            (case pget parent_jrn ''v-s:childRecord'' of
               None \<Rightarrow> js_ret ()
             | Some child_records \<Rightarrow>
                 js_fold_break (remove_child_record journal_uri pu) () child_records))))))))"

section \<open>Every journal operation writes by puts only\<close>

context host_rel
begin

lemma journal_frame [js_frame]:
  "keeps R (newJournalRecord ju)" "keeps R (logToJournal ju r)" "keeps R (traceToJournal ju l d)"
  "keeps R (trace_if tj l d)" "keeps R (set_err_on_indv m i s)"
  "keeps R (set_field_to_document f vs u)" "keeps R (addRight su ou al de)"
proof -
  show 1: "keeps R (newJournalRecord ju)" for ju
    unfolding newJournalRecord_def by (intro js_frame)
  show 2: "keeps R (logToJournal ju r)" for ju r
    unfolding logToJournal_def by (intro js_frame)
  show 3: "keeps R (traceToJournal ju l d)" for ju l d
    unfolding traceToJournal_def by (intro js_frame 1 2)
  show "keeps R (trace_if tj l d)"
    unfolding trace_if_def by (intro js_frame 3)
  show "keeps R (set_err_on_indv m i s)"
    unfolding set_err_on_indv_def by (intro js_frame)
  show "keeps R (set_field_to_document f vs u)"
    unfolding set_field_to_document_def by (intro js_frame)
  show "keeps R (addRight su ou al de)"
    unfolding addRight_def by (intro js_frame)
qed

lemma create_new_journal_frame [js_frame]: "keeps R (create_new_journal u p l t)"
proof -
  have 1: "keeps R (create_new_journal u None l t)" for u l t
    by (simp only: create_new_journal.simps) (intro js_frame)
  show ?thesis
  proof (cases p)
    case None
    then show ?thesis using 1 by simp
  next
    case (Some q)
    then show ?thesis
      by (simp only: create_new_journal.simps) (intro js_frame 1)
  qed
qed

lemma subjournal_frame_ [js_frame]: "keeps R (create_new_subjournal_any b pu eu l jt)"
  unfolding create_new_subjournal_any_def by (intro js_frame)

lemma subjournal_frame [js_frame]: "keeps R (create_new_subjournal pu eu l jt)"
  unfolding create_new_subjournal_def by (intro js_frame)

lemma trace_subjournal_frame [js_frame]: "keeps R (create_new_trace_subjournal pu i l jt)"
  unfolding create_new_trace_subjournal_def by (intro js_frame)

lemma remove_empty_branches_frame [js_frame]: "keeps R (remove_empty_branches_from_journal u)"
  unfolding remove_empty_branches_from_journal_def remove_child_record_def by (intro js_frame)

end

end
