(* ===== verification/Variables.thy ===== *)
theory Variables
  imports Work_Result Journal
begin

text \<open>
  Variables of a process: \<^verbatim>\<open>get_new_variable\<close>, \<^verbatim>\<open>store_items_and_set_minimal_rights\<close>,
  \<^verbatim>\<open>generate_variable\<close>, \<^verbatim>\<open>create_and_mapping_variables\<close>, \<^verbatim>\<open>mapToJournal\<close> and the search
  of the work item tree, of \<^verbatim>\<open>docflow-util.js\<close>. The expressions that \<open>eval\<close> runs are data
  of the ontology, so \<open>eval\<close> is a parameter.
\<close>

section \<open>Scripts\<close>

text \<open>
  What \<open>eval\<close> can return: a primitive (\<open>undefined\<close> and \<open>null\<close> are \<open>SPrim DUndef\<close>), an array
  of values or an array of individuals. The scope holds the objects that the code binds to
  \<open>process\<close>, \<open>task\<close>, \<open>order\<close> and \<open>task_result\<close> before it calls \<open>eval\<close>.
\<close>

datatype sres = SPrim jdata | SVals "val list" | SInds "individual list"

record scope =
  sc_process :: "individual option"
  sc_task :: "individual option"
  sc_order :: "individual option"
  sc_result :: "result_obj list option"

type_synonym script_eval = "string \<Rightarrow> scope \<Rightarrow> sres js"

text \<open>\<open>eval\<close> of something that is not a text returns it.\<close>

definition eval_js :: "script_eval \<Rightarrow> jdata \<Rightarrow> scope \<Rightarrow> sres js" where
  "eval_js ev expression sc =
     (case expression of DStr s \<Rightarrow> ev s sc | d \<Rightarrow> js_ret (SPrim d))"

fun sres_truthy :: "sres \<Rightarrow> bool" where
  "sres_truthy (SPrim d) = truthy d"
| "sres_truthy _ = True"

text \<open>
  A result stored as the value of a property: the storage keeps the values of an array and
  nothing of a primitive or of an object without \<open>data\<close> and \<open>type\<close>.
\<close>

fun sres_vals :: "sres \<Rightarrow> val list" where
  "sres_vals (SVals vs) = vs"
| "sres_vals _ = []"

fun json_sres :: "sres \<Rightarrow> json option" where
  "json_sres (SPrim d) = json_data d"
| "json_sres (SVals vs) = Some (json_vals vs)"
| "json_sres (SInds is) = Some (JArr (map json_ind is))"

section \<open>New variables\<close>

definition get_new_variable :: "jdata \<Rightarrow> val list option \<Rightarrow> individual js" where
  "get_new_variable variable_name var_value = (js_bind (genUri) (\<lambda>u.
     js_bind (new_Date) (\<lambda>d.
     let v = \<lparr>uri = u @ ''-var'',
              props = [(''rdf:type'', uriv ''v-wf:Variable''),
                       (''v-wf:variableName'', [mkv TString variable_name]),
                       (''v-s:created'', newDate d)]\<rparr> in
     js_ret (case var_value of None \<Rightarrow> v | Some vs \<Rightarrow> set_prop ''v-wf:variableValue'' vs v))))"

definition stamp_item :: "jdata \<Rightarrow> individual \<Rightarrow> individual" where
  "stamp_item d i =
     (let i1 = (if pget i ''v-s:created'' = None then set_prop ''v-s:created'' (newDate d) i
                else set_prop ''v-s:edited'' (newDate d) i)
      in if pget i1 ''v-s:creator'' = None
         then set_prop ''v-s:creator'' (uriv ''cfg:VedaSystem'') i1 else i1)"

text \<open>\<open>data\<close> is \<open>undefined\<close> when a transformation has no rules: the TypeError is caught.\<close>

definition store_items_and_set_minimal_rights ::
  "individual list option \<Rightarrow> val list option js" where
  "store_items_and_set_minimal_rights data =
     js_catch (js_bind (js_some data) (\<lambda>items.
       js_bind (js_fold (\<lambda>ids i. (js_bind (new_Date) (\<lambda>d.
           js_seq (put_individual (stamp_item d i)) (
           js_seq (addRight (DStr ''v-wf:WorkflowReadUser'') (DStr (uri i)) [''v-s:canRead''] []) (
           js_ret (ids @ uriv (uri i))))))) [] items) (\<lambda>ids.
       js_ret (Some ids)))) (js_ret None)"

section \<open>Generating a variable\<close>

text \<open>The local variable of the process with the name, if there is one.\<close>

fun find_local :: "world \<Rightarrow> jdata \<Rightarrow> val list \<Rightarrow> individual option" where
  "find_local w name [] = None"
| "find_local w name (v # vs) =
     (case lookup w (vdata v) of
        None \<Rightarrow> find_local w name vs
      | Some local_var \<Rightarrow>
          (let var_name = getFirstValue (pget local_var ''v-wf:variableName'')
           in if truthy var_name \<and> loose_eq var_name name then Some local_var
              else find_local w name vs))"

text \<open>
  A variable of scope \<^verbatim>\<open>v-wf:Net\<close> is also written through to the process: into the local
  variable of that name, or as a new local variable. The process object of the caller is
  changed in place, so it is part of the result.
\<close>

definition write_local ::
  "jdata \<Rightarrow> val list option \<Rightarrow> individual \<Rightarrow> individual js" where
  "write_local variable_name var_value process = (let local_vars = (case pget process ''v-wf:localVars'' of None \<Rightarrow> [] | Some vs \<Rightarrow> vs) in
     js_bind (js_ask (\<lambda>w. find_local w variable_name local_vars)) (\<lambda>found.
     (case found of
        Some local_var \<Rightarrow> (js_seq (put_individual
            (set_prop ''v-wf:variableValue'' (case var_value of None \<Rightarrow> [] | Some vs \<Rightarrow> vs) local_var)) (
          js_ret process))
      | None \<Rightarrow> (js_bind (get_new_variable variable_name var_value) (\<lambda>new_local.
          js_seq (put_individual new_local) (
          js_seq (add_to_individual
            \<lparr>uri = uri process, props = [(''v-wf:localVars'', uriv (uri new_local))]\<rparr>) (
          js_ret (set_prop ''v-wf:localVars'' (local_vars @ uriv (uri new_local)) process))))))))"

definition generate_variable ::
  "individual \<Rightarrow> val list option \<Rightarrow> individual \<Rightarrow> (individual \<times> individual) js" where
  "generate_variable def_variable var_value process = (let variable_name = getFirstValue (pget def_variable ''v-wf:varDefineName'') in
     js_bind (get_new_variable variable_name var_value) (\<lambda>new_variable.
     let variable_scope = getUri (pget def_variable ''v-wf:varDefineScope'') in
     (if loose_eq variable_scope (DStr ''v-wf:Net'') \<and> uri process \<noteq> []
      then (js_bind (write_local variable_name var_value process) (\<lambda>process'.
        js_ret (set_prop ''v-wf:variableScope'' (uriv (uri process)) new_variable, process')))
      else js_ret (new_variable, process))))"

section \<open>Mapping of variables\<close>

text \<open>The state of the loop: the new variables, those to trace, and the process.\<close>

type_synonym map_state = "individual list \<times> individual list \<times> individual"

definition map_one ::
  "script_eval \<Rightarrow> scope \<Rightarrow> bool \<Rightarrow> string option \<Rightarrow> jdata \<Rightarrow> jdata \<Rightarrow> map_state \<Rightarrow> map_state js" where
  "map_one ev sc f_store tj expression to_var st =
     (case st of (new_vars, trace_info, process) \<Rightarrow> (js_bind (eval_js ev expression (sc\<lparr>sc_process := Some process\<rparr>)) (\<lambda>res1.
        (if \<not> sres_truthy res1 then js_ret st
         else if \<not> truthy to_var then js_ret st
         else (js_bind (get_individual to_var) (\<lambda>def_variable.
           (case def_variable of
              None \<Rightarrow> js_ret st
            | Some dv \<Rightarrow> (js_bind (generate_variable dv (Some (sres_vals res1)) process) (\<lambda>(new_variable, process').
                js_seq (js_when f_store (put_individual new_variable)) (
                js_ret (new_vars @ [new_variable],
                        (if f_store \<and> tj \<noteq> None then trace_info @ [new_variable] else trace_info),
                        process')))))))))))"

definition map_step ::
  "script_eval \<Rightarrow> scope \<Rightarrow> bool \<Rightarrow> string option \<Rightarrow> map_state \<Rightarrow> val \<Rightarrow> map_state js" where
  "map_step ev sc f_store tj st m = (js_bind (get_individual (vdata m)) (\<lambda>om.
     (case om of
        Some mp \<Rightarrow>
          (let expression = getFirstValue (pget mp ''v-wf:mappingExpression'')
           in if \<not> truthy expression then js_ret st
              else js_handle
                (map_one ev sc f_store tj expression (getUri (pget mp ''v-wf:mapToVariable'')) st)
                (\<lambda>e. (js_bind (to_str expression) (\<lambda>s.
                  js_bind (js_ask (\<lambda>w. stack_of w e)) (\<lambda>stk.
                  js_seq (trace_if tj ''create_and_mapping_variables''
                    (DStr (''err: expression: '' @ s @ nl @ stk))) (
                  js_ret st))))))
      | None \<Rightarrow> (js_bind (to_str (vdata m)) (\<lambda>s.
          js_seq (trace_if tj ''create_and_mapping_variables'' (DStr (''map not found :'' @ s))) (
          js_ret st))))))"

definition uris_text :: "val list \<Rightarrow> string js" where
  "uris_text vs = js_ask (\<lambda>w. join '','' (map (\<lambda>v. case vdata v of DUndef \<Rightarrow> [] | d \<Rightarrow> js_str (date_str w) d) vs))"

text \<open>
  The result is the list of new variables; with \<open>f_store\<close> the code returns their URIs, which
  is \<open>var_refs\<close> of the list. The second result is the changed process object.
\<close>

definition var_refs :: "individual list \<Rightarrow> val list" where
  "var_refs vars = map (\<lambda>v. mkv TUri (DStr (uri v))) vars"

definition create_and_mapping_variables ::
  "script_eval \<Rightarrow> val list option \<Rightarrow> individual \<Rightarrow> individual option \<Rightarrow> individual option \<Rightarrow>
   result_obj list option \<Rightarrow> bool \<Rightarrow> string option \<Rightarrow> string \<Rightarrow> (individual list \<times> individual) js" where
  "create_and_mapping_variables ev mapping process task order task_result f_store tj trace_comment =
     (case mapping of
        None \<Rightarrow> js_ret ([], process)
      | Some ms \<Rightarrow> (let sc = \<lparr>sc_process = Some process, sc_task = task, sc_order = order,
                    sc_result = task_result\<rparr> in
          js_bind (js_fold (map_step ev sc f_store tj) ([], [], process) ms) (\<lambda>(new_vars, trace_info, process').
          js_bind (uris_text ms) (\<lambda>s.
          js_seq (trace_if tj ''create_and_mapping_variables''
            (DStr (trace_comment @ '' = '' @ [CHR 0x27] @ s @ [CHR 0x27] @ '' '' @ nl @ nl @ ''out = '' @ nl
                   @ toJson_text (Some (JArr (map json_ind trace_info)))))) (
          js_ret (new_vars, process'))))))"

section \<open>Mapping into a journal record\<close>

definition set_named :: "individual \<Rightarrow> individual \<Rightarrow> individual js" where
  "set_named rec jvar = (js_bind (to_str (getFirstValue (pget jvar ''v-wf:variableName''))) (\<lambda>name.
     js_ret (set_prop name
               (case pget jvar ''v-wf:variableValue'' of None \<Rightarrow> [] | Some vs \<Rightarrow> vs) rec)))"

text \<open>
  \<open>msg\<close> replaces the label of the task object of the caller, so the task is part of the
  result, with the process.
\<close>

definition mapToJournal ::
  "script_eval \<Rightarrow> val list option \<Rightarrow> individual \<Rightarrow> individual \<Rightarrow> individual option \<Rightarrow> val list option \<Rightarrow>
   string option \<Rightarrow> string option \<Rightarrow> string \<Rightarrow> (individual \<times> individual) js" where
  "mapToJournal ev map_container process task order msg journal_uri tj trace_comment =
     (case (journal_uri, map_container) of
        (Some ju, Some mc) \<Rightarrow>
          if ju = [] then js_ret (process, task)
          else (let task' = (case msg of None \<Rightarrow> task | Some m \<Rightarrow> set_prop ''rdfs:label'' m task) in
            js_bind (create_and_mapping_variables ev (Some mc) process (Some task') order None False tj
                trace_comment) (\<lambda>(journalVars, process').
            js_bind (newJournalRecord ju) (\<lambda>rec.
            js_bind (js_fold set_named rec journalVars) (\<lambda>rec'.
            js_seq (logToJournal ju rec') (
            js_ret (process', task'))))))
      | _ \<Rightarrow> js_ret (process, task))"

section \<open>The search of the work item tree\<close>

text \<open>
  A found work item with its parent. The recursion follows \<^verbatim>\<open>v-wf:workItemList\<close>, which a
  stored tree does not have to keep acyclic: \<open>n\<close> is the depth of calls the engine still allows.
  \<open>None\<close> is the RangeError of the call that no longer fits; the caller catches it and abandons
  the rest of its own list, keeping what was pushed so far. The second result are the errors
  that were printed.
\<close>

type_synonym found = "individual \<times> individual"

fun rsffiwit :: "nat \<Rightarrow> world \<Rightarrow> val list \<Rightarrow> string \<Rightarrow> jdata \<Rightarrow> individual \<Rightarrow>
                 (found list \<times> js_error list) option"
  and rs_items :: "nat \<Rightarrow> world \<Rightarrow> val list \<Rightarrow> string \<Rightarrow> jdata \<Rightarrow> individual \<Rightarrow>
                 found list \<times> js_error list"
where
  "rsffiwit 0 w wl cf cv par = None"
| "rsffiwit (Suc n) w wl cf cv par = Some (rs_items n w wl cf cv par)"
| "rs_items n w [] cf cv par = ([], [])"
| "rs_items n w (x # xs) cf cv par =
     (case lookup w (vdata x) of
        None \<Rightarrow> rs_items n w xs cf cv par
      | Some i \<Rightarrow>
          (let here = (if pget i cf \<noteq> None \<and> loose_eq (getUri (pget i cf)) cv
                          \<and> pget i ''v-wf:isCompleted'' = None
                       then [(par, i)] else [])
           in case pget i ''v-wf:workItemList'' of
                None \<Rightarrow> (let r = rs_items n w xs cf cv par in (here @ fst r, snd r))
              | Some sub \<Rightarrow>
                  (case rsffiwit n w sub cf cv i of
                     None \<Rightarrow> (here, [RangeError])
                   | Some (fs, es) \<Rightarrow>
                       (let r = rs_items n w xs cf cv par
                        in (here @ fs @ fst r, es @ snd r)))))"

definition find_in_work_item_tree :: "individual \<Rightarrow> string \<Rightarrow> jdata \<Rightarrow> found list option js" where
  "find_in_work_item_tree process cf cv =
     (case pget process ''v-wf:workItemList'' of
        None \<Rightarrow> js_ret (Some [])
      | Some wl \<Rightarrow> (js_bind (js_ask (\<lambda>w. rsffiwit (stack_max w) w wl cf cv process)) (\<lambda>r.
          (case r of
             None \<Rightarrow> (js_seq (js_log [RangeError]) ( js_ret None))
           | Some (fs, es) \<Rightarrow> (js_seq (js_log es) ( js_ret (Some fs)))))))"

section \<open>Frame\<close>

text \<open>
  The scripts of the ontology write through the same host functions: for a relation of the
  interface, the programs keep it as soon as the scripts do.
\<close>

context host_rel
begin

lemma eval_frame:
  "(\<And>s sc. keeps R (ev s sc)) \<Longrightarrow> keeps R (eval_js ev d sc)"
  unfolding eval_js_def by (cases d) (auto intro: js_frame)

lemma get_new_variable_frame [js_frame]: "keeps R (get_new_variable n v)"
  unfolding get_new_variable_def by (intro js_frame)

lemma store_items_frame [js_frame]: "keeps R (store_items_and_set_minimal_rights d)"
  unfolding store_items_and_set_minimal_rights_def by (intro js_frame)

lemma generate_variable_frame [js_frame]: "keeps R (generate_variable dv v p)"
  unfolding generate_variable_def write_local_def by (intro js_frame)

lemma cmv_frame:
  assumes "\<And>s sc. keeps R (ev s sc)"
  shows "keeps R (create_and_mapping_variables ev m p t ord res fs tj c)"
proof -
  have 1: "keeps R (map_one ev sc fs tj e tv st)" for sc e tv st
    unfolding map_one_def by (intro js_frame eval_frame assms)
  have 2: "keeps R (map_step ev sc fs tj st m)" for sc st m
    unfolding map_step_def by (intro js_frame 1)
  show ?thesis
    unfolding create_and_mapping_variables_def uris_text_def by (intro js_frame 2)
qed

lemma mapToJournal_frame:
  assumes "\<And>s sc. keeps R (ev s sc)"
  shows "keeps R (mapToJournal ev mc p t ord msg ju tj c)"
proof -
  have 1: "keeps R (set_named r j)" for r j
    unfolding set_named_def by (intro js_frame)
  show ?thesis
    unfolding mapToJournal_def by (intro js_frame cmv_frame 1 assms)
qed

lemma find_in_tree_frame [js_frame]: "keeps R (find_in_work_item_tree p cf cv)"
  unfolding find_in_work_item_tree_def by (intro js_frame)

end

end
