(* ===== verification/Transformation.thy ===== *)
theory Transformation
  imports Variables
begin

text \<open>
  \<^verbatim>\<open>veda.Util.transformation\<close> of \<^verbatim>\<open>public/js/server/util.js\<close>: rules of the ontology turn the
  fields of individuals into new individuals. A rule has optional guards
  (\<^verbatim>\<open>v-wf:segregateObject\<close>, \<^verbatim>\<open>v-wf:segregateElement\<close>), an optional group and the scripts
  \<^verbatim>\<open>v-wf:aggregate\<close>, which call the functions the transformation offers. The guards and the
  scripts are ontology text that \<open>eval\<close> runs: parameters of the model. What a script does to
  the object under construction is the list of calls it makes, which the model executes.
\<close>

section \<open>The calls a script can make\<close>

datatype element = EUri string | EVals "val list"

text \<open>An argument that is an array of values, a single value, or undefined.\<close>

datatype targ = AVals "val list" | AVal val | ANone

record tscope =
  ts_individual :: individual
  ts_key :: string
  ts_element :: element
  ts_executor :: targ
  ts_work_order :: targ
  ts_process :: targ

datatype tcmd =
    PutUri string jdata | SetUri string jdata
  | PutString string jdata | SetString string jdata
  | PutDatetime string jdata | SetDatetime string jdata
  | PutBoolean string jdata | SetBoolean string jdata
  | PutInteger string jdata | SetInteger string jdata
  | PutExecutor string | PutWorkOrder string | PutThisProcess string | RemoveThisProcess string
  | PutValue string | PutFrontValue string | PutElement | PutValueFrom string "string list"
  | PutFieldOfObject string string | PutFieldOfIndividFromElement string string

record tscripts =
  t_guard :: "string \<Rightarrow> tscope \<Rightarrow> sres js"
  t_agg :: "string \<Rightarrow> tscope \<Rightarrow> individual \<Rightarrow> tcmd list js"

section \<open>The functions offered to the scripts\<close>

text \<open>
  \<open>out_data0_el [name]\<close> or a new array. A pushed \<open>undefined\<close> leaves no value in the storage,
  and of a pushed array the host stores the first value; both are applied when they are pushed.
\<close>

definition out_arr :: "string \<Rightarrow> individual \<Rightarrow> val list" where
  "out_arr name el = (case pget el name of None \<Rightarrow> [] | Some vs \<Rightarrow> vs)"

definition put_typed :: "vtype \<Rightarrow> string \<Rightarrow> jdata \<Rightarrow> individual \<Rightarrow> individual" where
  "put_typed t name d el = set_prop name (out_arr name el @ [mkv t d]) el"

definition set_typed :: "vtype \<Rightarrow> string \<Rightarrow> jdata \<Rightarrow> individual \<Rightarrow> individual" where
  "set_typed t name d el = set_prop name [mkv t d] el"

definition arg_vals :: "targ \<Rightarrow> val list" where
  "arg_vals a = (case a of AVals vs \<Rightarrow> vs | AVal v \<Rightarrow> [v] | ANone \<Rightarrow> [])"

definition put_arg :: "targ \<Rightarrow> string \<Rightarrow> individual \<Rightarrow> individual" where
  "put_arg a name el = set_prop name (out_arr name el @ arg_vals a) el"

text \<open>
  \<open>removeThisProcess\<close> filters with \<open>value.data !== process [key3]\<close>, which compares a primitive
  with a value object: the test is always true and nothing is removed.
\<close>

definition remove_this_process :: "string \<Rightarrow> individual \<Rightarrow> individual" where
  "remove_this_process name el = set_prop name (out_arr name el) el"

definition element_vals :: "element \<Rightarrow> val list" where
  "element_vals e = (case e of EUri s \<Rightarrow> uriv s | EVals vs \<Rightarrow> vs)"

definition put_value :: "tscope \<Rightarrow> string \<Rightarrow> individual \<Rightarrow> individual" where
  "put_value ts name el = set_prop name (out_arr name el @ element_vals (ts_element ts)) el"

text \<open>Each value is put in front of the former, so they arrive in reverse order.\<close>

definition put_front_value :: "tscope \<Rightarrow> string \<Rightarrow> individual \<Rightarrow> individual" where
  "put_front_value ts name el =
     set_prop name (rev (element_vals (ts_element ts)) @ out_arr name el) el"

definition put_element :: "tscope \<Rightarrow> individual \<Rightarrow> individual" where
  "put_element ts el =
     (case ts_element ts of
        EUri s \<Rightarrow> el
      | EVals vs \<Rightarrow> set_prop (ts_key ts) (out_arr (ts_key ts) el @ vs) el)"

definition put_field_of_object :: "tscope \<Rightarrow> string \<Rightarrow> string \<Rightarrow> individual \<Rightarrow> individual" where
  "put_field_of_object ts name field el =
     set_prop name
       (out_arr name el @ (case pget (ts_individual ts) field of None \<Rightarrow> [] | Some vs \<Rightarrow> take 1 vs)) el"

definition element_ref :: "element \<Rightarrow> jdata" where
  "element_ref e = (case e of EUri s \<Rightarrow> DUndef | EVals vs \<Rightarrow> getUri (Some vs))"

definition put_field_from_element ::
  "tscope \<Rightarrow> string \<Rightarrow> string \<Rightarrow> individual \<Rightarrow> individual js" where
  "put_field_from_element ts name field el = (js_bind (get_individual (element_ref (ts_element ts))) (\<lambda>rr.
     js_ret (case rr of
               None \<Rightarrow> el
             | Some r \<Rightarrow>
                 set_prop name
                   (out_arr name el
                    @ (case pget r field of None \<Rightarrow> [] | Some vs \<Rightarrow> take 1 vs)) el)))"

text \<open>An array used as an id is converted to text.\<close>

definition array_text :: "nat \<Rightarrow> string" where
  "array_text n = join '','' (replicate n ''[object Object]'')"

fun walk_path :: "individual option \<Rightarrow> string list \<Rightarrow> val list option js" where
  "walk_path None path = js_ret None"
| "walk_path (Some c) [] = js_ret None"
| "walk_path (Some c) [p] = js_ret (pget c p)"
| "walk_path (Some c) (p # q # r) =
     (case pget c p of
        None \<Rightarrow>
          if p = ''@'' then (js_bind (get_individual (DStr (uri c))) (\<lambda>o1. walk_path o1 (q # r)))
          else js_ret None
      | Some vs \<Rightarrow> (js_bind (data0 (Some vs)) (\<lambda>d.
          js_bind (get_individual (if truthy d then d else DStr (array_text (length vs)))) (\<lambda>o1.
          walk_path o1 (q # r)))))"

definition put_value_from :: "tscope \<Rightarrow> string \<Rightarrow> string list \<Rightarrow> individual \<Rightarrow> individual js" where
  "put_value_from ts name path el = (js_bind (get_individual
       (case ts_element ts of EUri s \<Rightarrow> DStr s | EVals vs \<Rightarrow> getUri (Some vs))) (\<lambda>c.
     js_bind (walk_path c path) (\<lambda>found.
     js_ret (case found of None \<Rightarrow> el | Some vs \<Rightarrow> set_prop name (out_arr name el @ vs) el))))"

fun run_cmd :: "tscope \<Rightarrow> individual \<Rightarrow> tcmd \<Rightarrow> individual js" where
  "run_cmd ts el (PutUri n d) = js_ret (put_typed TUri n d el)"
| "run_cmd ts el (SetUri n d) = js_ret (set_typed TUri n d el)"
| "run_cmd ts el (PutString n d) = js_ret (put_typed TString n d el)"
| "run_cmd ts el (SetString n d) = js_ret (set_typed TString n d el)"
| "run_cmd ts el (PutDatetime n d) = js_ret (put_typed TDatetime n d el)"
| "run_cmd ts el (SetDatetime n d) = js_ret (set_typed TDatetime n d el)"
| "run_cmd ts el (PutBoolean n d) = js_ret (put_typed TBoolean n d el)"
| "run_cmd ts el (SetBoolean n d) = js_ret (set_typed TBoolean n d el)"
| "run_cmd ts el (PutInteger n d) = js_ret (put_typed TInteger n d el)"
| "run_cmd ts el (SetInteger n d) = js_ret (set_typed TInteger n d el)"
| "run_cmd ts el (PutExecutor n) = js_ret (put_arg (ts_executor ts) n el)"
| "run_cmd ts el (PutWorkOrder n) = js_ret (put_arg (ts_work_order ts) n el)"
| "run_cmd ts el (PutThisProcess n) = js_ret (put_arg (ts_process ts) n el)"
| "run_cmd ts el (RemoveThisProcess n) = js_ret (remove_this_process n el)"
| "run_cmd ts el (PutValue n) = js_ret (put_value ts n el)"
| "run_cmd ts el (PutFrontValue n) = js_ret (put_front_value ts n el)"
| "run_cmd ts el PutElement = js_ret (put_element ts el)"
| "run_cmd ts el (PutValueFrom n path) = put_value_from ts n path el"
| "run_cmd ts el (PutFieldOfObject n f) = js_ret (put_field_of_object ts n f el)"
| "run_cmd ts el (PutFieldOfIndividFromElement n f) = put_field_from_element ts n f el"

section \<open>Guards the scripts can use\<close>

definition objectContentStrValue :: "tscope \<Rightarrow> string \<Rightarrow> jdata \<Rightarrow> sres" where
  "objectContentStrValue ts name d =
     (case pget (ts_individual ts) name of
        None \<Rightarrow> SPrim DUndef
      | Some vs \<Rightarrow> SPrim (DBool (list_ex (\<lambda>v. vdata v = d) vs)))"

definition contentName :: "tscope \<Rightarrow> string \<Rightarrow> bool" where
  "contentName ts name \<longleftrightarrow> ts_key ts = name"

definition elementContentStrValue :: "tscope \<Rightarrow> string \<Rightarrow> jdata \<Rightarrow> bool js" where
  "elementContentStrValue ts name d =
     (if ts_key ts \<noteq> name then js_ret False
      else (case ts_element ts of
              EUri s \<Rightarrow> js_ret (loose_eq DUndef d)
            | EVals vs \<Rightarrow> (js_bind (data0 (Some vs)) (\<lambda>x. js_ret (loose_eq x d)))))"

text \<open>\<open>res == false\<close>: an empty array converts to 0.\<close>

fun sres_is_false :: "sres \<Rightarrow> bool" where
  "sres_is_false (SPrim d) = loose_eq d (DBool False)"
| "sres_is_false (SVals vs) = (vs = [])"
| "sres_is_false (SInds is) = (is = [])"

section \<open>The order of the keys of an object\<close>

text \<open>
  \<open>for (key in obj)\<close> visits the keys that are array indices first, in ascending order, then the
  others in the order of insertion.
\<close>

definition is_index :: "string \<Rightarrow> bool" where
  "is_index s \<longleftrightarrow>
     all_digits s \<and> show_nat (read_digits 0 s) = s \<and> read_digits 0 s < 2 ^ 32 - 1"

definition js_entries :: "'v obj \<Rightarrow> 'v obj" where
  "js_entries ob =
     sort_key (\<lambda>p. read_digits 0 (fst p)) (filter (\<lambda>p. is_index (fst p)) ob)
     @ filter (\<lambda>p. \<not> is_index (fst p)) ob"

section \<open>The loops\<close>

text \<open>The state: the objects under their group key or URI, and the variable \<open>group_key\<close>.\<close>

type_synonym tstate = "individual obj \<times> jdata"

definition run_guard :: "tscripts \<Rightarrow> tscope \<Rightarrow> val list option \<Rightarrow> bool js" where
  "run_guard scr ts pv =
     (case pv of
        None \<Rightarrow> js_ret True
      | Some vs \<Rightarrow> (js_bind (data0 (Some vs)) (\<lambda>d.
          js_bind ((case d of DStr s \<Rightarrow> t_guard scr s ts | _ \<Rightarrow> js_ret (SPrim d))) (\<lambda>r.
          js_ret (\<not> sres_is_false r)))))"

definition run_agg :: "tscripts \<Rightarrow> tscope \<Rightarrow> individual \<Rightarrow> val \<Rightarrow> individual js" where
  "run_agg scr ts el a =
     (case vdata a of
        DStr s \<Rightarrow> (js_bind (t_agg scr s ts el) (\<lambda>cmds. js_fold (run_cmd ts) el cmds))
      | _ \<Rightarrow> js_ret el)"

definition group_of :: "val list \<Rightarrow> jdata \<Rightarrow> bool \<times> jdata" where
  "group_of grouping gk =
     foldl (\<lambda>(ue, g) v. if loose_eq (vdata v) (DStr ''@'') then (True, g) else (ue, vdata v))
       (False, gk) grouping"

definition new_element :: "string js" where
  "new_element = (js_bind (genUri) (\<lambda>u. js_ret (u @ ''-tr'')))"

definition target_element ::
  "tscope \<Rightarrow> individual \<Rightarrow> tstate \<Rightarrow> (string \<times> individual \<times> jdata) js" where
  "target_element ts rule st =
     (case pget rule ''v-wf:grouping'' of
        None \<Rightarrow> (js_bind (new_element) (\<lambda>u. js_ret (u, \<lparr>uri = u, props = []\<rparr>, snd st)))
      | Some grouping \<Rightarrow> (let g = group_of grouping (snd st) in
          js_bind (to_str (snd g)) (\<lambda>k.
          (case oget (fst st) k of
             Some el \<Rightarrow> js_ret (k, el, snd g)
           | None \<Rightarrow>
               if fst g then js_ret (k, \<lparr>uri = uri (ts_individual ts), props = []\<rparr>, snd g)
               else (js_bind (new_element) (\<lambda>u. js_ret (k, \<lparr>uri = u, props = []\<rparr>, snd g)))))))"

definition apply_rule :: "tscripts \<Rightarrow> tscope \<Rightarrow> tstate \<Rightarrow> individual \<Rightarrow> tstate js" where
  "apply_rule scr ts st rule = (js_bind (run_guard scr ts (pget rule ''v-wf:segregateObject'')) (\<lambda>ok.
     js_bind ((if ok then run_guard scr ts (pget rule ''v-wf:segregateElement'') else js_ret False)) (\<lambda>ok2.
     (if \<not> ok2 then js_ret st
      else (js_bind (target_element ts rule st) (\<lambda>(k, el, gk).
        js_bind (js_some (pget rule ''v-wf:aggregate'')) (\<lambda>agregate.
        js_bind (js_fold (run_agg scr ts) el agregate) (\<lambda>el'.
        js_ret (oset k el' (fst st), gk)))))))))"

definition elements_of :: "individual \<Rightarrow> (string \<times> element) list" where
  "elements_of i = (''@'', EUri (uri i)) # map (\<lambda>(k, vs). (k, EVals vs)) (props i)"

definition transform_individual ::
  "tscripts \<Rightarrow> individual list \<Rightarrow> targ \<Rightarrow> targ \<Rightarrow> targ \<Rightarrow> tstate \<Rightarrow> individual option \<Rightarrow> tstate js" where
  "transform_individual scr rules executor work_order process st oi = (js_bind (js_some oi) (\<lambda>i.
     js_fold (\<lambda>st (k, e).
         js_fold
           (apply_rule scr
             \<lparr>ts_individual = i, ts_key = k, ts_element = e, ts_executor = executor,
              ts_work_order = work_order, ts_process = process\<rparr>)
           st rules)
       st (elements_of i)))"

definition read_rules :: "val list \<Rightarrow> individual list js" where
  "read_rules vs = js_ask (\<lambda>w. List.map_filter (\<lambda>v. lookup w (vdata v)) vs)"

text \<open>\<open>None\<close> is \<open>undefined\<close>: no rules, or an exception, which is caught and printed.\<close>

definition transformation ::
  "tscripts \<Rightarrow> individual option list \<Rightarrow> individual \<Rightarrow> targ \<Rightarrow> targ \<Rightarrow> targ \<Rightarrow>
   individual list option js" where
  "transformation scr individuals transform executor work_order process =
     js_catch
       (case pget transform ''v-wf:transformRule'' of
          None \<Rightarrow> js_ret None
        | Some [] \<Rightarrow> js_ret None
        | Some vs \<Rightarrow> (js_bind (read_rules vs) (\<lambda>rules.
            js_bind (js_fold (transform_individual scr rules executor work_order process)
              ([], DUndef) individuals) (\<lambda>st.
            js_ret (Some (map snd (js_entries (fst st))))))))
       (js_ret None)"

context host_rel
begin

lemma walk_frame [js_frame]: "keeps R (walk_path c p)"
  by (induction c p rule: walk_path.induct)
    (auto simp: Let_def intro!: js_frame split: option.splits)

lemma run_cmd_frame [js_frame]: "keeps R (run_cmd ts el c)"
  by (cases c)
    (auto simp: put_value_from_def put_field_from_element_def intro!: js_frame)

lemma transformation_frame:
  assumes g: "\<And>s ts. keeps R (t_guard scr s ts)" and a: "\<And>s ts el. keeps R (t_agg scr s ts el)"
  shows "keeps R (transformation scr is t ex wo p)"
proof -
  have 0: "keeps R (run_guard scr ts pv)" for ts pv
    unfolding run_guard_def
    by (auto intro!: js_frame g split: option.splits jdata.splits)
  have 1: "keeps R (run_agg scr ts el v)" for ts el v
    unfolding run_agg_def by (auto intro!: js_frame a split: jdata.splits)
  have 2: "keeps R (target_element ts r st)" for ts r st
    unfolding target_element_def new_element_def by (intro js_frame)
  have 3: "keeps R (apply_rule scr ts st r)" for ts st r
    unfolding apply_rule_def by (intro js_frame 0 1 2)
  have 4: "keeps R (transform_individual scr rs ex wo p st oi)" for rs st oi
    unfolding transform_individual_def by (intro js_frame 3)
  show ?thesis
    unfolding transformation_def read_rules_def by (intro js_frame 4)
qed

end

end
