(* ===== verification/Messages.thy ===== *)
theory Messages
  imports Variables Transformation
begin

text \<open>
  The rest of \<^verbatim>\<open>docflow-util.js\<close>: work items, messages to the executors (rendered by the
  Mustache library, a parameter), sub-processes, chains of properties and the units of the
  organisation.
\<close>

section \<open>create_work_item\<close>

definition work_item_body ::
  "string \<Rightarrow> jdata \<Rightarrow> string \<Rightarrow> string \<Rightarrow> string option \<Rightarrow> bool \<Rightarrow> individual" where
  "work_item_body u d process_uri net_element_uri parent_uri isTrace =
     (let i0 = \<lparr>uri = u,
                props = [(''rdf:type'', uriv ''v-wf:WorkItem''),
                         (''v-wf:forProcess'', uriv process_uri),
                         (''v-wf:forNetElement'', uriv net_element_uri),
                         (''v-s:created'', newDate d),
                         (''v-s:creator'', uriv ''cfg:VedaSystem'')]\<rparr>;
          i1 = (if isTrace then set_prop ''v-wf:isTrace'' (boolv True) i0 else i0)
      in case parent_uri of None \<Rightarrow> i1
         | Some p \<Rightarrow> set_prop ''v-wf:previousWorkItem'' (uriv p) i1)"

definition create_work_item :: "string \<Rightarrow> string \<Rightarrow> string option \<Rightarrow> bool \<Rightarrow> string js" where
  "create_work_item process_uri net_element_uri parent_uri isTrace = (js_bind (genUri) (\<lambda>u.
     js_bind (new_Date) (\<lambda>d.
     js_seq (put_individual (work_item_body (u @ ''-wit'') d process_uri net_element_uri parent_uri isTrace)) (
     js_ret (u @ ''-wit'')))))"

section \<open>Chains of properties\<close>

text \<open>One condition of a query, \<open>{$get: ..., $go: ..., $eq: {...}}\<close>.\<close>

record qcond =
  op_get :: "string option"
  op_go :: "string option"
  op_eq :: "val list obj option"

definition op_given :: "string option \<Rightarrow> bool" where
  "op_given p = (case p of None \<Rightarrow> False | Some s \<Rightarrow> s \<noteq> [])"

text \<open>
  The result array is filled in place, so it survives an exception: the second component says
  that a TypeError was raised.
\<close>

type_synonym tr_state = "val list \<times> bool"

definition eq_matches :: "individual \<Rightarrow> val list obj \<Rightarrow> bool option" where
  "eq_matches i conds =
     (case conds of
        [] \<Rightarrow> Some False
      | (field, B) # _ \<Rightarrow>
          (case pget i field of
             None \<Rightarrow> Some False
           | Some A \<Rightarrow>
               if A = [] then Some False
               else (case B of
                       [] \<Rightarrow> None
                     | b # _ \<Rightarrow>
                         Some (list_ex (\<lambda>a. vtype a = vtype b \<and> loose_eq (vdata a) (vdata b)) A))))"

definition trav_get :: "qcond \<Rightarrow> individual option \<Rightarrow> tr_state \<Rightarrow> tr_state" where
  "trav_get c oi st =
     (if snd st \<or> \<not> op_given (op_get c) then st
      else let get = (case oi of None \<Rightarrow> []
                      | Some i \<Rightarrow> (case pget i (the (op_get c)) of None \<Rightarrow> [] | Some vs \<Rightarrow> vs))
           in case op_eq c of
                None \<Rightarrow> (fst st @ get, False)
              | Some conds \<Rightarrow>
                  (case oi of
                     None \<Rightarrow> (fst st, True)
                   | Some i \<Rightarrow>
                       (case eq_matches i conds of
                          None \<Rightarrow> (fst st, True)
                        | Some b \<Rightarrow> (if b then fst st @ get else fst st, False))))"

primrec traversal :: "qcond list \<Rightarrow> world \<Rightarrow> individual option \<Rightarrow> tr_state \<Rightarrow> tr_state" where
  "traversal [] w oi st = st"
| "traversal (c # cs) w oi st =
     trav_get c oi
       (if snd st \<or> \<not> op_given (op_go c) then st
        else (case oi of
                None \<Rightarrow> (fst st, True)
              | Some i \<Rightarrow>
                  foldl (\<lambda>s v. if snd s then s else traversal cs w (lookup w (vdata v)) s) st
                    (case pget i (the (op_go c)) of None \<Rightarrow> [] | Some vs \<Rightarrow> vs)))"

definition get_properties_chain ::
  "val list option \<Rightarrow> qcond list \<Rightarrow> val list option \<Rightarrow> val list js" where
  "get_properties_chain var1 query result_if_fail_search =
     (if query = [] then js_ret []
      else (js_bind (get_individual (getUri var1)) (\<lambda>doc.
        js_bind (js_ask (\<lambda>w. case doc of None \<Rightarrow> ([], False) | Some i \<Rightarrow> traversal query w (Some i) ([], False))) (\<lambda>r.
        (if snd r then (js_seq (js_log [TypeError]) ( js_ret (fst r)))
         else js_ret (case result_if_fail_search of
                        None \<Rightarrow> fst r
                      | Some f \<Rightarrow> if fst r = [] then f else fst r))))))"

definition is_external :: "individual \<Rightarrow> bool js" where
  "is_external user =
     (case pget user ''v-s:origin'' of
        None \<Rightarrow> js_ret False
      | Some vs \<Rightarrow> (js_bind (data0 (Some vs)) (\<lambda>d. js_ret (d = DStr ''ExternalUser''))))"

definition system_property :: "string \<Rightarrow> val list \<Rightarrow> jdata js" where
  "system_property field var_to = (js_bind (data0 (Some var_to)) (\<lambda>d.
     js_bind (get_individual d) (\<lambda>ou.
     js_bind (js_some ou) (\<lambda>userTo.
     js_bind (is_external userTo) (\<lambda>isExternal.
     js_bind (get_properties_chain
       (Some (if isExternal then uriv ''cfg:SystemInfoExternal'' else uriv ''v-s:vedaInfo''))
       [\<lparr>op_get = Some field, op_go = None, op_eq = None\<rparr>] None) (\<lambda>vs.
     js_ret (getFirstValue (Some vs))))))))"

definition getSystemUrl :: "val list \<Rightarrow> jdata js" where
  "getSystemUrl var_to = system_property ''v-s:appUrl'' var_to"

definition getInboxUrl :: "val list \<Rightarrow> jdata js" where
  "getInboxUrl var_to = system_property ''v-wf:appInboxUrl'' var_to"

text \<open>The depth is bounded by the code: at most 18 units are looked at.\<close>

function isSubUnitOf :: "world \<Rightarrow> val list \<Rightarrow> string \<Rightarrow> nat \<Rightarrow> bool" where
  "isSubUnitOf w current target depth =
     (case current of
        [] \<Rightarrow> False
      | c # _ \<Rightarrow>
          (let dep = lookup w (vdata c)
           in if \<not> hasValue dep ''v-s:parentUnit'' None \<or> 16 < depth then False
              else if hasValue dep ''v-s:parentUnit'' (Some (mkv TUri (DStr target))) then True
              else isSubUnitOf w (case dep of None \<Rightarrow> []
                                  | Some i \<Rightarrow> (case pget i ''v-s:parentUnit'' of None \<Rightarrow> [] | Some vs \<Rightarrow> vs))
                     target (depth + 1)))"
  by pat_completeness auto

termination
  by (relation "measure (\<lambda>(w, c, t, depth). 18 - depth)") (auto simp: Let_def)

declare isSubUnitOf.simps [simp del]

section \<open>Messages\<close>

text \<open>
  The view given to the template engine: \<open>app_name\<close> is a function, which the engine calls
  (it only reads), the others are arrays. \<open>None\<close> is an exception of the engine.
\<close>

datatype jview = VCall jdata | VArr "jdata list"

type_synonym render = "jdata \<Rightarrow> jview obj \<Rightarrow> string option"

definition getAppName :: "jdata js" where
  "getAppName = (js_bind (get_individual (DStr ''v-s:vedaInfo'')) (\<lambda>appInfo.
     js_ret (case appInfo of None \<Rightarrow> DStr [] | Some i \<Rightarrow> getFirstValue (pget i ''rdfs:label''))))"

text \<open>\<open>s.replace (/&#x2F;/g, '/')\<close>\<close>

fun unescape_slash :: "string \<Rightarrow> string" where
  "unescape_slash [] = []"
| "unescape_slash (c # cs) =
     (if take 6 (c # cs) = ''&#x2F;'' then CHR ''/'' # unescape_slash (drop 5 cs)
      else c # unescape_slash cs)"

definition colon_inside :: "string \<Rightarrow> bool" where
  "colon_inside s \<longleftrightarrow> hd (s @ [CHR '':'']) \<noteq> CHR '':'' \<and> CHR '':'' \<in> set s"

definition lower_text :: "jdata \<Rightarrow> string js" where
  "lower_text d = (case d of DStr s \<Rightarrow> js_ret (map lower_char s) | _ \<Rightarrow> js_throw TypeError)"

text \<open>
  \<open>name.indexOf (':') > 0\<close>: on a name that is not a text there is no such method. \<open>indexOf\<close> finds
  the first colon, so a name that starts with one does not count.
\<close>

definition message_field :: "individual option \<times> individual \<Rightarrow> individual \<Rightarrow>
    (individual option \<times> individual) js" where
  "message_field st jvar =
     (let name = getFirstValue (pget jvar ''v-wf:variableName'');
          var_value = pget jvar ''v-wf:variableValue''
      in (js_bind ((if loose_eq name (DStr ''$template'')
                     then get_individual (getUri var_value) else js_ret (fst st))) (\<lambda>template.
        (case name of
           DStr s \<Rightarrow>
             js_ret (template,
               if colon_inside s
               then set_prop s (case var_value of None \<Rightarrow> [] | Some vs \<Rightarrow> vs) (snd st) else snd st)
         | _ \<Rightarrow> js_throw TypeError))))"

text \<open>
  The language: \<open>get_individual\<close> is called with the array \<open>lang\<close> itself, whose text is
  \<^verbatim>\<open>[object Object]\<close>.
\<close>

definition message_lang :: "individual \<Rightarrow> string js" where
  "message_lang template =
     (case pget template ''v-s:notificationLanguage'' of
        None \<Rightarrow> js_ret ''RU''
      | Some lang \<Rightarrow> (js_bind (get_individual (DStr (array_text (length lang)))) (\<lambda>lang_indv.
          (case lang_indv of
             None \<Rightarrow> js_ret ''RU''
           | Some li \<Rightarrow>
               (case pget li ''rdf:value'' of
                  None \<Rightarrow> js_ret ''RU''
                | Some vs \<Rightarrow> lower_text (getFirstValue (Some vs)))))))"

definition view_value :: "string \<Rightarrow> string \<Rightarrow> val \<Rightarrow> jdata list js" where
  "view_value lang name v =
     (if vtype v = TUri then (js_bind (get_individual (vdata v)) (\<lambda>inner_indv.
        js_bind (to_str (vdata v)) (\<lambda>s.
        js_ret
          (case inner_indv of
             None \<Rightarrow> [DStr (''ERR! individual ['' @ s @ ''] not found, var.name='' @ name)]
           | Some i \<Rightarrow>
               (case pget i ''rdfs:label'' of
                  None \<Rightarrow>
                    [DStr (''ERR! individual ['' @ s @ ''] not contains rdfs:label, var.name='' @ name)]
                | Some vs \<Rightarrow>
                    (case getFirstValueUseLang (Some vs) (DStr lang) of
                       None \<Rightarrow> [getFirstValue (Some vs)]
                     | Some d \<Rightarrow> [if truthy d then d else getFirstValue (Some vs)]))))))
      else js_ret
        (case vlang v of
           None \<Rightarrow> [vdata v]
         | Some l \<Rightarrow> if l = lang \<or> l = [] \<or> l = ''NONE'' then [vdata v] else []))"

definition view_var :: "string \<Rightarrow> jview obj \<Rightarrow> individual \<Rightarrow> jview obj js" where
  "view_var lang view jvar =
     (case getFirstValue (pget jvar ''v-wf:variableName'') of
        DStr name \<Rightarrow>
          if name = ''$template'' \<or> colon_inside name then js_ret view
          else (js_bind (js_fold (\<lambda>a v. (js_bind (view_value lang name v) (\<lambda>xs. js_ret (a @ xs)))) []
              (case pget jvar ''v-wf:variableValue'' of None \<Rightarrow> [] | Some vs \<Rightarrow> vs)) (\<lambda>araa.
            js_ret (oset name (VArr araa) view)))
      | _ \<Rightarrow> js_throw TypeError)"

definition render_text :: "render \<Rightarrow> jdata \<Rightarrow> jview obj \<Rightarrow> string js" where
  "render_text rdr template view =
     (case rdr template view of
        None \<Rightarrow> js_throw (ScriptError ''Mustache'') | Some s \<Rightarrow> js_ret (unescape_slash s))"

definition send_message ::
  "render \<Rightarrow> individual \<Rightarrow> individual \<Rightarrow> individual list \<Rightarrow> individual \<Rightarrow> unit js" where
  "send_message rdr template order messageVars msg0 = (js_bind (message_lang template) (\<lambda>lang.
     js_bind (getAppName) (\<lambda>app_name.
     js_bind (js_fold (view_var lang) [(''app_name'', VCall app_name)] messageVars) (\<lambda>view.
     js_bind (render_text rdr (getFirstValue (pget template ''v-s:notificationSubject'')) view) (\<lambda>subject.
     js_bind (render_text rdr (getFirstValue (pget template ''v-s:notificationBody'')) view) (\<lambda>body.
     put_individual
       (set_prop ''v-s:hasMessageType''
          (case pget template ''v-s:hasMessageType'' of None \<Rightarrow> [] | Some vs \<Rightarrow> vs)
         (set_prop ''v-wf:onWorkOrder'' (uriv (uri order))
           (set_prop ''v-s:messageBody'' (newStr (DStr body) (Some lang))
             (set_prop ''v-s:subject'' (newStr (DStr subject) (Some lang)) msg0))))))))))"

text \<open>The process object the mapping changed in place is the result, also after an exception.\<close>

definition mapToMessage ::
  "script_eval \<Rightarrow> render \<Rightarrow> val list option \<Rightarrow> individual \<Rightarrow> individual \<Rightarrow> individual \<Rightarrow>
   string option \<Rightarrow> string option \<Rightarrow> string \<Rightarrow> individual js" where
  "mapToMessage ev rdr map_container process task order journal_uri tj trace_comment =
     (case (journal_uri, map_container) of
        (Some ju, Some mc) \<Rightarrow>
          if ju = [] then js_ret process
          else (js_bind (create_and_mapping_variables ev (Some mc) process (Some task) (Some order) None False
                tj trace_comment) (\<lambda>(messageVars, process').
            js_seq (js_try (js_bind (genUri) (\<lambda>u.
              js_bind (new_Date) (\<lambda>d.
              js_bind (js_fold message_field
                (None, \<lparr>uri = u @ ''-msg'', props = [(''v-s:created'', newDate d)]\<rparr>) messageVars) (\<lambda>st.
              (case fst st of
                 None \<Rightarrow> js_ret ()
               | Some template \<Rightarrow> send_message rdr template order messageVars (snd st))))))) (
            js_ret process')))
      | _ \<Rightarrow> js_ret process)"

section \<open>Sub-processes\<close>

definition subprocess_label :: "jdata \<Rightarrow> jdata \<Rightarrow> jdata option \<Rightarrow> string js" where
  "subprocess_label net_label parent_label for_executor = (js_bind (to_str net_label) (\<lambda>a.
     js_bind (to_str parent_label) (\<lambda>b.
     let msg = (map char_of [209::nat, 141, 208, 186, 208, 183, 208, 181, 208, 188, 208, 191, 208, 187, 209, 143, 209,
      128, 32, 208, 188, 208, 176, 209, 128, 209, 136, 209, 128, 209, 131, 209, 130, 208, 176, 32,
      58]) @ a @ (map char_of [44::nat, 32, 208, 183, 208, 176, 208, 191, 209, 131, 209, 137, 208, 181, 208, 189, 32, 208, 184, 208, 183, 32]) @ b in
     (case for_executor of
        None \<Rightarrow> js_ret msg
      | Some x \<Rightarrow> (js_bind (to_str x) (\<lambda>c. js_ret (msg @ (map char_of [44::nat, 32, 208, 180, 208, 187, 209, 143, 32]) @ c)))))))"

definition opt_vals :: "val list option \<Rightarrow> val list" where
  "opt_vals pv = (case pv of None \<Rightarrow> [] | Some vs \<Rightarrow> vs)"

text \<open>The document, changed in place, is the result.\<close>

definition create_new_subprocess ::
  "val list option \<Rightarrow> val list option \<Rightarrow> individual \<Rightarrow> val list option \<Rightarrow> individual \<Rightarrow>
   string option \<Rightarrow> individual js" where
  "create_new_subprocess f_useSubNet f_executor parent_net f_inVars document tj =
     (let use_net = (if f_useSubNet \<noteq> None then f_useSubNet else f_executor)
      in (js_bind (to_str (getUri f_executor)) (\<lambda>ex.
        js_seq (trace_if tj (''[WO2.4] executor= '' @ ex @ '' used net'') (getUri use_net)) (
        js_bind (get_individual (getUri use_net)) (\<lambda>started.
        (case started of
           None \<Rightarrow> js_ret document
         | Some started_net \<Rightarrow> (js_bind (genUri) (\<lambda>u.
             js_bind (new_Date) (\<lambda>d.
             let pu = u @ ''-prs'' in
             js_bind (subprocess_label (getFirstValue (pget started_net ''rdfs:label''))
               (getFirstValue (pget parent_net ''rdfs:label''))
               (if f_useSubNet \<noteq> None then Some (getUri f_executor) else None)) (\<lambda>msg.
             let p0 = \<lparr>uri = pu,
                       props = [(''rdf:type'', uriv ''v-wf:Process''),
                                (''v-wf:instanceOf'', opt_vals use_net),
                                (''v-wf:parentWorkOrder'', uriv (uri document)),
                                (''v-s:created'', newDate d),
                                (''rdfs:label'', strv msg)]\<rparr> in
             let p1 = (case f_inVars of None \<Rightarrow> p0 | Some vs \<Rightarrow> set_prop ''v-wf:inVars'' vs p0) in
             let p2 = (if f_useSubNet \<noteq> None
                       then set_prop ''v-wf:executor'' (opt_vals f_executor) p1 else p1) in
             js_bind ((case tj of
                None \<Rightarrow> js_ret p2
              | Some j \<Rightarrow> (js_seq (trace_if tj ''new_process='' (getUri use_net)) (
                  js_seq (create_new_journal (getTraceJournalUri pu) None
                    (label_of (pget started_net ''rdfs:label'')) False) (
                  js_ret (set_prop ''v-wf:traceJournal'' (uriv (getTraceJournalUri pu))
                            (set_prop ''v-wf:isTrace'' (boolv True) p2))))))) (\<lambda>p3.
             js_seq (put_individual p3) (
             js_seq (create_new_subjournal (uri document) pu (LText (map char_of [208::nat, 183, 208, 176, 208, 191,
      209, 131, 209, 137, 208, 181, 208, 189, 32, 208, 191, 208, 190, 208, 180, 208, 191, 209, 128, 208, 190, 209, 134, 208, 181, 209, 129, 209, 129]))
               ''v-wf:SubProcessStarted'') (
             let document' = set_prop ''v-wf:isProcess'' (uriv pu) document in
             js_seq (put_individual document') (
             js_ret document'))))))))))))))"

section \<open>The parameters of the handlers\<close>

text \<open>
  What the handlers take from outside the repository's code: \<open>eval\<close> of the scripts of the nets,
  the template engine, and the scripts of the transformations.
\<close>

record hooks =
  h_eval :: script_eval
  h_render :: render
  h_scripts :: tscripts

definition hooks_keep :: "(world \<Rightarrow> world \<Rightarrow> bool) \<Rightarrow> hooks \<Rightarrow> bool" where
  "hooks_keep R h \<longleftrightarrow>
     (\<forall>s sc. keeps R (h_eval h s sc)) \<and> (\<forall>s ts. keeps R (t_guard (h_scripts h) s ts)) \<and>
     (\<forall>s ts el. keeps R (t_agg (h_scripts h) s ts el))"

context host_rel
begin

lemma hook_frames:
  assumes "hooks_keep R h"
  shows "keeps R (create_and_mapping_variables (h_eval h) m p t ord res fs tj c)"
    and "keeps R (mapToJournal (h_eval h) mc p wi ord msg ju tj c)"
    and "keeps R (transformation (h_scripts h) is tr ex wo pr)"
    and "keeps R (eval_js (h_eval h) d sc)"
  using assms by (auto simp: hooks_keep_def intro: cmv_frame mapToJournal_frame
      transformation_frame eval_frame)

lemma create_work_item_frame [js_frame]: "keeps R (create_work_item p e q t)"
  unfolding create_work_item_def by (intro js_frame)

lemma properties_chain_frame [js_frame]: "keeps R (get_properties_chain v q f)"
  unfolding get_properties_chain_def by (intro js_frame)

lemma system_property_frame [js_frame]: "keeps R (system_property f v)"
  unfolding system_property_def is_external_def by (intro js_frame)

lemma lower_text_frame [js_frame]: "keeps R (lower_text d)"
  unfolding lower_text_def by (cases d) (auto intro: js_frame)

lemma message_frame [js_frame]:
  "keeps R (message_field st j)" "keeps R (message_lang t)" "keeps R (view_value l n v)"
proof -
  show "keeps R (message_field st j)"
    unfolding message_field_def
    by (auto simp: Let_def intro!: js_frame split: jdata.splits)
  show "keeps R (message_lang t)"
    unfolding message_lang_def by (intro js_frame)
  show "keeps R (view_value l n v)"
    unfolding view_value_def by (intro js_frame)
qed

lemma view_var_frame [js_frame]: "keeps R (view_var l vw j)"
  unfolding view_var_def by (auto intro!: js_frame split: jdata.splits)

lemma send_message_frame [js_frame]: "keeps R (send_message rdr t ord vs m)"
  unfolding send_message_def getAppName_def render_text_def by (intro js_frame)

lemma mapToMessage_frame:
  assumes "\<And>s sc. keeps R (ev s sc)"
  shows "keeps R (mapToMessage ev rdr mc p t ord ju tj c)"
  unfolding mapToMessage_def by (intro js_frame cmv_frame assms)

lemma message_hook_frame:
  "hooks_keep R h \<Longrightarrow>
   keeps R (mapToMessage (h_eval h) rdr mc p wi wo ju tj c)"
  by (auto simp: hooks_keep_def intro: mapToMessage_frame)

lemma create_new_subprocess_frame [js_frame]: "keeps R (create_new_subprocess un ex pn iv d tj)"
  unfolding create_new_subprocess_def subprocess_label_def by (intro js_frame)

end

end
