(* ===== verification/Work_Order.thy ===== *)
theory Work_Order
  imports Messages
begin

text \<open>
  \<^verbatim>\<open>veda.Workflow.prepare_work_order\<close> of \<^verbatim>\<open>docflow.js\<close>: the handler of a work order. It
  starts the order (an empty order completes at once, a codelet is run, a user gets decision
  forms, a net becomes a sub-process), collects the results of all orders of the work item and,
  when every order has one, completes the work item and follows the flows of the net.
\<close>

section \<open>What the handler reads first\<close>

text \<open>\<open>isStopped && isStopped[0].data === true\<close>\<close>

definition flag_is_true :: "val list option \<Rightarrow> bool js" where
  "flag_is_true pv =
     (case pv of None \<Rightarrow> js_ret False
      | Some vs \<Rightarrow> (js_bind (data0 (Some vs)) (\<lambda>d. js_ret (d = DBool True))))"

definition some_or_return :: "'a option \<Rightarrow> 'a js" where
  "some_or_return x = (case x of None \<Rightarrow> js_return | Some y \<Rightarrow> js_ret y)"

record wo_ctx =
  wc_executor :: "individual option"
  wc_f_executor :: "val list option"
  wc_for_process :: "val list option"
  wc_process_uri :: string
  wc_net_element :: individual
  wc_work_item :: individual
  wc_trace :: "string option"
  wc_journal :: string

section \<open>Starting the order\<close>

text \<open>The loop over the previous work items; \<open>None\<close> from the \<open>partial_function\<close> is a cycle.\<close>

datatype prev_task = NoPrev | PrevTask "val list" | PrevError

partial_function (option) find_prev_task :: "world \<Rightarrow> individual \<Rightarrow> prev_task option" where
  "find_prev_task w i_work_item =
     (if \<not> truthy (getUri (pget i_work_item ''v-wf:previousWorkItem'')) then Some NoPrev
      else case lookup w (getUri (pget i_work_item ''v-wf:previousWorkItem'')) of
             None \<Rightarrow> Some NoPrev
           | Some p \<Rightarrow>
               if \<not> truthy (getUri (pget p ''v-wf:forNetElement'')) then Some NoPrev
               else (case lookup w (getUri (pget p ''v-wf:forNetElement'')) of
                       None \<Rightarrow> Some NoPrev
                     | Some e \<Rightarrow>
                         (case pget e ''rdf:type'' of
                            Some (t # _) \<Rightarrow>
                              if loose_eq (vdata t) (DStr ''v-wf:Task'')
                              then Some (PrevTask (opt_vals (pget p ''v-wf:forNetElement'')))
                              else find_prev_task w p
                          | _ \<Rightarrow> Some PrevError)))"

declare find_prev_task.simps [code]

definition task_variable :: "string \<Rightarrow> val list option \<Rightarrow> individual" where
  "task_variable name vs =
     \<lparr>uri = ''-'',
      props = [(''rdf:type'', uriv ''v-wf:Variable''), (''v-wf:variableName'', strv name),
               (''v-wf:variableValue'', opt_vals vs)]\<rparr>"

definition wo_transform_input :: "wo_ctx \<Rightarrow> individual option list js" where
  "wo_transform_input c = (let f_inVars = opt_vals (pget (wc_work_item c) ''v-wf:inVars'') in
     js_bind (js_ask (\<lambda>w. map (\<lambda>v. lookup w (vdata v)) f_inVars)) (\<lambda>in_vars.
     js_bind (js_ask (\<lambda>w. find_prev_task w (wc_work_item c))) (\<lambda>r.
     js_bind (js_loop r) (\<lambda>prev.
     let cur = in_vars @ [Some (task_variable ''curTask'' (pget (wc_work_item c) ''v-wf:forNetElement''))] in
     (case prev of
        NoPrev \<Rightarrow> js_ret cur
      | PrevTask t \<Rightarrow> js_ret (cur @ [Some (task_variable ''prevTask'' (Some t))])
      | PrevError \<Rightarrow> js_throw TypeError)))))"

definition form_rights :: "individual \<Rightarrow> bool \<Rightarrow> bool \<Rightarrow> string \<Rightarrow> unit js" where
  "form_rights executor is_appointment is_position form = (js_seq (js_when is_appointment (js_seq ((case pget executor ''v-s:employee'' of
          None \<Rightarrow> js_ret ()
        | Some vs \<Rightarrow> (js_bind (data0 (Some vs)) (\<lambda>d.
            addRight d (DStr form) [''v-s:canRead'', ''v-s:canUpdate''] [])))) (
       (case pget executor ''v-s:occupation'' of
          None \<Rightarrow> js_ret ()
        | Some vs \<Rightarrow> (js_bind (data0 (Some vs)) (\<lambda>d.
            addRight d (DStr form) [''v-s:canRead'', ''v-s:canUpdate''] [])))))) (
     js_when is_position
       (addRight (DStr (uri executor)) (DStr form) [''v-s:canRead'', ''v-s:canUpdate''] [])))"

definition targ_of :: "val list option \<Rightarrow> targ" where
  "targ_of pv = (case pv of None \<Rightarrow> ANone | Some vs \<Rightarrow> AVals vs)"

text \<open>The state of the start: the document (the work order), the process, the output variables.\<close>

type_synonym wo_state = "individual \<times> individual \<times> val list"

definition wo_start_user ::
  "hooks \<Rightarrow> wo_ctx \<Rightarrow> individual \<Rightarrow> bool \<Rightarrow> bool \<Rightarrow> wo_state \<Rightarrow> wo_state js" where
  "wo_start_user h c executor is_appointment is_position st =
     (case st of (doc, process, tov) \<Rightarrow> (js_bind (wo_transform_input c) (\<lambda>input.
        js_bind (mapToJournal (h_eval h)
          (pget (wc_net_element c) ''v-wf:startingExecutorJournalMap'') process (wc_work_item c)
          (Some doc) None (Some (wc_journal c)) (wc_trace c) ''v-wf:startingExecutorJournalMap'') (\<lambda>(process1, wi).
        let transform_link = getUri (pget (wc_net_element c) ''v-wf:startDecisionTransform'') in
        js_seq (js_when (\<not> truthy transform_link) js_return) (
        js_bind (get_individual transform_link) (\<lambda>ot.
        js_bind (some_or_return ot) (\<lambda>transform.
        js_bind (transformation (h_scripts h) input transform
          (targ_of (wc_f_executor c)) (AVals (uriv (uri doc))) (targ_of (wc_for_process c))) (\<lambda>transform_result.
        js_seq (trace_if (wc_trace c) ''v-wf:startDecisionTransform''
          (DStr (''transform_result='' @
            toJson_text (map_option (\<lambda>is. JArr (map json_ind is)) transform_result)))) (
        js_bind (js_fold (\<lambda>fs i. (js_bind (new_Date) (\<lambda>d.
            js_seq (put_individual (stamp_item d i)) (
            js_seq (form_rights executor is_appointment is_position (uri i)) (
            js_ret (fs @ uriv (uri i))))))) [] (case transform_result of None \<Rightarrow> [] | Some is \<Rightarrow> is)) (\<lambda>forms.
        js_seq (add_to_individual \<lparr>uri = uri doc, props = [(''v-wf:decisionFormList'', forms)]\<rparr>) (
        let doc1 = set_prop ''v-wf:decisionFormList'' forms doc in
        js_bind (mapToMessage (h_eval h) (h_render h)
          (pget (wc_net_element c) ''v-wf:startingMessageMap'') process1 wi doc1
          (Some (wc_journal c)) (wc_trace c) ''v-wf:startingMessageMap'') (\<lambda>process2.
        js_ret (doc1, process2, tov)))))))))))))"

text \<open>
  The result of a codelet: individuals are stored; the elements of an array of plain values
  have no URI, so nothing is stored of them; a text cannot be stamped.
\<close>

definition store_codelet_result :: "sres \<Rightarrow> val list option js" where
  "store_codelet_result r =
     (case r of
        SInds is \<Rightarrow> store_items_and_set_minimal_rights (Some is)
      | SVals vs \<Rightarrow> js_ret (Some (map (\<lambda>_. mkv TUri DUndef) vs))
      | SPrim d \<Rightarrow> (js_seq (js_log [TypeError]) ( js_ret None)))"

definition sres_has_elements :: "sres \<Rightarrow> bool" where
  "sres_has_elements r =
     (case r of SInds is \<Rightarrow> is \<noteq> [] | SVals vs \<Rightarrow> vs \<noteq> []
      | SPrim d \<Rightarrow> (case d of DStr s \<Rightarrow> s \<noteq> [] | _ \<Rightarrow> False))"

definition set_or_del :: "string \<Rightarrow> val list option \<Rightarrow> individual \<Rightarrow> individual" where
  "set_or_del k pv i = (case pv of None \<Rightarrow> del_prop k i | Some vs \<Rightarrow> set_prop k vs i)"

definition wo_start_codelet :: "hooks \<Rightarrow> wo_ctx \<Rightarrow> individual \<Rightarrow> wo_state \<Rightarrow> wo_state js" where
  "wo_start_codelet h c executor st =
     (case st of (doc, process, tov) \<Rightarrow> (js_bind (mapToMessage (h_eval h) (h_render h)
          (pget (wc_net_element c) ''v-wf:startingMessageMap'') process (wc_work_item c) doc
          (Some (wc_journal c)) (wc_trace c) ''v-wf:startingMessageMap'') (\<lambda>process1.
        let expression = getFirstValue (pget executor ''v-s:script'') in
        js_seq (js_when (\<not> truthy expression) js_return) (
        js_bind (eval_js (h_eval h) expression
          \<lparr>sc_process = Some process1, sc_task = Some (wc_work_item c), sc_order = None,
           sc_result = None\<rparr>) (\<lambda>codelet_output_vars.
        (if sres_has_elements codelet_output_vars then (js_bind (store_codelet_result codelet_output_vars) (\<lambda>vars.
           let doc1 = set_or_del ''v-wf:outVars'' vars doc in
           js_seq (put_individual doc1) (
           js_ret (doc1, process1, tov))))
         else js_ret (doc, process1, tov)))))))"

definition wo_start_empty :: "hooks \<Rightarrow> wo_ctx \<Rightarrow> wo_state \<Rightarrow> wo_state js" where
  "wo_start_empty h c st =
     (case st of (doc, process, tov0) \<Rightarrow> (js_bind (mapToMessage (h_eval h) (h_render h)
          (pget (wc_net_element c) ''v-wf:startingMessageMap'') process (wc_work_item c) doc
          (Some (wc_journal c)) (wc_trace c) ''v-wf:startingMessageMap'') (\<lambda>process1.
        js_bind ((case pget (wc_net_element c) ''v-wf:completedMapping'' of
             None \<Rightarrow> js_ret (uriv ''v-wf:complete'', process1)
           | Some m \<Rightarrow> (js_bind (create_and_mapping_variables (h_eval h) (Some m) process1
                 (Some (wc_work_item c)) None None True (wc_trace c) ''v-wf:completedMapping'') (\<lambda>(vs, p).
               js_ret (var_refs vs, p))))) (\<lambda>(vars, process2).
        let tov = (if vars = [] then uriv ''v-wf:complete'' else vars) in
        let doc1 = set_prop ''v-wf:outVars'' tov doc in
        js_seq (put_individual doc1) (
        js_ret (doc1, process2, tov))))))"

definition wo_start_executor :: "hooks \<Rightarrow> wo_ctx \<Rightarrow> individual \<Rightarrow> wo_state \<Rightarrow> wo_state js" where
  "wo_start_executor h c executor st =
     (let is_appointment = has_uri executor ''rdf:type'' ''v-s:Appointment'';
          is_position = has_uri executor ''rdf:type'' ''v-s:Position'';
          is_codelet = has_uri executor ''rdf:type'' ''v-s:Codelet'';
          f_useSubNet = pget (fst st) ''v-wf:useSubNet''
      in (js_bind ((if is_codelet then wo_start_codelet h c executor st
                else if (is_appointment \<or> is_position) \<and> f_useSubNet = None
                then wo_start_user h c executor is_appointment is_position st
                else js_ret st)) (\<lambda>st1.
        (if (has_uri executor ''rdf:type'' ''v-wf:Net'' \<or> f_useSubNet \<noteq> None) \<and> \<not> is_codelet
         then (js_bind (create_new_subprocess f_useSubNet (wc_f_executor c) (wc_net_element c)
             (Some (opt_vals (pget (wc_work_item c) ''v-wf:inVars''))) (fst st1) (wc_trace c)) (\<lambda>doc1.
           js_ret (doc1, snd st1)))
         else js_ret st1))))"

text \<open>Only an order without output variables is started.\<close>

definition wo_start :: "hooks \<Rightarrow> wo_ctx \<Rightarrow> wo_state \<Rightarrow> wo_state js" where
  "wo_start h c st =
     (if pget (fst st) ''v-wf:outVars'' \<noteq> None then js_ret st
      else (js_bind (to_str (getUri (pget (fst st) ''v-wf:forWorkItem''))) (\<lambda>wi.
        js_bind (create_new_subjournal wi (uri (fst st))
          (label_of (pget (wc_net_element c) ''rdfs:label'')) ''v-wf:WorkOrderStarted'') (\<lambda>ju.
        (case wc_executor c of
           None \<Rightarrow> wo_start_empty h (c\<lparr>wc_journal := ju\<rparr>) st
         | Some ex \<Rightarrow> wo_start_executor h (c\<lparr>wc_journal := ju\<rparr>) ex st)))))"

section \<open>Collecting the results\<close>

text \<open>
  \<open>var key, val\<close> is hoisted: both keep the value of the former iteration when a result variable
  has no name or no value.
\<close>

record collect_state =
  cs_key :: jdata
  cs_val :: "val list option"
  cs_results :: "result_obj list"

definition collect_var ::
  "bool \<Rightarrow> collect_state \<times> result_obj \<times> bool \<Rightarrow> val \<Rightarrow> (collect_state \<times> result_obj \<times> bool) js" where
  "collect_var mapped st v =
     (case st of (cs, el, f_set) \<Rightarrow> (js_bind (get_individual (vdata v)) (\<lambda>orr.
        (case orr of
           None \<Rightarrow> js_ret st
         | Some r \<Rightarrow>
             if mapped then js_ret st
             else (js_bind ((case pget r ''v-wf:variableName'' of
                         None \<Rightarrow> js_ret (cs_key cs) | Some vs \<Rightarrow> data0 (Some vs))) (\<lambda>key.
               let vl = (case pget r ''v-wf:variableValue'' of None \<Rightarrow> cs_val cs | Some vs \<Rightarrow> Some vs) in
               let cs1 = cs\<lparr>cs_key := key, cs_val := vl\<rparr> in
               js_bind (to_str key) (\<lambda>k.
               js_ret (if key = DUndef then (cs1, el, f_set)
                       else (cs1, oset k (case vl of None \<Rightarrow> RUndef | Some vs \<Rightarrow> RVals vs) el, True)))))))))"

definition collect_order ::
  "bool \<Rightarrow> individual \<Rightarrow> collect_state \<Rightarrow> val \<Rightarrow> collect_state js" where
  "collect_order mapped doc cs v = (js_bind ((if loose_eq (vdata v) (DStr (uri doc)) then js_ret (Some doc)
             else get_individual (vdata v))) (\<lambda>owo.
     js_bind (js_some owo) (\<lambda>workOrder.
     (case pget workOrder ''v-wf:outVars'' of
        None \<Rightarrow> js_ret cs
      | Some outVars \<Rightarrow> (js_bind (js_fold (collect_var mapped)
            (cs, [(''workOrder'', RText (uri workOrder))], False) outVars) (\<lambda>(cs1, el, f_set).
          js_ret (if f_set then cs1\<lparr>cs_results := cs_results cs1 @ [el]\<rparr> else cs1)))))))"

definition collect_results :: "individual \<Rightarrow> individual \<Rightarrow> individual \<Rightarrow> result_obj list js" where
  "collect_results net_element work_item doc = (js_bind (js_fold (collect_order (pget net_element ''v-wf:wosResultsMapping'' \<noteq> None) doc)
       \<lparr>cs_key = DUndef, cs_val = None, cs_results = []\<rparr>
       (opt_vals (pget work_item ''v-wf:workOrderList''))) (\<lambda>cs.
     js_ret (cs_results cs)))"

definition json_results :: "result_obj list \<Rightarrow> json" where
  "json_results rs =
     JArr (map (\<lambda>el. members (map (\<lambda>(k, r). (k, case r of RText s \<Rightarrow> Some (JText s) | RUndef \<Rightarrow> None
                                              | RVals vs \<Rightarrow> Some (json_vals vs))) el)) rs)"

section \<open>Following the flows\<close>

definition next_work_item ::
  "wo_ctx \<Rightarrow> individual \<Rightarrow> val list \<Rightarrow> val list \<Rightarrow> val list js" where
  "next_work_item c work_item flowsInto workItemList = (js_bind (get_individual (getUri (Some flowsInto))) (\<lambda>next.
     (case next of
        None \<Rightarrow> js_ret workItemList
      | Some nextNetElement \<Rightarrow> (js_bind (create_work_item (wc_process_uri c) (uri nextNetElement) (Some (uri work_item))
            (wc_trace c \<noteq> None)) (\<lambda>u.
          js_ret (workItemList @ uriv u))))))"

definition wo_guarded_flow ::
  "hooks \<Rightarrow> wo_ctx \<Rightarrow> scope \<Rightarrow> individual \<Rightarrow> jdata \<Rightarrow> val list \<Rightarrow> jdata \<Rightarrow> val list \<Rightarrow>
   (val list \<times> bool) js" where
  "wo_guarded_flow h c sc work_item split flowsInto expression workItemList =
     js_handle (js_bind (eval_js (h_eval h) expression sc) (\<lambda>res1.
       js_seq (trace_if (wc_trace c) ''in flow expression''
         (DStr (toJson_text (json_data expression) @ '', res ='' @ toJson_text (json_sres res1)))) (
       (if res1 = SPrim (DBool True) then (js_bind (next_work_item c work_item flowsInto workItemList) (\<lambda>wl.
          js_ret (wl, \<not> loose_eq split (DStr ''v-wf:XOR''))))
        else js_ret (workItemList, True))))) (\<lambda>e. (js_seq (trace_if (wc_trace c) ''in flow expression''
         (DStr (toJson_text (json_data expression) @ '', ''))) (
       js_seq (js_log [e]) (
       js_ret (workItemList, True)))))"

definition wo_flow_step ::
  "hooks \<Rightarrow> wo_ctx \<Rightarrow> scope \<Rightarrow> individual \<Rightarrow> jdata \<Rightarrow> val list \<Rightarrow> val \<Rightarrow> (val list \<times> bool) js" where
  "wo_flow_step h c sc work_item split workItemList fv = (js_bind (get_individual (vdata fv)) (\<lambda>oflow.
     (case oflow of
        None \<Rightarrow> js_ret (workItemList, True)
      | Some flow \<Rightarrow>
          (case pget flow ''v-wf:flowsInto'' of
             None \<Rightarrow> js_ret (workItemList, True)
           | Some flowsInto \<Rightarrow>
               (case pget flow ''v-wf:predicate'' of
                  Some predicate \<Rightarrow>
                    (let expression = getFirstValue (Some predicate)
                     in if truthy expression
                        then wo_guarded_flow h c sc work_item split flowsInto expression workItemList
                        else js_ret (workItemList, True))
                | None \<Rightarrow>
                    if \<not> truthy split \<or> loose_eq split (DStr ''v-wf:None'')
                    then (js_bind (next_work_item c work_item flowsInto workItemList) (\<lambda>wl.
                      js_ret (wl, True)))
                    else js_ret (workItemList, True))))))"

section \<open>Completing the work item\<close>

definition completed_item :: "val list \<Rightarrow> val list \<Rightarrow> individual \<Rightarrow> individual" where
  "completed_item workItemList tov work_item =
     (let w1 = set_prop ''v-wf:isCompleted'' (boolv True) work_item;
          w2 = (if workItemList \<noteq> [] then set_prop ''v-wf:workItemList'' workItemList w1 else w1)
      in if tov \<noteq> [] then set_prop ''v-wf:outVars'' tov w2 else w2)"

definition wo_complete ::
  "hooks \<Rightarrow> wo_ctx \<Rightarrow> result_obj list \<Rightarrow> wo_state \<Rightarrow> unit js" where
  "wo_complete h c results st =
     (case st of (doc, process, tov) \<Rightarrow> (let ne = wc_net_element c in
        js_bind ((case results of
             [] \<Rightarrow> js_ret (process, wc_work_item c)
           | el # _ \<Rightarrow>
               if rdata_truthy (oget el ''complete'') then js_ret (process, wc_work_item c)
               else mapToJournal (h_eval h) (pget ne ''v-wf:completedJournalMap'') process
                 (wc_work_item c) None (pget ne ''rdfs:label'') (Some (getJournalUri (uri doc)))
                 None ''undefined'')) (\<lambda>(process1, wi).
        js_bind ((case pget ne ''v-wf:completedMapping'' of
             None \<Rightarrow> js_ret (tov, process1)
           | Some m \<Rightarrow> (js_bind (create_and_mapping_variables (h_eval h) (Some m) process1 (Some wi) None
                 (Some results) True (wc_trace c) ''v-wf:completedMapping'') (\<lambda>(vs, p).
               js_ret (var_refs vs, p))))) (\<lambda>(tov1, process2).
        let sc = \<lparr>sc_process = Some process2, sc_task = Some wi, sc_order = None,
                  sc_result = Some results\<rparr> in
        js_bind ((case pget ne ''v-wf:hasFlow'' of
             None \<Rightarrow> js_ret []
           | Some hasFlows \<Rightarrow>
               js_fold_break (wo_flow_step h c sc wi (getUri (pget ne ''v-wf:split''))) [] hasFlows)) (\<lambda>workItemList.
        js_seq (put_individual (completed_item workItemList tov1 wi)) (
        remove_empty_branches_from_journal (getJournalUri (uri doc))))))))"

definition wo_finish :: "hooks \<Rightarrow> wo_ctx \<Rightarrow> wo_state \<Rightarrow> unit js" where
  "wo_finish h c st = (js_bind (collect_results (wc_net_element c) (wc_work_item c) (fst st)) (\<lambda>results.
     js_bind (js_some (pget (wc_work_item c) ''v-wf:workOrderList'')) (\<lambda>workOrderList.
     let is_goto_to_next_task = (length results = length workOrderList) in
     js_seq (js_when (\<not> is_goto_to_next_task)
       (trace_if (wc_trace c) (''[WO4.0] '' @ (map char_of [208::nat, 189, 208, 181, 32, 208, 178, 209, 129, 208, 181,
      32, 208, 183, 208, 176, 208, 180, 208, 176, 208, 189, 208, 184, 209, 143, 32, 208, 178, 209, 139, 208, 191, 208,
      190, 208, 187, 208, 189, 208, 181, 208, 189, 209, 139]))
         (DStr (''stop. work_item_result'' @ toJson_text (Some (json_results results)) @ '', workOrderList='')))) (
     js_seq (trace_if (wc_trace c) ''[WO4] work_item_result''
       (DStr (toJson_text (Some (json_results results))))) (
     js_when is_goto_to_next_task (wo_complete h c results st))))))"

section \<open>The handler\<close>

definition prepare_work_order :: "hooks \<Rightarrow> individual \<Rightarrow> unit js" where
  "prepare_work_order h document = js_func (js_try (let f_executor = pget document ''v-wf:executor'' in
     js_bind (get_individual (getUri f_executor)) (\<lambda>executor.
     js_seq (js_when (f_executor \<noteq> None \<and> executor = None) js_return) (
     let f_forWorkItem = getUri (pget document ''v-wf:forWorkItem'') in
     js_bind (get_individual f_forWorkItem) (\<lambda>owi.
     js_bind (some_or_return owi) (\<lambda>work_item.
     let forProcess = pget work_item ''v-wf:forProcess'' in
     js_bind (get_individual (getUri forProcess)) (\<lambda>op.
     js_bind (some_or_return op) (\<lambda>process.
     js_bind (flag_is_true (pget process ''v-wf:isStopped'')) (\<lambda>stopped.
     js_seq (js_when stopped js_return) (
     js_bind (to_str f_forWorkItem) (\<lambda>wis.
     js_bind (create_new_trace_subjournal wis document
       (LText (''prepare_work_order:'' @ uri document)) ''v-wf:WorkOrderStarted'') (\<lambda>tj.
     js_seq (trace_if tj (map char_of [208::nat, 190, 208, 177, 209, 128, 208, 176, 208, 177, 208, 190, 209, 130, 208,
      186, 208, 176, 32, 209, 128, 208, 176, 208, 177, 208, 190, 209, 135, 208, 181, 208, 179, 208, 190, 32, 208, 183,
      208, 176, 208, 180, 208, 176, 208, 189, 208, 184, 209, 143]) (DStr (toJson_text (Some (json_ind document))))) (
     js_bind (get_individual (getUri (pget work_item ''v-wf:forNetElement''))) (\<lambda>one.
     js_bind (some_or_return one) (\<lambda>net_element.
     js_bind (to_str (getUri forProcess)) (\<lambda>pu.
     let c = \<lparr>wc_executor = executor, wc_f_executor = f_executor, wc_for_process = forProcess,
              wc_process_uri = pu, wc_net_element = net_element, wc_work_item = work_item,
              wc_trace = tj, wc_journal = []\<rparr> in
     js_bind (wo_start h c (document, process, [])) (\<lambda>st.
     wo_finish h c st)))))))))))))))))"

section \<open>Frame\<close>

context host_rel
begin

lemma flag_frame [js_frame]: "keeps R (flag_is_true v)"
  unfolding flag_is_true_def by (intro js_frame)

lemma some_or_return_frame [js_frame]: "keeps R (some_or_return x)"
  unfolding some_or_return_def by (intro js_frame)

lemma form_rights_frame [js_frame]: "keeps R (form_rights e a p f)"
  unfolding form_rights_def by (intro js_frame)

lemma transform_input_frame [js_frame]: "keeps R (wo_transform_input c)"
  unfolding wo_transform_input_def
  by (auto intro!: js_frame simp: Let_def split: prev_task.splits)

lemma store_codelet_frame [js_frame]: "keeps R (store_codelet_result r)"
  unfolding store_codelet_result_def by (cases r) (auto intro: js_frame)

lemma collect_results_frame [js_frame]: "keeps R (collect_results ne wi d)"
  unfolding collect_results_def collect_order_def collect_var_def by (intro js_frame)

lemma next_work_item_frame [js_frame]: "keeps R (next_work_item c wi f l)"
  unfolding next_work_item_def by (intro js_frame)

lemma wo_start_frame:
  assumes "hooks_keep R h"
  shows "keeps R (wo_start h c st)"
proof -
  note hk = hook_frames [OF assms] message_hook_frame [OF assms]
  have 1: "keeps R (wo_start_empty h c st)" for c st
    unfolding wo_start_empty_def by (intro js_frame hk)
  have 2: "keeps R (wo_start_codelet h c e st)" for c e st
    unfolding wo_start_codelet_def by (intro js_frame hk)
  have 3: "keeps R (wo_start_user h c e a p st)" for c e a p st
    unfolding wo_start_user_def by (intro js_frame hk)
  have 4: "keeps R (wo_start_executor h c e st)" for c e st
    unfolding wo_start_executor_def by (intro js_frame 2 3)
  show ?thesis
    unfolding wo_start_def by (intro js_frame 1 4)
qed

lemma wo_finish_frame:
  assumes "hooks_keep R h"
  shows "keeps R (wo_finish h c st)"
proof -
  note hk = hook_frames [OF assms]
  have 1: "keeps R (wo_guarded_flow h c sc wi sp fi e l)" for sc wi sp fi e l
    unfolding wo_guarded_flow_def by (intro js_frame hk)
  have 2: "keeps R (wo_flow_step h c sc wi sp l v)" for sc wi sp l v
    unfolding wo_flow_step_def by (intro js_frame 1)
  have 3: "keeps R (wo_complete h c rs st)" for rs st
    unfolding wo_complete_def by (intro js_frame hk 2)
  show ?thesis
    unfolding wo_finish_def by (intro js_frame 3)
qed

lemma prepare_work_order_frame: "hooks_keep R h \<Longrightarrow> keeps R (prepare_work_order h d)"
  unfolding prepare_work_order_def by (intro js_frame wo_start_frame wo_finish_frame)

end

end
