(* ===== verification/Work_Item.thy ===== *)
theory Work_Item
  imports Work_Order
begin

text \<open>
  \<^verbatim>\<open>veda.Workflow.prepare_work_item\<close> of \<^verbatim>\<open>docflow.js\<close>, the handler of a net element: the
  AND join, the work orders of a task, the passage through conditions and the end of the net;
  with \<^verbatim>\<open>veda.Codelet.change_process_status\<close> of \<^verbatim>\<open>codelets.js\<close>, which the end of the
  net calls.
\<close>

section \<open>The status of the document of a process (codelets.js)\<close>

text \<open>
  The loop over \<^verbatim>\<open>v-wf:isProcess\<close> deletes the very property whose length it then reads: after
  a match the next test of the loop raises a TypeError.
\<close>

fun mark_document :: "string \<Rightarrow> string \<Rightarrow> individual \<Rightarrow> val list \<Rightarrow> unit js" where
  "mark_document process_uri status doc [] = js_ret ()"
| "mark_document process_uri status doc (v # vs) =
     (if loose_eq (vdata v) (DStr process_uri)
      then (js_seq (put_individual (set_prop ''v-wf:hasStatusWorkflow'' (uriv status)
          (del_prop ''v-wf:isProcess'' doc))) (
        js_throw TypeError))
      else mark_document process_uri status doc vs)"

definition status_of_variable :: "string \<Rightarrow> string \<Rightarrow> val \<Rightarrow> unit js" where
  "status_of_variable process_uri status v = (js_bind (get_individual (vdata v)) (\<lambda>ov.
     (case ov of
        None \<Rightarrow> js_ret ()
      | Some variable \<Rightarrow> (js_bind (js_some (pget variable ''v-wf:variableName'')) (\<lambda>names.
          js_when (names \<noteq> [] \<and> loose_eq (vdata (hd names)) (DStr ''docId'')) (js_bind (data0 (pget variable ''v-wf:variableValue'')) (\<lambda>d.
            js_bind (get_individual d) (\<lambda>od.
            js_bind (js_some od) (\<lambda>doc.
            (case pget doc ''v-wf:isProcess'' of
               None \<Rightarrow> js_return
             | Some ps \<Rightarrow> mark_document process_uri status doc ps))))))))))"

definition change_process_status :: "individual \<Rightarrow> string \<Rightarrow> unit js" where
  "change_process_status process status = js_func
     (case pget process ''v-wf:inVars'' of
        None \<Rightarrow> js_return
      | Some vars \<Rightarrow> js_for vars (status_of_variable (uri process) status))"

definition complete_process :: "individual \<Rightarrow> unit js" where
  "complete_process process = change_process_status process ''v-wf:Completed''"

definition interrupt_process :: "individual \<Rightarrow> unit js" where
  "interrupt_process process = change_process_status process ''v-wf:Interrupted''"

section \<open>The AND join\<close>

text \<open>The flows of the net into the element, and the task each flow leaves.\<close>

definition scan_element ::
  "string \<Rightarrow> individual list \<times> string obj \<Rightarrow> val \<Rightarrow> (individual list \<times> string obj) js" where
  "scan_element element_uri st v = (js_bind (get_individual (vdata v)) (\<lambda>oe.
     (case oe of
        None \<Rightarrow> js_ret st
      | Some e \<Rightarrow>
          if has_uri e ''rdf:type'' ''v-wf:Flow''
          then js_ret (if loose_eq (getUri (pget e ''v-wf:flowsInto'')) (DStr element_uri)
                       then (fst st @ [e], snd st) else st)
          else if has_uri e ''rdf:type'' ''v-wf:Task''
          then (js_bind (js_fold (\<lambda>m f. (js_bind (to_str (vdata f)) (\<lambda>k. js_ret (oset k (uri e) m)))) (snd st)
              (opt_vals (pget e ''v-wf:hasFlow''))) (\<lambda>t2f.
            js_ret (fst st, t2f)))
          else js_ret st)))"

text \<open>
  One incoming flow against the found work items: \<open>None\<close> if one of them is already being executed
  (the handler returns), else whether one of them comes from the task of the flow.
\<close>

fun match_flow :: "jdata \<Rightarrow> found list \<Rightarrow> bool option" where
  "match_flow shema_out_task [] = Some False"
| "match_flow shema_out_task (x # fne) =
     (if pget (snd x) ''v-s:isExecuted'' \<noteq> None then None
      else if loose_eq shema_out_task (getUri (pget (fst x) ''v-wf:forNetElement'')) then Some True
      else match_flow shema_out_task fne)"

definition out_task :: "string obj \<Rightarrow> individual \<Rightarrow> jdata" where
  "out_task task2flow flow =
     (case oget task2flow (uri flow) of None \<Rightarrow> DUndef | Some t \<Rightarrow> DStr t)"

fun count_flows :: "string obj \<Rightarrow> individual list \<Rightarrow> found list \<Rightarrow> nat option" where
  "count_flows task2flow [] fne = Some 0"
| "count_flows task2flow (f # fs) fne =
     (case match_flow (out_task task2flow f) fne of
        None \<Rightarrow> None
      | Some b \<Rightarrow> map_option (\<lambda>n. if b then Suc n else n) (count_flows task2flow fs fne))"

definition join_complete :: "string obj \<Rightarrow> individual list \<Rightarrow> found list \<Rightarrow> bool" where
  "join_complete task2flow in_flows fne \<longleftrightarrow>
     length fne = length in_flows \<and> count_flows task2flow in_flows fne = Some (length in_flows)"

definition and_join :: "individual \<Rightarrow> individual \<Rightarrow> individual \<Rightarrow> jdata \<Rightarrow> unit js" where
  "and_join process net netElement forNetElement_uri =
     (if loose_eq (getUri (pget netElement ''v-wf:join'')) (DStr ''v-wf:AND'')
      then (js_bind (js_fold (scan_element (uri netElement)) ([], [])
          (opt_vals (pget net ''v-wf:consistsOf''))) (\<lambda>(in_flows, task2flow).
        js_bind (find_in_work_item_tree process ''v-wf:forNetElement'' forNetElement_uri) (\<lambda>ofne.
        js_bind (js_some ofne) (\<lambda>fne.
        js_when (\<not> join_complete task2flow in_flows fne) js_return))))
      else js_ret ())"

section \<open>Executors of a task\<close>

record wi_ctx =
  wx_net :: individual
  wx_net_element :: individual
  wx_process_uri :: string
  wx_trace :: "string option"

text \<open>Only an array of values has elements with \<open>data\<close>.\<close>

definition executors_of :: "sres \<Rightarrow> val list" where
  "executors_of r = (case r of SVals vs \<Rightarrow> vs | _ \<Rightarrow> [])"

definition defined_executors ::
  "hooks \<Rightarrow> wi_ctx \<Rightarrow> individual \<Rightarrow> individual \<Rightarrow> jdata \<Rightarrow> val list js" where
  "defined_executors h c process doc expression = (js_bind (to_str expression) (\<lambda>es.
     js_handle (js_bind (eval_js (h_eval h) expression
         \<lparr>sc_process = Some process, sc_task = Some doc, sc_order = None, sc_result = None\<rparr>) (\<lambda>result.
       js_seq (trace_if (wx_trace c) ((map char_of [208::nat, 190, 208, 191, 209, 128, 208, 181, 208, 180, 208, 181,
      208, 187, 208, 181, 208, 189, 208, 184, 208, 181, 32, 208, 184, 209, 129, 208, 191, 208, 190, 208, 187, 208, 189,
      208, 184, 209, 130, 208, 181, 208, 187, 209, 143, 32, 91]) @ es @ '']'')
         (DStr (''executors='' @ toJson_text (json_sres result)))) (
       js_ask (\<lambda>w. filter (\<lambda>v. lookup w (vdata v) \<noteq> None) (executors_of result))))) (\<lambda>e. (js_bind (js_ask (\<lambda>w. stack_of w e)) (\<lambda>stk.
       js_seq (trace_if (wx_trace c) ((map char_of [208::nat, 184, 209, 129, 208, 191, 208, 190, 208, 187, 208, 189,
      208, 184, 209, 130, 208, 181, 208, 187, 208, 184, 32, 208, 189, 208, 181, 32, 208, 177, 209, 139, 208, 187, 208,
      184, 32, 208, 190, 208, 191, 209, 128, 208, 181, 208, 180, 208, 181, 208, 187, 208, 181, 208, 189, 209, 139, 32, 91]) @ es @ '']'') (DStr stk)) (
       js_ret []))))))"

definition add_executor ::
  "hooks \<Rightarrow> wi_ctx \<Rightarrow> individual \<Rightarrow> individual \<Rightarrow> val list \<Rightarrow> val \<Rightarrow> val list js" where
  "add_executor h c process doc executor_list v = (js_bind (get_individual (vdata v)) (\<lambda>oex.
     js_bind (to_str (vdata v)) (\<lambda>s.
     (case oex of
        None \<Rightarrow> (js_seq (trace_if (wx_trace c) (map char_of [208::nat, 184, 209, 129, 208, 191, 208, 190,
      208, 187, 208, 189, 208, 184, 209, 130, 208, 181, 208, 187, 209, 140, 32, 208, 189, 208, 181, 32, 208, 189, 208,
      176, 208, 185, 208, 180, 208, 181, 208, 189]) (DStr ('' uri=['' @ s @ '']''))) (
          js_ret executor_list))
      | Some executor \<Rightarrow>
          if has_uri executor ''rdf:type'' ''v-wf:ExecutorDefinition''
          then (let expression = getFirstValue (pget executor ''v-wf:executorExpression'') in
            js_seq (js_when (\<not> truthy expression) js_return) (
            js_bind (defined_executors h c process doc expression) (\<lambda>vs.
            js_ret (executor_list @ vs))))
          else (js_seq (trace_if (wx_trace c) ((map char_of [209::nat, 131, 209, 129, 209, 130, 208, 176, 208, 189,
      208, 190, 208, 178, 208, 187, 208, 181, 208, 189, 32, 208, 184, 209, 129, 208, 191, 208, 190, 208, 187, 208, 189,
      208, 184, 209, 130, 208, 181, 208, 187, 209, 140]) @ '' '')
              (DStr (''executor='' @ toJson_text (json_data (vdata v))))) (
            js_ret (executor_list @ [v])))))))"

text \<open>\<open>None\<close> is \<open>null\<close>, the empty order that only passes through.\<close>

definition executor_list_of ::
  "hooks \<Rightarrow> wi_ctx \<Rightarrow> individual \<Rightarrow> individual \<Rightarrow> val option list js" where
  "executor_list_of h c process doc =
     (case pget (wx_net_element c) ''v-wf:executor'' of
        Some f_executor \<Rightarrow> (js_bind (js_fold (add_executor h c process doc) [] f_executor) (\<lambda>vs.
          js_ret (map Some vs)))
      | None \<Rightarrow>
          js_ret (case pget (wx_net_element c) ''v-wf:subNet'' of
                    None \<Rightarrow> [] | Some [] \<Rightarrow> [None] | Some (v # _) \<Rightarrow> [Some v]))"

section \<open>Work orders of a task\<close>

definition work_order_body ::
  "string \<Rightarrow> string \<Rightarrow> val list option \<Rightarrow> bool \<Rightarrow> val option \<Rightarrow> individual" where
  "work_order_body u work_item_uri f_subNet trace executor =
     (let o0 = \<lparr>uri = u, props = [(''rdf:type'', uriv ''v-wf:WorkOrder''),
                                  (''v-wf:forWorkItem'', uriv work_item_uri)]\<rparr>;
          o1 = (case f_subNet of None \<Rightarrow> o0 | Some s \<Rightarrow> set_prop ''v-wf:useSubNet'' s o0);
          o2 = (if trace then set_prop ''v-wf:isTrace'' (boolv True) o1 else o1)
      in case executor of None \<Rightarrow> o2 | Some v \<Rightarrow> set_prop ''v-wf:executor'' [v] o2)"

definition new_orders ::
  "string \<Rightarrow> val list option \<Rightarrow> bool \<Rightarrow> val option list \<Rightarrow> individual list js" where
  "new_orders work_item_uri f_subNet trace executor_list =
     js_fold (\<lambda>os x. (js_bind (genUri) (\<lambda>u.
         js_ret (os @ [work_order_body (u @ ''-wo'') work_item_uri f_subNet trace x])))) [] executor_list"

definition wi_task :: "hooks \<Rightarrow> wi_ctx \<Rightarrow> individual \<Rightarrow> individual \<Rightarrow> unit js" where
  "wi_task h c process doc0 = (let ne = wx_net_element c in
     js_bind (create_new_subjournal (wx_process_uri c) (uri doc0)
       (label_of (pget ne ''rdfs:label'')) ''v-wf:WorkItemStarted'') (\<lambda>journal_uri.
     js_seq (trace_if (wx_trace c) ''Is task'' DUndef) (
     js_bind ((case pget ne ''v-wf:startingMapping'' of
          None \<Rightarrow> js_ret (doc0, process)
        | Some m \<Rightarrow> (js_bind (create_and_mapping_variables (h_eval h) (Some m) process (Some doc0) None None
              True (wx_trace c) ''v-wf:startingMapping'') (\<lambda>(vs, p).
            js_ret (if vs \<noteq> [] then set_prop ''v-wf:inVars'' (var_refs vs) doc0 else doc0, p))))) (\<lambda>(doc1, process1).
     js_bind (executor_list_of h c process1 doc1) (\<lambda>found.
     js_bind ((if found = [] then js_ret doc1
        else (js_bind (mapToJournal (h_eval h) (pget ne ''v-wf:startingJournalMap'') process1 doc1 None
            (pget ne ''rdfs:label'') (Some journal_uri) None ''undefined'') (\<lambda>(p2, d2).
          js_ret d2)))) (\<lambda>doc2.
     let executor_list = (if found = [] then [None] else found) in
     js_bind (new_orders (uri doc2) (pget ne ''v-wf:subNet'') (wx_trace c \<noteq> None) executor_list) (\<lambda>orders.
     js_seq (put_individual (set_prop ''v-wf:workOrderList'' (var_refs orders) doc2)) (
     js_for orders put_individual))))))))"

section \<open>Conditions\<close>

text \<open>The interlayer net reports to the document under \<^verbatim>\<open>v-wf:executor\<close> of the process.\<close>

definition interlayer_status :: "individual \<Rightarrow> individual \<Rightarrow> string \<Rightarrow> string \<Rightarrow> unit js" where
  "interlayer_status process netElement element status =
     js_when (uri netElement = element) (js_bind (data0 (pget process ''v-wf:executor'')) (\<lambda>d.
       js_bind (to_str d) (\<lambda>s.
       set_in_individual \<lparr>uri = s, props = [(''v-wf:hasStatusWorkflow'', uriv status)]\<rparr>)))"

text \<open>
  A failing predicate leaves \<open>resultEval\<close> at its initial \<open>true\<close>. The state is the list of the new
  work items and the document.
\<close>

definition wi_predicate ::
  "hooks \<Rightarrow> individual \<Rightarrow> individual \<Rightarrow> val list option \<Rightarrow> bool js" where
  "wi_predicate h process doc predicate =
     (case predicate of
        None \<Rightarrow> js_ret True
      | Some p \<Rightarrow>
          js_catch (js_bind (eval_js (h_eval h) (getFirstValue (Some p))
              \<lparr>sc_process = Some process, sc_task = Some doc, sc_order = None, sc_result = None\<rparr>) (\<lambda>r.
            js_ret (sres_truthy r))) (js_ret True))"

definition wi_flow_step ::
  "hooks \<Rightarrow> wi_ctx \<Rightarrow> individual \<Rightarrow> val list \<times> individual \<Rightarrow> val \<Rightarrow> (val list \<times> individual) js" where
  "wi_flow_step h c process st fv =
     (case st of (workItemList, doc) \<Rightarrow> (js_bind (get_individual (vdata fv)) (\<lambda>oflow.
        (case oflow of
           None \<Rightarrow> js_ret st
         | Some flow \<Rightarrow>
             (case pget flow ''v-wf:flowsInto'' of
                None \<Rightarrow> js_ret st
              | Some flowsInto \<Rightarrow> (js_bind (wi_predicate h process doc (pget flow ''v-wf:predicate'')) (\<lambda>ok.
                  (if \<not> ok then js_ret st
                   else (js_bind (get_individual (getUri (Some flowsInto))) (\<lambda>next.
                     (case next of
                        None \<Rightarrow> js_ret st
                      | Some nextNetElement \<Rightarrow> (js_bind (create_work_item (wx_process_uri c) (uri nextNetElement)
                            (Some (uri doc)) (wx_trace c \<noteq> None)) (\<lambda>u.
                          js_bind (new_Date) (\<lambda>d.
                          js_ret (workItemList @ uriv u,
                            set_prop ''v-s:created'' (newDate d)
                              (set_prop ''v-s:isExecuted'' (boolv False)
                                (set_prop ''v-wf:isCompleted'' (boolv True) doc)))))))))))))))))"

definition wi_condition :: "hooks \<Rightarrow> wi_ctx \<Rightarrow> individual \<Rightarrow> individual \<Rightarrow> unit js" where
  "wi_condition h c process doc = (js_seq (interlayer_status process (wx_net_element c) ''s-wf:InterlayerNet_ic'' ''v-wf:IsSent'') (
     js_bind (js_fold (wi_flow_step h c process) ([], doc)
       (opt_vals (pget (wx_net_element c) ''v-wf:hasFlow''))) (\<lambda>(workItemList, doc1).
     js_when (workItemList \<noteq> [])
       (put_individual (set_prop ''v-wf:workItemList'' workItemList doc1)))))"

definition complete_parent_order ::
  "hooks \<Rightarrow> wi_ctx \<Rightarrow> individual \<Rightarrow> individual \<Rightarrow> individual js" where
  "complete_parent_order h c process doc =
     (case pget process ''v-wf:parentWorkOrder'' of
        None \<Rightarrow> js_ret process
      | Some f_parent \<Rightarrow> (js_bind (get_individual (getUri (Some f_parent))) (\<lambda>op.
          (case op of
             None \<Rightarrow> js_ret process
           | Some parent_work_order \<Rightarrow> (js_bind ((case pget (wx_net c) ''v-wf:completedMapping'' of
                    None \<Rightarrow> js_ret (uriv ''v-wf:complete'', process)
                  | Some m \<Rightarrow> (js_bind (create_and_mapping_variables (h_eval h) (Some m) process (Some doc)
                        None None True (wx_trace c) ''v-wf:completedMapping'') (\<lambda>(vs, p).
                      js_ret (var_refs vs, p))))) (\<lambda>(tov, process1).
               js_seq (js_when (tov \<noteq> []) (put_individual (set_prop ''v-wf:outVars'' tov parent_work_order))) (
               js_ret process1)))))))"

definition wi_output :: "hooks \<Rightarrow> wi_ctx \<Rightarrow> individual \<Rightarrow> individual \<Rightarrow> unit js" where
  "wi_output h c process doc = (js_seq (trace_if (wx_trace c) ''Is output condition '' (DStr [])) (
     js_seq (interlayer_status process (wx_net_element c) ''s-wf:InterlayerNet_oc'' ''v-wf:Completed'') (
     js_bind (complete_parent_order h c process doc) (\<lambda>process1.
     js_seq (complete_process process1) (
     js_seq (set_in_individual \<lparr>uri = wx_process_uri c, props = [(''v-wf:isCompleted'', boolv True)]\<rparr>) (
     put_individual (set_prop ''v-wf:isCompleted'' (boolv True) doc)))))))"

section \<open>The handler\<close>

definition wi_start :: "hooks \<Rightarrow> wi_ctx \<Rightarrow> individual \<Rightarrow> individual \<Rightarrow> unit js" where
  "wi_start h c process doc =
     (let ne = wx_net_element c in
      if has_uri ne ''rdf:type'' ''v-wf:Task'' then wi_task h c process doc
      else if has_uri ne ''rdf:type'' ''v-wf:InputCondition'' \<or> has_uri ne ''rdf:type'' ''v-wf:Condition''
      then wi_condition h c process doc
      else if has_uri ne ''rdf:type'' ''v-wf:OutputCondition'' then wi_output h c process doc
      else js_ret ())"

definition wi_already_completed :: "individual \<Rightarrow> individual \<Rightarrow> unit js" where
  "wi_already_completed process document = (js_seq (trace_if (get_trace_journal document process) ''prepare_work_item:completed, exit''
       (DStr (uri document))) (
     js_seq (remove_empty_branches_from_journal (getJournalUri (uri document))) (
     js_return)))"

definition prepare_work_item :: "hooks \<Rightarrow> individual \<Rightarrow> unit js" where
  "prepare_work_item h document = js_func (js_try (let forProcess = getUri (pget document ''v-wf:forProcess'') in
     js_bind (get_individual forProcess) (\<lambda>op.
     js_bind (some_or_return op) (\<lambda>process.
     js_bind (get_individual (getUri (pget process ''v-wf:instanceOf''))) (\<lambda>onet.
     js_bind (some_or_return onet) (\<lambda>net.
     let forNetElement = getUri (pget document ''v-wf:forNetElement'') in
     js_bind (get_individual forNetElement) (\<lambda>one.
     js_bind (some_or_return one) (\<lambda>netElement.
     js_bind (flag_is_true (pget document ''v-wf:isCompleted'')) (\<lambda>completed.
     js_seq (js_when completed (wi_already_completed process document)) (
     js_bind (to_str forProcess) (\<lambda>pu.
     js_bind (uris_text (opt_vals (pget netElement ''rdfs:label''))) (\<lambda>labels.
     js_bind (create_new_trace_subjournal pu document
       (LText (uri netElement @ [CHR 0x27] @ '' - ['' @ labels @ ''] - '' @ uri document))
       ''v-wf:WorkItemStarted'') (\<lambda>tj.
     js_seq (and_join process net netElement forNetElement) (
     let doc1 = set_prop ''v-s:isExecuted'' (boolv True) document in
     js_seq (put_individual doc1) (
     wi_start h \<lparr>wx_net = net, wx_net_element = netElement, wx_process_uri = pu, wx_trace = tj\<rparr>
       process doc1)))))))))))))))"

section \<open>Frame\<close>

context host_rel
begin

lemma change_status_frame [js_frame]: "keeps R (change_process_status p s)"
proof -
  have 1: "keeps R (mark_document u s d vs)" for u d vs
    by (induction vs) (auto intro!: js_frame)
  show ?thesis
    unfolding change_process_status_def status_of_variable_def by (intro js_frame 1)
qed

lemma complete_process_frame [js_frame]: "keeps R (complete_process p)"
  unfolding complete_process_def by (intro js_frame)

lemma interlayer_frame [js_frame]: "keeps R (interlayer_status p n e s)"
  unfolding interlayer_status_def by (intro js_frame)

lemma and_join_frame [js_frame]: "keeps R (and_join p n ne f)"
  unfolding and_join_def scan_element_def by (intro js_frame)

lemma new_orders_frame [js_frame]: "keeps R (new_orders u s t xs)"
  unfolding new_orders_def by (intro js_frame)

lemma uris_text_frame [js_frame]: "keeps R (uris_text vs)"
  unfolding uris_text_def by (intro js_frame)

lemma wi_start_frame:
  assumes "hooks_keep R h"
  shows "keeps R (wi_start h c p d)"
proof -
  note hk = hook_frames [OF assms]
  have 1: "keeps R (executor_list_of h c p d)" for c p d
    unfolding executor_list_of_def add_executor_def defined_executors_def by (intro js_frame hk)
  have 2: "keeps R (wi_task h c p d)" for c p d
    unfolding wi_task_def by (intro js_frame hk 1)
  have 3: "keeps R (wi_condition h c p d)" for c p d
    unfolding wi_condition_def wi_flow_step_def wi_predicate_def by (intro js_frame hk)
  have 4: "keeps R (wi_output h c p d)" for c p d
    unfolding wi_output_def complete_parent_order_def by (intro js_frame hk)
  show ?thesis
    unfolding wi_start_def by (intro js_frame 2 3 4)
qed

lemma prepare_work_item_frame: "hooks_keep R h \<Longrightarrow> keeps R (prepare_work_item h d)"
  unfolding prepare_work_item_def wi_already_completed_def by (intro js_frame wi_start_frame)

end

end
