(* ===== verification/Process_Start.thy ===== *)
theory Process_Start
  imports Work_Item
begin

text \<open>
  The handlers that start and feed a process: \<^verbatim>\<open>prepare_start_form\<close>, \<^verbatim>\<open>prepare_process\<close>
  and \<^verbatim>\<open>prepare_decision_form\<close> of \<^verbatim>\<open>docflow.js\<close>; with \<^verbatim>\<open>addToGroup\<close> and
  \<^verbatim>\<open>removeFromGroup\<close> of \<^verbatim>\<open>common/util.js\<close>, and the conditions under which the event
  scripts of \<^verbatim>\<open>veda-workflow.ttl\<close> call the handlers.
\<close>

section \<open>Membership in groups (common/util.js)\<close>

definition membership_of :: "string \<Rightarrow> jdata \<Rightarrow> jdata \<Rightarrow> individual" where
  "membership_of u grp resource =
     \<lparr>uri = u,
      props = [(''rdf:type'', uriv ''v-s:Membership''), (''v-s:memberOf'', newUri grp),
               (''v-s:resource'', newUri resource)]\<rparr>"

definition addToGroup :: "jdata \<Rightarrow> jdata \<Rightarrow> string list \<Rightarrow> string list \<Rightarrow> unit js" where
  "addToGroup grp resource allow deny = (js_bind (genUri) (\<lambda>u.
     put_individual (set_rights False deny (set_rights True allow
       (membership_of (u @ ''-mbh'') grp resource)))))"

definition removeFromGroup :: "jdata \<Rightarrow> jdata \<Rightarrow> unit js" where
  "removeFromGroup grp resource = (js_bind (genUri) (\<lambda>u.
     put_individual (set_prop ''v-s:deleted'' (boolv True) (membership_of (u @ ''-mbh'') grp resource))))"

section \<open>prepare_process\<close>

definition net_variable :: "individual \<times> val list \<Rightarrow> val \<Rightarrow> (individual \<times> val list) js" where
  "net_variable st v =
     (case st of (document, inVars) \<Rightarrow> (js_bind (get_individual (vdata v)) (\<lambda>odv.
        (case odv of
           None \<Rightarrow> js_ret st
         | Some def_variable \<Rightarrow>
             if getUri (pget def_variable ''v-wf:varDefineScope'') = DStr ''v-wf:Net''
             then (js_bind (generate_variable def_variable None document) (\<lambda>(new_variable, document').
               js_seq (put_individual new_variable) (
               js_ret (document', inVars @ uriv (uri new_variable)))))
             else js_ret st))))"

definition first_input ::
  "string \<Rightarrow> bool \<Rightarrow> val list \<Rightarrow> val \<Rightarrow> (val list \<times> bool) js" where
  "first_input process_uri trace workItemList v = (js_bind (get_individual (vdata v)) (\<lambda>oe.
     (case oe of
        None \<Rightarrow> js_ret (workItemList, True)
      | Some e \<Rightarrow>
          if has_uri e ''rdf:type'' ''v-wf:InputCondition''
          then (js_bind (to_str (vdata v)) (\<lambda>element_uri.
            js_bind (create_work_item process_uri element_uri None trace) (\<lambda>u.
            js_ret (workItemList @ uriv u, False))))
          else js_ret (workItemList, True))))"

definition started_process :: "val list \<Rightarrow> val list \<Rightarrow> individual \<Rightarrow> individual" where
  "started_process inVars workItemList document =
     (let d1 = (if inVars \<noteq> [] then set_prop ''v-wf:inVars'' inVars document else document);
          d2 = (if workItemList \<noteq> [] then set_prop ''v-wf:workItemList'' workItemList d1 else d1)
      in set_prop ''v-wf:isCompleted'' (boolv False) d2)"

definition prepare_process :: "individual \<Rightarrow> unit js" where
  "prepare_process document = js_func (let deleted = hasValue (Some document) ''v-s:deleted'' None in
     let completed = hasValue (Some document) ''v-wf:isCompleted'' None in
     js_seq (js_when (completed \<or> deleted) js_return) (
     let tj = get_trace_journal document document in
     js_seq (trace_if tj ''prepare_process'' (DStr (uri document))) (
     js_bind (get_individual (getUri (pget document ''v-wf:instanceOf''))) (\<lambda>onet.
     js_bind (some_or_return onet) (\<lambda>net.
     js_bind (js_fold net_variable (document, opt_vals (pget document ''v-wf:inVars''))
       (opt_vals (pget net ''v-wf:localVariable''))) (\<lambda>(document1, inVars).
     js_bind (js_fold_break (first_input (uri document) (tj \<noteq> None)) []
       (opt_vals (pget net ''v-wf:consistsOf''))) (\<lambda>workItemList.
     js_when (inVars \<noteq> [] \<or> workItemList \<noteq> [])
       (put_individual (started_process inVars workItemList document1)))))))))"

section \<open>prepare_decision_form\<close>

text \<open>\<open>a[0].data == true\<close>\<close>

definition flag_loosely_true :: "val list option \<Rightarrow> bool js" where
  "flag_loosely_true pv =
     (case pv of None \<Rightarrow> js_ret False
      | Some vs \<Rightarrow> (js_bind (data0 (Some vs)) (\<lambda>d. js_ret (loose_eq d (DBool True)))))"

definition form_error :: "string \<Rightarrow> individual \<Rightarrow> unit js" where
  "form_error msg document = set_err_on_indv msg document ''prepare decision form''"

definition restore_decision :: "individual \<Rightarrow> val list \<Rightarrow> unit js" where
  "restore_decision document prev =
     set_field_to_document ''v-wf:takenDecision'' prev (uri document)"

text \<open>A decision that was taken before is final unless the form enforces processing.\<close>

definition keep_decision :: "individual \<Rightarrow> val list \<Rightarrow> unit js" where
  "keep_decision document prev =
     (case pget document ''v-wf:takenDecision'' of
        None \<Rightarrow> (js_bind (to_str (getUri (Some prev))) (\<lambda>s.
          js_seq (form_error (''attempt clear decision['' @ s @ ''], restore previous decision'') document) (
          restore_decision document prev)))
      | Some taken \<Rightarrow>
          js_when (length taken \<noteq> length prev \<or> \<not> loose_eq (getUri (Some taken)) (getUri (Some prev)))
          (js_seq (form_error (''attempt set another decision '' @ toJson_text (Some (json_vals taken))
                        @ '', restore previous decision'') document) (
            restore_decision document prev)))"

definition or_form_error :: "'a option \<Rightarrow> string \<Rightarrow> individual \<Rightarrow> 'a js" where
  "or_form_error x msg document =
     (case x of Some y \<Rightarrow> js_ret y
      | None \<Rightarrow> (js_seq (form_error msg document) ( js_return)))"

definition complete_form ::
  "hooks \<Rightarrow> individual \<Rightarrow> individual \<Rightarrow> individual \<Rightarrow> individual \<Rightarrow> individual \<Rightarrow> individual \<Rightarrow> unit js" where
  "complete_form h document work_order work_item process net_element transform = (let executor = (case pget work_order ''v-wf:executor'' of Some (v # _) \<Rightarrow> AVal v | _ \<Rightarrow> ANone) in
     js_bind (transformation (h_scripts h) [Some document] transform executor
       (targ_of (pget document ''v-wf:onWorkOrder'')) (targ_of (pget work_item ''v-wf:forProcess''))) (\<lambda>outs.
     js_bind (store_items_and_set_minimal_rights outs) (\<lambda>new_vars.
     js_bind (js_some outs) (\<lambda>process_output_vars.
     js_when (process_output_vars \<noteq> []) (js_seq (set_field_to_document ''v-wf:outVars'' (opt_vals new_vars) (uri work_order)) (
       js_seq (set_field_to_document ''v-wf:isCompleted'' (boolv True) (uri document)) (
       js_seq (mapToJournal (h_eval h) (pget net_element ''v-wf:completedExecutorJournalMap'') process work_item
         (Some (set_or_del ''v-wf:outVars'' new_vars work_order)) None
         (Some (getJournalUri (uri work_order))) None ''undefined'') (
       js_ret ()))))))))"

definition process_form :: "hooks \<Rightarrow> individual \<Rightarrow> unit js" where
  "process_form h document = (js_bind (flag_loosely_true (pget document ''v-wf:isCompleted'')) (\<lambda>done.
     js_seq (js_when done js_return) (
     let on_order = getUri (pget document ''v-wf:onWorkOrder'') in
     js_bind (to_str on_order) (\<lambda>wo_s.
     js_bind (get_individual on_order) (\<lambda>owo.
     js_bind (or_form_error owo (''WorkOrder['' @ wo_s @ ''], not found'') document) (\<lambda>work_order.
     let for_item = getUri (pget work_order ''v-wf:forWorkItem'') in
     js_bind (to_str for_item) (\<lambda>wi_s.
     js_bind (get_individual for_item) (\<lambda>owi.
     js_bind (or_form_error owi (''invalid WorkOrder['' @ wo_s @ ''], field v-wf:forWorkItem['' @ wi_s
       @ ''], not found'') document) (\<lambda>work_item.
     js_bind (flag_is_true (pget work_item ''v-wf:isCompleted'')) (\<lambda>item_done.
     js_seq (js_when item_done (js_seq (form_error (''WorkItem['' @ wi_s @ ''], already is completed, skip decision form...'') document) (
       js_return))) (
     let for_process = getUri (pget work_item ''v-wf:forProcess'') in
     js_bind (to_str for_process) (\<lambda>p_s.
     js_bind (get_individual for_process) (\<lambda>op.
     js_bind (or_form_error op (''invalid WorkItem['' @ wi_s @ ''], field v-wf:forProcess['' @ p_s
       @ ''], not found'') document) (\<lambda>process.
     js_bind (flag_is_true (pget process ''v-wf:isStopped'')) (\<lambda>stopped.
     js_seq (js_when stopped js_return) (
     js_seq (create_new_trace_subjournal p_s work_item (LText (''prepare_decision_form:'' @ uri document))
       ''v-wf:DecisionFormStarted'') (
     let for_element = getUri (pget work_item ''v-wf:forNetElement'') in
     js_bind (to_str for_element) (\<lambda>ne_s.
     js_bind (get_individual for_element) (\<lambda>one.
     js_bind (or_form_error one (''invalid WorkItem['' @ wi_s @ ''], field v-wf:forNetElement['' @ ne_s
       @ ''], not found'') document) (\<lambda>net_element.
     let link = getUri (pget net_element ''v-wf:completeDecisionTransform'') in
     js_bind (to_str link) (\<lambda>l_s.
     let msg = ''invalid net_element['' @ ne_s @ ''], field v-wf:completeDecisionTransform['' @ l_s
       @ ''], not found'' in
     js_seq (js_when (\<not> truthy link) (js_seq (form_error msg document) ( js_return))) (
     js_bind (get_individual link) (\<lambda>ot.
     js_bind (or_form_error ot msg document) (\<lambda>transform.
     complete_form h document work_order work_item process net_element transform))))))))))))))))))))))))"

definition prepare_decision_form :: "hooks \<Rightarrow> individual \<Rightarrow> individual option \<Rightarrow> unit js" where
  "prepare_decision_form h document prev_state = js_func (js_try (js_seq (js_when (pget document ''sys:source'' \<noteq> None) js_return) (
     let f_prev = (case prev_state of None \<Rightarrow> None | Some p \<Rightarrow> pget p ''v-wf:takenDecision'') in
     let f_taken = pget document ''v-wf:takenDecision'' in
     js_seq (js_when (f_taken = None \<and> f_prev = None) js_return) (
     js_seq ((case f_prev of
        None \<Rightarrow> js_ret ()
      | Some prev \<Rightarrow>
          js_when (\<not> has_true document ''v-wf:enforceProcessing'')
            (js_seq (keep_decision document prev) ( js_return)))) (
     process_form h document)))))"

section \<open>prepare_start_form\<close>

definition processed_document ::
  "individual \<Rightarrow> (individual \<times> string \<times> val list) js" where
  "processed_document document =
     (case pget document ''v-wf:processedDocument'' of
        None \<Rightarrow> js_ret (document, uri document, uriv (uri document))
      | Some vs \<Rightarrow> (js_bind (data0 (Some vs)) (\<lambda>d.
          js_bind (to_str d) (\<lambda>s.
          js_bind (get_individual d) (\<lambda>opd.
          (case opd of
             None \<Rightarrow> js_ret (document, s, vs)
           | Some pd \<Rightarrow>
               if has_uri pd ''rdf:type'' ''v-wf:DecisionForm''
               then (js_bind ((case pget pd ''v-wf:onDocument'' of
                   None \<Rightarrow> js_ret (uri pd)
                 | Some od \<Rightarrow> (js_bind (data0 (Some od)) (\<lambda>x. to_str x)))) (\<lambda>on_doc.
                 let pv = (case pget pd ''v-wf:onDocument'' of None \<Rightarrow> uriv (uri document) | Some od \<Rightarrow> od) in
                 js_seq (put_individual (set_prop ''v-wf:hasChildTask''
                   (opt_vals (pget pd ''v-wf:hasChildTask'') @ uriv (uri document)) pd)) (
                 js_ret (set_prop ''v-wf:hasParentTask'' (uriv (uri pd))
                           (set_prop ''v-wf:processedDocument'' pv document), on_doc, pv))))
               else js_ret (document, s, vs)))))))"

definition form_author :: "individual \<Rightarrow> jdata js" where
  "form_author document =
     (if hasValue (Some document) ''v-s:creator'' None
      then (js_bind (get_individual (getUri (pget document ''v-s:creator''))) (\<lambda>creator.
        js_ret (if hasValue creator ''v-s:employee'' None
                then getUri (case creator of None \<Rightarrow> None | Some cr \<Rightarrow> pget cr ''v-s:employee'')
                else DUndef)))
      else js_ret DUndef)"

definition process_variables ::
  "hooks \<Rightarrow> individual \<Rightarrow> string \<Rightarrow> val list js" where
  "process_variables h document new_process_uri = (let transform_link = getUri (pget document ''v-wf:useTransformation'') in
     (if \<not> truthy transform_link then js_ret []
      else (js_bind (get_individual transform_link) (\<lambda>ot.
        js_bind (some_or_return ot) (\<lambda>transform.
        js_bind (transformation (h_scripts h) [Some document] transform ANone ANone
          (AVals (uriv new_process_uri))) (\<lambda>outs.
        js_bind (js_some outs) (\<lambda>process_inVars.
        js_seq (js_for process_inVars put_individual) (
        js_ret (var_refs process_inVars)))))))))"

definition start_process ::
  "individual \<Rightarrow> individual \<Rightarrow> bool \<Rightarrow> string \<Rightarrow> val list \<Rightarrow> string \<Rightarrow> unit js" where
  "start_process document net isTrace pu new_vars pid = (js_bind (to_str (getFirstValue (pget net ''rdfs:label''))) (\<lambda>label.
     let p0 = \<lparr>uri = pu,
               props = [(''rdf:type'', uriv ''v-wf:Process''),
                        (''v-wf:instanceOf'', opt_vals (pget document ''v-wf:forNet'')),
                        (''rdfs:label'', strv ((map char_of [209::nat, 141, 208, 186, 208, 183, 208, 181, 208, 188,
      208, 191, 208, 187, 209, 143, 209, 128, 32, 208, 188, 208, 176, 209, 128, 209, 136, 209, 128, 209, 131, 209, 130, 208, 176, 32, 58]) @ label))]\<rparr> in
     let p1 = (if isTrace then set_prop ''v-wf:isTrace'' (boolv True) p0 else p0) in
     let p2 = (if new_vars \<noteq> [] then set_prop ''v-wf:inVars'' new_vars p1 else p1) in
     let p3 = set_prop ''v-wf:hasStartForm'' (uriv (uri document)) p2 in
     js_bind ((if isTrace then (js_bind (create_new_journal (getTraceJournalUri pu) (Some (getJournalUri pid))
          (label_of (pget net ''rdfs:label'')) True) (\<lambda>tj.
        js_seq (trace_if (Some tj) ''started new process'' (DStr (toJson_text (Some (json_ind p3))))) (
        js_ret (set_prop ''v-wf:traceJournal'' (uriv tj) p3)))) else js_ret p3)) (\<lambda>p4.
     put_individual p4)))"

definition start_journals ::
  "individual \<Rightarrow> individual \<Rightarrow> string \<Rightarrow> string \<Rightarrow> val list \<Rightarrow> unit js" where
  "start_journals document net pu pid pv = (js_bind (get_individual (DStr (getJournalUri pid))) (\<lambda>oj.
     js_seq (js_when (oj = None) (js_bind (new_Date) (\<lambda>d.
       put_individual \<lparr>uri = getJournalUri pid,
         props = [(''rdf:type'', uriv ''v-s:Journal''), (''v-s:onDocument'', pv),
                  (''v-s:created'', newDate d)]\<rparr>))) (
     js_seq (create_new_journal (getJournalUri pu) (Some (getJournalUri pid))
       (label_of (pget net ''rdfs:label'')) False) (
     js_bind (genUri) (\<lambda>ju.
     js_bind (new_Date) (\<lambda>d.
     let r0 = \<lparr>uri = ju @ ''-psr'',
               props = [(''rdf:type'', uriv ''v-s:ProcessStarted''),
                        (''v-s:processJournal'', uriv (getJournalUri pu)),
                        (''v-wf:onProcess'', uriv pu), (''v-s:onDocument'', pv),
                        (''v-s:created'', newDate d)]\<rparr> in
     js_seq (put_individual (case pget document ''v-s:creator'' of None \<Rightarrow> r0
                     | Some cr \<Rightarrow> set_prop ''v-s:actor'' cr r0)) (
     js_bind (genUri) (\<lambda>mu.
     js_seq (put_individual \<lparr>uri = mu @ ''-mbh'',
       props = [(''rdf:type'', uriv ''v-s:Membership''), (''v-s:resource'', uriv pu),
                (''v-s:memberOf'', pv),
                (''rdfs:comment'', newStr (DStr ''Process is in document group'') None)]\<rparr>) (
     add_to_individual \<lparr>uri = getJournalUri pid,
       props = [(''v-s:childRecord'', uriv (ju @ ''-psr''))]\<rparr>)))))))))"

definition sent_form :: "string \<Rightarrow> individual \<Rightarrow> individual" where
  "sent_form pu document =
     set_prop ''v-wf:isProcess'' (opt_vals (pget document ''v-wf:isProcess'') @ uriv pu)
       (set_prop ''v-wf:hasStartForm'' (uriv (uri document))
         (set_prop ''v-wf:hasStatusWorkflow'' (uriv ''v-wf:IsSent'') document))"

definition start_rights :: "jdata \<Rightarrow> string \<Rightarrow> unit js" where
  "start_rights author_uri pu = (js_seq (js_when (truthy author_uri)
       (addRight author_uri (DStr pu) [''v-s:canRead'', ''v-s:canUpdate'', ''v-s:canDelete''] [])) (
     addRight (DStr ''v-wf:WorkflowReadUser'') (DStr pu) [''v-s:canRead''] []))"

definition prepare_start_form :: "hooks \<Rightarrow> individual \<Rightarrow> unit js" where
  "prepare_start_form h document0 = js_func (js_bind (processed_document document0) (\<lambda>(document, pid, pv).
     let isTrace = (pget document ''v-wf:isTrace'' \<noteq> None
                    \<and> loose_eq (getFirstValue (pget document ''v-wf:isTrace'')) (DBool True)) in
     js_seq (js_when (\<not> loose_eq (getUri (pget document ''v-wf:hasStatusWorkflow'')) (DStr ''v-wf:ToBeSent''))
       js_return) (
     js_seq (js_when (pget document ''v-wf:isProcess'' \<noteq> None) js_return) (
     js_seq (js_when (hasValue (Some document) ''v-wf:processedDocument'' None)
       (addToGroup (getUri (pget document ''v-wf:processedDocument'')) (DStr (uri document))
         [''v-s:canRead''] [])) (
     js_bind (genUri) (\<lambda>u.
     let pu = u @ ''-prs'' in
     js_bind (form_author document) (\<lambda>author_uri.
     js_bind (get_individual (getUri (pget document ''v-wf:forNet''))) (\<lambda>onet.
     js_bind (some_or_return onet) (\<lambda>net.
     js_bind (process_variables h document pu) (\<lambda>new_vars.
     js_seq (start_process document net isTrace pu new_vars pid) (
     js_seq (start_journals document net pu pid pv) (
     js_seq (put_individual (sent_form pu document)) (
     start_rights author_uri pu)))))))))))))"

section \<open>The event scripts that call the handlers (veda-workflow.ttl)\<close>

definition event_df1 :: "hooks \<Rightarrow> string option \<Rightarrow> individual \<Rightarrow> unit js" where
  "event_df1 h parent_script_id document =
     js_when ((parent_script_id = None \<or> has_true document ''v-wf:fromShedulerScript'')
              \<and> has_uri document ''v-wf:hasStatusWorkflow'' ''v-wf:ToBeSent'')
       (prepare_start_form h document)"

definition wf_event :: "string list \<Rightarrow> string option \<Rightarrow> bool" where
  "wf_event names parent_script_id =
     (case parent_script_id of None \<Rightarrow> False | Some s \<Rightarrow> s \<in> set names)"

definition df1_5 :: "string list" where
  "df1_5 = [''v-wf:event_df1'', ''v-wf:event_df2'', ''v-wf:event_df3'', ''v-wf:event_df4'',
            ''v-wf:event_df5'']"

definition event_df2 :: "string option \<Rightarrow> individual \<Rightarrow> unit js" where
  "event_df2 parent_script_id document =
     js_when (\<not> has_true document ''v-s:deleted'' \<and> \<not> has_true document ''v-wf:isStopped''
              \<and> wf_event df1_5 parent_script_id)
       (prepare_process document)"

definition event_df3 :: "hooks \<Rightarrow> string option \<Rightarrow> individual \<Rightarrow> unit js" where
  "event_df3 h parent_script_id document =
     js_when (\<not> has_true document ''v-s:deleted'' \<and> wf_event (butlast df1_5) parent_script_id)
       (prepare_work_item h document)"

definition event_df4 :: "hooks \<Rightarrow> string option \<Rightarrow> individual \<Rightarrow> unit js" where
  "event_df4 h parent_script_id document =
     js_when (has_true document ''v-wf:enforceProcessing''
              \<or> wf_event df1_5 parent_script_id \<and> \<not> has_true document ''v-s:deleted'')
       (prepare_work_order h document)"

definition event_df5 :: "hooks \<Rightarrow> individual \<Rightarrow> individual option \<Rightarrow> unit js" where
  "event_df5 h document prev_state =
     js_when (\<not> has_true document ''v-s:deleted'') (prepare_decision_form h document prev_state)"

section \<open>Frame\<close>

context host_rel
begin

lemma group_frame [js_frame]: "keeps R (addToGroup g r a d)" "keeps R (removeFromGroup g r)"
  unfolding addToGroup_def removeFromGroup_def by (intro js_frame)+

lemma prepare_process_frame: "keeps R (prepare_process d)"
  unfolding prepare_process_def net_variable_def first_input_def by (intro js_frame)

lemma form_error_frame [js_frame]: "keeps R (form_error m d)" "keeps R (or_form_error x m d)"
proof -
  show 1: "keeps R (form_error m d)" for m d
    unfolding form_error_def by (intro js_frame)
  show "keeps R (or_form_error x m d)"
    unfolding or_form_error_def by (cases x) (auto intro!: js_frame 1)
qed

lemma keep_decision_frame [js_frame]: "keeps R (keep_decision d p)"
  unfolding keep_decision_def restore_decision_def by (intro js_frame)

lemma process_form_frame:
  assumes "hooks_keep R h"
  shows "keeps R (process_form h d)"
proof -
  note hk = hook_frames [OF assms]
  have 1: "keeps R (complete_form h d wo wi p ne t)" for d wo wi p ne t
    unfolding complete_form_def by (intro js_frame hk)
  show ?thesis
    unfolding process_form_def flag_loosely_true_def by (intro js_frame 1)
qed

lemma prepare_decision_form_frame: "hooks_keep R h \<Longrightarrow> keeps R (prepare_decision_form h d p)"
  unfolding prepare_decision_form_def by (intro js_frame process_form_frame)

lemma prepare_start_form_frame:
  assumes "hooks_keep R h"
  shows "keeps R (prepare_start_form h d)"
proof -
  note hk = hook_frames [OF assms]
  have 1: "keeps R (processed_document d)" for d
    unfolding processed_document_def by (intro js_frame)
  have 2: "keeps R (form_author d)" for d
    unfolding form_author_def by (intro js_frame)
  have 3: "keeps R (process_variables h d pu)" for d pu
    unfolding process_variables_def by (intro js_frame hk)
  have 4: "keeps R (start_process d n t pu nv pid)" for d n t pu nv pid
    unfolding start_process_def by (intro js_frame)
  have 5: "keeps R (start_journals d n pu pid pv)" for d n pu pid pv
    unfolding start_journals_def by (intro js_frame)
  have 6: "keeps R (start_rights a pu)" for a pu
    unfolding start_rights_def by (intro js_frame)
  show ?thesis
    unfolding prepare_start_form_def by (intro js_frame 1 2 3 4 5 6)
qed

lemma event_frames:
  assumes "hooks_keep R h"
  shows "keeps R (event_df1 h ps d)" "keeps R (event_df2 ps d)" "keeps R (event_df3 h ps d)"
    "keeps R (event_df4 h ps d)" "keeps R (event_df5 h d prev)"
  unfolding event_df1_def event_df2_def event_df3_def event_df4_def event_df5_def
  by (intro js_frame prepare_start_form_frame prepare_process_frame prepare_work_item_frame
      prepare_work_order_frame prepare_decision_form_frame assms)+

end

end
