(* ===== verification/Run_Facts.thy ===== *)
theory Run_Facts
  imports Process_Start
begin

text \<open>
  Facts for running programs: what a read returns after a write, how the storage normalises
  the values the code writes, and rules that push a concrete run through the monad.
\<close>

named_theorems js_run \<open>evaluation of one statement in a world\<close>

section \<open>Reads and writes\<close>

text \<open>A URI that the host looks up in the transaction or the storage.\<close>

definition plain :: "string \<Rightarrow> bool" where
  "plain u \<longleftrightarrow> u \<noteq> [] \<and> u \<noteq> ''undefined'' \<and> \<not> starts_with ''$'' u"

lemma plain_nonempty: "plain u \<Longrightarrow> u \<noteq> []"
  by (simp add: plain_def)

lemma lookup_plain: "plain u \<Longrightarrow> lookup w (DStr u) = store w u"
  by (simp add: plain_def lookup_def get_id_def)

text \<open>The keys of a JavaScript object are distinct.\<close>

definition wf_ind :: "individual \<Rightarrow> bool" where
  "wf_ind i \<longleftrightarrow> distinct (map fst (props i))"

definition norm_prop :: "world \<Rightarrow> val list option \<Rightarrow> val list option" where
  "norm_prop w pv =
     (case pv of None \<Rightarrow> None
      | Some vs \<Rightarrow> if norm_vals w vs = [] then None else Some (norm_vals w vs))"

lemma wf_set_prop [simp]: "wf_ind i \<Longrightarrow> wf_ind (set_prop k vs i)"
  by (simp add: wf_ind_def set_prop_def distinct_update)

lemma wf_del_prop [simp]: "wf_ind i \<Longrightarrow> wf_ind (del_prop k i)"
  by (simp add: wf_ind_def del_prop_def distinct_delete)

lemma oget_filter_snd:
  "distinct (map fst ob) \<Longrightarrow>
   oget (filter (\<lambda>p. P (snd p)) ob) k
     = (case oget ob k of None \<Rightarrow> None | Some v \<Rightarrow> if P v then Some v else None)"
proof (induction ob)
  case Nil
  then show ?case by simp
next
  case (Cons p ob)
  obtain k' v where p: "p = (k', v)" by (cases p)
  from Cons.prems p have d: "distinct (map fst ob)" and n: "k' \<notin> fst ` set ob" by auto
  from n have "oget ob k' = None" by (simp add: map_of_eq_None_iff)
  from n have "oget (filter (\<lambda>p. P (snd p)) ob) k' = None" by (auto simp: map_of_eq_None_iff)
  with \<open>oget ob k' = None\<close> show ?case
    using Cons.IH [OF d] p by auto
qed

lemma pget_norm_ind: "wf_ind i \<Longrightarrow> pget (norm_ind w i) k = norm_prop w (pget i k)"
proof -
  assume wf: "wf_ind i"
  let ?m = "map (\<lambda>(k, vs). (k, norm_vals w vs)) (props i)"
  have keys: "map fst ?m = map fst (props i)" by (induction "props i") auto
  have "oget (filter (\<lambda>p. snd p \<noteq> []) ?m) k =
      (case oget ?m k of None \<Rightarrow> None | Some v \<Rightarrow> if v \<noteq> [] then Some v else None)"
    by (rule oget_filter_snd) (use wf in \<open>simp only: wf_ind_def keys\<close>)
  then show ?thesis
    by (simp add: norm_ind_def norm_prop_def oget_map_snd split: option.splits)
qed

lemma norm_vals_simps [simp]:
  "norm_vals w [] = []"
  "norm_vals w (v # vs) = (case norm_val w v of None \<Rightarrow> norm_vals w vs | Some x \<Rightarrow> x # norm_vals w vs)"
  "norm_vals w (us @ vs) = norm_vals w us @ norm_vals w vs"
  by (simp_all add: norm_vals_def split: option.splits)

lemma norm_val_simps [simp]:
  "norm_val w (mkv TUri d) = Some (mkv TUri (DStr (js_str (date_str w) d)))"
  "norm_val w (mkv TString d) = Some (mkv TString (DStr (js_str (date_str w) d)))"
  "norm_val w (mkv TBoolean (DBool b)) = Some (mkv TBoolean (DBool b))"
  "norm_val w (mkv TBoolean (DStr s)) = None"
  "norm_val w (mkv TInteger (DNum i)) = Some (mkv TInteger (DNum i))"
  "norm_val w (mkv TDatetime (DDate t)) = Some (mkv TDatetime (DDate (trunc_div t 1000 * 1000)))"
  "norm_val w (mkv TDatetime (DNum i)) = Some (mkv TDatetime (DDate (i * 1000)))"
  by (simp_all add: norm_val_def norm_data_def mkv_def norm_lang_def)

lemma norm_uriv [simp]: "norm_vals w (uriv s) = uriv s"
  by (simp add: newUri_def)

lemma norm_boolv [simp]: "norm_vals w (boolv b) = boolv b"
  by (simp add: newBool_def)

lemma newX_nonempty [simp]:
  "newUri u \<noteq> []" "newBool b \<noteq> []" "newDate d \<noteq> []" "newInt d \<noteq> []"
  by (simp_all add: newUri_def newBool_def newDate_def newInt_def)

lemma norm_prop_simps [simp]:
  "norm_prop w None = None" "norm_prop w (Some []) = None"
  "norm_prop w (Some (uriv s)) = Some (uriv s)"
  "norm_prop w (Some (boolv b)) = Some (boolv b)"
  by (simp_all add: norm_prop_def)

text \<open>Values that come back from the storage as they were.\<close>

definition stored_vals :: "world \<Rightarrow> val list \<Rightarrow> bool" where
  "stored_vals w vs \<longleftrightarrow> vs \<noteq> [] \<and> norm_vals w vs = vs"

lemma norm_prop_stored: "stored_vals w vs \<Longrightarrow> norm_prop w (Some vs) = Some vs"
  by (simp add: stored_vals_def norm_prop_def)

lemma stored_vals_simps [simp]:
  "stored_vals w (uriv s)" "stored_vals w (boolv b)"
  by (simp_all add: stored_vals_def)

lemma stored_append: "stored_vals w us \<Longrightarrow> stored_vals w vs \<Longrightarrow> stored_vals w (us @ vs)"
  by (simp add: stored_vals_def)

lemma store_do_put:
  "store (do_put i w) = (if uri i = [] then store w else (store w)(uri i \<mapsto> norm_ind w i))"
  by (simp add: do_put_def add_item_def)

lemma queue_do_put:
  "queue (do_put i w) = (if uri i = [] then queue w else queue w @ [(OpPut, norm_ind w i)])"
  by (simp add: do_put_def add_item_def)

lemma do_put_env [simp]:
  "now (do_put i w) = now w" "nguid (do_put i w) = nguid w" "guid_of (do_put i w) = guid_of w"
  "date_str (do_put i w) = date_str w" "parse_dt (do_put i w) = parse_dt w"
  "parse_dec (do_put i w) = parse_dec w" "gvars (do_put i w) = gvars w" "errs (do_put i w) = errs w"
  "stack_max (do_put i w) = stack_max w" "stack_of (do_put i w) = stack_of w"
  by (simp_all add: do_put_def add_item_def)

lemma next_guid_simps [simp]:
  "store (next_guid w) = store w" "queue (next_guid w) = queue w" "nguid (next_guid w) = Suc (nguid w)"
  "guid_of (next_guid w) = guid_of w" "now (next_guid w) = now w" "date_str (next_guid w) = date_str w"
  "gvars (next_guid w) = gvars w" "errs (next_guid w) = errs w"
  "parse_dt (next_guid w) = parse_dt w" "parse_dec (next_guid w) = parse_dec w"
  "stack_max (next_guid w) = stack_max w" "stack_of (next_guid w) = stack_of w"
  by (simp_all add: next_guid_def)

lemma log_err_simps [simp]:
  "store (log_err e w) = store w" "queue (log_err e w) = queue w" "nguid (log_err e w) = nguid w"
  "guid_of (log_err e w) = guid_of w" "now (log_err e w) = now w" "errs (log_err e w) = errs w @ [e]"
  by (simp_all add: log_err_def)

lemma norm_same_env:
  "date_str w' = date_str w \<Longrightarrow> parse_dt w' = parse_dt w \<Longrightarrow> parse_dec w' = parse_dec w \<Longrightarrow>
   norm_vals w' = norm_vals w \<and> norm_ind w' = norm_ind w"
proof -
  assume e: "date_str w' = date_str w" "parse_dt w' = parse_dt w" "parse_dec w' = parse_dec w"
  have 1: "norm_data w' = norm_data w" by (intro ext) (unfold norm_data_def e, rule refl)
  have 2: "norm_val w' = norm_val w" by (intro ext) (simp add: norm_val_def 1)
  have "norm_vals w' = norm_vals w" by (intro ext) (simp add: norm_vals_def 2)
  then show ?thesis by (simp add: fun_eq_iff norm_ind_def)
qed

lemma norm_do_put [simp]:
  "norm_ind (do_put i w) = norm_ind w" "norm_vals (do_put i w) = norm_vals w"
  "norm_ind (next_guid w) = norm_ind w" "norm_vals (next_guid w) = norm_vals w"
  using norm_same_env [of "do_put i w" w] norm_same_env [of "next_guid w" w] by simp_all

section \<open>Running\<close>

lemma run_bind [js_run]:
  "js_bind m f w =
     (case m w of (Val x, w') \<Rightarrow> f x w' | (Ret, w') \<Rightarrow> (Ret, w') | (Throw e, w') \<Rightarrow> (Throw e, w')
      | (Hang, w') \<Rightarrow> (Hang, w'))"
  by (simp add: js_bind_def)

lemma run_seq [js_run]:
  "js_seq m n w =
     (case m w of (Val x, w') \<Rightarrow> n w' | (Ret, w') \<Rightarrow> (Ret, w') | (Throw e, w') \<Rightarrow> (Throw e, w')
      | (Hang, w') \<Rightarrow> (Hang, w'))"
  by (simp add: js_seq_def js_bind_def)

lemma run_basic [js_run]:
  "js_ret x w = (Val x, w)" "js_return w = (Ret, w)" "js_throw e w = (Throw e, w)"
  "get_individual d w = (Val (lookup w d), w)" "put_individual i w = (Val (), do_put i w)"
  "add_to_individual i w = (Val (), do_update OpAddTo i w)"
  "set_in_individual i w = (Val (), do_update OpSetIn i w)"
  "remove_from_individual i w = (Val (), do_update OpRemoveFrom i w)"
  "new_Date w = (Val (DDate (now w)), w)" "to_str d w = (Val (js_str (date_str w) d), w)"
  "genUri w = (Val (uri_of_guid (guid_of w (nguid w))), next_guid w)"
  "js_ask q w = (Val (q w), w)"
  "js_some (Some y) w = (Val y, w)" "js_some None w = (Throw TypeError, w)"
  "some_or_return (Some y) w = (Val y, w)" "some_or_return None w = (Ret, w)"
  "data0 (Some (v # vs)) w = (Val (vdata v), w)" "data0 None w = (Throw TypeError, w)"
  "data0 (Some []) w = (Throw TypeError, w)"
  "js_when True m w = m w" "js_when False m w = (Val (), w)"
  "trace_if None l d w = (Val (), w)"
  "js_fold f a [] w = (Val a, w)" "js_fold_break g a [] w = (Val a, w)"
  "js_for [] k w = (Val (), w)"
  by (simp_all add: js_defs genUri_def some_or_return_def trace_if_def)

lemma run_fold_Cons [js_run]:
  "js_fold f a (x # xs) w = js_bind (f a x) (\<lambda>a'. js_fold f a' xs) w"
  "js_for (x # xs) k w = js_seq (k x) (js_for xs k) w"
  "js_fold_break g a (x # xs) w =
     js_bind (g a x) (\<lambda>(a', go). if go then js_fold_break g a' xs else js_ret a') w"
  by (simp_all add: js_for_def js_seq_def)

lemma run_control [js_run]:
  "js_func m w = (case m w of (Throw e, w') \<Rightarrow> (Throw e, w') | (Hang, w') \<Rightarrow> (Hang, w')
                  | (r, w') \<Rightarrow> (Val (), w'))"
  "js_try m' w = (case m' w of (Throw e, w') \<Rightarrow> (Val (), log_err e w') | r \<Rightarrow> r)"
  "js_catch m h w = (case m w of (Throw e, w') \<Rightarrow> h (log_err e w') | r \<Rightarrow> r)"
  "js_handle m hh w = (case m w of (Throw e, w') \<Rightarrow> hh e w' | r \<Rightarrow> r)"
  by (simp_all add: js_defs split: prod.splits res.splits)

lemma flag_run [js_run]:
  "flag_is_true None w = (Val False, w)"
  "flag_is_true (Some (v # vs)) w = (Val (vdata v = DBool True), w)"
  by (simp_all add: flag_is_true_def js_run)

text \<open>An untraced element has no trace journal.\<close>

definition untraced :: "individual \<Rightarrow> bool" where
  "untraced i \<longleftrightarrow>
     pget i ''v-wf:isTrace'' = None \<or> loose_eq (getFirstValue (pget i ''v-wf:isTrace'')) (DBool False)"

lemma untraced_run [js_run]:
  "untraced i \<Longrightarrow> create_new_trace_subjournal pu i l jt w = (Val None, w)"
  by (auto simp: untraced_def create_new_trace_subjournal_def js_run Let_def)

lemma uris_text_run [js_run]: "\<exists>s. uris_text vs w = (Val s, w)"
  by (simp add: uris_text_def js_run)

text \<open>A program whose frame is known either way.\<close>

lemma keepsD: "keeps R m \<Longrightarrow> m w = (r, w') \<Longrightarrow> R w w'"
  by (metis keeps_def snd_conv)

section \<open>Programs that raise nothing\<close>

text \<open>\<open>js_try\<close> at the top of a handler contains every exception.\<close>

definition contains_errors :: "'a js \<Rightarrow> bool" where
  "contains_errors m \<longleftrightarrow> (\<forall>w e. fst (m w) \<noteq> Throw e)"

lemma contains_try: "contains_errors (js_func (js_try m))"
  by (auto simp: contains_errors_def js_run split: prod.splits res.splits)

lemma contains_when: "contains_errors m \<Longrightarrow> contains_errors (js_when b m)"
  by (cases b) (auto simp: contains_errors_def js_run)

end
