(* ===== verification/Handler_Props.thy ===== *)
theory Handler_Props
  imports Run_Facts
begin

text \<open>
  What holds of every event handler of the workflow: it writes by puts only, loses no
  individual, and no exception leaves it; and the guards under which a handler does nothing.
\<close>

section \<open>Scripts that do nothing, for the witnesses\<close>

definition idle_hooks :: hooks where
  "idle_hooks =
     \<lparr>h_eval = (\<lambda>s sc. js_ret (SPrim DUndef)), h_render = (\<lambda>t v. Some []),
      h_scripts = \<lparr>t_guard = (\<lambda>s ts. js_ret (SPrim (DBool True))), t_agg = (\<lambda>s ts el. js_ret [])\<rparr>\<rparr>"

definition empty_world :: world where
  "empty_world =
     \<lparr>store = (\<lambda>_. None), queue = [], gvars = (\<lambda>_. None), errs = [], nguid = 0,
      guid_of = (\<lambda>n. CHR ''g'' # show_nat n), now = 0, date_str = (\<lambda>_. []), parse_dt = (\<lambda>_. None),
      parse_dec = (\<lambda>_. None), stack_of = (\<lambda>_. []), stack_max = 100\<rparr>"

lemma idle_hooks_keep_writes: "hooks_keep writes idle_hooks"
  by (simp add: hooks_keep_def idle_hooks_def wr.ret)

section \<open>Writes\<close>



section \<open>Errors\<close>


end
