(* ===== verification/Workflow_Props.thy ===== *)
theory Workflow_Props
  imports Handler_Props
begin

text \<open>
  Functional behaviour of the workflow handlers: which of them do nothing and when, the AND join,
  the collection of results, the flows that a finished task follows, the orders of a task, and
  the protection of a taken decision.
\<close>

section \<open>A net for the witnesses\<close>

text \<open>
  Two tasks whose flows meet in an AND join; the first has sent its work item to the join.
\<close>

definition world_of :: "individual list \<Rightarrow> world" where
  "world_of is = empty_world\<lparr>store := map_of (map (\<lambda>i. (uri i, i)) is), stack_max := 5\<rparr>"

definition flow_ex :: "string \<Rightarrow> individual" where
  "flow_ex u = \<lparr>uri = u, props = [(''rdf:type'', uriv ''v-wf:Flow''), (''v-wf:flowsInto'', uriv ''d:e'')]\<rparr>"

definition task_ex :: "string \<Rightarrow> string \<Rightarrow> individual" where
  "task_ex u f = \<lparr>uri = u, props = [(''rdf:type'', uriv ''v-wf:Task''), (''v-wf:hasFlow'', uriv f)]\<rparr>"

definition join_ex :: individual where
  "join_ex = \<lparr>uri = ''d:e'', props = [(''rdf:type'', uriv ''v-wf:Task''), (''v-wf:join'', uriv ''v-wf:AND'')]\<rparr>"

definition net_ex :: individual where
  "net_ex = \<lparr>uri = ''d:n'', props = [(''v-wf:consistsOf'',
     uriv ''d:f1'' @ uriv ''d:f2'' @ uriv ''d:t1'' @ uriv ''d:t2'' @ uriv ''d:e'')]\<rparr>"

definition process_ex :: individual where
  "process_ex = \<lparr>uri = ''d:p'', props = [(''v-wf:instanceOf'', uriv ''d:n''), (''v-wf:workItemList'', uriv ''d:w1'')]\<rparr>"

definition done_item_ex :: individual where
  "done_item_ex = \<lparr>uri = ''d:w1'', props = [(''v-wf:forProcess'', uriv ''d:p''), (''v-wf:forNetElement'', uriv ''d:t1''),
     (''v-wf:isCompleted'', boolv True), (''v-wf:workItemList'', uriv ''d:w'')]\<rparr>"

definition item_ex :: individual where
  "item_ex = \<lparr>uri = ''d:w'', props = [(''v-wf:forProcess'', uriv ''d:p''), (''v-wf:forNetElement'', uriv ''d:e'')]\<rparr>"

definition join_world :: world where
  "join_world = world_of [flow_ex ''d:f1'', flow_ex ''d:f2'', task_ex ''d:t1'' ''d:f1'', task_ex ''d:t2'' ''d:f2'',
     join_ex, net_ex, process_ex, done_item_ex, item_ex]"

lemmas join_world_defs = join_world_def world_of_def flow_ex_def task_ex_def join_ex_def net_ex_def
  process_ex_def done_item_ex_def item_ex_def

lemma lookup_world_of:
  "plain u \<Longrightarrow> lookup (world_of is) (DStr u) = map_of (map (\<lambda>i. (uri i, i)) is) u"
  by (simp add: lookup_plain world_of_def)

lemma join_lookups [simp]:
  "lookup join_world (DStr ''d:f1'') = Some (flow_ex ''d:f1'')"
  "lookup join_world (DStr ''d:f2'') = Some (flow_ex ''d:f2'')"
  "lookup join_world (DStr ''d:t1'') = Some (task_ex ''d:t1'' ''d:f1'')"
  "lookup join_world (DStr ''d:t2'') = Some (task_ex ''d:t2'' ''d:f2'')"
  "lookup join_world (DStr ''d:e'') = Some join_ex"
  "lookup join_world (DStr ''d:n'') = Some net_ex"
  "lookup join_world (DStr ''d:p'') = Some process_ex"
  "lookup join_world (DStr ''d:w1'') = Some done_item_ex"
  "lookup join_world (DStr ''d:w'') = Some item_ex"
  unfolding join_world_def
  by (simp_all add: lookup_world_of plain_def flow_ex_def task_ex_def join_ex_def net_ex_def
      process_ex_def done_item_ex_def item_ex_def)

section \<open>Items that are done, joins that wait\<close>

lemma run_some_or_return [js_run]:
  "x = Some y \<Longrightarrow> some_or_return x w = (Val y, w)"
  by (simp add: js_run)

text \<open>What the handler of a work item finds: its process, net and net element.\<close>

definition item_context :: "world \<Rightarrow> individual \<Rightarrow> individual \<Rightarrow> individual \<Rightarrow> individual \<Rightarrow> bool" where
  "item_context w d p n e \<longleftrightarrow>
     lookup w (getUri (pget d ''v-wf:forProcess'')) = Some p
     \<and> lookup w (getUri (pget p ''v-wf:instanceOf'')) = Some n
     \<and> lookup w (getUri (pget d ''v-wf:forNetElement'')) = Some e"

text \<open>The handler of a work item never runs a completed item again: whatever the scripts and the
  net element are, without a trace it does nothing but the removal of an empty journal branch
  from the parent journal.\<close>

lemma completed_item_not_run:
  assumes "item_context w d p n e"
    and "pget d ''v-wf:isCompleted'' = Some (v # vs)" and "vdata v = DBool True"
    and "pget p ''v-wf:isTrace'' = None" and "pget d ''v-wf:isTrace'' = None"
  shows "prepare_work_item h d w
    = (case remove_empty_branches_from_journal (getJournalUri (uri d)) w of
         (Throw x, w') \<Rightarrow> (Val (), log_err x w') | (Hang, w') \<Rightarrow> (Hang, w') | (r, w') \<Rightarrow> (Val (), w'))"
proof -
  obtain r w' where rm: "remove_empty_branches_from_journal (getJournalUri (uri d)) w = (r, w')"
    by (cases "remove_empty_branches_from_journal (getJournalUri (uri d)) w")
  show ?thesis
    using assms rm
    by (cases r) (simp_all add: prepare_work_item_def item_context_def js_run wi_already_completed_def
      get_trace_journal_def Let_def)
qed

lemma context_ex: "item_context join_world item_ex process_ex net_ex join_ex"
  by (simp add: item_context_def item_ex_def process_ex_def)

lemma completed_item_not_run_witness:
  "prepare_work_item idle_hooks (set_prop ''v-wf:isCompleted'' (boolv True) item_ex) join_world = (Val (), join_world)"
proof -
  let ?d = "set_prop ''v-wf:isCompleted'' (boolv True) item_ex"
  have "remove_empty_branches_from_journal (getJournalUri (uri ?d)) join_world = (Val (), join_world)"
    by (simp add: remove_empty_branches_from_journal_def js_run getJournalUri_def join_world_defs lookup_def
        get_id_def empty_world_def)
  moreover have "item_context join_world ?d process_ex net_ex join_ex"
    using context_ex by (simp add: item_context_def)
  moreover have "pget ?d ''v-wf:isCompleted'' = Some (mkv TBoolean (DBool True) # [])"
    by (simp add: newBool_def)
  ultimately show ?thesis
    using completed_item_not_run [of join_world ?d process_ex net_ex join_ex "mkv TBoolean (DBool True)" "[]" idle_hooks]
    by (simp add: process_ex_def item_ex_def)
qed

text \<open>The net as the AND join reads it: the flows into the element and the task each flow leaves.\<close>

definition scan_net :: "world \<Rightarrow> string \<Rightarrow> individual list \<times> string obj \<Rightarrow> val \<Rightarrow> individual list \<times> string obj" where
  "scan_net w element_uri st v =
     (case lookup w (vdata v) of
        None \<Rightarrow> st
      | Some e \<Rightarrow>
          if has_uri e ''rdf:type'' ''v-wf:Flow''
          then (if loose_eq (getUri (pget e ''v-wf:flowsInto'')) (DStr element_uri)
                then (fst st @ [e], snd st) else st)
          else if has_uri e ''rdf:type'' ''v-wf:Task''
          then (fst st, foldl (\<lambda>m f. oset (js_str (date_str w) (vdata f)) (uri e) m) (snd st)
                 (opt_vals (pget e ''v-wf:hasFlow'')))
          else st)"

lemma scan_net_run: "js_fold (scan_element u) st vs w = (Val (foldl (scan_net w u) st vs), w)"
proof -
  have 1: "js_fold (\<lambda>m f. js_bind (to_str (vdata f)) (\<lambda>k. js_ret (oset k (uri e) m))) m fs w
      = (Val (foldl (\<lambda>m f. oset (js_str (date_str w) (vdata f)) (uri e) m) m fs), w)" for e m fs
    by (induction fs arbitrary: m) (simp_all add: js_run)
  have 2: "scan_element u st v w = (Val (scan_net w u st v), w)" for st v
    unfolding scan_element_def scan_net_def by (simp add: js_run 1 split: option.splits)
  show ?thesis by (induction vs arbitrary: st) (simp_all add: js_run 2)
qed

lemma match_flow_True:
  "match_flow t fne = Some True \<Longrightarrow>
   \<exists>x \<in> set fne. pget (snd x) ''v-s:isExecuted'' = None
     \<and> loose_eq t (getUri (pget (fst x) ''v-wf:forNetElement''))"
  by (induction fne) (auto split: if_splits)

lemma count_flows_le: "count_flows t2f fs fne = Some n \<Longrightarrow> n \<le> length fs"
  by (induction fs arbitrary: n) (force split: option.splits if_splits)+

lemma count_flows_all:
  "count_flows t2f fs fne = Some (length fs) \<Longrightarrow> f \<in> set fs \<Longrightarrow> match_flow (out_task t2f f) fne = Some True"
proof (induction fs)
  case Nil
  then show ?case by simp
next
  case (Cons g fs)
  then show ?case by (auto split: option.splits if_splits dest: count_flows_le)
qed

text \<open>C4: An AND join does not fire early. As long as for some flow of the net into the element no
  work item of the process is found that comes from the task of this flow and is not yet
  executed, the handler of the work item changes nothing, whatever the net's scripts are.\<close>

theorem and_join_waits:
  assumes "item_context w d p n e" and "untraced d" and "pget d ''v-wf:isCompleted'' = None"
    and "getUri (pget e ''v-wf:join'') = DStr ''v-wf:AND''"
    and "pget p ''v-wf:workItemList'' = Some wl"
    and "rsffiwit (stack_max w) w wl ''v-wf:forNetElement'' (getUri (pget d ''v-wf:forNetElement'')) p
         = Some (fs, [])"
    and "foldl (scan_net w (uri e)) ([], []) (opt_vals (pget n ''v-wf:consistsOf'')) = (flows, t2f)"
    and "f \<in> set flows"
    and "\<forall>x \<in> set fs. pget (snd x) ''v-s:isExecuted'' = None \<longrightarrow>
           \<not> loose_eq (out_task t2f f) (getUri (pget (fst x) ''v-wf:forNetElement''))"
  shows "prepare_work_item h d w = (Val (), w)"
proof -
  have "\<not> join_complete t2f flows fs"
    using count_flows_all [of t2f flows fs f] match_flow_True assms(8,9)
    unfolding join_complete_def by metis
  then have "and_join p n e (getUri (pget d ''v-wf:forNetElement'')) w = (Ret, w)"
    using assms(4-7)
    by (simp add: and_join_def run_bind scan_net_run find_in_work_item_tree_def js_log_def run_basic run_seq)
  then show ?thesis
    using assms(1-3) by (simp add: prepare_work_item_def item_context_def js_run uris_text_def Let_def)
qed

lemma types_ex [simp]:
  "has_uri (flow_ex u) ''rdf:type'' ''v-wf:Flow''" "\<not> has_uri (task_ex u f) ''rdf:type'' ''v-wf:Flow''"
  "has_uri (task_ex u f) ''rdf:type'' ''v-wf:Task''" "\<not> has_uri join_ex ''rdf:type'' ''v-wf:Flow''"
  "has_uri join_ex ''rdf:type'' ''v-wf:Task''"
  by (simp_all add: has_uri_iff flow_ex_def task_ex_def join_ex_def newUri_def)

lemma scan_steps:
  "scan_net join_world ''d:e'' st (mkv TUri (DStr ''d:f1'')) = (fst st @ [flow_ex ''d:f1''], snd st)"
  "scan_net join_world ''d:e'' st (mkv TUri (DStr ''d:f2'')) = (fst st @ [flow_ex ''d:f2''], snd st)"
  "scan_net join_world ''d:e'' st (mkv TUri (DStr ''d:t1'')) = (fst st, oset ''d:f1'' ''d:t1'' (snd st))"
  "scan_net join_world ''d:e'' st (mkv TUri (DStr ''d:t2'')) = (fst st, oset ''d:f2'' ''d:t2'' (snd st))"
  "scan_net join_world ''d:e'' st (mkv TUri (DStr ''d:e'')) = st"
  unfolding scan_net_def
  by (simp_all) (simp_all add: flow_ex_def task_ex_def join_ex_def newUri_def opt_vals_def)

lemma scan_ex:
  "foldl (scan_net join_world (uri join_ex)) ([], []) (opt_vals (pget net_ex ''v-wf:consistsOf''))
     = ([flow_ex ''d:f1'', flow_ex ''d:f2''], [(''d:f1'', ''d:t1''), (''d:f2'', ''d:t2'')])"
proof -
  have "uri join_ex = ''d:e''" by (simp add: join_ex_def)
  moreover have "opt_vals (pget net_ex ''v-wf:consistsOf'') = map (\<lambda>u. mkv TUri (DStr u))
      [''d:f1'', ''d:f2'', ''d:t1'', ''d:t2'', ''d:e'']"
    by (simp add: net_ex_def newUri_def opt_vals_def)
  ultimately show ?thesis by (simp add: scan_steps)
qed

lemma tree_ex:
  "rsffiwit (stack_max join_world) join_world (uriv ''d:w1'') ''v-wf:forNetElement'' (DStr ''d:e'') process_ex
     = Some ([(done_item_ex, item_ex)], [])"
proof -
  have "stack_max join_world = Suc (Suc (Suc (Suc (Suc 0))))" by (simp add: join_world_def world_of_def)
  then show ?thesis by (simp add: newUri_def) (simp add: done_item_ex_def item_ex_def newUri_def)
qed

theorem and_join_waits_witness: "prepare_work_item idle_hooks item_ex join_world = (Val (), join_world)"
  by (rule and_join_waits [OF context_ex, of "uriv ''d:w1''" "[(done_item_ex, item_ex)]"
        "[flow_ex ''d:f1'', flow_ex ''d:f2'']" "[(''d:f1'', ''d:t1''), (''d:f2'', ''d:t2'')]" "flow_ex ''d:f2''"])
    (use scan_ex tree_ex in \<open>simp_all add: untraced_def item_ex_def join_ex_def process_ex_def out_task_def
       flow_ex_def done_item_ex_def\<close>)

abbreviation found_element :: "found \<Rightarrow> jdata" where
  "found_element x \<equiv> getUri (pget (fst x) ''v-wf:forNetElement'')"

abbreviation found_open :: "found \<Rightarrow> bool" where
  "found_open x \<equiv> pget (snd x) ''v-s:isExecuted'' = None"

text \<open>Every flow of a complete join has its item; with different tasks the choice is one to one.\<close>

lemma join_choice:
  assumes "join_complete t2f flows fne"
    and "\<forall>f \<in> set flows. \<exists>s. out_task t2f f = DStr s"
    and "\<forall>x \<in> set fne. \<exists>s. found_element x = DStr s"
  obtains m where "\<And>f. f \<in> set flows \<Longrightarrow> m f \<in> set fne \<and> found_open (m f) \<and> found_element (m f) = out_task t2f f"
proof -
  have "\<exists>x. x \<in> set fne \<and> found_open x \<and> found_element x = out_task t2f f" if f: "f \<in> set flows" for f
  proof -
    obtain x where x: "x \<in> set fne" "found_open x" "loose_eq (out_task t2f f) (found_element x)"
      using count_flows_all [OF _ f, of t2f fne] match_flow_True assms(1) unfolding join_complete_def by metis
    obtain s where "out_task t2f f = DStr s" using assms(2) f by blast
    moreover obtain t where "found_element x = DStr t" using assms(3) x(1) by blast
    ultimately have "found_element x = out_task t2f f" using x(3) by simp
    with x show ?thesis by blast
  qed
  then show ?thesis using that by metis
qed

lemma join_choice_onto:
  assumes "length fne = length flows" and d: "distinct (map (out_task t2f) flows)"
    and m: "\<And>f. f \<in> set flows \<Longrightarrow> m f \<in> set fne \<and> found_element (m f) = out_task t2f f"
  shows "m ` set flows = set fne"
proof -
  have inj: "inj_on m (set flows)"
  proof (rule inj_onI)
    fix f g assume fg: "f \<in> set flows" "g \<in> set flows" "m f = m g"
    then have "out_task t2f f = out_task t2f g" using m [OF fg(1)] m [OF fg(2)] by metis
    with fg(1,2) d show "f = g" by (auto simp: distinct_map dest: inj_onD)
  qed
  have "distinct flows" using d by (simp add: distinct_map)
  then have "card (m ` set flows) = length flows" using inj by (simp add: card_image distinct_card)
  moreover have "card (set fne) \<le> length fne" by (rule card_length)
  moreover have "m ` set flows \<subseteq> set fne" using m by blast
  ultimately show ?thesis using assms(1) by (intro card_seteq) simp_all
qed

text \<open>C3: When an AND join is complete, flows and found work items correspond one to one (if the
  incoming flows leave different tasks): none of the found items is executed, every flow has
  exactly one item from its task, and every item belongs to a flow.\<close>

theorem and_join_exact:
  assumes "join_complete t2f flows fne"
    and "distinct (map (out_task t2f) flows)"
    and "\<forall>f \<in> set flows. \<exists>s. out_task t2f f = DStr s"
    and "\<forall>x \<in> set fne. \<exists>s. found_element x = DStr s"
  shows "(\<forall>x \<in> set fne. found_open x)
    \<and> (\<forall>f \<in> set flows. \<exists>!x. x \<in> set fne \<and> found_element x = out_task t2f f)
    \<and> (\<forall>x \<in> set fne. \<exists>f \<in> set flows. found_element x = out_task t2f f)"
proof -
  obtain m where m: "\<And>f. f \<in> set flows \<Longrightarrow> m f \<in> set fne \<and> found_open (m f) \<and> found_element (m f) = out_task t2f f"
    using join_choice [OF assms(1,3,4)] by blast
  have all: "m ` set flows = set fne"
    by (rule join_choice_onto [OF _ assms(2)]) (use m assms(1) in \<open>auto simp: join_complete_def\<close>)
  have "\<exists>!x. x \<in> set fne \<and> found_element x = out_task t2f f" if f: "f \<in> set flows" for f
  proof (rule ex1I [of _ "m f"])
    show "m f \<in> set fne \<and> found_element (m f) = out_task t2f f" using m [OF f] by blast
  next
    fix y assume y: "y \<in> set fne \<and> found_element y = out_task t2f f"
    then obtain g where g: "g \<in> set flows" "y = m g" using all by blast
    then have "out_task t2f g = out_task t2f f" using y m [OF g(1)] by metis
    then have "g = f" using assms(2) f g(1) by (auto simp: distinct_map dest: inj_onD)
    then show "y = m f" using g by simp
  qed
  moreover have "found_open x \<and> (\<exists>f \<in> set flows. found_element x = out_task t2f f)" if x: "x \<in> set fne" for x
  proof -
    from x obtain f where f: "f \<in> set flows" "x = m f" using all by auto
    with m [OF f(1)] show ?thesis by auto
  qed
  ultimately show ?thesis by simp
qed

theorem and_join_exact_witness:
  "let fne = [(task_ex ''d:w1'' ''d:f1''\<lparr>props := [(''v-wf:forNetElement'', uriv ''d:t1'')]\<rparr>, item_ex)];
       t2f = [(''d:f1'', ''d:t1'')]; flows = [flow_ex ''d:f1'']
   in (\<forall>f \<in> set flows. \<exists>!x. x \<in> set fne \<and> found_element x = out_task t2f f)"
  unfolding Let_def
  by (rule and_join_exact [THEN conjunct2, THEN conjunct1])
    (simp_all add: join_complete_def out_task_def flow_ex_def item_ex_def)

end
