(* ===== verification/Common_Util.thy ===== *)
theory Common_Util
  imports Js_Data "HOL-Library.Word"
begin

text \<open>
  Pure functions of \<^verbatim>\<open>public/js/common/util.js\<close>: the difference and the merge of
  individuals, \<^verbatim>\<open>flatten\<close>, \<^verbatim>\<open>unique\<close>, \<^verbatim>\<open>simpleHash\<close> and \<^verbatim>\<open>areEqual\<close>.
\<close>

section \<open>diff\<close>

text \<open>The three objects of the delta; a different \<open>@\<close> is kept apart from the properties.\<close>

record delta =
  d_added :: "val list obj"
  d_missing :: "val list obj"
  d_differ :: "val list obj"
  d_uri :: "string option"

definition values_differ :: "individual \<Rightarrow> string \<Rightarrow> val list \<Rightarrow> val list \<Rightarrow> bool" where
  "values_differ changed key base_vals changed_vals \<longleftrightarrow>
     \<not> (length base_vals = length changed_vals
        \<and> list_all (\<lambda>v. hasValue (Some changed) key (Some v)) base_vals)"

definition diff :: "individual \<Rightarrow> individual \<Rightarrow> delta" where
  "diff changed base =
     \<lparr>d_added = filter (\<lambda>(k, vs). pget base k = None) (props changed),
      d_missing = filter (\<lambda>(k, vs). pget changed k = None) (props base),
      d_differ = List.map_filter
        (\<lambda>(k, vs). case pget changed k of
             None \<Rightarrow> None
           | Some cs \<Rightarrow> if values_differ changed k vs cs then Some (k, cs) else None) (props base),
      d_uri = (if uri changed = uri base then None else Some (uri changed))\<rparr>"

section \<open>mergeMutualChanges\<close>

text \<open>
  The last loop runs over \<open>highBaseDiff.diff\<close>, a property the delta does not have, so it
  never runs: the values that \<open>high\<close> changed are not merged.
\<close>

definition del_all :: "'v obj \<Rightarrow> 'v obj \<Rightarrow> 'v obj" where
  "del_all ks ob = fold (\<lambda>(k, v) m. odel k m) ks ob"

definition set_all :: "'v obj \<Rightarrow> 'v obj \<Rightarrow> 'v obj" where
  "set_all kvs ob = fold (\<lambda>(k, v) m. oset k v m) kvs ob"

definition merged_props :: "individual \<Rightarrow> individual \<Rightarrow> individual \<Rightarrow> val list obj" where
  "merged_props high low base =
     (let hb = diff high base; lb = diff low base;
          m1 = del_all (d_missing lb) (props base);
          m2 = del_all (d_missing hb) m1;
          m3 = set_all (d_added lb) m2;
          m4 = set_all (d_added hb) m3
      in set_all (d_differ lb) m4)"

record merge_result =
  mr_merged :: individual
  mr_high :: "val list obj"
  mr_low :: "val list obj"

definition mergeMutualChanges :: "individual \<Rightarrow> individual \<Rightarrow> individual \<Rightarrow> merge_result" where
  "mergeMutualChanges high low base =
     \<lparr>mr_merged = \<lparr>uri = (case d_uri (diff low base) of None \<Rightarrow> uri base | Some u \<Rightarrow> u),
                   props = merged_props high low base\<rparr>,
      mr_high = d_differ (diff high low), mr_low = d_differ (diff low high)\<rparr>"

section \<open>flatten\<close>

datatype 'a nest = Leaf 'a | Undef | Nest "'a nest list"

fun nest_size :: "'a nest \<Rightarrow> nat" where
  "nest_size (Leaf a) = 1"
| "nest_size Undef = 1"
| "nest_size (Nest xs) = Suc (sum_list (map nest_size xs))"

text \<open>
  The stack \<open>nodes\<close> is kept with its top at the end, as the array is; the loop stops when it
  is empty or when the popped node is \<open>undefined\<close>.
\<close>

definition nodes_size :: "'a nest list \<Rightarrow> nat" where
  "nodes_size xs = sum_list (map nest_size xs)"

lemma nodes_size_simps [simp]:
  "nodes_size [] = 0" "nodes_size (xs @ ys) = nodes_size xs + nodes_size ys"
  "nodes_size (x # xs) = nest_size x + nodes_size xs"
  by (simp_all add: nodes_size_def)

lemma nest_size_pos: "0 < nest_size x"
  by (cases x) auto

lemma nodes_size_last: "xs \<noteq> [] \<Longrightarrow> nest_size (last xs) + nodes_size (butlast xs) = nodes_size xs"
  by (induction xs rule: rev_induct) auto

function flatten_loop :: "'a nest \<Rightarrow> 'a nest list \<Rightarrow> 'a nest list \<Rightarrow> 'a nest list" where
  "flatten_loop node nodes result =
     (let nodes1 = (case node of Nest xs \<Rightarrow> nodes @ xs | _ \<Rightarrow> nodes);
          result1 = (case node of Nest xs \<Rightarrow> result | _ \<Rightarrow> result @ [node])
      in if nodes1 = [] \<or> last nodes1 = Undef then result1
         else flatten_loop (last nodes1) (butlast nodes1) result1)"
  by pat_completeness auto

termination
proof (relation "measure (\<lambda>(node, nodes, result). nest_size node + nodes_size nodes)", simp, goal_cases)
  case (1 node nodes result nodes1 result1)
  then have ne: "nodes1 \<noteq> []" by auto
  have "nodes_size nodes1 < nest_size node + nodes_size nodes"
    using 1(1) nest_size_pos [of node] by (cases node) (auto simp: nodes_size_def)
  then show ?case using nodes_size_last [OF ne] by simp
qed

declare flatten_loop.simps [simp del]

definition flatten :: "'a nest list \<Rightarrow> 'a nest list" where
  "flatten array = (if array = [] then [] else rev (flatten_loop (last array) (butlast array) []))"

text \<open>The specification: the leaves from left to right.\<close>

fun leaves :: "'a nest \<Rightarrow> 'a nest list" where
  "leaves (Nest xs) = concat (map leaves xs)"
| "leaves x = [x]"

fun no_undef :: "'a nest \<Rightarrow> bool" where
  "no_undef (Nest xs) = list_all no_undef xs"
| "no_undef Undef = False"
| "no_undef (Leaf a) = True"

lemma flatten_loop_spec:
  "no_undef node \<Longrightarrow> list_all no_undef nodes \<Longrightarrow>
   flatten_loop node nodes result = result @ rev (concat (map leaves (nodes @ [node])))"
proof (induction node nodes result rule: flatten_loop.induct)
  case (1 node nodes result)
  define nodes1 where "nodes1 = (case node of Nest xs \<Rightarrow> nodes @ xs | _ \<Rightarrow> nodes)"
  define result1 where "result1 = (case node of Nest xs \<Rightarrow> result | _ \<Rightarrow> result @ [node])"
  have unfold: "flatten_loop node nodes result =
      (if nodes1 = [] \<or> last nodes1 = Undef then result1
       else flatten_loop (last nodes1) (butlast nodes1) result1)"
    by (simp add: flatten_loop.simps [of node] nodes1_def result1_def Let_def)
  have ok: "list_all no_undef nodes1"
    using 1(2,3) by (cases node) (auto simp: nodes1_def)
  have split: "rev (concat (map leaves (nodes @ [node]))) =
      (case node of Nest xs \<Rightarrow> [] | _ \<Rightarrow> [node]) @ rev (concat (map leaves nodes1))"
    using 1(2) by (cases node) (auto simp: nodes1_def)
  have res1: "result1 = result @ (case node of Nest xs \<Rightarrow> [] | _ \<Rightarrow> [node])"
    by (cases node) (auto simp: result1_def)
  show ?case
  proof (cases "nodes1 = []")
    case True
    then show ?thesis using unfold split res1 by simp
  next
    case False
    then obtain ns n where n: "nodes1 = ns @ [n]" by (metis rev_exhaust)
    with ok have okn: "no_undef n" "list_all no_undef ns" by auto
    then have "n \<noteq> Undef" by auto
    moreover have "flatten_loop n ns result1 = result1 @ rev (concat (map leaves (ns @ [n])))"
      using 1(1) [OF nodes1_def result1_def] okn n \<open>n \<noteq> Undef\<close> by simp
    ultimately show ?thesis using unfold split res1 n by simp
  qed
qed

section \<open>unique\<close>

text \<open>
  \<open>n\<close> is a plain object, so \<open>n [x]\<close> is also found on the prototype of all objects.
\<close>

definition proto_names :: "string list" where
  "proto_names =
     [''constructor'', ''__defineGetter__'', ''__defineSetter__'', ''hasOwnProperty'',
      ''__lookupGetter__'', ''__lookupSetter__'', ''isPrototypeOf'', ''propertyIsEnumerable'',
      ''toString'', ''valueOf'', ''__proto__'', ''toLocaleString'']"

fun unique_loop :: "string list \<Rightarrow> string list \<Rightarrow> string list \<Rightarrow> string list" where
  "unique_loop seen r [] = r"
| "unique_loop seen r (x # xs) =
     (if x \<in> set seen \<or> x \<in> set proto_names then unique_loop seen r xs
      else unique_loop (x # seen) (r @ [x]) xs)"

definition unique :: "string list \<Rightarrow> string list" where
  "unique arr = unique_loop [] [] arr"

lemma unique_loop_set:
  "set (unique_loop seen r xs) = set r \<union> (set xs - set seen - set proto_names)"
  by (induction seen r xs rule: unique_loop.induct) auto

lemma unique_loop_distinct:
  "distinct r \<Longrightarrow> set r = set seen \<Longrightarrow> distinct (unique_loop seen r xs)"
  by (induction seen r xs rule: unique_loop.induct) auto

section \<open>simpleHash\<close>

text \<open>\<open>ToInt32\<close>, which the operators \<open><<\<close> and \<open>&\<close> apply to their operands.\<close>

definition to_int32 :: "int \<Rightarrow> int" where
  "to_int32 x = (x + 2 ^ 31) mod 2 ^ 32 - 2 ^ 31"

definition hash_step :: "int \<Rightarrow> int \<Rightarrow> int" where
  "hash_step hash char = to_int32 ((to_int32 (hash * 2 ^ 5) - hash) + char)"

definition simpleHash :: "int list \<Rightarrow> int" where
  "simpleHash str = foldl hash_step 0 str"

lemma to_int32_signed: "to_int32 x = sint (word_of_int x :: 32 word)"
  by (simp add: to_int32_def sint_sbintrunc' signed_take_bit_eq_take_bit_shift take_bit_eq_mod)

lemma to_int32_bounds: "- (2 ^ 31) \<le> to_int32 x \<and> to_int32 x < 2 ^ 31"
proof -
  have "0 \<le> (x + 2 ^ 31) mod 2 ^ 32" "(x + 2 ^ 31) mod 2 ^ 32 < 2 ^ 32" by simp_all
  then show ?thesis unfolding to_int32_def by simp
qed

lemma word_of_to_int32: "(word_of_int (to_int32 x) :: 32 word) = word_of_int x"
  by (simp add: to_int32_signed)

lemma hash_step_word:
  "(word_of_int (hash_step h c) :: 32 word) = 31 * word_of_int h + word_of_int c"
proof -
  have "(word_of_int (hash_step h c) :: 32 word) = word_of_int (to_int32 (h * 32) - h + c)"
    by (simp add: hash_step_def word_of_to_int32)
  also have "\<dots> = word_of_int (h * 32) - word_of_int h + word_of_int c"
    by (simp only: wi_hom_add [symmetric] wi_hom_sub [symmetric] word_of_to_int32)
  finally show ?thesis by (simp add: wi_hom_mult [symmetric] algebra_simps)
qed

section \<open>areEqual\<close>

text \<open>
  Values as trees: primitives, Dates, arrays and plain objects. Two Dates have no own
  properties, so the comparison of their properties always succeeds.
\<close>

datatype jsval = VPrim jdata | VDate int | VArray "jsval list" | VObj "(string \<times> jsval) list"

definition strict_prim :: "jdata \<Rightarrow> jdata \<Rightarrow> bool" where
  "strict_prim a b \<longleftrightarrow> a = b \<and> a \<noteq> DNaN"

fun areEqual :: "jsval \<Rightarrow> jsval \<Rightarrow> bool" where
  "areEqual (VPrim a) (VPrim b) = strict_prim a b"
| "areEqual (VDate a) (VDate b) = True"
| "areEqual (VArray xs) (VArray ys) = list_all2 areEqual xs ys"
| "areEqual (VObj ps) (VObj qs) =
     ((\<forall>p \<in> set ps. case map_of qs (fst p) of None \<Rightarrow> False | Some y \<Rightarrow> areEqual (snd p) y)
      \<and> (\<forall>q \<in> set qs. fst q \<in> fst ` set ps))"
| "areEqual _ _ = False"

end
