(* ===== verification/Util_Props.thy ===== *)
theory Util_Props
  imports Common_Util Run_Facts
begin

text \<open>
  The properties of the pure functions: results of work items, difference and merge of
  individuals, arrays, hashes and comparison of values.
\<close>

section \<open>Decisions of executors\<close>

text \<open>\<^verbatim>\<open>is_all_executors_taken_decision\<close> counts the results whose first value is the first of the
  given values and compares with the number of results: it is true exactly if every result has
  taken the decision. \<^verbatim>\<open>is_some_executor_taken_decision\<close> is true exactly if one has. Without a
  value to compare with, both are false.\<close>

lemma decisions_spec:
  "wir_all_taken_decision rs n vs = (vs \<noteq> [] \<and> list_all (took_decision n vs) rs)
   \<and> wir_some_taken_decision rs n vs = (vs \<noteq> [] \<and> list_ex (took_decision n vs) rs)
   \<and> took_decision n vs el =
       (vs \<noteq> [] \<and> (\<exists>x xs. el_vals el n = Some (x # xs) \<and> loose_eq (vdata x) (vdata (hd vs))
                       \<and> vtype x = vtype (hd vs)))"
proof (intro conjI)
  show "wir_all_taken_decision rs n vs = (vs \<noteq> [] \<and> list_all (took_decision n vs) rs)"
    by (simp add: wir_all_taken_decision_def count_all_iff)
  show "wir_some_taken_decision rs n vs = (vs \<noteq> [] \<and> list_ex (took_decision n vs) rs)"
    by (simp add: wir_some_taken_decision_def some_taken_iff list_ex_iff)
  show "took_decision n vs el =
       (vs \<noteq> [] \<and> (\<exists>x xs. el_vals el n = Some (x # xs) \<and> loose_eq (vdata x) (vdata (hd vs))
                       \<and> vtype x = vtype (hd vs)))"
    by (auto simp: took_decision_def same_value_def split: option.splits list.splits)
qed

text \<open>With one value, \<^verbatim>\<open>compare\<close> is true exactly if some result holds that value and nothing else.\<close>

lemma compare_single_value:
  "wir_compare rs n [v] = (\<exists>x. list_ex (\<lambda>el. el_vals el n = Some [x] \<and> same_value x v) rs)"
  by (cases rs) (auto simp: wir_compare_def compare_els_single list_ex_iff simp del: compare_els.simps)

text \<open>With two values it is not: \<^verbatim>\<open>true_count\<close> keeps the matches of former results, so the results
  \<open>[A, X]\<close> and \<open>[B, Y]\<close> together count as the value \<open>[A, B]\<close> that neither holds.\<close>

lemma compare_false_positive:
  "wir_compare
     [[(''v'', RVals [mkv TUri (DStr ''A''), mkv TUri (DStr ''X'')])],
      [(''v'', RVals [mkv TUri (DStr ''B''), mkv TUri (DStr ''Y'')])]]
     ''v'' [mkv TUri (DStr ''A''), mkv TUri (DStr ''B'')]
   \<and> \<not> wir_compare
     [[(''v'', RVals [mkv TUri (DStr ''A''), mkv TUri (DStr ''X'')])]]
     ''v'' [mkv TUri (DStr ''A''), mkv TUri (DStr ''B'')]
   \<and> \<not> wir_compare
     [[(''v'', RVals [mkv TUri (DStr ''B''), mkv TUri (DStr ''Y'')])]]
     ''v'' [mkv TUri (DStr ''A''), mkv TUri (DStr ''B'')]"
  by (simp add: wir_compare_def el_vals_def same_value_def)

section \<open>diff and merge\<close>

lemma map_of_map_filter:
  "distinct (map fst ps) \<Longrightarrow>
   map_of (List.map_filter (\<lambda>(k, v). map_option (Pair k) (g k v)) ps) k
     = (case map_of ps k of None \<Rightarrow> None | Some v \<Rightarrow> g k v)"
proof (induction ps)
  case Nil
  then show ?case by simp
next
  case (Cons p ps)
  obtain k' v where p: "p = (k', v)" by (cases p)
  with Cons.prems have n: "k' \<notin> fst ` set ps" and d: "distinct (map fst ps)" by auto
  from n have "map_of ps k' = None" by (simp add: map_of_eq_None_iff)
  then show ?case using Cons.IH [OF d] p by (auto split: option.splits)
qed

definition differing :: "individual \<Rightarrow> string \<Rightarrow> val list \<Rightarrow> val list option" where
  "differing changed k vs =
     (case pget changed k of
        None \<Rightarrow> None | Some cs \<Rightarrow> if values_differ changed k vs cs then Some cs else None)"

lemma d_differ_alt:
  "d_differ (diff changed base)
     = List.map_filter (\<lambda>(k, vs). map_option (Pair k) (differing changed k vs)) (props base)"
proof -
  have "(\<lambda>(k, vs). case pget changed k of
             None \<Rightarrow> None
           | Some cs \<Rightarrow> if values_differ changed k vs cs then Some (k, cs) else None)
      = (\<lambda>(k, vs). map_option (Pair k) (differing changed k vs))"
    by (auto simp: fun_eq_iff differing_def split: option.splits)
  then show ?thesis by (simp add: diff_def)
qed

lemma oget_differ:
  "wf_ind base \<Longrightarrow>
   oget (d_differ (diff changed base)) k
     = (case pget base k of None \<Rightarrow> None | Some vs \<Rightarrow> differing changed k vs)"
  by (simp add: d_differ_alt wf_ind_def map_of_map_filter)

lemma distinct_map_filter_keys:
  "distinct (map fst ps) \<Longrightarrow>
   distinct (map fst (List.map_filter (\<lambda>(k, v). map_option (Pair k) (g k v)) ps))"
proof (induction ps)
  case Nil
  then show ?case by simp
next
  case (Cons p ps)
  let ?f = "\<lambda>(k, v). map_option (Pair k) (g k v)"
  obtain k' v where p: "p = (k', v)" by (cases p)
  have "fst ` set (List.map_filter ?f ps) \<subseteq> fst ` set ps"
    by (force simp: List.map_filter_def)
  moreover have "k' \<notin> fst ` set ps" using Cons.prems p by simp
  ultimately have n: "k' \<notin> fst ` set (List.map_filter ?f ps)" by blast
  have "distinct (map fst (List.map_filter ?f ps))" using Cons p by simp
  with n p show ?case by (cases "g k' v") simp_all
qed

lemma oget_del_all: "oget (del_all ks ob) k = (if k \<in> fst ` set ks then None else oget ob k)"
  unfolding del_all_def by (induction ks arbitrary: ob) auto

lemma oget_set_all:
  "distinct (map fst kvs) \<Longrightarrow>
   oget (set_all kvs ob) k = (case map_of kvs k of None \<Rightarrow> oget ob k | Some v \<Rightarrow> Some v)"
proof (induction kvs arbitrary: ob)
  case Nil
  then show ?case by (simp add: set_all_def)
next
  case (Cons p kvs)
  obtain k' v where p: "p = (k', v)" by (cases p)
  with Cons.prems have n: "k' \<notin> fst ` set kvs" and d: "distinct (map fst kvs)" by auto
  from n have "map_of kvs k' = None" by (simp add: map_of_eq_None_iff)
  then show ?case
    using Cons.IH [OF d, of "oset k' v ob"] p by (auto simp: set_all_def split: option.splits)
qed

lemma oget_added: "oget (d_added (diff changed base)) k = (if pget base k = None then pget changed k else None)"
proof -
  have "(\<lambda>(k, vs). pget base k = None) = (\<lambda>p :: string \<times> val list. pget base (fst p) = None)"
    by auto
  then show ?thesis
    by (simp add: diff_def oget_filter_keys [where P = "\<lambda>k. pget base k = None"])
qed

lemma keys_added: "wf_ind changed \<Longrightarrow> distinct (map fst (d_added (diff changed base)))"
  by (simp add: diff_def wf_ind_def distinct_map_filter)

lemma keys_missing:
  "k \<in> fst ` set (d_missing (diff changed base)) \<longleftrightarrow> pget base k \<noteq> None \<and> pget changed k = None"
  by (auto simp: diff_def image_iff dest: map_of_SomeD)
    (metis domIff fst_conv imageI not_None_eq option.simps(3) weak_map_of_SomeI)

lemma added_empty: "d_added (diff changed base) = [] \<longleftrightarrow> (\<forall>k. pget base k = None \<longrightarrow> pget changed k = None)"
proof
  assume "d_added (diff changed base) = []"
  then show "\<forall>k. pget base k = None \<longrightarrow> pget changed k = None"
    using oget_added [of changed base] by (metis map_of.simps(1))
next
  assume *: "\<forall>k. pget base k = None \<longrightarrow> pget changed k = None"
  then show "d_added (diff changed base) = []"
    by (auto simp: diff_def filter_empty_conv map_of_eq_None_iff image_iff)
      (metis fst_conv imageI)
qed

lemma obj_empty_iff: "ob = [] \<longleftrightarrow> (\<forall>k. oget ob k = None)"
  by (cases ob) (auto split: if_splits intro: exI)

text \<open>C24: The delta of \<^verbatim>\<open>diff\<close> is empty exactly if the URIs agree and every key is in both
  individuals, with as many values on both sides and for every value of \<open>base\<close> one of
  \<open>changed\<close> of the same type and data. Neither the language of a value nor how often it
  occurs is compared: a change of the language alone is not a difference.\<close>

theorem diff_empty_iff:
  assumes "wf_ind base"
  shows "(d_added (diff changed base) = [] \<and> d_missing (diff changed base) = []
          \<and> d_differ (diff changed base) = [] \<and> d_uri (diff changed base) = None)
     \<longleftrightarrow> uri changed = uri base
        \<and> (\<forall>k. case (pget base k, pget changed k) of
                (None, None) \<Rightarrow> True
              | (Some bs, Some cs) \<Rightarrow>
                  length bs = length cs \<and> list_all (\<lambda>b. list_ex (val_matches b) cs) bs
              | _ \<Rightarrow> False)"
proof -
  have m: "d_missing (diff changed base) = [] \<longleftrightarrow> (\<forall>k. pget changed k = None \<longrightarrow> pget base k = None)"
    using keys_missing [of _ changed base] by (metis empty_iff image_empty list.set(1) image_is_empty set_empty ex_in_conv)
  have d: "d_differ (diff changed base) = [] \<longleftrightarrow>
      (\<forall>k bs cs. pget base k = Some bs \<longrightarrow> pget changed k = Some cs \<longrightarrow> \<not> values_differ changed k bs cs)"
    by (auto simp: obj_empty_iff [of "d_differ (diff changed base)"] oget_differ [OF assms] differing_def
        split: option.splits)
  have v: "pget changed k = Some cs \<Longrightarrow>
      values_differ changed k bs cs \<longleftrightarrow>
      \<not> (length bs = length cs \<and> list_all (\<lambda>b. list_ex (val_matches b) cs) bs)" for k bs cs
    by (cases bs) (auto simp: values_differ_def hasValue_def has_prop_def list_all_iff list_ex_iff)
  have u: "d_uri (diff changed base) = None \<longleftrightarrow> uri changed = uri base"
    by (simp add: diff_def)
  show ?thesis
    unfolding added_empty m d u
    by (auto simp: v split: option.splits) (metis not_None_eq option.distinct(1))+
qed

theorem diff_empty_iff_witness:
  "d_differ (diff \<lparr>uri = ''d:a'', props = [(''t'', [\<lparr>vtype = TString, vdata = DStr ''x'', vlang = Some ''EN''\<rparr>])]\<rparr>
                  \<lparr>uri = ''d:a'', props = [(''t'', [\<lparr>vtype = TString, vdata = DStr ''x'', vlang = Some ''RU''\<rparr>])]\<rparr>) = []"
  (is "d_differ (diff ?c ?b) = []")
proof -
  have "wf_ind ?b" by (simp add: wf_ind_def)
  note spec = diff_empty_iff [OF this, of ?c]
  have "uri ?c = uri ?b
        \<and> (\<forall>k. case (pget ?b k, pget ?c k) of
                (None, None) \<Rightarrow> True
              | (Some bs, Some cs) \<Rightarrow>
                  length bs = length cs \<and> list_all (\<lambda>b. list_ex (val_matches b) cs) bs
              | _ \<Rightarrow> False)"
    by (simp add: val_matches_def)
  with spec show ?thesis by blast
qed

text \<open>C19: What \<^verbatim>\<open>mergeMutualChanges\<close> makes of every property. A property of the base that \<open>low\<close>
  changed gets the value of \<open>low\<close>, one that either side removed is gone (unless \<open>low\<close> changed
  it), an added one is taken, \<open>high\<close> first. A value that \<open>high\<close> changed is never taken: the
  base value stays.\<close>

theorem merge_spec:
  assumes "wf_ind high" and "wf_ind low" and "wf_ind base"
  shows "pget (mr_merged (mergeMutualChanges high low base)) k =
     (case pget base k of
        None \<Rightarrow> (case pget high k of None \<Rightarrow> pget low k | Some hs \<Rightarrow> Some hs)
      | Some bs \<Rightarrow>
          (case pget low k of
             None \<Rightarrow> None
           | Some ls \<Rightarrow>
               if values_differ low k bs ls then Some ls
               else if pget high k = None then None else Some bs))"
proof -
  have dd: "distinct (map fst (d_differ (diff low base)))"
    using assms(3) by (simp add: d_differ_alt wf_ind_def distinct_map_filter_keys)
  show ?thesis
    using assms
    by (auto simp: mergeMutualChanges_def merged_props_def Let_def oget_set_all keys_added dd
        oget_differ oget_added oget_del_all keys_missing differing_def split: option.splits)
qed

theorem merge_spec_witness:
  "pget (mr_merged (mergeMutualChanges
      \<lparr>uri = ''d:a'', props = [(''t'', strv ''high'')]\<rparr> \<lparr>uri = ''d:a'', props = [(''t'', strv ''base'')]\<rparr>
      \<lparr>uri = ''d:a'', props = [(''t'', strv ''base'')]\<rparr>)) ''t'' = Some (strv ''base'')"
  (is "pget (mr_merged (mergeMutualChanges ?h ?l ?b)) _ = _")
proof -
  have "wf_ind ?h" "wf_ind ?l" "wf_ind ?b" by (simp_all add: wf_ind_def)
  from merge_spec [OF this, of "''t''"] show ?thesis
    by (simp add: values_differ_def hasValue_def has_prop_def val_matches_def)
qed

section \<open>Arrays, hashes and comparison\<close>

text \<open>\<^verbatim>\<open>flatten\<close>, which works from the end with a stack and without recursion, ends on every
  nested array and returns its leaves from left to right (no element being \<open>undefined\<close>).\<close>

lemma flatten_correct:
  assumes "list_all no_undef xs"
  shows "flatten xs = concat (map leaves xs)"
proof (cases "xs = []")
  case True
  then show ?thesis by (simp add: flatten_def)
next
  case False
  then obtain ys y where xs: "xs = ys @ [y]" by (metis rev_exhaust)
  with assms show ?thesis by (simp add: flatten_def flatten_loop_spec)
qed

lemma flatten_correct_witness:
  "flatten [Leaf (1::nat), Nest [Leaf 2, Nest [], Nest [Leaf 3]], Leaf 4] = [Leaf 1, Leaf 2, Leaf 3, Leaf 4]"
  using flatten_correct [of "[Leaf (1::nat), Nest [Leaf 2, Nest [], Nest [Leaf 3]], Leaf 4]"] by simp

text \<open>\<^verbatim>\<open>unique\<close> returns distinct strings: those of the array, less the names that every object
  inherits (\<^verbatim>\<open>constructor\<close>, \<^verbatim>\<open>toString\<close>, ...), which it loses.\<close>

lemma unique_correct:
  "distinct (unique xs) \<and> set (unique xs) = set xs - set proto_names"
  by (simp add: unique_def unique_loop_set unique_loop_distinct)

text \<open>\<^verbatim>\<open>simpleHash\<close> is the signed reading of the 32 bit hash \<open>31 * h + c\<close> with wrap-around, so
  the intermediate sums of JavaScript numbers never lose a bit, and it stays within 32 bits.\<close>

lemma simpleHash_word:
  "simpleHash cs = sint (foldl (\<lambda>h c. 31 * h + word_of_int c) 0 cs :: 32 word)
   \<and> - (2 ^ 31) \<le> simpleHash cs \<and> simpleHash cs < 2 ^ 31"
proof -
  have fold: "(word_of_int (foldl hash_step h cs) :: 32 word)
      = foldl (\<lambda>h c. 31 * h + word_of_int c) (word_of_int h) cs" for h cs
    by (induction cs arbitrary: h) (simp_all add: hash_step_word)
  have self: "sint (word_of_int (foldl hash_step 0 cs) :: 32 word) = foldl hash_step 0 cs
      \<and> - (2 ^ 31) \<le> foldl hash_step 0 cs \<and> foldl hash_step 0 cs < 2 ^ 31"
  proof (induction cs rule: rev_induct)
    case Nil
    then show ?case by simp
  next
    case (snoc c cs)
    obtain x where x: "foldl hash_step 0 (cs @ [c]) = to_int32 x" by (simp add: hash_step_def)
    show ?case
      unfolding x using to_int32_bounds [of x] by (simp add: to_int32_signed)
  qed
  show ?thesis
    using self fold [of 0 cs] by (simp add: simpleHash_def)
qed

fun nan_free :: "jsval \<Rightarrow> bool" where
  "nan_free (VPrim d) = (d \<noteq> DNaN)"
| "nan_free (VDate t) = True"
| "nan_free (VArray xs) = list_all nan_free xs"
| "nan_free (VObj ps) = (list_all (\<lambda>p. nan_free (snd p)) ps \<and> distinct (map fst ps))"

lemma areEqual_refl: "nan_free x \<Longrightarrow> areEqual x x"
proof (induction x rule: nan_free.induct)
  case (3 xs)
  then show ?case by (auto simp: list_all2_same list_all_iff)
next
  case (4 ps)
  then show ?case by (auto simp: list_all_iff)
qed (auto simp: strict_prim_def)

lemma areEqual_sym: "nan_free x \<Longrightarrow> nan_free y \<Longrightarrow> areEqual x y \<Longrightarrow> areEqual y x"
proof (induction x y rule: areEqual.induct)
  case (3 xs ys)
  then show ?case by (auto simp: list_all2_conv_all_nth list_all_iff)
next
  case (4 ps qs)
  have "\<exists>v. map_of ps k = Some v \<and> areEqual w v" if "(k, w) \<in> set qs" for k w
  proof -
    from that "4.prems" obtain v where v: "(k, v) \<in> set ps" by force
    moreover have "map_of qs k = Some w" using that "4.prems" by simp
    ultimately have "areEqual v w" using "4.prems"(3) by fastforce
    moreover have "nan_free v" "nan_free w" using v that "4.prems" by (auto simp: list_all_iff)
    ultimately have "areEqual w v"
      using "4.IH" [of "(k, v)" w] v \<open>map_of qs k = Some w\<close> by simp
    moreover have "map_of ps k = Some v" using v "4.prems" by simp
    ultimately show ?thesis by blast
  qed
  moreover have "\<forall>p \<in> set ps. fst p \<in> fst ` set qs"
  proof
    fix p assume "p \<in> set ps"
    with "4.prems"(3) have "map_of qs (fst p) \<noteq> None" by (auto split: option.splits)
    then show "fst p \<in> fst ` set qs" by (simp add: map_of_eq_None_iff)
  qed
  ultimately show ?case by fastforce
qed (auto simp: strict_prim_def)

text \<open>On values without NaN and with distinct keys \<^verbatim>\<open>areEqual\<close> is reflexive and
  symmetric, compares arrays member by member and does not depend on the order of keys; but
  any two Dates compare equal, so the change of a date alone goes unnoticed.\<close>

lemma areEqual_equivalence:
  assumes "nan_free x" and "nan_free y"
  shows "areEqual x x \<and> areEqual x y = areEqual y x
   \<and> areEqual (VArray [VDate s, x]) (VArray [VDate t, y]) = areEqual x y
   \<and> areEqual (VObj [(''a'', x), (''b'', y)]) (VObj [(''b'', y), (''a'', x)])"
  using areEqual_refl [OF assms(1)] areEqual_refl [OF assms(2)]
    areEqual_sym [OF assms] areEqual_sym [OF assms(2,1)] by auto

lemma areEqual_equivalence_witness:
  "areEqual (VArray [VDate 0, VPrim (DNum 1)]) (VArray [VDate 86400, VPrim (DNum 1)])"
  using areEqual_equivalence [of "VPrim (DNum 1)" "VPrim (DNum 1)" 0 86400]
  by (simp add: strict_prim_def)

end
