(* ===== verification/Numerator.thy ===== *)
theory Numerator
  imports Journal
begin

text \<open>
  \<^verbatim>\<open>public/js/common/numerator.js\<close> on the server: unique numbers within a scope. A scope
  keeps the committed numbers as intervals, each an individual with its begin and end;
  \<^verbatim>\<open>commitValue\<close> adds a number (merging neighbours), \<^verbatim>\<open>revokeValue\<close> removes one
  (cutting an interval), \<^verbatim>\<open>getNextValueSimple\<close> gives the number after the largest.
  The scripts of a rule (the name of the scope, the next number) are parameters.
\<close>

section \<open>Operators on the value\<close>

text \<open>
  The value is a number, or the text that \<^verbatim>\<open>getNextValueSimple\<close> returns; on a text \<open>value + 1\<close>
  concatenates and \<open>value - 1\<close> converts.
\<close>

definition js_plus1 :: "jdata \<Rightarrow> jdata" where
  "js_plus1 d =
     (case d of DNum i \<Rightarrow> DNum (i + 1) | DStr s \<Rightarrow> DStr (s @ ''1'') | _ \<Rightarrow> DNaN)"

definition js_minus1 :: "jdata \<Rightarrow> jdata" where
  "js_minus1 d =
     (case to_number d of Some (m, e) \<Rightarrow> (if e = 0 then DNum (m - 1) else DDec (m - 10 ^ e) e)
      | None \<Rightarrow> DNaN)"

abbreviation iv_list :: string where "iv_list \<equiv> ''v-s:numerationCommitedInterval''"
abbreviation iv_begin :: string where "iv_begin \<equiv> ''v-s:numerationCommitedIntervalBegin''"
abbreviation iv_end :: string where "iv_end \<equiv> ''v-s:numerationCommitedIntervalEnd''"

definition range_text :: "jdata \<Rightarrow> jdata \<Rightarrow> string js" where
  "range_text a b = (js_bind (to_str a) (\<lambda>x. js_bind (to_str b) (\<lambda>y. js_ret (x @ '' - '' @ y))))"

definition interval_body :: "string \<Rightarrow> string \<Rightarrow> jdata \<Rightarrow> jdata \<Rightarrow> individual" where
  "interval_body u label b e =
     \<lparr>uri = u,
      props = [(''rdfs:label'', strv label), (''rdf:type'', uriv ''v-s:NumerationCommitedIntervalClass''),
               (iv_begin, [mkv TInteger b]), (iv_end, [mkv TInteger e])]\<rparr>"

text \<open>\<open>i [k][0].data = d\<close>\<close>

definition set_data0 :: "string \<Rightarrow> jdata \<Rightarrow> individual \<Rightarrow> individual js" where
  "set_data0 k d i =
     (case pget i k of
        Some (v # vs) \<Rightarrow> js_ret (set_prop k (v\<lparr>vdata := d\<rparr> # vs) i)
      | _ \<Rightarrow> js_throw TypeError)"

definition delete_interval :: "string \<Rightarrow> unit js" where
  "delete_interval u = add_to_individual \<lparr>uri = u, props = [(''v-s:deleted'', boolv True)]\<rparr>"

section \<open>commitValue\<close>

text \<open>
  The state of the loop: whether the value is already committed (the early \<open>return false\<close>), the
  interval after and the interval before the value. An interval that cannot be read is skipped.
\<close>

type_synonym scan_state = "bool \<times> individual option \<times> individual option"

definition scan_interval :: "jdata \<Rightarrow> scan_state \<Rightarrow> val \<Rightarrow> (scan_state \<times> bool) js" where
  "scan_interval new_value st v =
     (case st of (com, nxt, prv) \<Rightarrow> (js_bind (get_individual (vdata v)) (\<lambda>oi.
        js_catch (js_bind (js_some oi) (\<lambda>i.
          js_bind (data0 (pget i iv_begin)) (\<lambda>b.
          js_bind ((if js_le b new_value
                     then (js_bind (data0 (pget i iv_end)) (\<lambda>e. js_ret (js_le new_value e)))
                     else js_ret False)) (\<lambda>inside.
          (if inside then js_ret ((True, nxt, prv), False)
           else if loose_eq b (js_plus1 new_value) then js_ret ((com, Some i, prv), True)
           else (js_bind (data0 (pget i iv_end)) (\<lambda>e.
             js_ret (if loose_eq e (js_minus1 new_value) then ((com, nxt, Some i), True)
                     else (st, True))))))))) (js_ret (st, True)))))"

definition put_scope :: "individual \<Rightarrow> val list \<Rightarrow> unit js" where
  "put_scope scope intervals = put_individual (set_prop iv_list intervals scope)"

definition merge_both :: "individual \<Rightarrow> val list \<Rightarrow> individual \<Rightarrow> individual \<Rightarrow> unit js" where
  "merge_both scope intervals prv nxt = (js_bind (data0 (pget prv iv_begin)) (\<lambda>b.
     js_bind (data0 (pget nxt iv_end)) (\<lambda>e.
     js_bind (range_text b e) (\<lambda>label.
     js_bind (set_data0 ''rdfs:label'' (DStr label) prv) (\<lambda>p1.
     js_bind (set_data0 iv_end e p1) (\<lambda>p2.
     js_seq (put_individual p2) (
     js_seq (delete_interval (uri nxt)) (
     put_scope scope (filter (\<lambda>v. \<not> loose_eq (vdata v) (DStr (uri nxt))) intervals)))))))))"

definition extend_end :: "individual \<Rightarrow> jdata \<Rightarrow> unit js" where
  "extend_end prv new_value = (js_bind (data0 (pget prv iv_begin)) (\<lambda>b.
     js_bind (range_text b new_value) (\<lambda>label.
     js_bind (set_data0 ''rdfs:label'' (DStr label) prv) (\<lambda>p1.
     js_bind (set_data0 iv_end new_value p1) (\<lambda>p2.
     put_individual p2)))))"

definition extend_begin :: "individual \<Rightarrow> jdata \<Rightarrow> unit js" where
  "extend_begin nxt new_value = (js_bind (data0 (pget nxt iv_end)) (\<lambda>e.
     js_bind (range_text new_value e) (\<lambda>label.
     js_bind (set_data0 ''rdfs:label'' (DStr label) nxt) (\<lambda>p1.
     js_bind (set_data0 iv_begin new_value p1) (\<lambda>p2.
     put_individual p2)))))"

definition add_interval :: "individual \<Rightarrow> val list \<Rightarrow> jdata \<Rightarrow> unit js" where
  "add_interval scope intervals new_value = (js_bind (genUri) (\<lambda>u.
     js_bind (range_text new_value new_value) (\<lambda>label.
     js_seq (put_individual (interval_body (u @ ''-intv'') label new_value new_value)) (
     put_scope scope (intervals @ uriv (u @ ''-intv''))))))"

text \<open>\<open>None\<close> is \<open>undefined\<close>, the result after an exception.\<close>

definition commitValue :: "individual \<Rightarrow> jdata \<Rightarrow> bool option js" where
  "commitValue scope new_value = js_catch
     (case pget scope iv_list of
        None \<Rightarrow> (js_seq (add_interval scope [] new_value) ( js_ret (Some True)))
      | Some intervals \<Rightarrow> (js_bind (js_fold_break (scan_interval new_value) (False, None, None) intervals) (\<lambda>(com, nxt, prv).
          (if com then js_ret (Some False)
           else (js_seq ((case (prv, nxt) of
                (Some p, Some n) \<Rightarrow> merge_both scope intervals p n
              | (Some p, None) \<Rightarrow> extend_end p new_value
              | (None, Some n) \<Rightarrow> extend_begin n new_value
              | (None, None) \<Rightarrow> add_interval scope intervals new_value)) (
             js_ret (Some True)))))))
     (js_ret None)"

section \<open>revokeValue\<close>

text \<open>One interval of the loop; the result are the references to keep.\<close>

definition cut_interval :: "string \<Rightarrow> jdata \<Rightarrow> jdata \<Rightarrow> unit js" where
  "cut_interval u b e = (js_bind (range_text b e) (\<lambda>label.
     put_individual (interval_body u label b e)))"

definition revoke_interval :: "jdata \<Rightarrow> val list \<Rightarrow> val \<Rightarrow> val list js" where
  "revoke_interval old_value intervals v = (js_bind (get_individual (vdata v)) (\<lambda>oi.
     js_bind (js_some oi) (\<lambda>i.
     js_bind (data0 (pget i iv_begin)) (\<lambda>b.
     (if loose_eq b old_value then (js_bind (data0 (pget i iv_end)) (\<lambda>e.
        (if js_less b e
         then (js_seq (cut_interval (uri i) (js_plus1 old_value) e) ( js_ret (intervals @ [v])))
         else (js_seq (delete_interval (uri i)) ( js_ret intervals)))))
      else (js_bind (data0 (pget i iv_end)) (\<lambda>e.
        (if loose_eq e old_value
         then (if js_less b e
               then (js_seq (cut_interval (uri i) b (js_minus1 old_value)) ( js_ret (intervals @ [v])))
               else (js_seq (delete_interval (uri i)) ( js_ret intervals)))
         else if js_less b old_value \<and> js_less old_value e
         then (js_seq (cut_interval (uri i) b (js_minus1 old_value)) (
           js_bind (genUri) (\<lambda>u.
           js_seq (cut_interval (u @ ''-intv'') (js_plus1 old_value) e) (
           js_ret (intervals @ [v] @ uriv (u @ ''-intv''))))))
         else js_ret (intervals @ [v])))))))))"

definition revokeValue :: "individual option \<Rightarrow> jdata \<Rightarrow> unit js" where
  "revokeValue oscope old_value = js_try (js_bind (js_some oscope) (\<lambda>scope.
     js_bind (js_fold (revoke_interval old_value) []
       (case pget scope iv_list of None \<Rightarrow> [] | Some vs \<Rightarrow> vs)) (\<lambda>intervals.
     put_scope scope intervals)))"

section \<open>The next number\<close>

definition next_max :: "jdata \<Rightarrow> val \<Rightarrow> jdata js" where
  "next_max mx v = (js_bind (get_individual (vdata v)) (\<lambda>oi.
     js_catch (js_bind (js_some oi) (\<lambda>i.
       js_bind (data0 (pget i iv_end)) (\<lambda>e.
       js_ret (if js_less mx e then e else mx)))) (js_ret mx)))"

text \<open>The scope is given as an object; \<open>None\<close> is \<open>undefined\<close>.\<close>

definition getNextValueSimple :: "individual option \<Rightarrow> jdata \<Rightarrow> jdata js" where
  "getNextValueSimple oscope FIRST_VALUE =
     (case (case oscope of None \<Rightarrow> [] | Some s \<Rightarrow> (case pget s iv_list of None \<Rightarrow> [] | Some vs \<Rightarrow> vs)) of
        [] \<Rightarrow> (js_bind (to_str FIRST_VALUE) (\<lambda>s. js_ret (DStr s)))
      | v # vs \<Rightarrow> (js_bind (js_fold next_max (DNum 0) (v # vs)) (\<lambda>mx.
          js_bind (to_str (js_plus1 mx)) (\<lambda>s.
          js_ret (DStr s)))))"

section \<open>numerate\<close>

record num_scripts =
  n_scope :: "string \<Rightarrow> individual \<Rightarrow> jdata js"
  n_next :: "string \<Rightarrow> individual \<Rightarrow> jdata js"

text \<open>\<open>eval (text)\<close> of anything but a text is no function.\<close>

definition rule_script :: "individual \<Rightarrow> string \<Rightarrow> string js" where
  "rule_script rule k = (js_bind (data0 (pget rule k)) (\<lambda>d.
     (case d of DStr s \<Rightarrow> js_ret s | _ \<Rightarrow> js_throw TypeError)))"

definition getNewValue :: "num_scripts \<Rightarrow> individual option \<Rightarrow> individual \<Rightarrow> jdata js" where
  "getNewValue ns orule scope = js_catch (js_bind (js_some orule) (\<lambda>rule.
     js_bind (rule_script rule ''v-s:numerationGetNextValue'') (\<lambda>s.
     n_next ns s scope))) (js_ret DUndef)"

definition getScope :: "num_scripts \<Rightarrow> individual \<Rightarrow> individual option \<Rightarrow> jdata js" where
  "getScope ns individual orule = js_catch (js_bind (js_some orule) (\<lambda>rule.
     js_bind (rule_script rule ''v-s:numerationScope'') (\<lambda>s.
     n_scope ns s individual))) (js_ret DUndef)"

definition createScope :: "jdata \<Rightarrow> individual js" where
  "createScope scopeId = (js_bind (to_str scopeId) (\<lambda>s.
     let scope = \<lparr>uri = s, props = [(''rdfs:label'', [mkv TString scopeId]),
                                   (''rdf:type'', uriv ''v-s:NumerationScopeClass'')]\<rparr> in
     js_seq (put_individual scope) (
     js_ret scope)))"

definition current_number :: "val list option \<Rightarrow> jdata" where
  "current_number pv =
     (case pv of
        Some (v # _) \<Rightarrow> parse_int_data True (if truthy (vdata v) then vdata v else DNum 0)
      | _ \<Rightarrow> DNum 0)"

definition previous_number :: "individual option \<Rightarrow> string \<Rightarrow> jdata js" where
  "previous_number prev_state k =
     (case prev_state of
        None \<Rightarrow> js_ret (DNum 0)
      | Some p \<Rightarrow>
          (case pget p k of
             None \<Rightarrow> js_ret (DNum 0)
           | Some vs \<Rightarrow> (js_bind (data0 (Some vs)) (\<lambda>d.
               js_ret (parse_int_data True (if truthy d then d else DNum 0))))))"

definition text_of_number :: "jdata \<Rightarrow> string js" where
  "text_of_number d = (if d = DUndef then js_throw TypeError else to_str d)"

definition numerate_with ::
  "num_scripts \<Rightarrow> individual \<Rightarrow> individual option \<Rightarrow> individual \<Rightarrow> string \<Rightarrow> jdata \<Rightarrow> jdata \<Rightarrow>
   individual js" where
  "numerate_with ns ind prev_state numeration prop_name number prevNumber = (js_bind (data0 (pget numeration ''v-s:hasNumerationRule'')) (\<lambda>r.
     js_bind (get_individual r) (\<lambda>rule.
     js_bind (getScope ns ind rule) (\<lambda>scopeId.
     js_bind (get_individual scopeId) (\<lambda>os.
     js_bind ((case os of Some s \<Rightarrow> js_ret s | None \<Rightarrow> createScope scopeId)) (\<lambda>scope.
     (if \<not> truthy number \<and> \<not> truthy prevNumber then (js_bind (getNewValue ns rule scope) (\<lambda>n.
        js_seq (commitValue scope n) (
        js_bind (text_of_number n) (\<lambda>t.
        let ind1 = set_prop prop_name (newStr (DStr t) None) ind in
        js_seq (put_individual ind1) (
        js_ret ind1)))))
      else if \<not> truthy number \<and> truthy prevNumber then (js_bind (text_of_number prevNumber) (\<lambda>t.
        let ind1 = set_prop prop_name (newStr (DStr t) None) ind in
        js_seq (put_individual ind1) (
        js_ret ind1)))
      else if truthy number \<and> prev_state = None then (js_seq (commitValue scope number) ( js_ret ind))
      else if truthy number \<and> has_true ind ''v-s:deleted'' then (js_seq (revokeValue (Some scope) number) ( js_ret ind))
      else if truthy number \<and> truthy prevNumber \<and> number \<noteq> prevNumber then (js_seq (commitValue scope number) (
        js_bind ((case prev_state of None \<Rightarrow> js_ret DUndef | Some p \<Rightarrow> getScope ns p rule)) (\<lambda>prevScopeId.
        js_bind (get_individual prevScopeId) (\<lambda>prevScope.
        js_seq (revokeValue prevScope prevNumber) (
        js_ret ind)))))
      else js_ret ind)))))))"

definition numerate_type ::
  "num_scripts \<Rightarrow> individual option \<Rightarrow> individual \<Rightarrow> val \<Rightarrow> individual js" where
  "numerate_type ns prev_state ind v = (js_bind (get_individual (vdata v)) (\<lambda>ot.
     (case (case ot of None \<Rightarrow> None | Some t \<Rightarrow> pget t ''v-s:hasNumeration'') of
        None \<Rightarrow> js_ret ind
      | Some nm \<Rightarrow> (js_bind (data0 (Some nm)) (\<lambda>nd.
          js_bind (get_individual nd) (\<lambda>onum.
          js_bind (js_some onum) (\<lambda>numeration.
          js_bind (data0 (pget numeration ''v-s:enumeratedProperty'')) (\<lambda>pd.
          js_bind (to_str pd) (\<lambda>prop_name.
          let number = current_number (pget ind prop_name) in
          js_bind (previous_number prev_state prop_name) (\<lambda>prevNumber.
          let same_deleted = (case prev_state of None \<Rightarrow> False
            | Some p \<Rightarrow> has_true ind ''v-s:deleted'' = has_true p ''v-s:deleted'') in
          (if truthy number \<and> truthy prevNumber \<and> number = prevNumber \<and> same_deleted
           then js_ret ind
           else numerate_with ns ind prev_state numeration prop_name number prevNumber)))))))))))"

definition numerate :: "num_scripts \<Rightarrow> individual \<Rightarrow> individual option \<Rightarrow> unit js" where
  "numerate ns ind prev_state = js_try (js_seq (js_fold (numerate_type ns prev_state) ind
       (case pget ind ''rdf:type'' of None \<Rightarrow> [] | Some vs \<Rightarrow> vs)) (
     js_ret ()))"

section \<open>Frame\<close>

context host_rel
begin

lemma set_data0_frame [js_frame]: "keeps R (set_data0 k d i)"
  unfolding set_data0_def by (auto intro!: js_frame split: option.splits list.splits)

lemma numerator_helpers [js_frame]:
  "keeps R (range_text a b)" "keeps R (delete_interval u)" "keeps R (put_scope s vs)"
  unfolding range_text_def delete_interval_def put_scope_def by (intro js_frame)+

lemma commitValue_frame [js_frame]: "keeps R (commitValue s v)"
proof -
  have 1: "keeps R (scan_interval v st x)" for v st x
    unfolding scan_interval_def by (intro js_frame)
  show ?thesis
    unfolding commitValue_def merge_both_def extend_end_def extend_begin_def add_interval_def
    by (intro js_frame 1)
qed

lemma revokeValue_frame [js_frame]: "keeps R (revokeValue s v)"
proof -
  have 1: "keeps R (revoke_interval v st x)" for v st x
    unfolding revoke_interval_def cut_interval_def by (intro js_frame)
  show ?thesis
    unfolding revokeValue_def by (intro js_frame 1)
qed

lemma numerate_frame:
  assumes s: "\<And>t i. keeps R (n_scope ns t i)" and n: "\<And>t i. keeps R (n_next ns t i)"
  shows "keeps R (numerate ns i p)"
proof -
  have 0: "keeps R (rule_script r k)" for r k
    unfolding rule_script_def by (auto intro!: js_frame split: jdata.splits)
  have 1: "keeps R (getScope ns i r)" "keeps R (getNewValue ns r i)" for i r
    unfolding getScope_def getNewValue_def by (intro js_frame 0 s n)+
  have 2: "keeps R (numerate_with ns i p nu k a b)" for i p nu k a b
    unfolding numerate_with_def createScope_def text_of_number_def by (intro js_frame 1)
  have 3: "keeps R (numerate_type ns p i v)" for p i v
    unfolding numerate_type_def previous_number_def by (intro js_frame 2)
  show ?thesis
    unfolding numerate_def by (intro js_frame 3)
qed

end

end
