(* ===== verification/Numerator_Props.thy ===== *)
theory Numerator_Props
  imports Handler_Props Numerator
begin

text \<open>
  The numerator against its abstract specification: a scope is a finite set of numbers, kept as
  intervals that neither overlap nor touch. \<^verbatim>\<open>commitValue\<close> inserts into the set,
  \<^verbatim>\<open>revokeValue\<close> deletes from it, \<^verbatim>\<open>getNextValueSimple\<close> gives a number outside of it.
\<close>

section \<open>The abstraction\<close>

type_synonym iv = "string \<times> int \<times> int"

abbreviation ref :: "string \<Rightarrow> val" where "ref u \<equiv> mkv TUri (DStr u)"
abbreviation intv :: "int \<Rightarrow> val list" where "intv i \<equiv> [mkv TInteger (DNum i)]"

text \<open>An interval individual in the store, under its URI.\<close>

definition iv_ind :: "iv \<Rightarrow> individual \<Rightarrow> bool" where
  "iv_ind x i \<longleftrightarrow>
     (case x of (u, b, e) \<Rightarrow>
        uri i = u \<and> wf_ind i \<and> pget i iv_begin = Some (intv b) \<and> pget i iv_end = Some (intv e)
        \<and> (\<exists>l. pget i ''rdfs:label'' = Some (strv l)))"

definition iv_at :: "world \<Rightarrow> iv \<Rightarrow> bool" where
  "iv_at w x \<longleftrightarrow> plain (fst x) \<and> fst (snd x) \<le> snd (snd x)
     \<and> (\<exists>i. store w (fst x) = Some i \<and> iv_ind x i)"

definition refs_of :: "iv list \<Rightarrow> val list" where
  "refs_of xs = map (\<lambda>x. ref (fst x)) xs"

definition kept :: "world \<Rightarrow> string \<Rightarrow> iv list \<Rightarrow> bool" where
  "kept w su xs \<longleftrightarrow>
     plain su \<and> distinct (map fst xs) \<and> su \<notin> fst ` set xs \<and> (\<forall>x \<in> set xs. iv_at w x)
     \<and> (\<exists>s. store w su = Some s \<and> uri s = su \<and> wf_ind s
            \<and> pget s iv_list = (if xs = [] then None else Some (refs_of xs)))"

definition gap :: "iv \<Rightarrow> iv \<Rightarrow> bool" where
  "gap x y \<longleftrightarrow> snd (snd x) + 1 < fst (snd y) \<or> snd (snd y) + 1 < fst (snd x)"

definition apart :: "iv list \<Rightarrow> bool" where
  "apart xs \<longleftrightarrow> (\<forall>x \<in> set xs. \<forall>y \<in> set xs. fst x \<noteq> fst y \<longrightarrow> gap x y)"

definition numbers :: "iv list \<Rightarrow> int set" where
  "numbers xs = (\<Union>x \<in> set xs. {fst (snd x) .. snd (snd x)})"

lemma numbers_simps [simp]:
  "numbers [] = {}" "numbers (x # xs) = {fst (snd x) .. snd (snd x)} \<union> numbers xs"
  "numbers (xs @ ys) = numbers xs \<union> numbers ys"
  by (auto simp: numbers_def)

lemma in_numbers: "n \<in> numbers xs \<longleftrightarrow> (\<exists>(u, b, e) \<in> set xs. b \<le> n \<and> n \<le> e)"
  by (force simp: numbers_def)

text \<open>The next fresh name.\<close>

definition fresh_iv :: "world \<Rightarrow> string \<Rightarrow> iv list \<Rightarrow> string \<Rightarrow> bool" where
  "fresh_iv w su xs u \<longleftrightarrow>
     u = uri_of_guid (guid_of w (nguid w)) @ ''-intv'' \<and> u \<noteq> su \<and> u \<notin> fst ` set xs"

lemma plain_genUri: "plain (uri_of_guid g @ ''-intv'')"
  by (auto simp: plain_def uri_of_guid_def)

section \<open>Writes and the abstraction\<close>

lemma num_eq_num [simp]: "num_rel num_eq (DNum a) (DNum b) \<longleftrightarrow> a = b"
  by (simp add: num_rel_def num_eq_def)

lemma norm_intv [simp]: "norm_prop w (Some (intv b)) = Some (intv b)"
  by (simp add: norm_prop_def)

lemma norm_strv [simp]: "norm_prop w (Some (strv b)) = Some (strv b)"
  by (simp add: norm_prop_def)

lemma norm_refs [simp]:
  "norm_prop w (Some (refs_of xs)) = (if xs = [] then None else Some (refs_of xs))"
proof -
  have "norm_vals w (refs_of xs) = refs_of xs" by (induction xs) (simp_all add: refs_of_def)
  then show ?thesis by (simp add: norm_prop_def refs_of_def)
qed

lemma wf_norm_ind [simp]: "wf_ind i \<Longrightarrow> wf_ind (norm_ind w i)"
proof -
  have *: "map fst (map (\<lambda>(k, vs). (k, norm_vals w vs)) (props i)) = map fst (props i)"
    by (induction "props i") auto
  assume "wf_ind i"
  then have "distinct (map fst (map (\<lambda>(k, vs). (k, norm_vals w vs)) (props i)))"
    unfolding * wf_ind_def .
  then have "distinct (map fst (filter (\<lambda>p. snd p \<noteq> []) (map (\<lambda>(k, vs). (k, norm_vals w vs)) (props i))))"
    by (rule distinct_map_filter)
  moreover have "props (norm_ind w i)
      = filter (\<lambda>p. snd p \<noteq> []) (map (\<lambda>(k, vs). (k, norm_vals w vs)) (props i))"
    by (simp add: norm_ind_def)
  ultimately show ?thesis by (simp only: wf_ind_def)
qed

lemma iv_ind_norm: "iv_ind x i \<Longrightarrow> iv_ind x (norm_ind w i)"
  by (auto simp: iv_ind_def pget_norm_ind split: prod.splits)

lemma iv_at_put:
  "plain (uri i) \<Longrightarrow> iv_ind (uri i, b, e) i \<Longrightarrow> b \<le> e \<Longrightarrow> iv_at (do_put i w) (uri i, b, e)"
  using iv_ind_norm [of "(uri i, b, e)" i w] by (simp add: iv_at_def store_do_put plain_def)

lemma iv_at_store: "store w' (fst x) = store w (fst x) \<Longrightarrow> iv_at w' x = iv_at w x"
  by (simp add: iv_at_def)

lemma store_put_other: "uri i \<noteq> u \<Longrightarrow> store (do_put i w) u = store w u"
  by (simp add: store_do_put)

lemma store_update_other: "uri i \<noteq> u \<Longrightarrow> store (do_update c i w) u = store w u"
  by (simp add: do_update_def add_item_def split: option.splits)

lemma iv_ind_body: "iv_ind (u, b, e) (interval_body u l (DNum b) (DNum e))"
  by (simp add: iv_ind_def interval_body_def wf_ind_def)

lemma uri_body [simp]: "uri (interval_body u l b e) = u"
  by (simp add: interval_body_def)

lemma range_text_run [js_run]:
  "range_text a b w = (Val (js_str (date_str w) a @ '' - '' @ js_str (date_str w) b), w)"
  by (simp add: range_text_def js_run)

text \<open>Storing the references makes the scope keep exactly the intervals listed.\<close>

lemma kept_put_scope:
  assumes s: "uri s = su" "wf_ind s" and su: "plain su" "su \<notin> fst ` set ys"
    and ys: "distinct (map fst ys)" "\<forall>x \<in> set ys. iv_at w x"
  shows "kept (do_put (set_prop iv_list (refs_of ys) s) w) su ys"
proof -
  let ?w = "do_put (set_prop iv_list (refs_of ys) s) w"
  have "iv_at ?w x" if "x \<in> set ys" for x
  proof -
    from that su have "fst x \<noteq> su" by auto
    then have "store ?w (fst x) = store w (fst x)" using s by (simp add: store_put_other)
    then have "iv_at ?w x = iv_at w x" by (rule iv_at_store)
    then show ?thesis using ys that by simp
  qed
  moreover have "store ?w su = Some (norm_ind w (set_prop iv_list (refs_of ys) s))"
    using s plain_nonempty [OF su(1)] by (simp add: store_do_put)
  moreover have "wf_ind (norm_ind w (set_prop iv_list (refs_of ys) s))"
    "uri (norm_ind w (set_prop iv_list (refs_of ys) s)) = su"
    using s by simp_all
  moreover have "pget (norm_ind w (set_prop iv_list (refs_of ys) s)) iv_list
      = (if ys = [] then None else Some (refs_of ys))"
    using s by (simp only: pget_norm_ind wf_set_prop pget_set_prop norm_refs simp_thms if_True)
  ultimately show ?thesis
    unfolding kept_def using su ys(1) by blast
qed

lemma kept_other:
  assumes "kept w su xs" and "store w' su = store w su"
    and "distinct (map fst ys)" and "map fst ys = map fst xs" and "\<forall>x \<in> set ys. iv_at w' x"
  shows "kept w' su ys"
proof -
  have r: "refs_of zs = map ref (map fst zs)" for zs by (simp add: refs_of_def)
  have 1: "refs_of ys = refs_of xs" unfolding r assms(4) ..
  have 2: "fst ` set ys = fst ` set xs" using assms(4) by (metis list.set_map)
  have 3: "ys = [] \<longleftrightarrow> xs = []" using assms(4) by (metis map_is_Nil_conv)
  show ?thesis
    using assms(1,2,3,5) unfolding kept_def 1 2 3 by simp
qed

section \<open>commitValue\<close>

text \<open>What the loop finds: whether the value is in an interval, the neighbour after and before.\<close>

fun scan_spec :: "world \<Rightarrow> int \<Rightarrow> iv list \<Rightarrow> scan_state \<Rightarrow> scan_state" where
  "scan_spec w v [] st = st"
| "scan_spec w v ((u, b, e) # xs) (c, n, p) =
     (if b \<le> v \<and> v \<le> e then (True, n, p)
      else if b = v + 1 then scan_spec w v xs (c, store w u, p)
      else if e = v - 1 then scan_spec w v xs (c, n, store w u)
      else scan_spec w v xs (c, n, p))"

lemma iv_atE:
  assumes "iv_at w (u, b, e)"
  obtains i where "lookup w (DStr u) = Some i" "store w u = Some i" "iv_ind (u, b, e) i" "b \<le> e" "plain u"
  using assms by (auto simp: iv_at_def lookup_plain)

lemma scan_step:
  assumes "iv_at w (u, b, e)"
  shows "scan_interval (DNum v) (c, n, p) (ref u) w =
    (Val (if b \<le> v \<and> v \<le> e then ((True, n, p), False)
      else if b = v + 1 then ((c, store w u, p), True)
      else if e = v - 1 then ((c, n, store w u), True)
      else ((c, n, p), True)), w)"
proof -
  from assms obtain i where i: "lookup w (DStr u) = Some i" "store w u = Some i" "iv_ind (u, b, e) i"
    by (elim iv_atE)
  then show ?thesis
    by (auto simp: scan_interval_def js_run iv_ind_def js_plus1_def js_minus1_def)
qed

lemma scan_run:
  "\<forall>x \<in> set xs. iv_at w x \<Longrightarrow>
   js_fold_break (scan_interval (DNum v)) st (refs_of xs) w = (Val (scan_spec w v xs st), w)"
proof (induction xs arbitrary: st)
  case Nil
  then show ?case by (simp add: refs_of_def js_run)
next
  case (Cons x xs)
  obtain u b e where x: "x = (u, b, e)" by (cases x)
  obtain c n p where st: "st = (c, n, p)" by (cases st)
  have "js_fold_break (scan_interval (DNum v)) st' (refs_of xs) w = (Val (scan_spec w v xs st'), w)" for st'
    using Cons by simp
  moreover have "iv_at w (u, b, e)" using Cons.prems x by simp
  ultimately show ?case
    by (auto simp: x st refs_of_def js_run scan_step)
qed

lemma scan_found: "v \<in> numbers xs \<Longrightarrow> fst (scan_spec w v xs st)"
  by (induction xs st rule: scan_spec.induct) auto

text \<open>Without the value in an interval, the last neighbour on either side.\<close>

lemma scan_not_found:
  assumes "v \<notin> numbers xs" and "\<forall>x \<in> set xs. fst (snd x) \<le> snd (snd x)"
  shows "\<exists>n' p'. scan_spec w v xs (c, n, p) = (c, n', p')
    \<and> ((n' = n \<and> (\<forall>x \<in> set xs. fst (snd x) \<noteq> v + 1))
       \<or> (\<exists>x \<in> set xs. fst (snd x) = v + 1 \<and> n' = store w (fst x)))
    \<and> ((p' = p \<and> (\<forall>x \<in> set xs. snd (snd x) \<noteq> v - 1))
       \<or> (\<exists>x \<in> set xs. snd (snd x) = v - 1 \<and> p' = store w (fst x)))"
  using assms
proof (induction xs arbitrary: n p)
  case Nil
  then show ?case by simp
next
  case (Cons x xs)
  obtain u b e where x: "x = (u, b, e)" by (cases x)
  define n1 where "n1 = (if b = v + 1 then store w u else n)"
  define p1 where "p1 = (if b \<noteq> v + 1 \<and> e = v - 1 then store w u else p)"
  have step: "scan_spec w v (x # xs) (c, n, p) = scan_spec w v xs (c, n1, p1)"
    using Cons.prems x by (auto simp: n1_def p1_def)
  obtain n' p' where r: "scan_spec w v xs (c, n1, p1) = (c, n', p')"
      "(n' = n1 \<and> (\<forall>x \<in> set xs. fst (snd x) \<noteq> v + 1))
         \<or> (\<exists>x \<in> set xs. fst (snd x) = v + 1 \<and> n' = store w (fst x))"
      "(p' = p1 \<and> (\<forall>x \<in> set xs. snd (snd x) \<noteq> v - 1))
         \<or> (\<exists>x \<in> set xs. snd (snd x) = v - 1 \<and> p' = store w (fst x))"
    using Cons.IH [of n1 p1] Cons.prems by auto
  have be: "b \<le> e" using Cons.prems x by simp
  show ?case
    unfolding step r(1)
    using r(2,3) be by (auto simp: x n1_def p1_def split: if_splits)
qed

text \<open>An interval gets new bounds.\<close>

definition upd :: "string \<Rightarrow> int \<times> int \<Rightarrow> iv list \<Rightarrow> iv list" where
  "upd u be xs = map (\<lambda>x. if fst x = u then (u, be) else x) xs"

lemma keys_upd [simp]: "map fst (upd u be xs) = map fst xs"
  by (induction xs) (auto simp: upd_def)

lemma set_upd:
  "distinct (map fst xs) \<Longrightarrow> (u, ce) \<in> set xs \<Longrightarrow>
   set (upd u be xs) = insert (u, be) {x \<in> set xs. fst x \<noteq> u}"
  by (force simp: upd_def)

lemma numbers_upd:
  assumes "distinct (map fst xs)" and "(u, b, e) \<in> set xs" and "b' \<le> b" and "e \<le> e'"
  shows "numbers (upd u (b', e') xs) = numbers xs \<union> {b'..e'}"
proof -
  have 1: "numbers (upd u (b', e') xs) = {b'..e'} \<union> (\<Union>x \<in> {x \<in> set xs. fst x \<noteq> u}. {fst (snd x)..snd (snd x)})"
    by (simp add: numbers_def set_upd [OF assms(1,2)])
  have 2: "set xs = insert (u, b, e) {x \<in> set xs. fst x \<noteq> u}"
    using assms(1,2) by (auto dest: eq_key_imp_eq_value)
  have 3: "numbers xs = {b..e} \<union> (\<Union>x \<in> {x \<in> set xs. fst x \<noteq> u}. {fst (snd x)..snd (snd x)})"
    unfolding numbers_def by (subst 2) simp
  have "{b..e} \<subseteq> {b'..e'}" using assms(3,4) by auto
  then show ?thesis unfolding 1 3 by auto
qed

lemma gap_sym: "gap x y = gap y x"
  by (auto simp: gap_def)

lemma apart_upd:
  assumes "apart xs" and "\<forall>y \<in> set xs. fst y \<noteq> u \<longrightarrow> gap (u, be) y"
  shows "apart (upd u be xs)"
proof -
  have "\<forall>y \<in> set xs. fst y \<noteq> u \<longrightarrow> gap y (u, be)" using assms(2) gap_sym by blast
  with assms show ?thesis unfolding apart_def upd_def by auto
qed

lemma kept_upd:
  assumes k: "kept w su xs" and u: "(u, ce) \<in> set xs" and i: "uri i = u" "iv_ind (u, b, e) i" "b \<le> e"
  shows "kept (do_put i w) su (upd u (b, e) xs)"
proof (rule kept_other [OF k])
  from k u have "u \<noteq> su" and p: "plain u" by (force simp: kept_def iv_at_def)+
  then show "store (do_put i w) su = store w su" using i by (simp add: store_put_other)
  show "distinct (map fst (upd u (b, e) xs))" using k by (simp add: kept_def)
  show "map fst (upd u (b, e) xs) = map fst xs" by simp
  show "\<forall>x \<in> set (upd u (b, e) xs). iv_at (do_put i w) x"
  proof
    fix x assume "x \<in> set (upd u (b, e) xs)"
    then consider "x = (u, b, e)" | "x \<in> set xs" "fst x \<noteq> u" by (auto simp: upd_def split: if_splits)
    then show "iv_at (do_put i w) x"
    proof cases
      case 1
      then show ?thesis using iv_at_put [of i b e w] p i by simp
    next
      case 2
      then have "iv_at (do_put i w) x = iv_at w x"
        using i by (intro iv_at_store) (simp add: store_put_other)
      then show ?thesis using k 2 by (simp add: kept_def)
    qed
  qed
qed

lemma mkv_vdata [simp]: "(mkv t d)\<lparr>vdata := d'\<rparr> = mkv t d'"
  by (simp add: mkv_def)

lemma extend_end_run:
  assumes "iv_ind (u, b, e) i"
  shows "\<exists>i'. extend_end i (DNum v) w = (Val (), do_put i' w) \<and> uri i' = u \<and> iv_ind (u, b, v) i'"
  using assms by (auto simp: iv_ind_def extend_end_def set_data0_def js_run)

lemma extend_begin_run:
  assumes "iv_ind (u, b, e) i"
  shows "\<exists>i'. extend_begin i (DNum v) w = (Val (), do_put i' w) \<and> uri i' = u \<and> iv_ind (u, v, e) i'"
  using assms by (auto simp: iv_ind_def extend_begin_def set_data0_def js_run)

lemma merge_both_run:
  assumes "iv_ind (pu, pb, pe) p" and "iv_ind (nu, nb, ne) n"
  shows "\<exists>p'. merge_both s refs p n w = (Val (),
       do_put (set_prop iv_list (filter (\<lambda>r. \<not> loose_eq (vdata r) (DStr nu)) refs) s)
         (do_update OpAddTo \<lparr>uri = nu, props = [(''v-s:deleted'', boolv True)]\<rparr> (do_put p' w)))
     \<and> uri p' = pu \<and> iv_ind (pu, pb, ne) p'"
  using assms
  by (auto simp: iv_ind_def merge_both_def set_data0_def delete_interval_def put_scope_def js_run)

lemma filter_refs:
  "filter (\<lambda>r. \<not> loose_eq (vdata r) (DStr u)) (refs_of xs) = refs_of (filter (\<lambda>x. fst x \<noteq> u) xs)"
  by (induction xs) (simp_all add: refs_of_def)

lemma add_interval_run:
  "add_interval s refs (DNum v) w = (Val (), do_put (set_prop iv_list
      (refs @ [ref (uri_of_guid (guid_of w (nguid w)) @ ''-intv'')]) s)
      (do_put (interval_body (uri_of_guid (guid_of w (nguid w)) @ ''-intv'')
        (show_int v @ '' - '' @ show_int v) (DNum v) (DNum v)) (next_guid w)))"
  by (simp add: add_interval_def put_scope_def js_run newUri_def)

lemma kept_add_interval:
  assumes k: "kept w su xs" and s: "store w su = Some s" and f: "fresh_iv w su xs u"
  shows "\<exists>w'. add_interval s (refs_of xs) (DNum v) w = (Val (), w') \<and> kept w' su (xs @ [(u, v, v)])"
proof -
  let ?b = "interval_body u (show_int v @ '' - '' @ show_int v) (DNum v) (DNum v)"
  let ?w = "do_put ?b (next_guid w)"
  from f have u: "u = uri_of_guid (guid_of w (nguid w)) @ ''-intv''" "u \<noteq> su" "u \<notin> fst ` set xs"
    unfolding fresh_iv_def by blast+
  have p: "plain u" unfolding u(1) by (rule plain_genUri)
  have new: "iv_at ?w (u, v, v)"
    using iv_at_put [of ?b v v "next_guid w"] p by (simp add: iv_ind_body)
  have old: "iv_at ?w x" if "x \<in> set xs" for x
  proof -
    from that u(3) have "fst x \<noteq> u" by blast
    then have "iv_at ?w x = iv_at w x" by (intro iv_at_store) (simp add: store_put_other)
    with that k show ?thesis by (simp add: kept_def)
  qed
  have "kept (do_put (set_prop iv_list (refs_of (xs @ [(u, v, v)])) s) ?w) su (xs @ [(u, v, v)])"
    by (rule kept_put_scope) (use k s u new old in \<open>auto simp: kept_def\<close>)
  moreover have "add_interval s (refs_of xs) (DNum v) w
      = (Val (), do_put (set_prop iv_list (refs_of (xs @ [(u, v, v)])) s) ?w)"
    using add_interval_run [of s "refs_of xs" v w] u(1) by (simp add: refs_of_def)
  ultimately show ?thesis by blast
qed

lemma kept_merge:
  assumes k: "kept w su xs" and s: "store w su = Some s"
    and p: "(pu, pb, v - 1) \<in> set xs" and n: "(nu, v + 1, ne) \<in> set xs"
    and si: "store w pu = Some pi" "store w nu = Some ni"
  shows "\<exists>w'. merge_both s (refs_of xs) pi ni w = (Val (), w')
    \<and> kept w' su (filter (\<lambda>x. fst x \<noteq> nu) (upd pu (pb, ne) xs))"
proof -
  let ?ys = "upd pu (pb, ne) xs"
  let ?d = "\<lparr>uri = nu, props = [(''v-s:deleted'', boolv True)]\<rparr>"
  from k p n si have iv: "iv_ind (pu, pb, v - 1) pi" "iv_ind (nu, v + 1, ne) ni" "pb \<le> v - 1" "v + 1 \<le> ne"
    by (force simp: kept_def iv_at_def)+
  obtain p' where run: "merge_both s (refs_of xs) pi ni w = (Val (),
       do_put (set_prop iv_list (refs_of (filter (\<lambda>x. fst x \<noteq> nu) xs)) s)
         (do_update OpAddTo ?d (do_put p' w)))" and p': "uri p' = pu" "iv_ind (pu, pb, ne) p'"
    using merge_both_run [OF iv(1,2), of s "refs_of xs" w] unfolding filter_refs by blast
  have k1: "kept (do_put p' w) su ?ys"
    by (rule kept_upd [OF k p p']) (use iv in simp)
  have refs: "refs_of (filter (\<lambda>x. fst x \<noteq> nu) xs) = refs_of (filter (\<lambda>x. fst x \<noteq> nu) ?ys)"
    by (induction xs) (auto simp: refs_of_def upd_def)
  have "\<forall>x \<in> set (filter (\<lambda>x. fst x \<noteq> nu) ?ys). iv_at (do_update OpAddTo ?d (do_put p' w)) x"
  proof
    fix x assume x: "x \<in> set (filter (\<lambda>x. fst x \<noteq> nu) ?ys)"
    then have "iv_at (do_update OpAddTo ?d (do_put p' w)) x = iv_at (do_put p' w) x"
      by (intro iv_at_store) (auto simp: store_update_other)
    with x k1 show "iv_at (do_update OpAddTo ?d (do_put p' w)) x" by (simp add: kept_def)
  qed
  moreover have "uri s = su" "wf_ind s" "plain su" using k s by (auto simp: kept_def)
  moreover have "distinct (map fst (filter (\<lambda>x. fst x \<noteq> nu) ?ys))"
    "su \<notin> fst ` set (filter (\<lambda>x. fst x \<noteq> nu) ?ys)"
    using k1 by (auto simp: kept_def distinct_map_filter)
  ultimately show ?thesis
    unfolding run refs using kept_put_scope by blast
qed

lemma numbers_filter:
  assumes "(n, b, e) \<in> set xs" "{b..e} \<subseteq> numbers (filter (\<lambda>x. fst x \<noteq> n) xs)"
    and "distinct (map fst xs)"
  shows "numbers (filter (\<lambda>x. fst x \<noteq> n) xs) = numbers xs"
proof
  show "numbers (filter (\<lambda>x. fst x \<noteq> n) xs) \<subseteq> numbers xs" by (auto simp: numbers_def)
  show "numbers xs \<subseteq> numbers (filter (\<lambda>x. fst x \<noteq> n) xs)"
  proof
    fix k assume "k \<in> numbers xs"
    then obtain y where y: "y \<in> set xs" "k \<in> {fst (snd y)..snd (snd y)}" by (auto simp: numbers_def)
    show "k \<in> numbers (filter (\<lambda>x. fst x \<noteq> n) xs)"
    proof (cases "fst y = n")
      case True
      with y assms(1,3) have "y = (n, b, e)" by (metis eq_key_imp_eq_value prod.collapse)
      with y assms(2) show ?thesis by auto
    next
      case False
      with y(1) have "y \<in> set (filter (\<lambda>x. fst x \<noteq> n) xs)" by simp
      then show ?thesis using y(2) unfolding numbers_def by (rule UN_I)
    qed
  qed
qed

text \<open>The gaps of an interval that grows by the number next to it.\<close>

lemma grown_apart:
  assumes "apart xs" and "kept w su xs" and "(u, b, v - 1) \<in> set xs"
    and "\<forall>x \<in> set xs. fst (snd x) \<noteq> v + 1" and "v \<notin> numbers xs"
  shows "apart (upd u (b, v) xs)"
proof (rule apart_upd [OF assms(1)], intro ballI impI)
  fix y assume y: "y \<in> set xs" "fst y \<noteq> u"
  with assms(1,3) have "gap (u, b, v - 1) y" unfolding apart_def by force
  moreover have "fst (snd y) \<le> snd (snd y)" using assms(2) y by (simp add: kept_def iv_at_def)
  moreover have "fst (snd y) \<noteq> v + 1" using assms(4) y by blast
  moreover have "\<not> (fst (snd y) \<le> v \<and> v \<le> snd (snd y))" using assms(5) y by (auto simp: numbers_def)
  ultimately show "gap (u, b, v) y" unfolding gap_def by (simp; linarith)
qed

lemma grown_apart_below:
  assumes "apart xs" and "kept w su xs" and "(u, v + 1, e) \<in> set xs"
    and "\<forall>x \<in> set xs. snd (snd x) \<noteq> v - 1" and "v \<notin> numbers xs"
  shows "apart (upd u (v, e) xs)"
proof (rule apart_upd [OF assms(1)], intro ballI impI)
  fix y assume y: "y \<in> set xs" "fst y \<noteq> u"
  with assms(1,3) have "gap (u, v + 1, e) y" unfolding apart_def by force
  moreover have "fst (snd y) \<le> snd (snd y)" using assms(2) y by (simp add: kept_def iv_at_def)
  moreover have "snd (snd y) \<noteq> v - 1" using assms(4) y by blast
  moreover have "\<not> (fst (snd y) \<le> v \<and> v \<le> snd (snd y))" using assms(5) y by (auto simp: numbers_def)
  ultimately show "gap (u, v, e) y" unfolding gap_def by (simp; linarith)
qed

lemma merged_apart:
  assumes "apart xs" and "kept w su xs" and "(pu, pb, v - 1) \<in> set xs" and "(nu, v + 1, ne) \<in> set xs"
  shows "apart (filter (\<lambda>x. fst x \<noteq> nu) (upd pu (pb, ne) xs))"
proof -
  have g: "gap (pu, pb, ne) y" if y: "y \<in> set xs" "fst y \<noteq> pu" "fst y \<noteq> nu" for y
  proof -
    from y assms(1,3,4) have "gap (pu, pb, v - 1) y" "gap (nu, v + 1, ne) y"
      unfolding apart_def by force+
    moreover have "fst (snd y) \<le> snd (snd y)" using assms(2) y by (simp add: kept_def iv_at_def)
    ultimately show ?thesis unfolding gap_def by (simp; linarith)
  qed
  then have "\<forall>y \<in> set xs. fst y \<noteq> pu \<and> fst y \<noteq> nu \<longrightarrow> gap y (pu, pb, ne)" using gap_sym by blast
  with g assms(1) show ?thesis unfolding apart_def upd_def by auto
qed

lemma new_apart:
  assumes "apart xs" and "kept w su xs" and "v \<notin> numbers xs"
    and "\<forall>x \<in> set xs. fst (snd x) \<noteq> v + 1" and "\<forall>x \<in> set xs. snd (snd x) \<noteq> v - 1"
  shows "apart (xs @ [(u, v, v)])"
proof -
  have g: "gap (u, v, v) y" if y: "y \<in> set xs" for y
  proof -
    have "fst (snd y) \<le> snd (snd y)" using assms(2) y by (simp add: kept_def iv_at_def)
    moreover have "fst (snd y) \<noteq> v + 1" "snd (snd y) \<noteq> v - 1" using assms(4,5) y by blast+
    moreover have "\<not> (fst (snd y) \<le> v \<and> v \<le> snd (snd y))" using assms(3) y by (auto simp: numbers_def)
    ultimately show ?thesis unfolding gap_def by (simp; linarith)
  qed
  then have "\<forall>y \<in> set xs. gap y (u, v, v)" using gap_sym by blast
  with g assms(1) show ?thesis unfolding apart_def by auto
qed

lemma numbers_merged:
  assumes d: "distinct (map fst xs)" and p: "(pu, pb, v - 1) \<in> set xs" and n: "(nu, v + 1, ne) \<in> set xs"
    and le: "pb \<le> v - 1" "v + 1 \<le> ne"
  shows "numbers (filter (\<lambda>x. fst x \<noteq> nu) (upd pu (pb, ne) xs)) = insert v (numbers xs)"
proof -
  let ?ys = "upd pu (pb, ne) xs"
  have ne: "pu \<noteq> nu" using eq_key_imp_eq_value [OF d] p n le by fastforce
  have "(pu, pb, ne) \<in> set (filter (\<lambda>x. fst x \<noteq> nu) ?ys)"
    using ne p by (simp add: set_upd [OF d p])
  then have "{pb..ne} \<subseteq> numbers (filter (\<lambda>x. fst x \<noteq> nu) ?ys)" by (force simp: numbers_def)
  moreover have "(nu, v + 1, ne) \<in> set ?ys" using ne n by (simp add: set_upd [OF d p])
  moreover have "distinct (map fst ?ys)" using d by simp
  ultimately have "numbers (filter (\<lambda>x. fst x \<noteq> nu) ?ys) = numbers ?ys"
    using le by (intro numbers_filter [of nu "v + 1" ne]) auto
  also have "\<dots> = numbers xs \<union> {pb..ne}" using le by (intro numbers_upd [OF d p]) auto
  also have "{pb..ne} = {pb..v - 1} \<union> {v} \<union> {v + 1..ne}" using le by auto
  also have "numbers xs \<union> \<dots> = insert v (numbers xs)"
    using p n by (force simp: numbers_def)
  finally show ?thesis .
qed

text \<open>The loop of a commit, by what it has found.\<close>

lemma commit_run:
  assumes "kept w su xs" and "store w su = Some s" and "xs \<noteq> []"
    and "scan_spec w v xs (False, None, None) = (com, n, p)"
  shows "commitValue s (DNum v) w = js_catch
      (if com then js_ret (Some False)
       else js_seq (case (p, n) of
                (Some p, Some n) \<Rightarrow> merge_both s (refs_of xs) p n
              | (Some p, None) \<Rightarrow> extend_end p (DNum v)
              | (None, Some n) \<Rightarrow> extend_begin n (DNum v)
              | (None, None) \<Rightarrow> add_interval s (refs_of xs) (DNum v)) (js_ret (Some True)))
     (js_ret None) w"
proof -
  have at: "\<forall>x \<in> set xs. iv_at w x" and l: "pget s iv_list = Some (refs_of xs)"
    using assms(1-3) by (auto simp: kept_def)
  show ?thesis
    by (simp add: commitValue_def l run_bind run_control scan_run [OF at] assms(4))
qed

text \<open>A commit of a new number: the result, and the intervals afterwards.\<close>

definition inserts :: "world \<Rightarrow> string \<Rightarrow> individual \<Rightarrow> iv list \<Rightarrow> int \<Rightarrow> bool" where
  "inserts w su s xs v \<longleftrightarrow>
     (\<exists>w' ys. commitValue s (DNum v) w = (Val (Some True), w')
        \<and> kept w' su ys \<and> apart ys \<and> numbers ys = insert v (numbers xs))"

lemma inserts_neither:
  assumes "kept w su xs" and "apart xs" and "store w su = Some s" and "fresh_iv w su xs u"
    and v: "v \<notin> numbers xs" and "scan_spec w v xs (False, None, None) = (False, None, None)"
    and "\<forall>x \<in> set xs. fst (snd x) \<noteq> v + 1" and "\<forall>x \<in> set xs. snd (snd x) \<noteq> v - 1"
  shows "inserts w su s xs v"
proof -
  obtain w' where w': "add_interval s (refs_of xs) (DNum v) w = (Val (), w')" "kept w' su (xs @ [(u, v, v)])"
    using kept_add_interval [OF assms(1,3,4)] by blast
  have "commitValue s (DNum v) w = (Val (Some True), w')"
  proof (cases "xs = []")
    case True
    then have "pget s iv_list = None" using assms(1,3) by (auto simp: kept_def)
    then show ?thesis using True w' by (simp add: commitValue_def js_run refs_of_def)
  next
    case False
    show ?thesis
      unfolding commit_run [OF assms(1,3) False assms(6)] using w' by (simp add: js_run)
  qed
  then show ?thesis
    unfolding inserts_def using w' new_apart [OF assms(2,1) v assms(7,8), of u]
    by (intro exI [of _ w'] exI [of _ "xs @ [(u, v, v)]"]) auto
qed

lemma inserts_before:
  assumes "kept w su xs" and "apart xs" and "store w su = Some s"
    and v: "v \<notin> numbers xs" and "scan_spec w v xs (False, None, None) = (False, None, Some pi)"
    and "\<forall>x \<in> set xs. fst (snd x) \<noteq> v + 1"
    and p: "(pu, pb, v - 1) \<in> set xs" "iv_ind (pu, pb, v - 1) pi" "pb \<le> v - 1"
  shows "inserts w su s xs v"
proof -
  obtain i' where i': "extend_end pi (DNum v) w = (Val (), do_put i' w)" "uri i' = pu" "iv_ind (pu, pb, v) i'"
    using extend_end_run [OF p(2)] by blast
  have ne: "xs \<noteq> []" using p(1) by auto
  have d: "distinct (map fst xs)" using assms(1) by (simp add: kept_def)
  have "commitValue s (DNum v) w = (Val (Some True), do_put i' w)"
    unfolding commit_run [OF assms(1,3) ne assms(5)] using i' by (simp add: js_run)
  moreover have "kept (do_put i' w) su (upd pu (pb, v) xs)"
    using kept_upd [OF assms(1) p(1) i'(2,3)] p(3) by simp
  moreover have "numbers (upd pu (pb, v) xs) = insert v (numbers xs)"
  proof -
    have "{pb..v} = insert v {pb..v - 1}" using p(3) by auto
    moreover have "{pb..v - 1} \<subseteq> numbers xs" using p(1) by (force simp: numbers_def)
    ultimately show ?thesis using numbers_upd [OF d p(1), of pb v] by auto
  qed
  ultimately show ?thesis
    unfolding inserts_def using grown_apart [OF assms(2,1) p(1) assms(6) v] by blast
qed

lemma inserts_after:
  assumes "kept w su xs" and "apart xs" and "store w su = Some s"
    and v: "v \<notin> numbers xs" and "scan_spec w v xs (False, None, None) = (False, Some ni, None)"
    and "\<forall>x \<in> set xs. snd (snd x) \<noteq> v - 1"
    and n: "(nu, v + 1, ne) \<in> set xs" "iv_ind (nu, v + 1, ne) ni" "v + 1 \<le> ne"
  shows "inserts w su s xs v"
proof -
  obtain i' where i': "extend_begin ni (DNum v) w = (Val (), do_put i' w)" "uri i' = nu" "iv_ind (nu, v, ne) i'"
    using extend_begin_run [OF n(2)] by blast
  have ne: "xs \<noteq> []" using n(1) by auto
  have d: "distinct (map fst xs)" using assms(1) by (simp add: kept_def)
  have "commitValue s (DNum v) w = (Val (Some True), do_put i' w)"
    unfolding commit_run [OF assms(1,3) ne assms(5)] using i' by (simp add: js_run)
  moreover have "kept (do_put i' w) su (upd nu (v, ne) xs)"
    using kept_upd [OF assms(1) n(1) i'(2,3)] n(3) by simp
  moreover have "numbers (upd nu (v, ne) xs) = insert v (numbers xs)"
  proof -
    have "{v..ne} = insert v {v + 1..ne}" using n(3) by auto
    moreover have "{v + 1..ne} \<subseteq> numbers xs" using n(1) by (force simp: numbers_def)
    ultimately show ?thesis using numbers_upd [OF d n(1), of v ne] by auto
  qed
  ultimately show ?thesis
    unfolding inserts_def using grown_apart_below [OF assms(2,1) n(1) assms(6) v] by blast
qed

lemma inserts_both:
  assumes "kept w su xs" and "apart xs" and "store w su = Some s"
    and "scan_spec w v xs (False, None, None) = (False, Some ni, Some pi)"
    and p: "(pu, pb, v - 1) \<in> set xs" "store w pu = Some pi" "pb \<le> v - 1"
    and n: "(nu, v + 1, ne) \<in> set xs" "store w nu = Some ni" "v + 1 \<le> ne"
  shows "inserts w su s xs v"
proof -
  let ?ys = "filter (\<lambda>x. fst x \<noteq> nu) (upd pu (pb, ne) xs)"
  obtain w' where w': "merge_both s (refs_of xs) pi ni w = (Val (), w')" "kept w' su ?ys"
    using kept_merge [OF assms(1,3) p(1) n(1) p(2) n(2)] by blast
  have ne: "xs \<noteq> []" using n(1) by auto
  have d: "distinct (map fst xs)" using assms(1) by (simp add: kept_def)
  have "commitValue s (DNum v) w = (Val (Some True), w')"
    unfolding commit_run [OF assms(1,3) ne assms(4)] using w' by (simp add: js_run)
  moreover have "numbers ?ys = insert v (numbers xs)"
    by (rule numbers_merged [OF d p(1) n(1) p(3) n(3)])
  ultimately show ?thesis
    unfolding inserts_def using w' merged_apart [OF assms(2,1) p(1) n(1)] by blast
qed

lemma inserts_new:
  assumes k: "kept w su xs" and a: "apart xs" and s: "store w su = Some s" and f: "fresh_iv w su xs u"
    and v: "v \<notin> numbers xs"
  shows "inserts w su s xs v"
proof -
  have get: "\<exists>i. store w (fst x) = Some i \<and> iv_ind x i \<and> fst (snd x) \<le> snd (snd x)"
    if "x \<in> set xs" for x
    using k that by (auto simp: kept_def iv_at_def)
  then have le: "\<forall>x \<in> set xs. fst (snd x) \<le> snd (snd x)" by blast
  obtain n p where st: "scan_spec w v xs (False, None, None) = (False, n, p)"
    and n: "(n = None \<and> (\<forall>x \<in> set xs. fst (snd x) \<noteq> v + 1))
        \<or> (\<exists>x \<in> set xs. fst (snd x) = v + 1 \<and> n = store w (fst x))"
    and p: "(p = None \<and> (\<forall>x \<in> set xs. snd (snd x) \<noteq> v - 1))
        \<or> (\<exists>x \<in> set xs. snd (snd x) = v - 1 \<and> p = store w (fst x))"
    using scan_not_found [OF v le, of w False None None] by auto
  have n': "(n = None \<and> (\<forall>x \<in> set xs. fst (snd x) \<noteq> v + 1))
      \<or> (\<exists>nu ne ni. (nu, v + 1, ne) \<in> set xs \<and> n = Some ni \<and> store w nu = Some ni
            \<and> iv_ind (nu, v + 1, ne) ni \<and> v + 1 \<le> ne)"
    using n get by fastforce
  have p': "(p = None \<and> (\<forall>x \<in> set xs. snd (snd x) \<noteq> v - 1))
      \<or> (\<exists>pu pb pi. (pu, pb, v - 1) \<in> set xs \<and> p = Some pi \<and> store w pu = Some pi
            \<and> iv_ind (pu, pb, v - 1) pi \<and> pb \<le> v - 1)"
    using p get by fastforce
  show ?thesis
  proof (cases n; cases p)
    assume np: "n = None" "p = None"
    with n' p' st show ?thesis by (intro inserts_neither [OF k a s f v]) simp_all
  next
    fix pi assume np: "n = None" "p = Some pi"
    with p' obtain pu pb where "(pu, pb, v - 1) \<in> set xs" "iv_ind (pu, pb, v - 1) pi" "pb \<le> v - 1" by auto
    with np n' st show ?thesis by (intro inserts_before [OF k a s v]) simp_all
  next
    fix ni assume np: "n = Some ni" "p = None"
    with n' obtain nu ne where "(nu, v + 1, ne) \<in> set xs" "iv_ind (nu, v + 1, ne) ni" "v + 1 \<le> ne" by auto
    with np p' st show ?thesis by (intro inserts_after [OF k a s v]) simp_all
  next
    fix ni pi assume np: "n = Some ni" "p = Some pi"
    from np n' obtain nu ne where "(nu, v + 1, ne) \<in> set xs" "store w nu = Some ni" "v + 1 \<le> ne" by auto
    moreover from np p' obtain pu pb where "(pu, pb, v - 1) \<in> set xs" "store w pu = Some pi" "pb \<le> v - 1" by auto
    moreover have "scan_spec w v xs (False, None, None) = (False, Some ni, Some pi)" using np st by simp
    ultimately show ?thesis using inserts_both [OF k a s] by blast
  qed
qed

lemma commit_known:
  assumes "kept w su xs" and "store w su = Some s" and "v \<in> numbers xs"
  shows "commitValue s (DNum v) w = (Val (Some False), w)"
proof -
  have "fst (scan_spec w v xs (False, None, None))" by (rule scan_found [OF assms(3)])
  then obtain n p where st: "scan_spec w v xs (False, None, None) = (True, n, p)"
    by (cases "scan_spec w v xs (False, None, None)") simp
  have ne: "xs \<noteq> []" using assms(3) by auto
  show ?thesis
    unfolding commit_run [OF assms(1,2) ne st] by (simp add: js_run)
qed

text \<open>C16: \<^verbatim>\<open>commitValue\<close> refines insertion into the set of committed numbers. On a
  scope whose intervals are kept apart it answers whether the number was new, the stored
  intervals afterwards contain exactly the old numbers and the new one, and they still neither
  overlap nor touch (so both neighbours are merged where they meet).\<close>

theorem commit_inserts:
  assumes "kept w su xs" and "apart xs" and "store w su = Some s" and "fresh_iv w su xs u"
  shows "\<exists>w' ys. commitValue s (DNum v) w = (Val (Some (v \<notin> numbers xs)), w')
    \<and> kept w' su ys \<and> apart ys \<and> numbers ys = insert v (numbers xs)"
proof (cases "v \<in> numbers xs")
  case True
  then show ?thesis using commit_known [OF assms(1,3) True] assms(1,2) by (auto simp: insert_absorb)
next
  case False
  then show ?thesis using inserts_new [OF assms False] unfolding inserts_def by simp
qed

text \<open>A scope with the intervals 1 to 3 and 5 to 6.\<close>

definition scope_ex :: individual where
  "scope_ex = \<lparr>uri = ''d:s'', props = [(iv_list, [ref ''d:i'', ref ''d:j''])]\<rparr>"

definition numbers_ex :: world where
  "numbers_ex = empty_world\<lparr>store := [''d:s'' \<mapsto> scope_ex,
     ''d:i'' \<mapsto> interval_body ''d:i'' ''1 - 3'' (DNum 1) (DNum 3),
     ''d:j'' \<mapsto> interval_body ''d:j'' ''5 - 6'' (DNum 5) (DNum 6)]\<rparr>"

lemma kept_ex: "kept numbers_ex ''d:s'' [(''d:i'', 1, 3), (''d:j'', 5, 6)]"
  by (simp add: kept_def iv_at_def iv_ind_body numbers_ex_def scope_ex_def plain_def wf_ind_def refs_of_def)

lemma apart_ex: "apart [(''d:i'', 1, 3), (''d:j'', 5, 6)]"
  by (simp add: apart_def gap_def)

lemma store_ex: "store numbers_ex ''d:s'' = Some scope_ex"
  by (simp add: numbers_ex_def)

lemma fresh_ex: "fresh_iv numbers_ex ''d:s'' [(''d:i'', 1, 3), (''d:j'', 5, 6)] ''d:g0-intv''"
  by (simp add: fresh_iv_def numbers_ex_def empty_world_def uri_of_guid_def show_nat_eval char_digit_def)

theorem commit_inserts_witness:
  "\<exists>w' ys. commitValue scope_ex (DNum 4) numbers_ex = (Val (Some True), w')
    \<and> kept w' ''d:s'' ys \<and> apart ys \<and> numbers ys = {1..6}"
proof -
  have "insert 4 (numbers [(''d:i'', 1, 3), (''d:j'', 5, 6)]) = {1..6}" by auto
  then show ?thesis using commit_inserts [OF kept_ex apart_ex store_ex fresh_ex, of 4] by auto
qed

section \<open>revokeValue\<close>

lemma fold_append: "js_fold f a (xs @ ys) w = js_bind (js_fold f a xs) (\<lambda>b. js_fold f b ys) w"
  by (induction xs arbitrary: a w) (simp_all add: run_bind run_basic split: prod.splits res.splits)

lemma revoke_outside:
  assumes "iv_at w (u, b, e)" and "\<not> (b \<le> v \<and> v \<le> e)"
  shows "revoke_interval (DNum v) acc (ref u) w = (Val (acc @ [ref u]), w)"
proof -
  from assms(1) obtain i where i: "lookup w (DStr u) = Some i" "iv_ind (u, b, e) i" "b \<le> e"
    by (elim iv_atE)
  with assms(2) show ?thesis by (auto simp: revoke_interval_def js_run iv_ind_def)
qed

lemma revoke_rest:
  assumes "\<forall>x \<in> set xs. iv_at w x" and "v \<notin> numbers xs"
  shows "js_fold (revoke_interval (DNum v)) acc (refs_of xs) w = (Val (acc @ refs_of xs), w)"
  using assms
proof (induction xs arbitrary: acc)
  case Nil
  then show ?case by (simp add: refs_of_def js_run)
next
  case (Cons x xs)
  obtain u b e where x: "x = (u, b, e)" by (cases x)
  have "js_fold (revoke_interval (DNum v)) (acc @ [ref u]) (refs_of xs) w
      = (Val ((acc @ [ref u]) @ refs_of xs), w)"
    by (rule Cons.IH) (use Cons.prems in auto)
  moreover have "revoke_interval (DNum v) acc (ref u) w = (Val (acc @ [ref u]), w)"
    by (rule revoke_outside) (use Cons.prems x in auto)
  ultimately show ?case by (simp add: x refs_of_def js_run)
qed

text \<open>The interval with the number: what is left of it.\<close>

definition rest_of :: "string \<Rightarrow> string \<Rightarrow> int \<Rightarrow> int \<Rightarrow> int \<Rightarrow> iv list" where
  "rest_of u u' b e v =
     (if b = v then (if b < e then [(u, v + 1, e)] else [])
      else if e = v then [(u, b, v - 1)]
      else [(u, b, v - 1), (u', v + 1, e)])"

lemma iv_at_body: "plain u \<Longrightarrow> b \<le> e \<Longrightarrow> iv_at (do_put (interval_body u l (DNum b) (DNum e)) w) (u, b, e)"
  using iv_at_put [of "interval_body u l (DNum b) (DNum e)" b e w] by (simp add: iv_ind_body)

lemma iv_at_body_other:
  "u \<noteq> fst x \<Longrightarrow> iv_at (do_put (interval_body u l b e) w) x = iv_at w x"
  by (intro iv_at_store) (simp add: store_put_other)

lemma iv_at_guid: "iv_at (next_guid w) x = iv_at w x"
  by (intro iv_at_store) simp

lemma revoke_inside:
  assumes "iv_at w (u, b, e)" and "b \<le> v" "v \<le> e"
    and u': "u' = uri_of_guid (guid_of w (nguid w)) @ ''-intv''" "u' \<noteq> u"
  shows "\<exists>w'. revoke_interval (DNum v) acc (ref u) w = (Val (acc @ refs_of (rest_of u u' b e v)), w')
    \<and> (\<forall>k. k \<noteq> u \<and> k \<noteq> u' \<longrightarrow> store w' k = store w k)
    \<and> (\<forall>x \<in> set (rest_of u u' b e v). iv_at w' x)"
proof -
  from assms(1) obtain i where i: "lookup w (DStr u) = Some i" "iv_ind (u, b, e) i" "plain u" "uri i = u"
      "pget i iv_begin = Some (intv b)" "pget i iv_end = Some (intv e)"
    by (auto elim!: iv_atE simp: iv_ind_def)
  have p': "plain u'" unfolding u'(1) by (rule plain_genUri)
  consider (only) "b = v" "e = v" | (first) "b = v" "v < e" | (last) "b < v" "e = v" | (mid) "b < v" "v < e"
    using assms(2,3) by linarith
  then show ?thesis
  proof cases
    case only
    then show ?thesis
      using i by (auto simp: revoke_interval_def js_run rest_of_def refs_of_def delete_interval_def store_update_other)
  next
    case first
    then show ?thesis
      using i by (auto simp: revoke_interval_def js_run rest_of_def refs_of_def cut_interval_def js_plus1_def
          store_put_other iv_at_body)
  next
    case last
    then show ?thesis
      using i by (auto simp: revoke_interval_def js_run rest_of_def refs_of_def cut_interval_def js_minus1_def
          store_put_other iv_at_body)
  next
    case mid
    then show ?thesis
      using i p' u'(2)
      by (auto simp: revoke_interval_def js_run rest_of_def refs_of_def cut_interval_def js_plus1_def
          js_minus1_def store_put_other iv_at_body iv_at_body_other iv_at_guid newUri_def simp flip: u'(1))
  qed
qed

lemma rest_numbers: "b \<le> v \<Longrightarrow> v \<le> e \<Longrightarrow> numbers (rest_of u u' b e v) = {b..e} - {v}"
  by (auto simp: rest_of_def)

lemma rest_keys: "fst ` set (rest_of u u' b e v) \<subseteq> {u, u'}"
  by (auto simp: rest_of_def)

lemma rest_distinct: "u \<noteq> u' \<Longrightarrow> distinct (map fst (rest_of u u' b e v))"
  by (auto simp: rest_of_def)

lemma rest_within: "b \<le> v \<Longrightarrow> v \<le> e \<Longrightarrow> x \<in> set (rest_of u u' b e v) \<Longrightarrow> b \<le> fst (snd x) \<and> snd (snd x) \<le> e"
  by (auto simp: rest_of_def split: if_splits)

lemma rest_apart: "u \<noteq> u' \<Longrightarrow> apart (rest_of u u' b e v)"
  by (auto simp: rest_of_def apart_def gap_def)

lemma refs_append: "refs_of (xs @ ys) = refs_of xs @ refs_of ys"
  by (simp add: refs_of_def)

text \<open>An interval is replaced by parts of it.\<close>

lemma apart_parts:
  assumes "apart (as @ (u, b, e) # bs)" and "distinct (map fst (as @ (u, b, e) # bs))"
    and "apart cs" and "\<forall>x \<in> set cs. b \<le> fst (snd x) \<and> snd (snd x) \<le> e"
  shows "apart (as @ cs @ bs)"
proof -
  have g: "gap x y" if x: "x \<in> set cs" and y: "y \<in> set as \<union> set bs" for x y
  proof -
    from y assms(2) have "fst y \<noteq> u" by auto
    with y assms(1) have "gap (u, b, e) y" unfolding apart_def by force
    with x assms(4) show ?thesis unfolding gap_def by fastforce
  qed
  then have "\<forall>x \<in> set cs. \<forall>y \<in> set as \<union> set bs. gap x y \<and> gap y x" using gap_sym by blast
  with assms(1,3) show ?thesis unfolding apart_def by auto
qed

lemma apart_unique:
  assumes "apart (as @ (u, b, e) # bs)" and "distinct (map fst (as @ (u, b, e) # bs))"
    and "b \<le> v" and "v \<le> e"
  shows "v \<notin> numbers as \<and> v \<notin> numbers bs"
proof -
  have "\<not> (fst (snd y) \<le> v \<and> v \<le> snd (snd y))" if y: "y \<in> set as \<union> set bs" for y
  proof -
    from y assms(2) have "fst y \<noteq> u" by auto
    with y assms(1) have "gap (u, b, e) y" unfolding apart_def by force
    with assms(3,4) show ?thesis unfolding gap_def by fastforce
  qed
  then show ?thesis by (fastforce simp: numbers_def)
qed

lemma revoke_loop:
  assumes k: "kept w su xs" and a: "apart xs" and f: "fresh_iv w su xs u'"
  shows "\<exists>w' ys. js_fold (revoke_interval (DNum v)) [] (refs_of xs) w = (Val (refs_of ys), w')
    \<and> store w' su = store w su \<and> (\<forall>x \<in> set ys. iv_at w' x) \<and> distinct (map fst ys)
    \<and> su \<notin> fst ` set ys \<and> apart ys \<and> numbers ys = numbers xs - {v}"
proof (cases "v \<in> numbers xs")
  case False
  have at: "\<forall>x \<in> set xs. iv_at w x" using k by (simp add: kept_def)
  show ?thesis
    using k a False revoke_rest [OF at False, of "[]"]
    by (intro exI [of _ w] exI [of _ xs]) (auto simp: kept_def)
next
  case True
  then obtain u b e where m: "(u, b, e) \<in> set xs" and v: "b \<le> v" "v \<le> e" by (auto simp: in_numbers)
  then obtain as bs where xs: "xs = as @ (u, b, e) # bs" by (meson split_list)
  from k have at: "\<forall>x \<in> set xs. iv_at w x" and d: "distinct (map fst xs)" and su: "su \<notin> fst ` set xs"
    by (simp_all add: kept_def)
  from f have u': "u' = uri_of_guid (guid_of w (nguid w)) @ ''-intv''" "u' \<noteq> su" "u' \<notin> fst ` set xs"
    unfolding fresh_iv_def by blast+
  let ?cs = "rest_of u u' b e v"
  have out: "v \<notin> numbers as" "v \<notin> numbers bs"
    using apart_unique [OF a [unfolded xs] d [unfolded xs] v] by simp_all
  have ne: "u' \<noteq> u" using u'(3) m by force
  obtain w' where w': "revoke_interval (DNum v) (refs_of as) (ref u) w = (Val (refs_of as @ refs_of ?cs), w')"
      "\<forall>k. k \<noteq> u \<and> k \<noteq> u' \<longrightarrow> store w' k = store w k" "\<forall>x \<in> set ?cs. iv_at w' x"
    using revoke_inside [OF _ v u'(1) ne] at m by blast
  have same: "iv_at w' x" if x: "x \<in> set as \<union> set bs" for x
  proof -
    have "fst x \<noteq> u" using x d unfolding xs by auto
    moreover have "fst x \<noteq> u'" using x u'(3) unfolding xs by auto
    ultimately have "iv_at w' x = iv_at w x" using w'(2) by (intro iv_at_store) simp
    with x at show ?thesis unfolding xs by auto
  qed
  have A: "js_fold (revoke_interval (DNum v)) [] (refs_of as) w = (Val (refs_of as), w)"
    using revoke_rest [of as w v "[]"] at out xs by simp
  have C: "js_fold (revoke_interval (DNum v)) (refs_of as @ refs_of ?cs) (refs_of bs) w'
      = (Val ((refs_of as @ refs_of ?cs) @ refs_of bs), w')"
    by (rule revoke_rest) (use same out in auto)
  have refs: "refs_of xs = refs_of as @ ref u # refs_of bs" unfolding xs by (simp add: refs_of_def)
  have loop: "js_fold (revoke_interval (DNum v)) [] (refs_of xs) w
      = (Val (refs_of (as @ ?cs @ bs)), w')"
    by (simp only: refs fold_append run_bind js_fold.simps A w'(1) C refs_append append_assoc
        prod.case res.case)
  have "su \<noteq> u" using su m by force
  then have "store w' su = store w su" using w'(2) u'(2) by simp
  moreover have "distinct (map fst (as @ ?cs @ bs))"
  proof -
    have "u \<notin> fst ` (set as \<union> set bs)" "u' \<notin> fst ` (set as \<union> set bs)"
      using d u'(3) unfolding xs by (simp_all add: image_Un)
    then have "fst ` set ?cs \<inter> fst ` (set as \<union> set bs) = {}"
      using rest_keys [of u u' b e v] by blast
    moreover have "distinct (map fst ?cs)" using ne by (intro rest_distinct) simp
    ultimately show ?thesis using d unfolding xs by (simp add: image_Un; blast)
  qed
  moreover have "su \<notin> fst ` set (as @ ?cs @ bs)"
  proof -
    have "su \<noteq> u" using su m by force
    then have "su \<notin> fst ` set ?cs" using rest_keys [of u u' b e v] u'(2) by blast
    then show ?thesis using su unfolding xs by (simp add: image_Un)
  qed
  moreover have "apart (as @ ?cs @ bs)"
    by (rule apart_parts [OF a [unfolded xs] d [unfolded xs]])
      (use ne rest_apart rest_within [OF v] in \<open>auto intro: rest_apart\<close>)
  moreover have "numbers (as @ ?cs @ bs) = numbers xs - {v}"
    using out rest_numbers [OF v, of u u'] by (auto simp: xs)
  moreover have "\<forall>x \<in> set (as @ ?cs @ bs). iv_at w' x" using same w'(3) by auto
  ultimately show ?thesis using loop by blast
qed

text \<open>C17: \<^verbatim>\<open>revokeValue\<close> refines deletion from the set of committed numbers: whether the
  number is alone in its interval, at one of its ends, inside it (the interval is split in
  two) or in none, the stored intervals afterwards contain exactly the other numbers and are
  still apart.\<close>

theorem revoke_deletes:
  assumes "kept w su xs" and "apart xs" and "store w su = Some s" and "fresh_iv w su xs u"
  shows "\<exists>w' ys. revokeValue (Some s) (DNum v) w = (Val (), w')
    \<and> kept w' su ys \<and> apart ys \<and> numbers ys = numbers xs - {v}"
proof -
  obtain w1 ys where loop: "js_fold (revoke_interval (DNum v)) [] (refs_of xs) w = (Val (refs_of ys), w1)"
      and ys: "store w1 su = store w su" "\<forall>x \<in> set ys. iv_at w1 x" "distinct (map fst ys)"
        "su \<notin> fst ` set ys" "apart ys" "numbers ys = numbers xs - {v}"
    using revoke_loop [OF assms(1,2,4), of v] by blast
  have s: "uri s = su" "wf_ind s" "plain su"
    "(case pget s iv_list of None \<Rightarrow> [] | Some vs \<Rightarrow> vs) = refs_of xs"
    using assms(1,3) by (auto simp: kept_def refs_of_def)
  have "revokeValue (Some s) (DNum v) w
      = (Val (), do_put (set_prop iv_list (refs_of ys) s) w1)"
    using loop by (simp add: revokeValue_def js_run s(4) put_scope_def)
  moreover have "kept (do_put (set_prop iv_list (refs_of ys) s) w1) su ys"
    by (rule kept_put_scope [OF s(1,2,3) ys(4,3,2)])
  ultimately show ?thesis using ys(5,6) by blast
qed

theorem revoke_deletes_witness:
  "\<exists>w' ys. revokeValue (Some scope_ex) (DNum 2) numbers_ex = (Val (), w')
    \<and> kept w' ''d:s'' ys \<and> apart ys \<and> numbers ys = {1, 3, 5, 6}"
proof -
  have "numbers [(''d:i'', 1, 3), (''d:j'', 5, 6)] - {2} = {1, 3, 5, 6}" by auto
  then show ?thesis using revoke_deletes [OF kept_ex apart_ex store_ex fresh_ex, of 2] by auto
qed

section \<open>The next number\<close>

lemma next_max_run:
  "\<forall>x \<in> set xs. iv_at w x \<Longrightarrow>
   js_fold next_max (DNum m) (refs_of xs) w
     = (Val (DNum (foldl (\<lambda>m x. if m < snd (snd x) then snd (snd x) else m) m xs)), w)"
proof (induction xs arbitrary: m)
  case Nil
  then show ?case by (simp add: refs_of_def js_run)
next
  case (Cons x xs)
  obtain u b e where x: "x = (u, b, e)" by (cases x)
  from Cons.prems x obtain i where i: "lookup w (DStr u) = Some i" "iv_ind (u, b, e) i"
    by (auto elim: iv_atE)
  have "next_max (DNum m) (ref u) w = (Val (DNum (if m < e then e else m)), w)"
    using i by (simp add: next_max_def js_run iv_ind_def)
  with Cons show ?case by (simp add: x refs_of_def js_run)
qed

lemma foldl_max_ge:
  "(m::int) \<le> foldl (\<lambda>m x. if m < snd (snd x) then snd (snd x) else m) m xs
   \<and> (\<forall>x \<in> set xs. snd (snd x) \<le> foldl (\<lambda>m x. if m < snd (snd x) then snd (snd x) else m) m xs)"
proof (induction xs arbitrary: m)
  case Nil
  then show ?case by simp
next
  case (Cons x xs)
  show ?case using Cons [of "if m < snd (snd x) then snd (snd x) else m"] by (auto split: if_splits)
qed

lemma foldl_max_in:
  "foldl (\<lambda>m x. if m < snd (snd x) then snd (snd x) else m) (m::int) xs \<in> insert m ((\<lambda>x. snd (snd x)) ` set xs)"
proof (induction xs arbitrary: m)
  case Nil
  then show ?case by simp
next
  case (Cons x xs)
  have "foldl (\<lambda>m x. if m < snd (snd x) then snd (snd x) else m) m (x # xs)
      \<in> insert (if m < snd (snd x) then snd (snd x) else m) ((\<lambda>x. snd (snd x)) ` set xs)"
    using Cons [of "if m < snd (snd x) then snd (snd x) else m"] by simp
  moreover have "insert (if m < snd (snd x) then snd (snd x) else m) ((\<lambda>x. snd (snd x)) ` set xs)
      \<subseteq> insert m ((\<lambda>x. snd (snd x)) ` set (x # xs))"
    by (cases "m < snd (snd x)") (simp_all add: insert_mono subset_insertI2)
  ultimately show ?case by blast
qed

text \<open>\<^verbatim>\<open>getNextValueSimple\<close> gives the first value on an empty scope, and otherwise the
  text of a positive number that is greater than every committed number and at most one above
  one of them (or 1): the answer is never a number in use. It changes nothing.\<close>

lemma next_value_fresh:
  assumes "kept w su xs" and "store w su = Some s"
  shows "\<exists>n. getNextValueSimple (Some s) (DNum f) w = (Val (DStr (show_int n)), w)
    \<and> n \<notin> numbers xs
    \<and> (if xs = [] then n = f else 0 < n \<and> (\<forall>k \<in> numbers xs. k < n) \<and> (n = 1 \<or> n - 1 \<in> numbers xs))"
proof (cases xs)
  case Nil
  then have "pget s iv_list = None" using assms by (auto simp: kept_def)
  with Nil show ?thesis by (simp add: getNextValueSimple_def js_run)
next
  case (Cons x zs)
  have at: "\<forall>x \<in> set xs. iv_at w x" using assms by (simp add: kept_def)
  let ?m = "foldl (\<lambda>m x. if m < snd (snd x) then snd (snd x) else m) 0 xs"
  have l: "pget s iv_list = Some (refs_of xs)" using assms Cons by (auto simp: kept_def)
  have ge: "k \<le> ?m" if "k \<in> numbers xs" for k
    using that foldl_max_ge [of 0 xs] by (fastforce simp: numbers_def)
  have "?m = 0 \<or> ?m \<in> numbers xs"
    using foldl_max_in [of 0 xs] at by (fastforce simp: numbers_def iv_at_def)
  moreover have "getNextValueSimple (Some s) (DNum f) w = (Val (DStr (show_int (?m + 1))), w)"
    using next_max_run [OF at, of 0] Cons
    by (simp add: getNextValueSimple_def l refs_of_def run_bind run_basic js_plus1_def)
  ultimately show ?thesis
    using ge foldl_max_ge [of 0 xs] Cons by (intro exI [of _ "?m + 1"]) fastforce
qed

lemma next_value_fresh_witness:
  "\<exists>n. getNextValueSimple (Some scope_ex) (DNum 1) numbers_ex = (Val (DStr (show_int n)), numbers_ex) \<and> n = 7"
proof -
  have "numbers [(''d:i'', 1, 3), (''d:j'', 5, 6)] = {1, 2, 3, 5, 6}" by auto
  with next_value_fresh [OF kept_ex store_ex, of 1] show ?thesis by fastforce
qed

end
