(* ===== verification/Versions.thy ===== *)
theory Versions
  imports Journal
begin

text \<open>
  The remaining functions of \<^verbatim>\<open>public/js/server/util.js\<close>: versions of documents, the recursive
  stop of a process, the comparison of technical attributes, the variables of a script and the
  replacement of names.
\<close>

section \<open>create_version\<close>

text \<open>The condition: the first save, or a save of the actual version that the client did not move.\<close>

definition prev_version :: "individual \<Rightarrow> val list option" where
  "prev_version i = pget i ''v-s:previousVersion''"

definition versions_agree :: "individual \<Rightarrow> individual option \<Rightarrow> bool js" where
  "versions_agree document prev_state =
     (case (prev_version document, prev_state) of
        (None, None) \<Rightarrow> js_ret True
      | (None, Some p) \<Rightarrow> js_ret (prev_version p = None)
      | (Some dv, Some p) \<Rightarrow>
          (case prev_version p of
             None \<Rightarrow> js_ret False
           | Some pv \<Rightarrow> (js_bind (data0 (Some dv)) (\<lambda>x. js_bind (data0 (Some pv)) (\<lambda>y. js_ret (x = y)))))
      | (Some dv, None) \<Rightarrow> js_ret False)"

definition version_due :: "individual \<Rightarrow> individual option \<Rightarrow> bool js" where
  "version_due document prev_state =
     (case pget document ''v-s:actualVersion'' of
        None \<Rightarrow> js_ret True
      | Some vs \<Rightarrow> (js_bind (data0 (Some vs)) (\<lambda>d.
          (if d = DStr (uri document) then versions_agree document prev_state else js_ret False))))"

definition underscored :: "string \<Rightarrow> string" where
  "underscored s = map (\<lambda>c. if c = CHR '':'' then CHR ''_'' else c) s"

definition version_body ::
  "individual \<Rightarrow> string \<Rightarrow> string \<Rightarrow> val list option \<Rightarrow> val list \<Rightarrow> jdata \<Rightarrow> jdata \<Rightarrow> individual" where
  "version_body stored version_id actual_id pv types d actor =
     set_prop ''v-s:lastEditor'' []
       (set_prop ''v-s:creator'' (newUri actor)
         (set_prop ''v-s:edited'' []
           (set_prop ''v-s:created'' (newDate d)
             (set_prop ''rdf:type'' (types @ uriv ''v-s:Version'')
               (set_prop ''v-s:nextVersion'' (uriv actual_id)
                 (set_prop ''v-s:actualVersion'' (uriv actual_id)
                   (set_prop ''v-s:previousVersion'' (case pv of None \<Rightarrow> [] | Some vs \<Rightarrow> vs)
                     (stored\<lparr>uri := version_id\<rparr>))))))))"

definition version_membership :: "string \<Rightarrow> string \<Rightarrow> individual" where
  "version_membership version_id actual_id =
     \<lparr>uri = ''d:membership_'' @ underscored version_id @ ''_'' @ underscored actual_id,
      props = [(''rdf:type'', uriv ''v-s:Membership''), (''v-s:memberOf'', uriv actual_id),
               (''v-s:resource'', uriv version_id),
               (''rdfs:comment'', newStr (DStr ((map char_of [209::nat, 129, 208, 190, 208, 183, 208, 180, 208, 176,
      208, 189, 208, 190, 58, 32, 115, 101, 114, 118, 101, 114, 32, 115, 99, 114, 105, 112, 116, 32, 118, 101, 100, 97,
      46, 85, 116, 105, 108, 46, 99, 114, 101, 97, 116, 101, 95, 118, 101, 114, 115, 105, 111, 110, 32, 40, 41]))) None),
               (''v-s:canRead'', boolv True)]\<rparr>"

definition updated_actual :: "individual \<Rightarrow> string \<Rightarrow> jdata \<Rightarrow> jdata \<Rightarrow> individual" where
  "updated_actual document version_id d actor =
     set_prop ''v-s:lastEditor'' (newUri actor)
       (set_prop ''v-s:edited'' (newDate d)
         (set_prop ''v-s:nextVersion'' []
           (set_prop ''v-s:actualVersion'' (uriv (uri document))
             (set_prop ''v-s:previousVersion'' (uriv version_id) document))))"

definition version_actor :: "string \<Rightarrow> jdata js" where
  "version_actor user_uri = (js_bind (get_individual (DStr user_uri)) (\<lambda>ou.
     js_bind (js_some ou) (\<lambda>user.
     let a1 = getUri (pget user ''v-s:defaultAppointment'') in
     let a2 = getUri (pget user ''v-s:hasAppointment'') in
     js_ret (if truthy a1 then a1 else if truthy a2 then a2 else DStr user_uri))))"

definition link_previous :: "individual \<Rightarrow> string \<Rightarrow> unit js" where
  "link_previous document version_id =
     (case prev_version document of
        None \<Rightarrow> js_ret ()
      | Some pv \<Rightarrow> (js_bind (get_individual (getUri (Some pv))) (\<lambda>op.
          js_bind (js_some op) (\<lambda>previous.
          put_individual (set_prop ''v-s:nextVersion'' (uriv version_id) previous)))))"

definition create_version :: "individual \<Rightarrow> individual option \<Rightarrow> string \<Rightarrow> unit js" where
  "create_version document prev_state user_uri = (js_bind (version_due document prev_state) (\<lambda>due.
     js_when due (js_bind (version_actor user_uri) (\<lambda>actor.
       js_bind (genUri) (\<lambda>u.
       let version_id = u @ ''-vr'' in
       js_bind (get_individual (DStr (uri document))) (\<lambda>os.
       js_bind (js_some os) (\<lambda>stored.
       js_bind (js_some (pget stored ''rdf:type'')) (\<lambda>types.
       js_bind (new_Date) (\<lambda>d.
       js_seq (put_individual (version_body stored version_id (uri document)
         (prev_version (case prev_state of None \<Rightarrow> document | Some p \<Rightarrow> p)) types d actor)) (
       js_seq (put_individual (version_membership version_id (uri document))) (
       js_seq (link_previous document version_id) (
       put_individual (updated_actual document version_id d actor)))))))))))))"

section \<open>recursiveCall\<close>

text \<open>
  Stops everything under a process. \<open>path\<close> maps the URIs seen so far to the number of keys at
  that moment; the root gets 0, which is falsy, so it does not count as seen. The depth of
  calls is bounded by \<open>n\<close>, the depth of the stack.
\<close>

definition not_completed :: "individual \<Rightarrow> bool js" where
  "not_completed i =
     (case pget i ''v-wf:isCompleted'' of
        None \<Rightarrow> js_ret True
      | Some vs \<Rightarrow> (js_bind (data0 (Some vs)) (\<lambda>d. js_ret (loose_eq d (DBool False)))))"

definition stop_form :: "val \<Rightarrow> unit js" where
  "stop_form v = (js_bind (get_individual (vdata v)) (\<lambda>odf.
     js_bind (js_some odf) (\<lambda>df.
     js_bind (not_completed df) (\<lambda>is_open.
     js_when is_open
       (put_individual (set_prop ''v-wf:isStopped'' (boolv True) (set_prop ''v-s:deleted'' (boolv True) df)))))))"

definition stop_process :: "val \<Rightarrow> individual js" where
  "stop_process v = (js_bind (get_individual (vdata v)) (\<lambda>op.
     js_bind (js_some op) (\<lambda>p.
     js_bind (not_completed p) (\<lambda>is_open.
     (if is_open then (let p1 = set_prop ''v-wf:isStopped'' (boolv True) p in
        js_seq (put_individual p1) (
        js_ret p1)) else js_ret p)))))"

definition list_prop :: "individual \<Rightarrow> string \<Rightarrow> val list" where
  "list_prop i k = (case pget i k of None \<Rightarrow> [] | Some vs \<Rightarrow> vs)"

primrec recursiveCall :: "nat \<Rightarrow> individual option \<Rightarrow> nat obj \<Rightarrow> nat obj js" where
  "recursiveCall 0 oelem path = js_throw RangeError"
| "recursiveCall (Suc n) oelem path = (js_bind (js_some oelem) (\<lambda>elem.
     (case oget path (uri elem) of
        Some (Suc k) \<Rightarrow> js_ret path
      | _ \<Rightarrow> (let path1 = oset (uri elem) (length path) path in
          js_seq (js_for (list_prop elem ''v-wf:decisionFormList'') stop_form) (
          js_bind (js_fold (\<lambda>p v. (js_bind (get_individual (vdata v)) (\<lambda>x. recursiveCall n x p))) path1
            (list_prop elem ''v-wf:workItemList'')) (\<lambda>path2.
          js_bind (js_fold (\<lambda>p v. (js_bind (get_individual (vdata v)) (\<lambda>x. recursiveCall n x p))) path2
            (list_prop elem ''v-wf:workOrderList'')) (\<lambda>path3.
          js_fold (\<lambda>p v. (js_bind (stop_process v) (\<lambda>x. recursiveCall n (Some x) p))) path3
            (list_prop elem ''v-wf:isProcess''))))))))"

section \<open>Technical attributes\<close>

definition isTechnicalAttribute :: "string \<Rightarrow> bool \<Rightarrow> bool" where
  "isTechnicalAttribute attName has_old =
     (\<not> has_old \<and> attName = ''v-s:actualVersion'' \<or>
      \<not> has_old \<and> attName = ''v-s:previousVersion'' \<or>
      \<not> has_old \<and> attName = ''v-s:nextVersion'' \<or>
      attName = ''v-wf:hasStatusWorkflow'')"

definition technical_key :: "individual \<Rightarrow> string \<times> val list \<Rightarrow> bool" where
  "technical_key olddoc kv =
     (case pget olddoc (fst kv) of
        None \<Rightarrow> isTechnicalAttribute (fst kv) False
      | Some old \<Rightarrow>
          if length (snd kv) \<noteq> length old then isTechnicalAttribute (fst kv) True
          else list_all (\<lambda>(a, b). loose_eq (value_of (vdata a)) (value_of (vdata b))
                 \<or> isTechnicalAttribute (fst kv) (truthy (vdata b))) (zip (snd kv) old))"

definition isTecnicalChange :: "individual \<Rightarrow> individual option \<Rightarrow> bool js" where
  "isTecnicalChange newdoc olddoc0 = (js_bind ((case pget newdoc ''v-s:actualVersion'' of
        None \<Rightarrow> js_ret olddoc0
      | Some vs \<Rightarrow> (js_bind (data0 (Some vs)) (\<lambda>d.
          (if loose_eq d (DStr (uri newdoc)) then js_ret olddoc0 else get_individual d))))) (\<lambda>olddoc.
     js_ret (case olddoc of
               None \<Rightarrow> False
             | Some od \<Rightarrow> list_all (technical_key od) (props newdoc))))"

section \<open>Variables and names\<close>

definition loadVariablesUseField :: "val list \<Rightarrow> jdata list obj js" where
  "loadVariablesUseField field =
     js_fold (\<lambda>res v.
         if \<not> truthy (vdata v) then js_ret res
         else (js_bind (get_individual (vdata v)) (\<lambda>oi.
           (case oi of
              None \<Rightarrow> js_ret res
            | Some i \<Rightarrow>
                if has_uri i ''rdf:type'' ''v-s:Variable''
                then (js_bind (to_str (getFirstValue (pget i ''v-s:variableName''))) (\<lambda>k.
                  js_ret (oset k (getValues (pget i ''v-s:variableValue'')) res)))
                else js_ret res)))) [] field"

definition alnum :: "char \<Rightarrow> bool" where
  "alnum c = (let n = of_char c :: nat in
     (48 \<le> n \<and> n \<le> 57) \<or> (65 \<le> n \<and> n \<le> 90) \<or> (97 \<le> n \<and> n \<le> 122))"

definition isAlphaNumeric :: "string \<Rightarrow> bool" where
  "isAlphaNumeric src = list_ex alnum src"

fun index_of :: "string \<Rightarrow> string \<Rightarrow> nat option" where
  "index_of p s =
     (if starts_with p s then Some 0
      else (case s of [] \<Rightarrow> None | c # cs \<Rightarrow> map_option Suc (index_of p cs)))"

declare index_of.simps [simp del]

text \<open>
  \<open>src.replace (new RegExp (from, 'g'), to)\<close> for a name without the special characters of regular
  expressions: every occurrence, from the left. The second argument counts the characters of
  a match still to skip.
\<close>

fun replace_from :: "string \<Rightarrow> string \<Rightarrow> nat \<Rightarrow> string \<Rightarrow> string" where
  "replace_from frm to k [] = []"
| "replace_from frm to (Suc k) (c # cs) = replace_from frm to k cs"
| "replace_from frm to 0 (c # cs) =
     (if frm \<noteq> [] \<and> starts_with frm (c # cs) then to @ replace_from frm to (length frm - 1) cs
      else c # replace_from frm to 0 cs)"

definition star_pos :: "string \<Rightarrow> nat option" where
  "star_pos s = index_of ''*'' s"

definition word_after :: "string \<Rightarrow> string \<Rightarrow> string" where
  "word_after frm src =
     (case index_of frm src of
        None \<Rightarrow> []
      | Some p \<Rightarrow> takeWhile alnum (drop (p + length frm) src))"

text \<open>
  With a \<open>*\<close> after the first character of \<open>from\<close>, the word that follows the prefix in \<open>src\<close> is
  kept; the code tests the position in \<open>from\<close> twice and never the one in \<open>to\<close>.
\<close>

definition replace_word :: "string \<Rightarrow> string \<Rightarrow> string \<Rightarrow> string" where
  "replace_word src frm to =
     (case star_pos frm of
        Some (Suc k) \<Rightarrow>
          (let frm1 = take (Suc k) frm;
               to1 = (case star_pos to of None \<Rightarrow> [] | Some t \<Rightarrow> take t to);
               word = word_after frm1 src
           in if word \<noteq> [] then replace_from (frm1 @ word) (to1 @ word) 0 src else src)
      | _ \<Rightarrow>
          if length src = length frm then replace_from frm to 0 src
          else (case index_of frm src of
                  Some (Suc p) \<Rightarrow>
                    if Suc p + length frm < length src \<and> \<not> alnum (src ! (Suc p + length frm))
                    then replace_from frm to 0 src else src
                | _ \<Rightarrow> src))"

section \<open>Frame\<close>

context host_rel
begin

lemma create_version_frame [js_frame]: "keeps R (create_version d p u)"
proof -
  have 1: "keeps R (version_due d p)" for d p
    unfolding version_due_def versions_agree_def by (intro js_frame)
  show ?thesis
    unfolding create_version_def version_actor_def link_previous_def by (intro js_frame 1)
qed

lemma stop_frame [js_frame]: "keeps R (stop_form v)" "keeps R (stop_process v)"
  unfolding stop_form_def stop_process_def not_completed_def by (intro js_frame)+

lemma recursiveCall_frame [js_frame]: "keeps R (recursiveCall n e p)"
proof (induction n arbitrary: e p)
  case 0
  then show ?case by (simp add: js_frame)
next
  case (Suc n)
  show ?case
    by (simp only: recursiveCall.simps)
      (auto intro!: js_frame Suc simp: Let_def split: option.splits nat.splits)
qed

end

end
