(* ===== verification/Codelets.thy ===== *)
theory Codelets
  imports Work_Item Versions
begin

text \<open>
  \<^verbatim>\<open>codelets.js\<close>: the functions that the expressions of the nets call. A codelet gets the
  contexts of the process and of the task (their individuals) and returns new variables, or
  \<open>undefined\<close> (\<open>None\<close>) when it caught an exception. The status functions are in \<open>Work_Item\<close>.
\<close>

type_synonym codelet = "individual list option js"

definition one_variable :: "string \<Rightarrow> val list option \<Rightarrow> codelet" where
  "one_variable name vs = (js_bind (get_new_variable (DStr name) vs) (\<lambda>v.
     js_ret (Some [v])))"

text \<open>\<open>context.getInputVariable (name)\<close> and \<open>getLocalVariable\<close> as host programs.\<close>

definition input_var :: "individual \<Rightarrow> string \<Rightarrow> val list option js" where
  "input_var ctx name = js_ask (\<lambda>w. getInputVariable w ctx (DStr name))"

definition local_var :: "individual \<Rightarrow> string \<Rightarrow> val list option js" where
  "local_var ctx name = js_ask (\<lambda>w. getLocalVariable w ctx (DStr name))"

section \<open>Rights\<close>

definition chain_of :: "val option \<Rightarrow> string \<Rightarrow> val list option \<Rightarrow> val list js" where
  "chain_of executor field fallback =
     (case executor of
        None \<Rightarrow> (js_seq (js_log [TypeError]) ( js_ret []))
      | Some v \<Rightarrow>
          get_properties_chain (Some [v]) [\<lparr>op_get = Some field, op_go = None, op_eq = None\<rparr>] fallback)"

definition right_if :: "jdata \<Rightarrow> jdata \<Rightarrow> string list \<Rightarrow> unit js" where
  "right_if subject doc allow = js_when (truthy subject) (addRight subject doc allow [])"

definition rights_of_executor :: "jdata \<Rightarrow> string list \<Rightarrow> val option \<Rightarrow> unit js" where
  "rights_of_executor doc allow executor = (js_bind (chain_of executor ''v-s:employee'' None) (\<lambda>employee.
     js_seq (right_if (getUri (Some employee)) doc allow) (
     js_bind (chain_of executor ''v-s:occupation'' (map_option (\<lambda>v. [v]) executor)) (\<lambda>position.
     right_if (getUri (Some position)) doc allow))))"

definition executors_for ::
  "individual \<Rightarrow> individual \<Rightarrow> string \<Rightarrow> val list option \<Rightarrow> val option list js" where
  "executors_for process task actor executors =
     (case executors of
        Some vs \<Rightarrow> js_ret (map Some vs)
      | None \<Rightarrow> (js_bind (local_var process actor) (\<lambda>l.
          let e = (if l \<noteq> None then l else getExecutor process) in
          js_bind (input_var task actor) (\<lambda>i.
          js_ret (case e of Some vs \<Rightarrow> map Some vs
                  | None \<Rightarrow> (case i of Some vs \<Rightarrow> map Some vs | None \<Rightarrow> [None]))))))"

definition allow_of :: "string \<Rightarrow> string list" where
  "allow_of rightset =
     (if CHR ''r'' \<in> set rightset then [''v-s:canRead''] else [])
     @ (if CHR ''u'' \<in> set rightset then [''v-s:canUpdate''] else [])"

definition change_rights_actor ::
  "individual \<Rightarrow> individual \<Rightarrow> string \<Rightarrow> string \<Rightarrow> val list option \<Rightarrow> val list option \<Rightarrow> codelet" where
  "change_rights_actor process task rightset actor docId executors = js_catch (js_bind ((case docId of Some d \<Rightarrow> js_ret (Some d) | None \<Rightarrow> input_var process ''docId'')) (\<lambda>doc_id.
     js_seq ((case doc_id of
        None \<Rightarrow> js_ret ()
      | Some d \<Rightarrow> (js_bind (executors_for process task actor executors) (\<lambda>es.
          js_for es (rights_of_executor (getUri (Some d)) (allow_of rightset)))))) (
     one_variable ''right'' (Some (newStr (DStr ''acl1'') None))))) (js_ret None)"

text \<open>\<open>change_rights\<close> does not use its argument \<open>rightset\<close>.\<close>

definition change_rights :: "individual \<Rightarrow> individual \<Rightarrow> string \<Rightarrow> codelet" where
  "change_rights process task rightset =
     change_rights_actor process task ''-r--'' ''actor'' None None"

definition down_right_and_store :: "individual \<Rightarrow> individual \<Rightarrow> codelet" where
  "down_right_and_store process task = change_rights process task ''-r--''"

definition restore_right :: "individual \<Rightarrow> codelet" where
  "restore_right task = one_variable ''result'' (Some (newStr (DStr ''Ok'') None))"

section \<open>Statuses\<close>

definition change_document_workflow_status :: "individual \<Rightarrow> string \<Rightarrow> codelet" where
  "change_document_workflow_status process status = (js_bind (input_var process ''docId'') (\<lambda>doc_id.
     js_seq ((case doc_id of
        None \<Rightarrow> js_ret ()
      | Some d \<Rightarrow> (js_bind (to_str (getUri (Some d))) (\<lambda>u.
          set_in_individual \<lparr>uri = u, props = [(''v-wf:hasStatusWorkflow'', uriv status)]\<rparr>)))) (
     one_variable ''workflowStatus'' (Some (newStr (DStr status) None)))))"

text \<open>
  \<open>Date.now ()\<close> is a number of milliseconds; the host takes a number in a Datetime value as
  seconds.
\<close>

definition date_now :: "jdata js" where
  "date_now = js_ask (\<lambda>w. DNum (now w))"

definition change_document_status :: "individual \<Rightarrow> string \<Rightarrow> codelet" where
  "change_document_status process status = (js_seq ((if status = [] then js_ret () else (js_bind (input_var process ''setStatus'') (\<lambda>setStatus.
        (case setStatus of
           None \<Rightarrow> js_ret ()
         | Some s \<Rightarrow> (js_bind (data0 (Some s)) (\<lambda>flag.
             js_bind ((if loose_eq flag (DBool True) then input_var process ''docId'' else js_ret None)) (\<lambda>doc_id.
             (case doc_id of
                None \<Rightarrow> js_ret ()
              | Some d \<Rightarrow> (js_bind (to_str (getUri (Some d))) (\<lambda>u.
                  js_bind (date_now) (\<lambda>t.
                  set_in_individual
                    \<lparr>uri = u,
                     props = (''v-s:hasStatus'', uriv status)
                       # (if status = ''v-s:StatusExecuted'' then [(''v-s:dateFact'', newDate t)] else [])\<rparr>)))))))))))) (
     one_variable ''status'' (Some (newStr (DStr status) None))))"

section \<open>Permission statements\<close>

definition statement_suffix :: "string \<Rightarrow> string option" where
  "statement_suffix stage =
     (if stage = ''rework'' then Some ''-pf-rework''
      else if stage = ''task'' then Some ''-pf-task'' else None)"

definition statement_uri :: "val list option \<Rightarrow> string \<Rightarrow> string js" where
  "statement_uri docId stage =
     (case statement_suffix stage of
        None \<Rightarrow> js_ret ''undefined''
      | Some sfx \<Rightarrow> (js_bind (data0 docId) (\<lambda>d. js_bind (to_str d) (\<lambda>s. js_ret (s @ sfx)))))"

text \<open>\<open>newBool ('true')\<close> makes a Boolean value of a text, which the host drops.\<close>

definition createPermissionStatement :: "individual \<Rightarrow> string \<Rightarrow> val list js" where
  "createPermissionStatement process stage = (js_bind (input_var process ''docId'') (\<lambda>docId.
     js_bind ((if stage = ''rework'' then local_var process ''responsible''
              else if stage = ''task'' then local_var process ''actor'' else js_ret None)) (\<lambda>appt.
     js_bind (statement_uri docId stage) (\<lambda>u.
     js_seq ((case appt of
        None \<Rightarrow> js_ret ()
      | Some vs \<Rightarrow> (js_bind (data0 (Some vs)) (\<lambda>d.
          js_bind (get_individual d) (\<lambda>os.
          (case os of
             None \<Rightarrow> js_ret ()
           | Some a \<Rightarrow> (js_bind (js_some (pget a ''v-s:employee'')) (\<lambda>employee.
               put_individual
                 \<lparr>uri = u,
                  props = [(''rdf:type'', uriv ''v-s:PermissionStatement''),
                           (''v-s:useFilter'', uriv ''v-s:StatusStarted''),
                           (''v-s:permissionObject'', opt_vals docId),
                           (''v-s:permissionSubject'', employee @ opt_vals (pget a ''v-s:occupation'')),
                           (''v-s:canUpdate'', newBool (DStr ''true''))]\<rparr>)))))))) (
     js_ret (newStr (DStr u) None))))))"

definition deletePermissionStatement :: "individual \<Rightarrow> string \<Rightarrow> val list js" where
  "deletePermissionStatement process stage = (js_bind (input_var process ''docId'') (\<lambda>docId.
     js_bind (statement_uri docId stage) (\<lambda>u.
     js_seq (set_in_individual \<lparr>uri = u, props = [(''v-s:deleted'', newBool (DStr ''true''))]\<rparr>) (
     js_ret (newStr (DStr ''empty'') None)))))"

section \<open>Documents of a task\<close>

definition is_exists_net_executor :: "individual \<Rightarrow> codelet" where
  "is_exists_net_executor process =
     one_variable ''res'' (Some (newBool (DBool (getExecutor process \<noteq> None))))"

definition type_of_doc :: "individual \<Rightarrow> jdata js" where
  "type_of_doc task = (js_bind (input_var task ''docId'') (\<lambda>doc_id.
     (case doc_id of
        None \<Rightarrow> js_ret (DStr ''?'')
      | Some d \<Rightarrow> (js_bind (data0 (Some d)) (\<lambda>x.
          js_bind (get_individual x) (\<lambda>od.
          (case od of None \<Rightarrow> js_ret (DStr ''?'') | Some doc \<Rightarrow> data0 (pget doc ''rdf:type''))))))))"

definition get_type_of_docId :: "individual option \<Rightarrow> codelet" where
  "get_type_of_docId otask = js_catch (js_bind ((case otask of None \<Rightarrow> js_ret (DStr ''?'') | Some t \<Rightarrow> type_of_doc t)) (\<lambda>res.
     one_variable ''res'' (Some (newUri res)))) (js_ret None)"

definition mark_in_docflow :: "individual \<Rightarrow> unit js" where
  "mark_in_docflow task = (js_bind (input_var task ''docId'') (\<lambda>doc_id.
     (case doc_id of
        None \<Rightarrow> js_ret ()
      | Some d \<Rightarrow> (js_bind (get_individual (getUri (pget task ''v-wf:forProcess''))) (\<lambda>op.
          (case op of
             None \<Rightarrow> js_ret ()
           | Some process \<Rightarrow> (js_bind (data0 (Some d)) (\<lambda>x.
               js_bind (to_str (getUri (pget process ''v-wf:instanceOf''))) (\<lambda>n.
               js_bind (to_str x) (\<lambda>s.
               js_seq (put_individual \<lparr>uri = n @ ''_'' @ s, props = [(''rdf:type'', uriv ''v-wf:Variable'')]\<rparr>) (
               add_to_individual \<lparr>uri = s, props = [(''v-wf:isProcess'', uriv (uri process))]\<rparr>)))))))))))"

definition is_in_docflow_and_set_if_true :: "individual option \<Rightarrow> codelet" where
  "is_in_docflow_and_set_if_true otask = js_catch (js_seq ((case otask of None \<Rightarrow> js_ret () | Some t \<Rightarrow> mark_in_docflow t)) (
     one_variable ''result'' (Some (newUri (DBool False))))) (js_ret None)"

text \<open>\<open>upd\<close> is what becomes of the values that are there.\<close>

definition change_value ::
  "(val list option \<Rightarrow> val list \<Rightarrow> val list) \<Rightarrow> individual option \<Rightarrow> codelet" where
  "change_value upd otask = js_catch
     (case otask of
        None \<Rightarrow> one_variable ''res'' None
      | Some task \<Rightarrow> (js_bind (input_var task ''src_uri'') (\<lambda>src_uri.
          js_bind (input_var task ''name_uri'') (\<lambda>name_uri.
          js_bind (input_var task ''value'') (\<lambda>vals.
          js_seq ((case (name_uri, vals) of
             (Some nm, Some vs) \<Rightarrow> (js_bind (get_individual (getUri src_uri)) (\<lambda>osrc.
               (case osrc of
                  None \<Rightarrow> js_ret ()
                | Some src \<Rightarrow> (js_bind (to_str (getUri (Some nm))) (\<lambda>k.
                    put_individual (set_prop k (upd (pget src k) vs) src))))))
           | _ \<Rightarrow> js_ret ())) (
          one_variable ''res'' src_uri))))))
     (js_ret None)"

definition add_value_to_document :: "individual option \<Rightarrow> codelet" where
  "add_value_to_document otask = change_value (\<lambda>old vs. opt_vals old @ vs) otask"

definition set_value_to_document :: "individual option \<Rightarrow> codelet" where
  "set_value_to_document otask = change_value (\<lambda>old vs. vs) otask"

definition transformed_items :: "tscripts \<Rightarrow> individual \<Rightarrow> individual \<Rightarrow> val list js" where
  "transformed_items scr process task = (js_bind (input_var task ''src_uri'') (\<lambda>src_doc_id.
     js_bind (input_var task ''transformation_uri'') (\<lambda>transform_link.
     (case transform_link of
        None \<Rightarrow> js_ret []
      | Some l \<Rightarrow> (js_bind (get_individual (getUri (Some l))) (\<lambda>ot.
          js_bind (get_individual (getUri src_doc_id)) (\<lambda>od.
          (case (ot, od) of
             (Some transform, Some document) \<Rightarrow> (js_bind (transformation scr [Some document] transform ANone ANone
                 (AVals (uriv (uri process)))) (\<lambda>items.
               js_bind (js_some items) (\<lambda>new_items.
               js_seq (js_for new_items put_individual) (
               js_ret (var_refs new_items)))))
           | _ \<Rightarrow> js_ret []))))))))"

definition create_use_transformation :: "tscripts \<Rightarrow> individual \<Rightarrow> individual option \<Rightarrow> codelet" where
  "create_use_transformation scr process otask = js_catch (js_bind ((case otask of None \<Rightarrow> js_ret [] | Some t \<Rightarrow> transformed_items scr process t)) (\<lambda>refs.
     one_variable ''res'' (Some refs))) (js_ret None)"

section \<open>Renaming\<close>

text \<open>
  \<^verbatim>\<open>find_long_terms\<close>: the first call fills a hash table with short names for the URIs of
  appointments of more than 63 characters (the URIs come from a queue of the host, the hash is
  SHA-256: parameters); every later call renames one individual by the table.
\<close>

definition long_terms ::
  "(string \<Rightarrow> string) \<Rightarrow> world \<Rightarrow> string list \<Rightarrow> (string \<rightharpoonup> string) \<Rightarrow> (string \<rightharpoonup> string)" where
  "long_terms sha256 w uris ght =
     fold (\<lambda>u g.
         if 63 < length u
            \<and> hasValue (get_id w u) ''rdf:type'' (Some (mkv TUri (DStr ''v-s:Appointment'')))
         then g(u \<mapsto> ''d:appt_'' @ take 50 (sha256 u)) else g) uris ght"

definition ght_get :: "(string \<rightharpoonup> string) \<Rightarrow> jdata \<Rightarrow> string option" where
  "ght_get ght d =
     (case d of DStr s \<Rightarrow> (case ght s of None \<Rightarrow> None | Some t \<Rightarrow> if t = [] then None else Some t)
      | _ \<Rightarrow> None)"

definition short_val :: "(string \<rightharpoonup> string) \<Rightarrow> val \<Rightarrow> val" where
  "short_val ght v = (case ght_get ght (vdata v) of None \<Rightarrow> v | Some t \<Rightarrow> v\<lparr>vdata := DStr t\<rparr>)"

definition rename_long_terms :: "(string \<rightharpoonup> string) \<Rightarrow> string \<Rightarrow> unit js" where
  "rename_long_terms ght doc_uri = (js_bind (get_individual (DStr doc_uri)) (\<lambda>od.
     (case od of
        None \<Rightarrow> js_ret ()
      | Some doc \<Rightarrow> (js_bind ((case ght_get ght (DStr (uri doc)) of
               None \<Rightarrow> js_ret doc
             | Some t \<Rightarrow> (js_seq (put_individual (doc\<lparr>uri := t\<rparr>)) (
                 js_seq (remove_individual doc_uri) (
                 js_ret (doc\<lparr>uri := t\<rparr>)))))) (\<lambda>doc1.
          let doc2 = doc1\<lparr>props := map (\<lambda>(k, vs). (k, map (short_val ght) vs)) (props doc1)\<rparr> in
          js_when (list_ex (\<lambda>(k, vs). list_ex (\<lambda>v. ght_get ght (vdata v) \<noteq> None) vs) (props doc1))
            (put_individual doc2))))))"

text \<open>\<open>s.replace (':', '_')\<close>: the first colon.\<close>

fun first_colon :: "string \<Rightarrow> string" where
  "first_colon [] = []"
| "first_colon (c # cs) = (if c = CHR '':'' then CHR ''_'' # cs else c # first_colon cs)"

definition add_template :: "string obj \<Rightarrow> jdata \<Rightarrow> string obj js" where
  "add_template m template =
     (case template of
        DStr t \<Rightarrow>
          js_ret (case split_on (CHR '','') t of
                    [frm, to] \<Rightarrow>
                      (let m1 = oset frm to m
                       in if first_colon frm \<noteq> frm then oset (first_colon frm) (first_colon to) m1
                          else m1)
                  | _ \<Rightarrow> m)
      | _ \<Rightarrow> js_throw TypeError)"

definition rename_data :: "string obj \<Rightarrow> val \<Rightarrow> val" where
  "rename_data from_2_to v =
     (case vdata v of
        DStr s \<Rightarrow>
          if vtype v = TUri \<or> vtype v = TString
          then v\<lparr>vdata := DStr (foldl (\<lambda>t (frm, to). replace_word t frm to) s (js_entries from_2_to))\<rparr>
          else v
      | _ \<Rightarrow> v)"

text \<open>
  Whether some replacement changed the text. (A later rule can change it back; the code has
  then still set its flag.)
\<close>

fun rename_touches :: "string \<Rightarrow> string obj \<Rightarrow> bool" where
  "rename_touches s [] = False"
| "rename_touches s ((frm, to) # r) =
     (replace_word s frm to \<noteq> s \<or> rename_touches (replace_word s frm to) r)"

definition data_touched :: "string obj \<Rightarrow> val \<Rightarrow> bool" where
  "data_touched from_2_to v =
     (case vdata v of
        DStr s \<Rightarrow> (vtype v = TUri \<or> vtype v = TString) \<and> rename_touches s (js_entries from_2_to)
      | _ \<Rightarrow> False)"

definition rename_key :: "string obj \<Rightarrow> individual \<times> bool \<Rightarrow> string \<Rightarrow> individual \<times> bool" where
  "rename_key from_2_to st key =
     (case pget (fst st) key of
        None \<Rightarrow> st
      | Some vs \<Rightarrow>
          (let vs' = map (rename_data from_2_to) vs;
               doc = (case oget from_2_to key of
                        None \<Rightarrow> set_prop key vs' (fst st)
                      | Some to \<Rightarrow> del_prop key (set_prop to vs' (fst st)))
           in (doc, snd st \<or> list_ex (data_touched from_2_to) vs)))"

definition rename_uri :: "string obj \<Rightarrow> string \<Rightarrow> string" where
  "rename_uri from_2_to u =
     foldl (\<lambda>r (frm, to). if replace_word u frm to \<noteq> u then replace_word u frm to else r) u
       (js_entries from_2_to)"

definition rename_document :: "string obj \<Rightarrow> individual \<Rightarrow> individual \<times> bool" where
  "rename_document from_2_to doc =
     (case foldl (rename_key from_2_to) (doc, False) (map fst (props doc)) of
        (d, upd) \<Rightarrow> (d\<lparr>uri := rename_uri from_2_to (uri doc)\<rparr>, upd))"

definition onto_rename :: "individual \<Rightarrow> individual \<Rightarrow> unit js" where
  "onto_rename document execute_script = js_func (js_try (js_seq (js_when (uri document = uri execute_script) js_return) (
     let args_uris = opt_vals (pget execute_script ''v-s:argument'') in
     js_bind (loadVariablesUseField args_uris) (\<lambda>args.
     js_seq (js_when (list_ex (\<lambda>v. vdata v = DStr (uri document)) args_uris) js_return) (
     js_bind (js_fold add_template []
       (case oget args ''rename_template'' of None \<Rightarrow> [] | Some ts \<Rightarrow> ts)) (\<lambda>from_2_to.
     let r = rename_document from_2_to document in
     (if uri (fst r) \<noteq> uri document then (js_seq (remove_individual (uri document)) (
        put_individual (fst r)))
      else js_when (snd r) (put_individual (fst r)))))))))"

section \<open>Frame\<close>

context host_rel
begin

lemma var_calls [js_frame]:
  "keeps R (one_variable n v)" "keeps R (input_var c n)" "keeps R (local_var c n)"
  unfolding one_variable_def input_var_def local_var_def by (intro js_frame)+

lemma change_rights_frame [js_frame]: "keeps R (change_rights_actor p t r a d e)"
proof -
  have 1: "keeps R (rights_of_executor d al ex)" for d al ex
    unfolding rights_of_executor_def chain_of_def right_if_def by (intro js_frame)
  have 2: "keeps R (executors_for p t a e)" for p t a e
    unfolding executors_for_def by (intro js_frame)
  show ?thesis
    unfolding change_rights_actor_def by (intro js_frame 1 2)
qed

lemma status_codelets_frame [js_frame]:
  "keeps R (change_document_workflow_status p s)" "keeps R (change_document_status p s)"
  unfolding change_document_workflow_status_def change_document_status_def date_now_def
  by (intro js_frame)+

lemma permission_codelets_frame [js_frame]:
  "keeps R (createPermissionStatement p s)" "keeps R (deletePermissionStatement p s)"
  unfolding createPermissionStatement_def deletePermissionStatement_def statement_uri_def
  by (intro js_frame)+

lemma document_codelets_frame [js_frame]:
  "keeps R (get_type_of_docId t)" "keeps R (is_in_docflow_and_set_if_true t)"
  "keeps R (change_value u t)"
proof -
  show "keeps R (get_type_of_docId t)"
    unfolding get_type_of_docId_def type_of_doc_def by (intro js_frame)
  show "keeps R (is_in_docflow_and_set_if_true t)"
    unfolding is_in_docflow_and_set_if_true_def mark_in_docflow_def by (intro js_frame)
  show "keeps R (change_value u t)"
    unfolding change_value_def by (intro js_frame)
qed

end

end
