(* ===== verification/Individual_Model.thy ===== *)
theory Individual_Model
  imports Js_Json Common_Util
begin

text \<open>
  \<^verbatim>\<open>veda.IndividualModel\<close> (\<^verbatim>\<open>public/js/common/individual_model.js\<close>): the individual as
  the browser edits it. Its properties are the JSON of the individual; values go in through
  \<^verbatim>\<open>serializer\<close> and come out through \<^verbatim>\<open>parser\<close>. Requests to the server are values: \<open>save\<close>
  gives the requests it sends, and the answer is a second step, because the user can edit the
  individual in between.
\<close>

section \<open>Values that the views hand over\<close>

text \<open>
  \<open>MText\<close> is a primitive string, \<open>MTextObj\<close> the String object that \<open>parser\<close> makes (with its
  \<open>language\<close>), \<open>MDate\<close> a Date by its milliseconds, \<open>MRef\<close> an individual by its id.
\<close>

datatype mval =
    MUndef
  | MNull
  | is_MBool: MBool bool
  | MNum int
  | MDec int nat
  | MNaN
  | is_MDate: MDate int
  | is_MRef: MRef string
  | MText string
  | is_MTextObj: MTextObj string "string option"

section \<open>The regular expressions\<close>

definition char_in :: "nat \<Rightarrow> nat \<Rightarrow> char \<Rightarrow> bool" where
  "char_in a b c = (let n = of_char c :: nat in a \<le> n \<and> n \<le> b)"

abbreviation is_lower :: "char \<Rightarrow> bool" where "is_lower c \<equiv> char_in 97 122 c"
abbreviation is_upper :: "char \<Rightarrow> bool" where "is_upper c \<equiv> char_in 65 90 c"
abbreviation is_digit :: "char \<Rightarrow> bool" where "is_digit c \<equiv> char_in 48 57 c"

text \<open>\<^verbatim>\<open>/^[a-z-0-9]+:([a-zA-Z0-9-_])*$/\<close>\<close>

definition uri_prefix_char :: "char \<Rightarrow> bool" where
  "uri_prefix_char c \<longleftrightarrow> is_lower c \<or> c = CHR ''-'' \<or> is_digit c"

definition uri_name_char :: "char \<Rightarrow> bool" where
  "uri_name_char c \<longleftrightarrow> is_lower c \<or> is_upper c \<or> is_digit c \<or> c = CHR ''-'' \<or> c = CHR ''_''"

definition reg_uri :: "string \<Rightarrow> bool" where
  "reg_uri s =
     (let p = takeWhile uri_prefix_char s; r = dropWhile uri_prefix_char s
      in p \<noteq> [] \<and> r \<noteq> [] \<and> hd r = CHR '':'' \<and> list_all uri_name_char (tl r))"

text \<open>\<^verbatim>\<open>/^\d{4}-\d{2}-\d{2}T\d{2}:\d{2}:\d{2}(\.\d{3})?Z$/\<close>; \<open>0\<close> stands for a digit.\<close>

definition shape :: "string \<Rightarrow> string \<Rightarrow> bool" where
  "shape pat s \<longleftrightarrow> list_all2 (\<lambda>p c. if p = CHR ''0'' then is_digit c else c = p) pat s"

definition reg_date :: "string \<Rightarrow> bool" where
  "reg_date s \<longleftrightarrow> shape ''0000-00-00T00:00:00Z'' s \<or> shape ''0000-00-00T00:00:00.000Z'' s"

text \<open>
  \<^verbatim>\<open>/^(.*)@([a-z]{2})$/i\<close>: the last three characters are \<open>@\<close> and two letters, and no line break
  is before them.
\<close>

definition ml_split :: "string \<Rightarrow> (string \<times> string) option" where
  "ml_split s =
     (let n = length s; d = take (n - 3) s; t = drop (n - 3) s
      in if 3 \<le> n \<and> hd t = CHR ''@'' \<and> list_all (\<lambda>c. is_lower c \<or> is_upper c) (tl t)
            \<and> list_all (\<lambda>c. of_char c \<noteq> (10::nat) \<and> of_char c \<noteq> (13::nat)) d
         then Some (d, tl t) else None)"

definition upper_char :: "char \<Rightarrow> char" where
  "upper_char c = (let n = of_char c :: nat in if is_lower c then char_of (n - 32) else c)"

section \<open>serializer and parser\<close>

definition ser_text :: "string \<Rightarrow> string option \<Rightarrow> val" where
  "ser_text s language =
     (if reg_uri s then mkv TUri (DStr s)
      else if reg_date s then mkv TDatetime (DStr s)
      else (case ml_split s of
              Some (d, l) \<Rightarrow> \<lparr>vtype = TString, vdata = DStr d, vlang = Some (map upper_char l)\<rparr>
            | None \<Rightarrow>
                \<lparr>vtype = TString, vdata = DStr s,
                 vlang = Some (case language of None \<Rightarrow> ''NONE'' | Some l \<Rightarrow> if l = [] then ''NONE'' else l)\<rparr>))"

fun serializer :: "mval \<Rightarrow> val option" where
  "serializer (MNum i) = Some (mkv TInteger (DNum i))"
| "serializer (MDec m e) = Some (mkv (if m mod 10 ^ e = 0 then TInteger else TDecimal) (DDec m e))"
| "serializer MNaN = Some (mkv TDecimal DNaN)"
| "serializer (MBool b) = Some (mkv TBoolean (DBool b))"
| "serializer (MDate ms) = Some (mkv TDatetime (DStr (iso_date ms)))"
| "serializer (MRef u) = Some (mkv TUri (DStr u))"
| "serializer (MText s) = Some (ser_text s None)"
| "serializer (MTextObj s l) = Some (ser_text s l)"
| "serializer _ = None"

text \<open>
  \<open>Date.parse\<close> of a text is the argument; the data of a value that came from the server may be
  a Date already. \<open>parseFloat\<close> is only applied to numbers here.
\<close>

fun data_mval :: "jdata \<Rightarrow> mval" where
  "data_mval DUndef = MUndef"
| "data_mval (DStr s) = MText s"
| "data_mval (DNum i) = MNum i"
| "data_mval (DDec m e) = MDec m e"
| "data_mval DNaN = MNaN"
| "data_mval (DBool b) = MBool b"
| "data_mval (DDate ms) = MDate ms"

definition parser :: "(int \<Rightarrow> string) \<Rightarrow> (string \<Rightarrow> int) \<Rightarrow> val \<Rightarrow> mval" where
  "parser ds date_parse v =
     (case vtype v of
        TString \<Rightarrow> MTextObj (js_str ds (vdata v)) (if vlang v = Some ''NONE'' then None else vlang v)
      | TUri \<Rightarrow> MRef (js_str ds (vdata v))
      | TDatetime \<Rightarrow> MDate (date_parse (js_str ds (vdata v)))
      | _ \<Rightarrow> data_mval (vdata v))"

section \<open>The model of an individual\<close>

text \<open>
  \<open>events\<close> are the names triggered so far, in order (the handlers belong to the views, except
  the one of \<open>beforeSave\<close>); \<open>original\<close> is the content of the JSON text kept for the difference.
\<close>

record imodel =
  properties :: individual
  original :: "individual option"
  isNew :: bool
  isSync :: bool
  isLoaded :: bool
  events :: "string list"

definition new_model :: "string \<Rightarrow> imodel" where
  "new_model genuri =
     \<lparr>properties = \<lparr>uri = genuri, props = []\<rparr>, original = None, isNew = True, isSync = False,
      isLoaded = False, events = []\<rparr>"

definition model_of_json :: "individual \<Rightarrow> imodel" where
  "model_of_json i =
     \<lparr>properties = i, original = Some i, isNew = False, isSync = True, isLoaded = True, events = []\<rparr>"

definition trigger :: "string list \<Rightarrow> imodel \<Rightarrow> imodel" where
  "trigger es m = m\<lparr>events := events m @ es\<rparr>"

definition mvals :: "imodel \<Rightarrow> string \<Rightarrow> val list" where
  "mvals m p = (case pget (properties m) p of None \<Rightarrow> [] | Some vs \<Rightarrow> vs)"

definition get_values :: "(int \<Rightarrow> string) \<Rightarrow> (string \<Rightarrow> int) \<Rightarrow> imodel \<Rightarrow> string \<Rightarrow> mval list" where
  "get_values ds date_parse m p = map (parser ds date_parse) (mvals m p)"

definition val_key :: "(int \<Rightarrow> string) \<Rightarrow> val \<Rightarrow> string" where
  "val_key ds v = type_name (vtype v) @ js_str ds (vdata v) @ (case vlang v of None \<Rightarrow> [] | Some l \<Rightarrow> l)"

fun unique_vals :: "(int \<Rightarrow> string) \<Rightarrow> string list \<Rightarrow> val list \<Rightarrow> val list" where
  "unique_vals ds seen [] = []"
| "unique_vals ds seen (v # vs) =
     (if val_key ds v \<in> set seen then unique_vals ds seen vs
      else v # unique_vals ds (val_key ds v # seen) vs)"

definition kept_value :: "mval \<Rightarrow> bool" where
  "kept_value v \<longleftrightarrow> v \<noteq> MUndef \<and> v \<noteq> MNull \<and> v \<noteq> MText []"

definition put_vals :: "string \<Rightarrow> val list \<Rightarrow> individual \<Rightarrow> individual" where
  "put_vals p vs i = (if vs = [] then del_prop p i else set_prop p vs i)"

definition set_value :: "(int \<Rightarrow> string) \<Rightarrow> string \<Rightarrow> mval list \<Rightarrow> bool \<Rightarrow> imodel \<Rightarrow> imodel" where
  "set_value ds p values silently m =
     (let uniq = unique_vals ds [] (List.map_filter serializer (filter kept_value values));
          m1 = m\<lparr>isSync := False\<rparr>
      in if uniq = mvals m p then m1
         else (let m2 = m1\<lparr>properties := put_vals p uniq (properties m)\<rparr>
               in if silently then m2 else trigger [''propertyModified'', p] m2))"

text \<open>The comparison of \<open>hasValue\<close> and \<open>removeValue\<close>; a serialized value always has data.\<close>

definition same_item :: "val \<Rightarrow> val \<Rightarrow> bool" where
  "same_item serialized item \<longleftrightarrow>
     loose_eq (vdata item) (vdata serialized)
     \<and> (case (vlang item, vlang serialized) of
          (Some a, Some b) \<Rightarrow> a = [] \<or> b = [] \<or> a = b | _ \<Rightarrow> True)"

definition has_value :: "imodel \<Rightarrow> string \<Rightarrow> mval \<Rightarrow> bool" where
  "has_value m p v =
     (case serializer v of
        None \<Rightarrow> mvals m p \<noteq> []
      | Some s \<Rightarrow> list_ex (same_item s) (mvals m p))"

text \<open>Without a property: any property but \<open>@\<close>.\<close>

definition has_value_any :: "imodel \<Rightarrow> mval \<Rightarrow> bool" where
  "has_value_any m v = list_ex (\<lambda>(p, vs). has_value m p v) (props (properties m))"

definition ensure_prop :: "string \<Rightarrow> individual \<Rightarrow> individual" where
  "ensure_prop p i = (case pget i p of None \<Rightarrow> set_prop p [] i | Some vs \<Rightarrow> i)"

definition modified :: "string \<Rightarrow> bool \<Rightarrow> imodel \<Rightarrow> imodel" where
  "modified p silently m =
     (let m1 = m\<lparr>isSync := False\<rparr> in if silently then m1 else trigger [''propertyModified'', p] m1)"

text \<open>
  Only \<open>undefined\<close> and \<open>null\<close> have no serialization; as elements of an array they are skipped,
  and as the whole argument (\<open>None\<close>) the operation does nothing.
\<close>

definition add_single :: "string \<Rightarrow> mval \<Rightarrow> individual \<Rightarrow> individual" where
  "add_single p v i =
     (case serializer v of
        None \<Rightarrow> i
      | Some s \<Rightarrow> set_prop p ((case pget i p of None \<Rightarrow> [] | Some vs \<Rightarrow> vs) @ [s]) i)"

definition remove_single :: "string \<Rightarrow> mval \<Rightarrow> individual \<Rightarrow> individual" where
  "remove_single p v i =
     (case serializer v of
        None \<Rightarrow> i
      | Some s \<Rightarrow>
          set_prop p (filter (\<lambda>item. \<not> same_item s item)
            (case pget i p of None \<Rightarrow> [] | Some vs \<Rightarrow> vs)) i)"

definition add_value :: "string \<Rightarrow> mval list option \<Rightarrow> bool \<Rightarrow> imodel \<Rightarrow> imodel" where
  "add_value p values silently m =
     (case values of
        None \<Rightarrow> m
      | Some vs \<Rightarrow>
          modified p silently
            (m\<lparr>properties := foldl (\<lambda>i v. add_single p v i) (ensure_prop p (properties m)) vs\<rparr>))"

definition remove_value :: "string \<Rightarrow> mval list option \<Rightarrow> bool \<Rightarrow> imodel \<Rightarrow> imodel" where
  "remove_value p values silently m =
     (case values of
        None \<Rightarrow> m
      | Some vs \<Rightarrow>
          if mvals m p = [] then m
          else modified p silently (m\<lparr>properties := foldl (\<lambda>i v. remove_single p v i) (properties m) vs\<rparr>))"

definition toggle_single :: "string \<Rightarrow> individual \<Rightarrow> mval \<Rightarrow> individual" where
  "toggle_single p i v =
     (case serializer v of
        None \<Rightarrow> i
      | Some s \<Rightarrow>
          if list_ex (same_item s) (case pget i p of None \<Rightarrow> [] | Some vs \<Rightarrow> vs)
          then remove_single p v i else add_single p v i)"

definition toggle_value :: "string \<Rightarrow> mval list option \<Rightarrow> bool \<Rightarrow> imodel \<Rightarrow> imodel" where
  "toggle_value p values silently m =
     (case values of
        None \<Rightarrow> m
      | Some vs \<Rightarrow>
          modified p silently
            (m\<lparr>properties := foldl (toggle_single p) (ensure_prop p (properties m)) vs\<rparr>))"

definition clear_value :: "string \<Rightarrow> bool \<Rightarrow> imodel \<Rightarrow> imodel" where
  "clear_value p silently m =
     (if mvals m p = [] then m
      else modified p silently (m\<lparr>properties := del_prop p (properties m)\<rparr>))"

section \<open>Saving\<close>

text \<open>
  \<open>se_user\<close> is the id of the user, \<open>se_actor\<close> the one of the appointment or else of the user,
  \<open>se_now\<close> the clock, \<open>se_parse\<close> is \<open>Date.parse\<close> and \<open>se_str\<close> the text of a Date.
\<close>

record save_env =
  se_user :: string
  se_actor :: string
  se_now :: int
  se_parse :: "string \<Rightarrow> int"
  se_str :: "int \<Rightarrow> string"

definition mval_number :: "mval \<Rightarrow> (int \<times> nat) option" where
  "mval_number v =
     (case v of MDate t \<Rightarrow> Some (t, 0) | MNum n \<Rightarrow> Some (n, 0) | MDec m e \<Rightarrow> Some (m, e)
      | MTextObj s l \<Rightarrow> parse_number s | MText s \<Rightarrow> parse_number s
      | MBool b \<Rightarrow> Some (if b then 1 else 0, 0) | MNull \<Rightarrow> Some (0, 0) | _ \<Rightarrow> None)"

definition edit_is_due :: "save_env \<Rightarrow> imodel \<Rightarrow> bool" where
  "edit_is_due env m =
     (let gv = get_values (se_str env) (se_parse env) m
      in case (gv ''v-s:lastEditor'', gv ''v-s:edited'') of
           (l # _, e # _) \<Rightarrow>
             l \<noteq> MRef (se_actor env)
             \<or> (case mval_number e of None \<Rightarrow> False | Some x \<Rightarrow> num_less x (se_now env - 1000, 0))
         | _ \<Rightarrow> True)"

definition before_save :: "save_env \<Rightarrow> imodel \<Rightarrow> imodel" where
  "before_save env m =
     (let st = (\<lambda>p v. set_value (se_str env) p [v] False);
          m1 = (if mvals m ''v-s:creator'' = [] then st ''v-s:creator'' (MRef (se_actor env)) m else m);
          m2 = (if mvals m1 ''v-s:created'' = [] then st ''v-s:created'' (MDate (se_now env)) m1 else m1)
      in if se_user env = ''cfg:Administrator'' then m2
         else if edit_is_due env m2
         then st ''v-s:lastEditor'' (MRef (se_actor env)) (st ''v-s:edited'' (MDate (se_now env)) m2)
         else m2)"

definition has_data :: "val \<Rightarrow> bool" where
  "has_data v \<longleftrightarrow> vdata v \<noteq> DStr [] \<and> vdata v \<noteq> DUndef"

definition drop_empty :: "individual \<Rightarrow> individual" where
  "drop_empty i =
     i\<lparr>props := List.map_filter (\<lambda>(p, vs). case filter has_data vs of [] \<Rightarrow> None | xs \<Rightarrow> Some (p, xs)) (props i)\<rparr>"

text \<open>\<open>decimalDatetimeReviver\<close>: a Datetime becomes a Date; a Decimal is a number already.\<close>

definition revive_val :: "(string \<Rightarrow> int) \<Rightarrow> val \<Rightarrow> val" where
  "revive_val date_parse v =
     (if vtype v = TDatetime
      then v\<lparr>vdata := DDate (case vdata v of DDate t \<Rightarrow> t | d \<Rightarrow> date_parse (js_str iso_date d))\<rparr> else v)"

definition revive :: "(string \<Rightarrow> int) \<Rightarrow> individual \<Rightarrow> individual" where
  "revive date_parse i = i\<lparr>props := map (\<lambda>(p, vs). (p, map (revive_val date_parse) vs)) (props i)\<rparr>"

type_synonym request = "indv_op \<times> individual"

definition delta_requests :: "string \<Rightarrow> delta \<Rightarrow> request list" where
  "delta_requests mid d =
     (if d_added d \<noteq> [] then [(OpAddTo, \<lparr>uri = mid, props = d_added d\<rparr>)] else [])
     @ (if d_differ d \<noteq> [] \<or> d_uri d \<noteq> None then [(OpSetIn, \<lparr>uri = mid, props = d_differ d\<rparr>)] else [])
     @ (if d_missing d \<noteq> [] then [(OpRemoveFrom, \<lparr>uri = mid, props = d_missing d\<rparr>)] else [])"

datatype save_result = SaveNothing | SaveRefused | SaveSends "request list"

definition save :: "save_env \<Rightarrow> imodel \<Rightarrow> imodel \<times> save_result" where
  "save env m =
     (if isSync m then (m, SaveNothing)
      else if has_value m ''rdf:type'' (MText ''rdfs:Resource'') then (m, SaveRefused)
      else (let m1 = before_save env (trigger [''beforeSave''] m);
                m2 = m1\<lparr>properties := drop_empty (properties m1)\<rparr>;
                mid = uri (properties m2);
                base = (case original m2 of None \<Rightarrow> \<lparr>uri = mid, props = []\<rparr> | Some o' \<Rightarrow> revive (se_parse env) o')
            in (m2, SaveSends (if isNew m2 then [(OpPut, properties m2)]
                               else delta_requests mid (diff (properties m2) base)))))"

text \<open>The answer takes the properties at the time of the answer.\<close>

definition save_answered :: "imodel \<Rightarrow> imodel" where
  "save_answered m =
     trigger [''afterSave''] (m\<lparr>original := Some (properties m), isNew := False, isSync := True, isLoaded := True\<rparr>)"

definition delete_model :: "save_env \<Rightarrow> imodel \<Rightarrow> imodel \<times> save_result" where
  "delete_model env m0 =
     (let m = trigger [''beforeDelete''] m0
      in if isNew m then (trigger [''afterDelete''] m, SaveNothing)
         else save env (trigger [''afterDelete''] (set_value (se_str env) ''v-s:deleted'' [MBool True] False m)))"

definition recover_model :: "save_env \<Rightarrow> imodel \<Rightarrow> imodel \<times> save_result" where
  "recover_model env m =
     save env (trigger [''afterRecover''] (set_value (se_str env) ''v-s:deleted'' [] False
       (trigger [''beforeRecover''] m)))"

text \<open>\<open>remove\<close>: the request for the server, if the individual is stored (the cache is a component of its own).\<close>

definition remove_model :: "imodel \<Rightarrow> imodel \<times> string option" where
  "remove_model m0 =
     (let m = trigger [''beforeRemove''] m0
      in if isNew m then (trigger [''afterRemove''] m, None) else (m, Some (uri (properties m))))"

definition clone_model :: "(string \<Rightarrow> int) \<Rightarrow> string \<Rightarrow> imodel \<Rightarrow> imodel" where
  "clone_model date_parse genuri m =
     clear_value ''v-s:updateCounter'' False
       ((model_of_json ((revive date_parse (properties m))\<lparr>uri := genuri\<rparr>))\<lparr>isNew := True, isSync := False\<rparr>)"

section \<open>Resetting\<close>

text \<open>
  The check sum of a property: the sum of the character codes of its JSON text. A character
  outside of ASCII is one UTF-16 unit (or a pair), which is read off its UTF-8 bytes.
\<close>

fun compact :: "json \<Rightarrow> string" where
  "compact JNull = ''null''"
| "compact (JRaw s) = s"
| "compact (JText s) = json_text s"
| "compact (JArr xs) = ''['' @ join '','' (map compact xs) @ '']''"
| "compact (JObj ps) = [CHR 0x7B] @ join '','' (map (\<lambda>(k, x). json_text k @ '':'' @ compact x) ps) @ [CHR 0x7D]"

fun utf16_sum :: "nat list \<Rightarrow> nat" where
  "utf16_sum [] = 0"
| "utf16_sum (a # b # c # d # bs) =
     (if a < 128 then a + utf16_sum (b # c # d # bs)
      else if a < 224 then (a mod 32) * 64 + b mod 64 + utf16_sum (c # d # bs)
      else if a < 240 then (a mod 16) * 4096 + (b mod 64) * 64 + c mod 64 + utf16_sum (d # bs)
      else (let u = (a mod 8) * 262144 + (b mod 64) * 4096 + (c mod 64) * 64 + d mod 64 - 65536
            in 55296 + u div 1024 + 56320 + u mod 1024 + utf16_sum bs))"
| "utf16_sum [a, b, c] =
     (if a < 128 then a + utf16_sum [b, c]
      else if a < 224 then (a mod 32) * 64 + b mod 64 + utf16_sum [c]
      else (a mod 16) * 4096 + (b mod 64) * 64 + c mod 64)"
| "utf16_sum [a, b] = (if a < 128 then a + utf16_sum [b] else (a mod 32) * 64 + b mod 64)"
| "utf16_sum [a] = a"

definition checksum :: "val list \<Rightarrow> nat" where
  "checksum vs = utf16_sum (map of_char (compact (json_vals vs)))"

definition reset_prop :: "individual \<Rightarrow> imodel \<Rightarrow> string \<Rightarrow> imodel" where
  "reset_prop orig m p =
     (let upd = (\<lambda>i. trigger [''propertyModified'', p] (m\<lparr>properties := i\<rparr>))
      in case (pget (properties m) p, pget orig p) of
           (None, None) \<Rightarrow> m
         | (None, Some vs) \<Rightarrow> upd (set_prop p vs (properties m))
         | (Some us, None) \<Rightarrow> upd (del_prop p (properties m))
         | (Some us, Some vs) \<Rightarrow>
             if checksum us \<noteq> checksum vs then upd (set_prop p vs (properties m)) else m)"

definition reset_answered :: "individual \<Rightarrow> imodel \<Rightarrow> imodel" where
  "reset_answered orig m =
     (let m1 = foldl (reset_prop orig) (m\<lparr>original := Some orig\<rparr>)
                 (unique (map fst (props (properties m)) @ map fst (props orig)))
      in trigger [''afterReset''] (m1\<lparr>isNew := False, isSync := True, isLoaded := True\<rparr>))"

text \<open>\<open>reset\<close> of a new individual asks nobody: the second component says whether to ask.\<close>

definition reset_model :: "imodel \<Rightarrow> imodel \<times> bool" where
  "reset_model m0 =
     (let m = trigger [''beforeReset''] m0
      in if isNew m then (trigger [''afterReset''] m, False) else (m, True))"

section \<open>Loading\<close>

definition load_answered :: "individual \<Rightarrow> imodel \<Rightarrow> imodel" where
  "load_answered json m =
     trigger [''afterLoad'']
       (m\<lparr>isNew := False, isSync := True, isLoaded := True, properties := json, original := Some json\<rparr>)"

definition placeholder :: "string \<Rightarrow> val list \<Rightarrow> individual" where
  "placeholder mid labels = \<lparr>uri = mid, props = [(''rdf:type'', newUri (DStr ''rdfs:Resource'')), (''rdfs:label'', labels)]\<rparr>"

text \<open>
  The result after an error with the code; the second component says that the individual is
  reset when the connection is back.
\<close>

definition load_failed :: "int \<Rightarrow> string \<Rightarrow> imodel \<Rightarrow> imodel \<times> bool" where
  "load_failed code mid m =
     (let off = m\<lparr>isNew := False, isSync := False, isLoaded := False\<rparr>;
          done = trigger [''afterLoad'']
      in if code = 422 \<or> code = 404
         then (done (off\<lparr>isNew := True, properties := placeholder mid
                (mlstring (DStr ((map char_of [208::nat, 158, 208, 177, 209, 138, 208, 181, 208, 186, 209, 130, 32,
      208, 189, 208, 181, 32, 209, 129, 209, 131, 209, 137, 208, 181, 209, 129, 209, 130, 208, 178, 209, 131, 208, 181, 209, 130, 32, 91]) @ mid @ '']''))
                          (DStr (''Object does not exist ['' @ mid @ '']'')))\<rparr>), False)
         else if code = 472
         then (done (off\<lparr>properties := placeholder mid
                (mlstring (DStr (map char_of [208::nat, 157, 208, 181, 209, 130, 32, 208, 191, 209, 128, 208, 176, 208,
      178, 32, 208, 189, 208, 176, 32, 208, 190, 208, 177, 209, 138, 208, 181, 208, 186, 209, 130])) (DStr ''Insufficient rights''))\<rparr>), False)
         else if code = 470 \<or> code = 471 then (done off, False)
         else if code = 0 \<or> code = 4000 \<or> code = 503
         then (done (off\<lparr>properties := placeholder mid
                (mlstring (DStr (map char_of [208::nat, 157, 208, 181, 209, 130, 32, 209, 129, 208, 178, 209, 143, 208,
      183, 208, 184, 32, 209, 129, 32, 209, 129, 208, 181, 209, 128, 208, 178, 208, 181, 209, 128, 208, 190, 208, 188,
      46, 32, 208, 173, 209, 130, 208, 190, 209, 130, 32, 208, 190, 208, 177, 209, 138, 208, 181, 208, 186, 209, 130,
      32, 209, 129, 208, 181, 208, 185, 209, 135, 208, 176, 209, 129, 32, 208, 189, 208, 181, 208, 180, 208, 190, 209,
      129, 209, 130, 209, 131, 208, 191, 208, 181, 208, 189, 46]))
                          (DStr ''Server disconnected. This object is not available now.''))\<rparr>), True)
         else (done (off\<lparr>properties := placeholder mid
                [\<lparr>vtype = TString, vdata = DStr mid, vlang = Some ''NONE''\<rparr>]\<rparr>), False))"

section \<open>Chains of properties\<close>

text \<open>
  \<open>fetch\<close> is what the individual with an id holds once it is loaded. A value on the way that is
  no individual has no \<open>load\<close>: the TypeError is caught.
\<close>

type_synonym fetch = "string \<Rightarrow> individual"

definition values_at :: "(int \<Rightarrow> string) \<Rightarrow> (string \<Rightarrow> int) \<Rightarrow> fetch \<Rightarrow> string \<Rightarrow> string \<Rightarrow> mval list" where
  "values_at ds date_parse fetch p u =
     (case pget (fetch u) p of None \<Rightarrow> [] | Some vs \<Rightarrow> map (parser ds date_parse) vs)"

fun as_refs :: "mval list \<Rightarrow> string list option" where
  "as_refs [] = Some []"
| "as_refs (MRef u # vs) = map_option (\<lambda>us. u # us) (as_refs vs)"
| "as_refs (_ # vs) = None"

fun getChainValue :: "(int \<Rightarrow> string) \<Rightarrow> (string \<Rightarrow> int) \<Rightarrow> fetch \<Rightarrow> string list \<Rightarrow> string list \<Rightarrow> mval list" where
  "getChainValue ds dp fetch us [] = []"
| "getChainValue ds dp fetch us [p] = concat (map (values_at ds dp fetch p) us)"
| "getChainValue ds dp fetch us (p # q # ps) =
     (case as_refs (concat (map (values_at ds dp fetch p) us)) of
        None \<Rightarrow> [] | Some vs \<Rightarrow> getChainValue ds dp fetch vs (q # ps))"

text \<open>\<open>None\<close> is \<open>undefined\<close>, the result after a caught error.\<close>

fun getPropertyChain :: "(int \<Rightarrow> string) \<Rightarrow> (string \<Rightarrow> int) \<Rightarrow> fetch \<Rightarrow> string \<Rightarrow> string list \<Rightarrow> mval list option" where
  "getPropertyChain ds dp fetch u [] = Some []"
| "getPropertyChain ds dp fetch u (p # ps) =
     (case values_at ds dp fetch p u of
        [] \<Rightarrow> Some []
      | v # vs \<Rightarrow>
          if ps = [] then Some (v # vs)
          else (case v of MRef x \<Rightarrow> getPropertyChain ds dp fetch x ps | _ \<Rightarrow> None))"

text \<open>\<open>valueOf\<close> of a value, as \<open>==\<close> compares it.\<close>

fun mval_data :: "mval \<Rightarrow> jdata" where
  "mval_data MUndef = DUndef"
| "mval_data MNull = DUndef"
| "mval_data (MBool b) = DBool b"
| "mval_data (MNum i) = DNum i"
| "mval_data (MDec m e) = DDec m e"
| "mval_data MNaN = DNaN"
| "mval_data (MDate t) = DNum t"
| "mval_data (MRef u) = DStr u"
| "mval_data (MText s) = DStr s"
| "mval_data (MTextObj s l) = DStr s"

definition hasChainValue ::
  "(int \<Rightarrow> string) \<Rightarrow> (string \<Rightarrow> int) \<Rightarrow> fetch \<Rightarrow> string \<Rightarrow> string list \<Rightarrow> mval \<Rightarrow> bool" where
  "hasChainValue ds dp fetch u ps sought =
     list_ex (\<lambda>v. loose_eq (mval_data sought) (mval_data v)) (getChainValue ds dp fetch [u] ps)"

section \<open>Classes\<close>

text \<open>
  \<open>is\<close>: the flag \<open>is\<close> is shared by the whole recursion, which runs on the stack of calls; \<open>None\<close> is
  the RangeError. \<open>known\<close> is what the model of a class holds at the moment (it is not loaded here).
\<close>

definition super_ids :: "fetch \<Rightarrow> string \<Rightarrow> string list" where
  "super_ids known u =
     (case pget (known u) ''rdfs:subClassOf'' of None \<Rightarrow> [] | Some vs \<Rightarrow> map (\<lambda>v. js_str iso_date (vdata v)) vs)"

fun is_sub :: "nat \<Rightarrow> fetch \<Rightarrow> string \<Rightarrow> string \<Rightarrow> bool \<Rightarrow> bool option"
  and is_subs :: "nat \<Rightarrow> fetch \<Rightarrow> string \<Rightarrow> string list \<Rightarrow> bool \<Rightarrow> bool option" where
  "is_sub 0 known cls u flag = None"
| "is_sub (Suc n) known cls u flag =
     (if flag then Some True
      else if super_ids known u = [] then Some False
      else if cls \<in> set (super_ids known u) then Some True
      else is_subs n known cls (super_ids known u) False)"
| "is_subs n known cls [] flag = Some flag"
| "is_subs n known cls (u # us) flag =
     (case is_sub n known cls u flag of None \<Rightarrow> None | Some b \<Rightarrow> is_subs n known cls us b)"

definition is_class :: "nat \<Rightarrow> fetch \<Rightarrow> string \<Rightarrow> imodel \<Rightarrow> bool option" where
  "is_class n known cls m =
     (let types = map (\<lambda>v. js_str iso_date (vdata v)) (mvals m ''rdf:type'')
      in if cls \<in> set types then Some True else is_subs n known cls types False)"

end
