(* ===== verification/Individual_Props.thy ===== *)
theory Individual_Props
  imports Individual_Model Util_Props
begin

text \<open>
  The individual in the browser: values survive the way out and in, the operations on values,
  what a save leaves on the server, what a reset and a late answer lose, and membership in a class.
\<close>

section \<open>Values out and in\<close>

text \<open>A stored value that no regular expression takes for something else.\<close>

definition plain_text :: "string \<Rightarrow> bool" where
  "plain_text s \<longleftrightarrow> \<not> reg_uri s \<and> \<not> reg_date s \<and> ml_split s = None"

definition storable :: "(string \<Rightarrow> int) \<Rightarrow> val \<Rightarrow> bool" where
  "storable date_parse v \<longleftrightarrow>
     (case vtype v of
        TUri \<Rightarrow> (\<exists>u. v = mkv TUri (DStr u))
      | TString \<Rightarrow> (\<exists>s l. v = \<lparr>vtype = TString, vdata = DStr s, vlang = Some l\<rparr> \<and> l \<noteq> [] \<and> plain_text s)
      | TInteger \<Rightarrow> (\<exists>i. v = mkv TInteger (DNum i))
      | TDecimal \<Rightarrow> (\<exists>m e. v = mkv TDecimal (DDec m e) \<and> m mod 10 ^ e \<noteq> 0)
      | TDatetime \<Rightarrow> (\<exists>t. v = mkv TDatetime (DStr (iso_date t)) \<and> date_parse (iso_date t) = t)
      | TBoolean \<Rightarrow> (\<exists>b. v = mkv TBoolean (DBool b)))"

text \<open>What \<^verbatim>\<open>parser\<close> hands to a view and the view hands back unchanged,
  \<^verbatim>\<open>serializer\<close> stores as the same value, with its type and language. The exception is a
  text that looks like a URI, a date or a text with a language: it comes back as another value.\<close>

lemma value_roundtrip:
  assumes "storable dp v"
  shows "serializer (parser ds dp v) = Some v
    \<and> (reg_uri s \<longrightarrow> serializer (parser ds dp \<lparr>vtype = TString, vdata = DStr s, vlang = l\<rparr>) = Some (mkv TUri (DStr s)))"
  using assms
  by (cases "vtype v") (auto simp: storable_def plain_text_def parser_def ser_text_def)

lemma value_roundtrip_witness:
  "serializer (parser (\<lambda>_. []) (\<lambda>_. 0) \<lparr>vtype = TString, vdata = DStr ''note'', vlang = Some ''EN''\<rparr>)
     = Some \<lparr>vtype = TString, vdata = DStr ''note'', vlang = Some ''EN''\<rparr>
   \<and> serializer (parser (\<lambda>_. []) (\<lambda>_. 0) \<lparr>vtype = TString, vdata = DStr ''note:this'', vlang = Some ''EN''\<rparr>)
     = Some (mkv TUri (DStr ''note:this''))"
proof -
  have "storable (\<lambda>_. 0) \<lparr>vtype = TString, vdata = DStr ''note'', vlang = Some ''EN''\<rparr>"
    by (simp add: storable_def plain_text_def reg_uri_def reg_date_def shape_def ml_split_def
        uri_prefix_char_def char_in_def)
  note rt = value_roundtrip [OF this, of "\<lambda>_. []" "''note:this''" "Some ''EN''"]
  have "reg_uri ''note:this''"
    by (simp add: reg_uri_def uri_prefix_char_def uri_name_char_def char_in_def)
  with rt show ?thesis by blast
qed

section \<open>Operations on values\<close>

lemma prop_of_individual [simp]: "properties (trigger es m) = properties m"
  by (simp add: trigger_def)

lemma flags_trigger [simp]:
  "isSync (trigger es m) = isSync m" "isNew (trigger es m) = isNew m" "isLoaded (trigger es m) = isLoaded m"
  "original (trigger es m) = original m"
  by (simp_all add: trigger_def)

lemma modified_simps [simp]:
  "properties (modified p s m) = properties m" "isSync (modified p s m) = False"
  "isNew (modified p s m) = isNew m" "original (modified p s m) = original m"
  by (simp_all add: modified_def Let_def)

lemma mvals_ensure: "(case pget (ensure_prop p i) p of None \<Rightarrow> [] | Some vs \<Rightarrow> vs) = (case pget i p of None \<Rightarrow> [] | Some vs \<Rightarrow> vs)"
  by (simp add: ensure_prop_def split: option.splits)

lemma ensure_other: "pget (ensure_prop p i) q = (if p = q then Some (case pget i p of None \<Rightarrow> [] | Some vs \<Rightarrow> vs) else pget i q)"
  by (simp add: ensure_prop_def split: option.splits)

text \<open>Toggling a value flips whether the individual has it: a missing value is appended, and of
  a value that is there every occurrence is removed (whatever its type, and in any language if
  one of the two has none); the other properties stay, and the individual counts as changed.\<close>

lemma toggle_flips:
  assumes "serializer v = Some s" and "same_item s s"
  shows "has_value (toggle_value p (Some [v]) q m) p v = (\<not> has_value m p v)
    \<and> mvals (toggle_value p (Some [v]) q m) p
        = (if has_value m p v then filter (\<lambda>x. \<not> same_item s x) (mvals m p) else mvals m p @ [s])
    \<and> (\<forall>k. k \<noteq> p \<longrightarrow> mvals (toggle_value p (Some [v]) q m) k = mvals m k)
    \<and> \<not> isSync (toggle_value p (Some [v]) q m)"
  using assms
  by (auto simp: has_value_def toggle_value_def toggle_single_def add_single_def remove_single_def mvals_def
      mvals_ensure ensure_other list_ex_iff)

lemma toggle_flips_witness:
  "\<not> has_value (toggle_value ''p'' (Some [MRef ''d:a'']) False
      (model_of_json \<lparr>uri = ''d:x'', props = [(''p'', newUri (DStr ''d:a''))]\<rparr>)) ''p'' (MRef ''d:a'')"
  using toggle_flips [of "MRef ''d:a''" "mkv TUri (DStr ''d:a'')" "''p''" False
      "model_of_json \<lparr>uri = ''d:x'', props = [(''p'', newUri (DStr ''d:a''))]\<rparr>"]
  by (simp add: has_value_def mvals_def model_of_json_def newUri_def same_item_def)

text \<open>The values of a property after \<open>set\<close>: no two with the same key of type, data and language.\<close>

lemma unique_vals_keys:
  "val_key ds ` set (unique_vals ds seen vs) = val_key ds ` set vs - set seen"
  by (induction vs arbitrary: seen) auto

lemma unique_vals_distinct: "distinct (map (val_key ds) (unique_vals ds seen vs))"
proof (induction vs arbitrary: seen)
  case Nil
  then show ?case by simp
next
  case (Cons v vs)
  have "val_key ds v \<notin> val_key ds ` set (unique_vals ds (val_key ds v # seen) vs)"
    by (simp add: unique_vals_keys)
  with Cons show ?case by simp
qed

lemma unique_vals_id: "distinct (map (val_key ds) vs) \<Longrightarrow> val_key ds ` set vs \<inter> set seen = {} \<Longrightarrow> unique_vals ds seen vs = vs"
  by (induction vs arbitrary: seen) auto

lemma mvals_set_value:
  "mvals (set_value ds p values q m) p = unique_vals ds [] (List.map_filter serializer (filter kept_value values))"
  by (simp add: set_value_def mvals_def put_vals_def Let_def trigger_def split: option.splits)

lemma mvals_set_other: "p \<noteq> k \<Longrightarrow> mvals (set_value ds p values q m) k = mvals m k"
  by (simp add: set_value_def mvals_def put_vals_def Let_def trigger_def)

text \<open>\<^verbatim>\<open>set\<close> stores, without repetition, exactly the keys of the values handed over
  (\<open>undefined\<close>, \<open>null\<close> and the empty text are skipped); the other properties stay; setting the
  same values again announces no change.\<close>

lemma set_value_spec:
  "distinct (map (val_key ds) (mvals (set_value ds p values q m) p))
   \<and> val_key ds ` set (mvals (set_value ds p values q m) p)
       = {val_key ds s | v s. v \<in> set values \<and> kept_value v \<and> serializer v = Some s}
   \<and> (p \<noteq> k \<longrightarrow> mvals (set_value ds p values q m) k = mvals m k)
   \<and> properties (set_value ds p values q (set_value ds p values q m)) = properties (set_value ds p values q m)
   \<and> events (set_value ds p values q (set_value ds p values q m)) = events (set_value ds p values q m)"
proof -
  have "val_key ds ` set (mvals (set_value ds p values q m) p)
      = {val_key ds s | v s. v \<in> set values \<and> kept_value v \<and> serializer v = Some s}"
    by (force simp: mvals_set_value unique_vals_keys List.map_filter_def)
  moreover have "set_value ds p values q (set_value ds p values q m) = (set_value ds p values q m)\<lparr>isSync := False\<rparr>"
    using mvals_set_value [of ds p "values" q m]
    by (simp add: set_value_def [of ds p "values" q "set_value ds p values q m"] Let_def)
  ultimately show ?thesis
    by (simp add: mvals_set_value unique_vals_distinct mvals_set_other)
qed

lemma set_value_spec_witness:
  "mvals (set_value (\<lambda>_. []) ''p'' [MNum 1, MText [], MNum 1, MNum 2] False (new_model ''d:x'')) ''k'' = []"
proof -
  have "mvals (new_model ''d:x'') ''k'' = []" by (simp add: mvals_def new_model_def)
  then show ?thesis
    using set_value_spec [of "\<lambda>_. []" "''p''" "[MNum 1, MText [], MNum 1, MNum 2]" False "new_model ''d:x''" "''k''"]
    by simp
qed

section \<open>What a save leaves on the server\<close>

text \<open>The server applies a request to the stored individual.\<close>

definition answer :: "individual \<Rightarrow> request list \<Rightarrow> individual" where
  "answer stored rs = foldl (\<lambda>i r. apply_cmd (fst r) i (snd r)) stored rs"

definition counter :: string where "counter = ''v-s:updateCounter''"

lemma wf_apply_pred: "wf_ind i \<Longrightarrow> wf_ind (apply_pred c k b i)"
  by (cases c) (simp_all add: apply_pred_def Let_def)

lemma pget_apply_pred_other: "k \<noteq> p \<Longrightarrow> pget (apply_pred c p b i) k = pget i k"
  by (cases c) (simp_all add: apply_pred_def Let_def)

text \<open>The new value of one property.\<close>

definition applied :: "indv_op \<Rightarrow> val list option \<Rightarrow> val list \<Rightarrow> val list option" where
  "applied c old b =
     (let vs = (case old of None \<Rightarrow> [] | Some vs \<Rightarrow> vs)
      in case c of OpAddTo \<Rightarrow> Some (add_unique vs b) | OpSetIn \<Rightarrow> Some b
         | OpRemoveFrom \<Rightarrow> (if filter (\<lambda>v. v \<notin> set b) vs = [] then None else Some (filter (\<lambda>v. v \<notin> set b) vs))
         | _ \<Rightarrow> old)"

lemma pget_apply_pred: "pget (apply_pred c p b i) p = applied c (pget i p) b"
  by (cases c) (simp_all add: apply_pred_def applied_def Let_def)

lemma pget_fold_pred:
  "distinct (map fst ps) \<Longrightarrow>
   pget (fold (\<lambda>(k, b) i. if k = ''v-s:updateCounter'' then i else apply_pred c k b i) ps i) k
     = (case map_of ps k of
          None \<Rightarrow> pget i k
        | Some b \<Rightarrow> if k = counter then pget i k else applied c (pget i k) b)"
proof (induction ps arbitrary: i)
  case Nil
  then show ?case by simp
next
  case (Cons x ps)
  obtain p b where x: "x = (p, b)" by (cases x)
  have d: "distinct (map fst ps)" and n: "map_of ps p = None"
    using Cons.prems x by (auto simp: map_of_eq_None_iff)
  show ?case
    using Cons.IH [OF d] n
    by (auto simp: x counter_def pget_apply_pred pget_apply_pred_other split: option.splits)
qed

lemma pget_apply_cmd:
  "props i \<noteq> [] \<Longrightarrow> wf_ind x \<Longrightarrow>
   pget (apply_cmd c i x) k
     = (case pget x k of None \<Rightarrow> pget i k
        | Some b \<Rightarrow> if k = counter then pget i k else applied c (pget i k) b)"
  by (simp add: apply_cmd_def wf_ind_def pget_fold_pred)

lemma props_apply_cmd:
  assumes "props i \<noteq> []" and "wf_ind x" and "c = OpAddTo \<or> c = OpSetIn"
  shows "props (apply_cmd c i x) \<noteq> []"
proof -
  obtain p vs ps where "props i = (p, vs) # ps" using assms(1) by (metis neq_Nil_conv surj_pair)
  then have "pget i p \<noteq> None" by simp
  then have "pget (apply_cmd c i x) p \<noteq> None"
    using assms by (auto simp: pget_apply_cmd applied_def split: option.splits)
  then show ?thesis by auto
qed

text \<open>One conditional request of a save.\<close>

definition part :: "indv_op \<Rightarrow> string \<Rightarrow> val list obj \<Rightarrow> individual \<Rightarrow> individual" where
  "part c u ps i = (if ps = [] then i else apply_cmd c i \<lparr>uri = u, props = ps\<rparr>)"

lemma pget_part:
  "props i \<noteq> [] \<Longrightarrow> distinct (map fst ps) \<Longrightarrow> k \<noteq> counter \<Longrightarrow>
   pget (part c u ps i) k = (case oget ps k of None \<Rightarrow> pget i k | Some b \<Rightarrow> applied c (pget i k) b)"
  by (simp add: part_def pget_apply_cmd wf_ind_def split: option.splits)

lemma props_part:
  "props i \<noteq> [] \<Longrightarrow> distinct (map fst ps) \<Longrightarrow> c = OpAddTo \<or> c = OpSetIn \<Longrightarrow> props (part c u ps i) \<noteq> []"
  using props_apply_cmd [of i "\<lparr>uri = u, props = ps\<rparr>" c] by (simp add: part_def wf_ind_def)

lemma answer_delta:
  "d_uri d = None \<Longrightarrow>
   answer i (delta_requests u d)
     = part OpRemoveFrom u (d_missing d) (part OpSetIn u (d_differ d) (part OpAddTo u (d_added d) i))"
  by (simp add: delta_requests_def answer_def part_def)

lemma oget_missing: "oget (d_missing (diff changed base)) k = (if pget changed k = None then pget base k else None)"
proof -
  have "(\<lambda>(k, vs). pget changed k = None) = (\<lambda>p :: string \<times> val list. pget changed (fst p) = None)" by auto
  then show ?thesis by (simp add: diff_def oget_filter_keys [where P = "\<lambda>k. pget changed k = None"])
qed

lemma keys_delta:
  assumes "wf_ind changed" and "wf_ind base"
  shows "distinct (map fst (d_added (diff changed base)))" "distinct (map fst (d_differ (diff changed base)))"
    "distinct (map fst (d_missing (diff changed base)))"
proof -
  show "distinct (map fst (d_added (diff changed base)))" using assms(1) by (rule keys_added)
  show "distinct (map fst (d_differ (diff changed base)))"
    using assms(2) by (simp add: d_differ_alt wf_ind_def distinct_map_filter_keys)
  show "distinct (map fst (d_missing (diff changed base)))"
    using assms(2) by (simp add: diff_def wf_ind_def distinct_map_filter)
qed

text \<open>The stored value of one property after the requests of a difference.\<close>

definition merged_value :: "individual \<Rightarrow> individual \<Rightarrow> string \<Rightarrow> val list option" where
  "merged_value changed base k =
     (case pget changed k of
        None \<Rightarrow> None
      | Some vs \<Rightarrow>
          (case pget base k of
             None \<Rightarrow> Some (add_unique [] vs)
           | Some us \<Rightarrow> Some (if values_differ changed k us vs then vs else us)))"

lemma answer_diff:
  assumes wf: "wf_ind changed" "wf_ind base" and "uri changed = uri base" and ne: "props base \<noteq> []" and k: "k \<noteq> counter"
  shows "pget (answer base (delta_requests u (diff changed base))) k = merged_value changed base k"
proof -
  let ?d = "diff changed base"
  have uri: "d_uri ?d = None" using assms(3) by (simp add: diff_def)
  note keys = keys_delta [OF wf]
  let ?i1 = "part OpAddTo u (d_added ?d) base"
  let ?i2 = "part OpSetIn u (d_differ ?d) ?i1"
  have n1: "props ?i1 \<noteq> []" using ne keys(1) by (simp add: props_part)
  then have n2: "props ?i2 \<noteq> []" using keys(2) by (simp add: props_part)
  show ?thesis
    unfolding answer_delta [OF uri]
    by (simp add: pget_part [OF n2 keys(3) k] pget_part [OF n1 keys(2) k] pget_part [OF ne keys(1) k]
        oget_missing oget_added oget_differ [OF wf(2)] differing_def applied_def merged_value_def
        split: option.splits)
qed

lemma set_value_keeps [simp]:
  "original (set_value ds p vs q m) = original m" "isNew (set_value ds p vs q m) = isNew m"
  "uri (properties (set_value ds p vs q m)) = uri (properties m)"
  by (simp_all add: set_value_def Let_def put_vals_def trigger_def)

lemma wf_set_value: "wf_ind (properties m) \<Longrightarrow> wf_ind (properties (set_value ds p vs q m))"
  by (simp add: set_value_def Let_def put_vals_def trigger_def)

lemma before_save_keeps [simp]:
  "original (before_save env m) = original m" "isNew (before_save env m) = isNew m"
  "uri (properties (before_save env m)) = uri (properties m)"
  by (simp_all add: before_save_def Let_def)

lemma wf_before_save: "wf_ind (properties m) \<Longrightarrow> wf_ind (properties (before_save env m))"
  by (simp add: before_save_def Let_def wf_set_value)

lemma wf_drop_empty: "wf_ind i \<Longrightarrow> wf_ind (drop_empty i)" (is "_ \<Longrightarrow> ?thesis")
proof -
  let ?g = "\<lambda>(p :: string) vs. case filter has_data vs of [] \<Rightarrow> None | xs \<Rightarrow> Some xs"
  assume "wf_ind i"
  then have "distinct (map fst (List.map_filter (\<lambda>(p, vs). map_option (Pair p) (?g p vs)) (props i)))"
    unfolding wf_ind_def by (rule distinct_map_filter_keys)
  moreover have "(\<lambda>(p, vs). map_option (Pair p) (?g p vs))
      = (\<lambda>(p, vs). case filter has_data vs of [] \<Rightarrow> None | xs \<Rightarrow> Some (p, xs))"
    by (auto simp: fun_eq_iff split: list.splits)
  ultimately have "distinct (map fst (List.map_filter
      (\<lambda>(p, vs). case filter has_data vs of [] \<Rightarrow> None | xs \<Rightarrow> Some (p, xs)) (props i)))"
    by (rule back_subst [where P = "\<lambda>f. distinct (map fst (List.map_filter f (props i)))"])
  then show ?thesis by (simp add: wf_ind_def drop_empty_def)
qed

lemma save_sends:
  assumes "\<not> isSync m" and "\<not> isNew m" and "\<not> has_value m ''rdf:type'' (MText ''rdfs:Resource'')"
    and "original m = Some srv" and "revive (se_parse env) srv = srv" and "wf_ind srv" and "props srv \<noteq> []"
    and "wf_ind (properties m)" and "uri (properties m) = uri srv" and "k \<noteq> counter"
  shows "\<exists>m2 rs. save env m = (m2, SaveSends rs) \<and> pget (answer srv rs) k = merged_value (properties m2) srv k"
proof -
  let ?m1 = "before_save env (trigger [''beforeSave''] m)"
  let ?m2 = "?m1\<lparr>properties := drop_empty (properties ?m1)\<rparr>"
  have wf: "wf_ind (properties ?m2)" using assms(8) by (simp add: wf_drop_empty wf_before_save)
  have u: "uri (properties ?m2) = uri srv" using assms(9) by (simp add: drop_empty_def)
  have "save env m = (?m2, SaveSends (delta_requests (uri (properties ?m2)) (diff (properties ?m2) srv)))"
    using assms(1-5) by (simp add: save_def Let_def)
  then show ?thesis
    using answer_diff [OF wf assms(6) u assms(7,10)] by blast
qed

text \<open>C10: A save of a changed, stored individual sends requests after which the server holds, for
  every property, what the model holds: new properties are added, removed ones are gone and
  changed ones replaced; only a property whose values all have a match on the server (same
  number of values, same type and data, in any language) keeps the server's values.\<close>

theorem save_persists:
  assumes "\<not> isSync m" and "\<not> isNew m" and "\<not> has_value m ''rdf:type'' (MText ''rdfs:Resource'')"
    and "original m = Some srv" and "revive (se_parse env) srv = srv" and "wf_ind srv" and "props srv \<noteq> []"
    and "wf_ind (properties m)" and "uri (properties m) = uri srv" and "k \<noteq> counter"
  shows "\<exists>m2 rs. save env m = (m2, SaveSends rs) \<and> pget (answer srv rs) k = merged_value (properties m2) srv k"
  using assms by (rule save_sends)

definition env_ex :: save_env where
  "env_ex = \<lparr>se_user = ''d:u'', se_actor = ''d:u'', se_now = 0, se_parse = (\<lambda>_. 0), se_str = (\<lambda>_. [])\<rparr>"

definition stored_ex :: individual where
  "stored_ex = \<lparr>uri = ''d:x'', props = [(''rdf:type'', newUri (DStr ''v-s:Doc'')), (''p'', newUri (DStr ''d:a''))]\<rparr>"

definition edited_ex :: imodel where
  "edited_ex = clear_value ''p'' False (model_of_json stored_ex)"

lemma edited_ex_facts:
  "\<not> isSync edited_ex" "\<not> isNew edited_ex" "\<not> has_value edited_ex ''rdf:type'' (MText ''rdfs:Resource'')"
  "original edited_ex = Some stored_ex" "revive (se_parse env_ex) stored_ex = stored_ex" "wf_ind stored_ex"
  "props stored_ex \<noteq> []" "wf_ind (properties edited_ex)" "uri (properties edited_ex) = uri stored_ex"
  "''p'' \<noteq> counter"
  by (simp_all add: edited_ex_def clear_value_def model_of_json_def mvals_def stored_ex_def has_value_def
      ser_text_def reg_uri_def uri_prefix_char_def uri_name_char_def char_in_def same_item_def newUri_def
      revive_def revive_val_def mkv_def wf_ind_def counter_def del_prop_def)

theorem save_persists_witness:
  "\<exists>m2 rs. save env_ex edited_ex = (m2, SaveSends rs)
     \<and> pget (answer stored_ex rs) ''p'' = merged_value (properties m2) stored_ex ''p''"
  by (rule save_persists [OF edited_ex_facts])

text \<open>An edit between the request of a save and its answer is lost. The answer takes the
  properties of that moment for saved: the model then holds the edit, counts as synchronised
  and sends nothing any more, while the server holds what was sent before the edit.\<close>

lemma edit_in_flight_lost:
  assumes "\<not> isSync m" and "\<not> isNew m" and "\<not> has_value m ''rdf:type'' (MText ''rdfs:Resource'')"
    and "original m = Some srv" and "revive (se_parse env) srv = srv" and "wf_ind srv" and "props srv \<noteq> []"
    and "wf_ind (properties m)" and "uri (properties m) = uri srv" and "p \<noteq> counter"
  shows "\<exists>m2 rs. save env m = (m2, SaveSends rs)
    \<and> (let m4 = save_answered (set_value ds p vs q m2)
       in mvals m4 p = unique_vals ds [] (List.map_filter serializer (filter kept_value vs))
          \<and> save env' m4 = (m4, SaveNothing)
          \<and> pget (answer srv rs) p = merged_value (properties m2) srv p)"
proof -
  obtain m2 rs where s: "save env m = (m2, SaveSends rs)"
    "pget (answer srv rs) p = merged_value (properties m2) srv p"
    using save_sends [OF assms] by blast
  moreover have "isSync (save_answered m3)" for m3 by (simp add: save_answered_def)
  then have "save env' (save_answered m3) = (save_answered m3, SaveNothing)" for m3 by (simp add: save_def)
  moreover have "mvals (save_answered m3) p = mvals m3 p" for m3 by (simp add: save_answered_def mvals_def)
  ultimately show ?thesis by (simp add: Let_def mvals_set_value)
qed

lemma edit_in_flight_lost_witness:
  "\<exists>m2 rs. save env_ex edited_ex = (m2, SaveSends rs)
    \<and> (let m4 = save_answered (set_value (\<lambda>_. []) ''p'' [MNum 5] False m2)
       in mvals m4 ''p'' = [mkv TInteger (DNum 5)] \<and> save env_ex m4 = (m4, SaveNothing))"
proof -
  have "unique_vals (\<lambda>_. []) [] (List.map_filter serializer (filter kept_value [MNum 5])) = [mkv TInteger (DNum 5)]"
    by (simp add: kept_value_def)
  then show ?thesis
    using edit_in_flight_lost [OF edited_ex_facts, of "\<lambda>_. []" "[MNum 5]" False env_ex] by (auto simp: Let_def)
qed

section \<open>What a reset leaves\<close>

text \<open>The value after the comparison of the check sums.\<close>

definition reset_value :: "val list option \<Rightarrow> val list option \<Rightarrow> val list option" where
  "reset_value own stored =
     (case (own, stored) of
        (Some us, Some vs) \<Rightarrow> if checksum us = checksum vs then Some us else Some vs
      | _ \<Rightarrow> stored)"

lemma reset_prop_pget:
  "pget (properties (reset_prop orig m p)) k
     = (if p = k then reset_value (pget (properties m) k) (pget orig k) else pget (properties m) k)"
  by (simp add: reset_prop_def reset_value_def Let_def split: option.splits)

lemma reset_value_idem: "reset_value (reset_value a b) b = reset_value a b"
  by (auto simp: reset_value_def split: option.splits)

lemma reset_fold_pget:
  "pget (properties (foldl (reset_prop orig) m ps)) k
     = (if k \<in> set ps then reset_value (pget (properties m) k) (pget orig k) else pget (properties m) k)"
  by (induction ps arbitrary: m) (auto simp: reset_prop_pget reset_value_idem)

text \<open>C20: After a reset the model holds the server's properties, except where the check sums of
  the two JSON texts agree: there the local values stay although the model counts as
  synchronised. Values with the same characters in another order are such a case.\<close>

theorem reset_restores:
  assumes "k \<notin> set proto_names"
  shows "pget (properties (reset_answered orig m)) k = reset_value (pget (properties m) k) (pget orig k)
    \<and> isSync (reset_answered orig m)
    \<and> checksum [\<lparr>vtype = TString, vdata = DStr ''12'', vlang = None\<rparr>] = checksum [\<lparr>vtype = TString, vdata = DStr ''21'', vlang = None\<rparr>]"
proof -
  have u: "set (unique xs) = set xs - set proto_names" for xs
    using unique_loop_set [of "[]" "[]" xs] by (auto simp: unique_def)
  have none: "k \<notin> fst ` set (props (properties m)) \<Longrightarrow> pget (properties m) k = None"
    "k \<notin> fst ` set (props orig) \<Longrightarrow> pget orig k = None"
    by (simp_all add: map_of_eq_None_iff)
  have "pget (properties (reset_answered orig m)) k = reset_value (pget (properties m) k) (pget orig k)"
    using assms none
    by (auto simp: reset_answered_def Let_def reset_fold_pget u) (simp add: reset_value_def)
  moreover have "isSync (reset_answered orig m)" by (simp add: reset_answered_def Let_def)
  ultimately show ?thesis
    by (simp add: checksum_def json_vals_def json_val_def members_def json_text_def json_char_def type_name_def)
qed

theorem reset_restores_witness:
  "pget (properties (reset_answered \<lparr>uri = ''d:x'', props = [(''p'', newStr (DStr ''21'') None)]\<rparr>
      (model_of_json \<lparr>uri = ''d:x'', props = [(''p'', newStr (DStr ''12'') None)]\<rparr>))) ''p'' = Some (newStr (DStr ''12'') None)"
proof -
  have "''p'' \<notin> set proto_names" by (simp add: proto_names_def)
  note r = reset_restores [OF this, of "\<lparr>uri = ''d:x'', props = [(''p'', newStr (DStr ''21'') None)]\<rparr>"
      "model_of_json \<lparr>uri = ''d:x'', props = [(''p'', newStr (DStr ''12'') None)]\<rparr>"]
  have "checksum (newStr (DStr ''12'') None) = checksum (newStr (DStr ''21'') None)"
    using r by (simp add: mkv_def)
  with r show ?thesis by (simp add: reset_value_def model_of_json_def)
qed

section \<open>Membership in a class\<close>

definition sup :: "fetch \<Rightarrow> (string \<times> string) set" where
  "sup known = {(u, s). s \<in> set (super_ids known u)}"

lemma is_subs_true: "is_sub (Suc n) known cls u True = Some True" "is_subs (Suc n) known cls us True = Some True"
proof -
  show 1: "is_sub (Suc n) known cls u True = Some True" for u by simp
  show "is_subs (Suc n) known cls us True = Some True" by (induction us) (simp_all add: 1)
qed

text \<open>With enough stack for the height of the classes, the search decides reachability.\<close>

lemma is_subs_decides:
  assumes rank: "\<And>u s. s \<in> set (super_ids known u) \<Longrightarrow> rank s < rank u"
    and here: "\<And>u. u \<in> set us \<Longrightarrow> is_sub (Suc n) known cls u False = Some ((u, cls) \<in> (sup known)\<^sup>+)"
  shows "is_subs (Suc n) known cls us flag = Some (flag \<or> (\<exists>u \<in> set us. (u, cls) \<in> (sup known)\<^sup>+))"
  using here
proof (induction us arbitrary: flag)
  case Nil
  then show ?case by simp
next
  case (Cons u us)
  show ?case
  proof (cases flag)
    case True
    then show ?thesis using is_subs_true(2) [of n known cls "u # us"] by simp
  next
    case False
    have "is_sub (Suc n) known cls u False = Some ((u, cls) \<in> (sup known)\<^sup>+)" using Cons.prems by simp
    moreover have "is_subs (Suc n) known cls us b = Some (b \<or> (\<exists>u \<in> set us. (u, cls) \<in> (sup known)\<^sup>+))" for b
      using Cons by simp
    ultimately show ?thesis using False by (simp del: is_sub.simps)
  qed
qed

lemma is_sub_decides:
  assumes rank: "\<And>u s. s \<in> set (super_ids known u) \<Longrightarrow> rank s < rank u"
  shows "rank u < n \<Longrightarrow> is_sub n known cls u False = Some ((u, cls) \<in> (sup known)\<^sup>+)"
proof (induction n arbitrary: u)
  case 0
  then show ?case by simp
next
  case (Suc n)
  have step: "(u, cls) \<in> (sup known)\<^sup>+ \<longleftrightarrow> cls \<in> set (super_ids known u)
      \<or> (\<exists>s \<in> set (super_ids known u). (s, cls) \<in> (sup known)\<^sup>+)"
    by (auto simp: sup_def dest: tranclD intro: trancl_into_trancl2)
      (metis (no_types, lifting) case_prodD converse_tranclE mem_Collect_eq)
  show ?case
  proof (cases "super_ids known u = [] \<or> cls \<in> set (super_ids known u)")
    case True
    then show ?thesis using step by auto
  next
    case False
    then obtain s where "s \<in> set (super_ids known u)" by (cases "super_ids known u") auto
    then have "0 < n" using rank [of s u] Suc.prems by simp
    then obtain k where n: "n = Suc k" by (cases n) auto
    have "is_sub (Suc k) known cls s False = Some ((s, cls) \<in> (sup known)\<^sup>+)" if "s \<in> set (super_ids known u)" for s
      using Suc.IH [of s] rank [OF that] Suc.prems n by (simp del: is_sub.simps)
    then have "is_subs (Suc k) known cls (super_ids known u) False
        = Some (\<exists>s \<in> set (super_ids known u). (s, cls) \<in> (sup known)\<^sup>+)"
      using is_subs_decides [OF rank, where us = "super_ids known u" and n = k and cls = cls and flag = False] by simp
    with False step show ?thesis by (simp add: n)
  qed
qed

text \<open>On an acyclic graph of classes \<^verbatim>\<open>is\<close> ends and answers whether the class is one of the
  types or can be reached from a type over \<^verbatim>\<open>rdfs:subClassOf\<close>; a stack as deep as the classes
  are high is enough.\<close>

lemma is_class_decides:
  assumes "\<And>u s. s \<in> set (super_ids known u) \<Longrightarrow> rank s < rank u"
    and "\<And>v. v \<in> set (mvals m ''rdf:type'') \<Longrightarrow> rank (js_str iso_date (vdata v)) < n"
  shows "is_class n known cls m
    = Some (\<exists>v \<in> set (mvals m ''rdf:type''). (js_str iso_date (vdata v), cls) \<in> (sup known)\<^sup>*)"
proof -
  let ?ts = "map (\<lambda>v. js_str iso_date (vdata v)) (mvals m ''rdf:type'')"
  have r: "(\<exists>v \<in> set (mvals m ''rdf:type''). (js_str iso_date (vdata v), cls) \<in> (sup known)\<^sup>*)
      \<longleftrightarrow> cls \<in> set ?ts \<or> (\<exists>t \<in> set ?ts. (t, cls) \<in> (sup known)\<^sup>+)"
    by (auto simp: rtrancl_eq_or_trancl)
  show ?thesis
  proof (cases "?ts = []")
    case True
    then show ?thesis by (simp add: is_class_def)
  next
    case False
    then obtain t where "t \<in> set ?ts" by (cases "mvals m ''rdf:type''") auto
    then have "0 < n" using assms(2) by force
    then obtain k where n: "n = Suc k" by (cases n) auto
    have "is_sub (Suc k) known cls t False = Some ((t, cls) \<in> (sup known)\<^sup>+)" if "t \<in> set ?ts" for t
      using is_sub_decides [OF assms(1), where n = n and u = t and cls = cls] assms(2) that n by (auto simp del: is_sub.simps)
    then have "is_subs (Suc k) known cls ?ts False = Some (\<exists>t \<in> set ?ts. (t, cls) \<in> (sup known)\<^sup>+)"
      using is_subs_decides [OF assms(1), where us = ?ts and n = k and cls = cls and flag = False] by simp
    then show ?thesis unfolding r by (simp add: is_class_def n)
  qed
qed

lemma is_class_decides_witness:
  "is_class 2 (\<lambda>u. if u = ''c:a'' then \<lparr>uri = u, props = [(''rdfs:subClassOf'', newUri (DStr ''c:b''))]\<rparr>
       else \<lparr>uri = u, props = []\<rparr>) ''c:b''
     (model_of_json \<lparr>uri = ''d:x'', props = [(''rdf:type'', newUri (DStr ''c:a''))]\<rparr>) = Some True"
  (is "is_class 2 ?k _ ?m = _")
proof -
  have supers: "super_ids ?k u = (if u = ''c:a'' then [''c:b''] else [])" for u
    by (simp add: super_ids_def newUri_def)
  have "(''c:a'', ''c:b'') \<in> (sup ?k)\<^sup>*" by (rule r_into_rtrancl) (simp add: sup_def supers)
  moreover have "mvals ?m ''rdf:type'' = [mkv TUri (DStr ''c:a'')]" by (simp add: mvals_def model_of_json_def newUri_def)
  ultimately show ?thesis
    using is_class_decides [of ?k "\<lambda>u. if u = ''c:a'' then 1 else 0" ?m 2 "''c:b''"]
    by (simp add: supers split: if_splits)
qed

end
