(* ===== verification/App_Model.thy ===== *)
theory App_Model
  imports Veda_Prelude
begin

text \<open>
  The cache of the application (\<^verbatim>\<open>public/js/common/app_model.js\<close>) with its two clients in
  \<^verbatim>\<open>individual_model.js\<close>: the constructor, which gives one object per id, and the setter of
  \<^verbatim>\<open>id\<close>. The objects are shared: \<open>storage\<close> and \<open>expire\<close> hold references to them, so that a
  change of an object's id shows in both.
\<close>

section \<open>The state\<close>

record cached_obj =
  obj_id :: string
  obj_expires :: "int option"

datatype subscription = Subscribe string | Unsubscribe string | UnsubscribeAll

record cache =
  c_limit :: int
  c_count :: int
  c_delta :: int
  c_storage :: "nat obj"
  c_expire :: "(int \<times> nat list) list"
  c_heap :: "nat \<Rightarrow> cached_obj"
  c_subs :: "subscription list"

definition empty_cache :: "(nat \<Rightarrow> cached_obj) \<Rightarrow> cache" where
  "empty_cache h =
     \<lparr>c_limit = 20000, c_count = 0, c_delta = 1000, c_storage = [], c_expire = [], c_heap = h, c_subs = []\<rparr>"

text \<open>
  \<open>Object.keys\<close>: the keys that are array indices in ascending order, then the others in the order
  of their insertion. A time stamp of today is above the indices.
\<close>

definition array_index :: "int \<Rightarrow> bool" where
  "array_index k \<longleftrightarrow> 0 \<le> k \<and> k < 2 ^ 32 - 1"

definition expire_keys :: "cache \<Rightarrow> int list" where
  "expire_keys c =
     (let ks = map fst (c_expire c) in sort (filter array_index ks) @ filter (\<lambda>k. \<not> array_index k) ks)"

section \<open>Operations\<close>

definition cache_get :: "string \<Rightarrow> cache \<Rightarrow> nat option" where
  "cache_get key c = oget (c_storage c) key"

definition expire_at :: "int \<Rightarrow> cache \<Rightarrow> nat list" where
  "expire_at k c = (case map_of (c_expire c) k of None \<Rightarrow> [] | Some rs \<Rightarrow> rs)"

text \<open>An emptied list loses its key.\<close>

definition put_expire :: "int \<Rightarrow> nat list \<Rightarrow> cache \<Rightarrow> cache" where
  "put_expire k rs c =
     c\<lparr>c_expire := (if rs = [] then AList.delete k (c_expire c) else AList.update k rs (c_expire c))\<rparr>"

text \<open>The filter over one list: drops from the front until there is room.\<close>

fun evict_list :: "nat list \<Rightarrow> cache \<Rightarrow> nat list \<times> cache" where
  "evict_list [] c = ([], c)"
| "evict_list (r # rs) c =
     (if c_limit c - c_count c \<ge> c_delta c
      then (let (kept, c') = evict_list rs c in (r # kept, c'))
      else evict_list rs
             (c\<lparr>c_storage := odel (obj_id (c_heap c r)) (c_storage c), c_count := c_count c - 1\<rparr>))"

definition evict_key :: "int \<Rightarrow> cache \<Rightarrow> cache" where
  "evict_key k c = (let (kept, c') = evict_list (expire_at k c) c in put_expire k kept c')"

fun evict_keys :: "int list \<Rightarrow> cache \<Rightarrow> cache" where
  "evict_keys [] c = c"
| "evict_keys (k # ks) c =
     (if c_limit c - c_count c < c_delta c then evict_keys ks (evict_key k c) else c)"

definition evict :: "cache \<Rightarrow> cache" where
  "evict c = (if c_count c \<ge> c_limit c then evict_keys (drop 1 (expire_keys c)) c else c)"

text \<open>
  \<open>expires\<close> is a number or anything else, \<open>now\<close> the clock, \<open>window\<close> says that there is a page (and
  an update service).
\<close>

definition cache_set :: "bool \<Rightarrow> int \<Rightarrow> nat \<Rightarrow> int option \<Rightarrow> cache \<Rightarrow> cache" where
  "cache_set window now r expires c =
     (let c1 = evict c;
          k = (case expires of Some e \<Rightarrow> e | None \<Rightarrow> now);
          ob = (c_heap c1 r)\<lparr>obj_expires := Some k\<rparr>
      in c1\<lparr>c_heap := (c_heap c1)(r := ob),
            c_storage := oset (obj_id ob) r (c_storage c1),
            c_expire := AList.update k (expire_at k c1 @ [r]) (c_expire c1),
            c_count := c_count c1 + 1,
            c_subs := c_subs c1 @ (if window \<and> k \<noteq> 1 then [Subscribe (obj_id ob)] else [])\<rparr>)"

text \<open>\<open>None\<close> is the TypeError of a key that is not cached (or of an object without its list).\<close>

definition cache_remove :: "bool \<Rightarrow> string \<Rightarrow> cache \<Rightarrow> cache option" where
  "cache_remove window key c =
     (case cache_get key c of
        None \<Rightarrow> None
      | Some r \<Rightarrow>
          (case obj_expires (c_heap c r) of
             None \<Rightarrow> None
           | Some e \<Rightarrow>
               (case map_of (c_expire c) e of
                  None \<Rightarrow> None
                | Some rs \<Rightarrow>
                    Some ((put_expire e (filter (\<lambda>x. obj_id (c_heap c x) \<noteq> key) rs) c)
                            \<lparr>c_count := c_count c - 1,
                             c_subs := c_subs c @ (if window then [Unsubscribe key] else []),
                             c_storage := odel key (c_storage c)\<rparr>))))"

definition cache_clear :: "bool \<Rightarrow> cache \<Rightarrow> cache" where
  "cache_clear window c =
     c\<lparr>c_count := 0, c_storage := [], c_expire := [],
       c_subs := c_subs c @ (if window then [UnsubscribeAll] else [])\<rparr>"

section \<open>The clients in individual_model.js\<close>

text \<open>
  \<open>new veda.IndividualModel (uri)\<close> with the cache: the object that is cached under the uri, or a
  new one (\<open>fresh\<close>) that is cached now.
\<close>

definition intern :: "bool \<Rightarrow> int \<Rightarrow> nat \<Rightarrow> string \<Rightarrow> int option \<Rightarrow> cache \<Rightarrow> nat \<times> cache" where
  "intern window now fresh u expires c =
     (case cache_get u c of
        Some r \<Rightarrow> (r, c)
      | None \<Rightarrow>
          (fresh, cache_set window now fresh expires
             (c\<lparr>c_heap := (c_heap c)(fresh := \<lparr>obj_id = u, obj_expires = None\<rparr>)\<rparr>)))"

text \<open>
  The setter of \<^verbatim>\<open>id\<close> changes the object first and then moves it in the cache. \<open>expires\<close> is the
  object's own \<open>_.cache\<close> as a number, if it is one.
\<close>

definition set_id :: "bool \<Rightarrow> int \<Rightarrow> nat \<Rightarrow> int option \<Rightarrow> string \<Rightarrow> cache \<Rightarrow> cache option" where
  "set_id window now r expires u c =
     (let previous = obj_id (c_heap c r);
          c1 = c\<lparr>c_heap := (c_heap c)(r := (c_heap c r)\<lparr>obj_id := u\<rparr>)\<rparr>
      in if previous = [] \<or> cache_get previous c1 = None then Some c1
         else map_option (cache_set window now r expires) (cache_remove window previous c1))"

text \<open>\<open>remove\<close> of an individual drops it from the cache, if it is there.\<close>

definition forget :: "bool \<Rightarrow> string \<Rightarrow> cache \<Rightarrow> cache option" where
  "forget window u c = (if cache_get u c = None then Some c else cache_remove window u c)"

section \<open>What the cache keeps\<close>

definition all_refs :: "cache \<Rightarrow> nat list" where
  "all_refs c = concat (map snd (c_expire c))"

text \<open>
  Every cached object is in exactly one list, the one of its time; \<open>storage\<close> finds it under its
  id; the counter counts.
\<close>

definition listed :: "cache \<Rightarrow> bool" where
  "listed c \<longleftrightarrow>
     distinct (map fst (c_expire c))
     \<and> (\<forall>(k, rs) \<in> set (c_expire c). rs \<noteq> [] \<and> (\<forall>r \<in> set rs. obj_expires (c_heap c r) = Some k))"

definition stored :: "nat obj \<Rightarrow> (nat \<Rightarrow> string) \<Rightarrow> nat list \<Rightarrow> bool" where
  "stored st name rs \<longleftrightarrow>
     distinct rs \<and> inj_on name (set rs) \<and> (\<forall>u r. oget st u = Some r \<longleftrightarrow> r \<in> set rs \<and> name r = u)"

definition cache_ok :: "cache \<Rightarrow> bool" where
  "cache_ok c \<longleftrightarrow>
     listed c \<and> stored (c_storage c) (\<lambda>r. obj_id (c_heap c r)) (all_refs c)
     \<and> c_count c = int (length (all_refs c))"

end
