(* ===== verification/App_Props.thy ===== *)
theory App_Props
  imports App_Model "HOL-Library.Multiset"
begin

text \<open>
  The cache keeps its invariant, gives one object per id, evicts the oldest objects first and
  stays within its limit. Renaming a cached object breaks the invariant.
\<close>

section \<open>The lists\<close>

definition others :: "int \<Rightarrow> cache \<Rightarrow> nat list" where
  "others k c = concat (map snd (AList.delete k (c_expire c)))"

lemma delete_refs:
  "distinct (map fst al) \<Longrightarrow>
   mset (concat (map snd al))
     = mset (case map_of al k of None \<Rightarrow> [] | Some rs \<Rightarrow> rs) + mset (concat (map snd (AList.delete k al)))"
  by (induction al) (auto simp: AList.delete_eq filter_id_conv image_iff split: option.splits dest!: map_of_SomeD)

lemma delete_update: "AList.delete k (AList.update k rs al) = AList.delete k al"
  by (induction al) (auto simp: AList.delete_eq)

lemma expire_at_split: "distinct (map fst (c_expire c)) \<Longrightarrow> mset (all_refs c) = mset (expire_at k c) + mset (others k c)"
  using delete_refs [of "c_expire c" k] by (simp add: all_refs_def expire_at_def others_def)

lemma put_refs:
  assumes "distinct (map fst (c_expire c))"
  shows "mset (all_refs (put_expire k rs c)) = mset rs + mset (others k c)"
proof (cases "rs = []")
  case True
  then show ?thesis by (simp add: put_expire_def all_refs_def others_def)
next
  case False
  have "distinct (map fst (AList.update k rs (c_expire c)))" using assms by (simp add: distinct_update)
  from delete_refs [OF this, of k] show ?thesis
    using False by (simp add: put_expire_def all_refs_def others_def delete_update update_conv')
qed

lemma put_expire_simps [simp]:
  "c_heap (put_expire k rs c) = c_heap c" "c_storage (put_expire k rs c) = c_storage c"
  "c_count (put_expire k rs c) = c_count c" "c_limit (put_expire k rs c) = c_limit c"
  "c_delta (put_expire k rs c) = c_delta c" "c_subs (put_expire k rs c) = c_subs c"
  by (simp_all add: put_expire_def)

lemma set_update_subset: "set (AList.update k v al) \<subseteq> insert (k, v) (set al)"
  by (induction al) auto

lemma set_delete_subset: "set (AList.delete k al) \<subseteq> set al"
  by (auto simp: AList.delete_eq)

lemma listed_iff:
  "listed c \<longleftrightarrow> distinct (map fst (c_expire c))
     \<and> (\<forall>k rs. (k, rs) \<in> set (c_expire c) \<longrightarrow> rs \<noteq> [] \<and> (\<forall>r \<in> set rs. obj_expires (c_heap c r) = Some k))"
  by (auto simp: listed_def)

lemma listed_put:
  assumes "listed c" and "\<And>r. r \<in> set rs \<Longrightarrow> obj_expires (c_heap c r) = Some k"
  shows "listed (put_expire k rs c)"
proof (cases "rs = []")
  case True
  have "listed (put_expire k [] c)"
    using assms(1) set_delete_subset [of k "c_expire c"] unfolding listed_iff put_expire_def
    by (simp add: distinct_delete) blast
  with True show ?thesis by simp
next
  case False
  with assms show ?thesis using set_update_subset [of k rs "c_expire c"] unfolding listed_iff put_expire_def
    by (simp add: distinct_update) blast
qed

lemma listed_distinct: "listed c \<Longrightarrow> distinct (map fst (c_expire c))"
  by (simp add: listed_def)

lemma expire_at_expires:
  "listed c \<Longrightarrow> r \<in> set (expire_at k c) \<Longrightarrow> obj_expires (c_heap c r) = Some k"
  by (auto simp: listed_def expire_at_def split: option.splits dest!: map_of_SomeD)

section \<open>The storage\<close>

lemma stored_perm: "stored st name rs \<Longrightarrow> mset rs = mset rs' \<Longrightarrow> stored st name rs'"
  by (auto simp: stored_def dest: mset_eq_setD mset_eq_imp_distinct_iff)

lemma stored_drop:
  assumes "stored st name (xs @ ys)"
  shows "stored (filter (\<lambda>p. fst p \<notin> name ` set xs) st) name ys"
proof -
  have fresh: "name r \<notin> name ` set xs" if "r \<in> set ys" for r
    using assms that unfolding stored_def inj_on_def by fastforce
  have "oget (filter (\<lambda>p. fst p \<notin> name ` set xs) st) u = (if u \<in> name ` set xs then None else oget st u)" for u
    using oget_filter_keys [of "\<lambda>u. u \<notin> name ` set xs" st u] by simp
  moreover have "(\<forall>u r. oget st u = Some r \<longleftrightarrow> r \<in> set (xs @ ys) \<and> name r = u) \<and> distinct ys \<and> inj_on name (set ys)"
    using assms by (simp add: stored_def inj_on_Un)
  ultimately show ?thesis unfolding stored_def using fresh by auto
qed

lemma stored_add:
  assumes "stored st name rs" and "r \<notin> set rs" and "oget st (name r) = None"
  shows "stored (oset (name r) r st) name (r # rs)"
proof -
  have "name x \<noteq> name r" if "x \<in> set rs" for x
    using assms(1,3) that by (metis option.distinct(1) stored_def)
  then have "name r \<notin> name ` set rs" by (metis imageE)
  then show ?thesis using assms by (auto simp: stored_def) (metis imageI)
qed

lemma stored_cong:
  assumes "\<And>r. r \<in> set rs \<Longrightarrow> name r = name' r"
  shows "stored st name rs \<longleftrightarrow> stored st name' rs"
proof -
  have "inj_on name (set rs) = inj_on name' (set rs)" using assms by (rule inj_on_cong)
  moreover have "(r \<in> set rs \<and> name r = u) = (r \<in> set rs \<and> name' r = u)" for u r using assms by auto
  ultimately show ?thesis unfolding stored_def by simp
qed

section \<open>Eviction\<close>

text \<open>What one list loses: its first \<open>n\<close> objects.\<close>

definition evicted :: "nat list \<Rightarrow> cache \<Rightarrow> cache" where
  "evicted xs c =
     c\<lparr>c_storage := filter (\<lambda>p. fst p \<notin> (\<lambda>r. obj_id (c_heap c r)) ` set xs) (c_storage c),
       c_count := c_count c - int (length xs)\<rparr>"

lemma evict_full:
  "c_limit c - c_count c \<ge> c_delta c \<Longrightarrow> evict_list rs c = (rs, c)"
  by (induction rs) auto

lemma evict_list_spec:
  "\<exists>n \<le> length rs. evict_list rs c = (drop n rs, evicted (take n rs) c)
     \<and> (n < length rs \<longrightarrow> c_limit c - (c_count c - int n) \<ge> c_delta c)"
proof (induction rs arbitrary: c)
  case Nil
  show ?case by (simp add: evicted_def filter_True)
next
  case (Cons r rs)
  show ?case
  proof (cases "c_limit c - c_count c \<ge> c_delta c")
    case True
    then show ?thesis
      by (intro exI [of _ 0]) (simp add: evict_full evicted_def)
  next
    case False
    let ?c = "c\<lparr>c_storage := odel (obj_id (c_heap c r)) (c_storage c), c_count := c_count c - 1\<rparr>"
    from Cons.IH [of ?c] obtain n where n: "n \<le> length rs"
      "evict_list rs ?c = (drop n rs, evicted (take n rs) ?c)"
      "n < length rs \<longrightarrow> c_limit ?c - (c_count ?c - int n) \<ge> c_delta ?c" by blast
    have "evicted (take n rs) ?c = evicted (r # take n rs) c"
      using n(1) by (simp add: evicted_def AList.delete_eq case_prod_beta eq_commute [of "obj_id (c_heap c r)"])
    with n False show ?thesis by (intro exI [of _ "Suc n"]) (auto simp: algebra_simps)
  qed
qed

lemma evict_key_spec:
  "\<exists>n \<le> length (expire_at k c).
     evict_key k c = put_expire k (drop n (expire_at k c)) (evicted (take n (expire_at k c)) c)
     \<and> (n < length (expire_at k c) \<longrightarrow> c_limit c - (c_count c - int n) \<ge> c_delta c)"
  using evict_list_spec [of "expire_at k c" c] by (auto simp: evict_key_def)

lemma evicted_simps [simp]:
  "c_heap (evicted xs c) = c_heap c" "c_expire (evicted xs c) = c_expire c" "c_limit (evicted xs c) = c_limit c"
  "c_delta (evicted xs c) = c_delta c" "c_subs (evicted xs c) = c_subs c" "others k (evicted xs c) = others k c"
  "c_count (evicted xs c) = c_count c - int (length xs)"
  by (simp_all add: evicted_def others_def)

lemma ok_cut:
  assumes "cache_ok c" and "expire_at k c = xs @ ys"
  shows "cache_ok (put_expire k ys (evicted xs c))"
proof -
  let ?nm = "\<lambda>r. obj_id (c_heap c r)"
  from assms(1) have l: "listed c" and s: "stored (c_storage c) ?nm (all_refs c)"
    and n: "c_count c = int (length (all_refs c))" by (simp_all add: cache_ok_def)
  have old: "mset (all_refs c) = mset (xs @ (ys @ others k c))"
    using expire_at_split [OF listed_distinct [OF l], of k] assms(2) by (simp add: union_assoc)
  have new: "mset (ys @ others k c) = mset (all_refs (put_expire k ys (evicted xs c)))"
    using put_refs [of "evicted xs c" k ys] listed_distinct [OF l] by simp
  have "stored (c_storage (evicted xs c)) ?nm (ys @ others k c)"
    using stored_drop [OF stored_perm [OF s old]] by (simp add: evicted_def)
  from stored_perm [OF this new]
  have "stored (c_storage (evicted xs c)) ?nm (all_refs (put_expire k ys (evicted xs c)))" .
  moreover have "listed (put_expire k ys (evicted xs c))"
  proof (rule listed_put)
    show "listed (evicted xs c)" using l by (simp add: listed_def)
    show "obj_expires (c_heap (evicted xs c) r) = Some k" if "r \<in> set ys" for r
      using expire_at_expires [OF l, of r k] assms(2) that by simp
  qed
  moreover have "length (all_refs c) = length xs + length (ys @ others k c)"
    using arg_cong [OF old, of size] by simp
  moreover have "length (ys @ others k c) = length (all_refs (put_expire k ys (evicted xs c)))"
    using arg_cong [OF new, of size] by (simp only: size_mset)
  ultimately show ?thesis using n by (simp add: cache_ok_def)
qed

text \<open>What every step of an eviction keeps.\<close>

definition shrunk :: "cache \<Rightarrow> cache \<Rightarrow> bool" where
  "shrunk c c' \<longleftrightarrow>
     c_heap c' = c_heap c \<and> c_limit c' = c_limit c \<and> c_delta c' = c_delta c \<and> c_subs c' = c_subs c
     \<and> (\<forall>k. \<exists>n. expire_at k c' = drop n (expire_at k c)) \<and> c_count c' \<le> c_count c"

lemma shrunk_refl [simp]: "shrunk c c"
  by (auto simp: shrunk_def intro: exI [of _ 0])

lemma shrunk_trans: "shrunk a b \<Longrightarrow> shrunk b c \<Longrightarrow> shrunk a c"
  unfolding shrunk_def by (metis drop_drop order_trans)

lemma expire_at_put: "expire_at k' (put_expire k rs c) = (if k = k' then rs else expire_at k' c)"
  by (simp add: expire_at_def put_expire_def update_conv' delete_conv')

lemma expire_at_evicted [simp]: "expire_at k (evicted xs c) = expire_at k c"
  by (simp add: expire_at_def)

lemma evict_key_facts:
  assumes "cache_ok c"
  shows "cache_ok (evict_key k c)" and "shrunk c (evict_key k c)"
    and "k' \<noteq> k \<Longrightarrow> expire_at k' (evict_key k c) = expire_at k' c"
    and "expire_at k (evict_key k c) = [] \<or> c_limit c - c_count (evict_key k c) \<ge> c_delta c"
proof -
  obtain n where n: "n \<le> length (expire_at k c)"
    "evict_key k c = put_expire k (drop n (expire_at k c)) (evicted (take n (expire_at k c)) c)"
    "n < length (expire_at k c) \<longrightarrow> c_limit c - (c_count c - int n) \<ge> c_delta c"
    using evict_key_spec by blast
  show "cache_ok (evict_key k c)" unfolding n(2) by (rule ok_cut [OF assms]) simp
  show "shrunk c (evict_key k c)" unfolding n(2) shrunk_def
    by (auto simp: expire_at_put intro: exI [of _ n] exI [of _ 0])
  show "k' \<noteq> k \<Longrightarrow> expire_at k' (evict_key k c) = expire_at k' c"
    unfolding n(2) by (simp add: expire_at_put)
  show "expire_at k (evict_key k c) = [] \<or> c_limit c - c_count (evict_key k c) \<ge> c_delta c"
    using n(1,3) unfolding n(2) by (cases "n < length (expire_at k c)") (auto simp: expire_at_put)
qed

lemma evict_keys_facts:
  assumes "cache_ok c" and "distinct ks"
  shows "cache_ok (evict_keys ks c) \<and> shrunk c (evict_keys ks c)
    \<and> (\<forall>k'. k' \<notin> set ks \<longrightarrow> expire_at k' (evict_keys ks c) = expire_at k' c)
    \<and> ((\<forall>k \<in> set ks. expire_at k (evict_keys ks c) = [])
        \<or> c_limit c - c_count (evict_keys ks c) \<ge> c_delta c)"
  using assms
proof (induction ks arbitrary: c)
  case Nil
  then show ?case by simp
next
  case (Cons k ks)
  show ?case
  proof (cases "c_limit c - c_count c < c_delta c")
    case False
    with Cons.prems show ?thesis by simp
  next
    case True
    note f = evict_key_facts [OF Cons.prems(1), where k = k]
    have same: "c_limit (evict_key k c) = c_limit c" "c_delta (evict_key k c) = c_delta c"
      using f(2) by (simp_all add: shrunk_def)
    note ih = Cons.IH [OF f(1), unfolded same]
    have le: "c_count (evict_keys ks (evict_key k c)) \<le> c_count (evict_key k c)"
      using ih Cons.prems(2) by (simp add: shrunk_def)
    from ih Cons.prems(2) f(4) True le show ?thesis
      by (auto simp: shrunk_trans [OF f(2)] f(3))
  qed
qed

lemma get_iff:
  "cache_ok c \<Longrightarrow> cache_get u c = Some r \<longleftrightarrow> r \<in> set (all_refs c) \<and> obj_id (c_heap c r) = u"
  by (simp add: cache_ok_def stored_def cache_get_def)

lemma refs_iff: "cache_ok c \<Longrightarrow> r \<in> set (all_refs c) \<longleftrightarrow> (\<exists>k. r \<in> set (expire_at k c))"
  by (force simp: cache_ok_def listed_def all_refs_def expire_at_def split: option.splits dest: map_of_SomeD)

lemma keys_iff: "cache_ok c \<Longrightarrow> k \<in> fst ` set (c_expire c) \<longleftrightarrow> expire_at k c \<noteq> []"
  by (force simp: cache_ok_def listed_iff expire_at_def split: option.splits dest: map_of_SomeD)

lemma expire_keys_set [simp]: "set (expire_keys c) = fst ` set (c_expire c)"
  by (auto simp: expire_keys_def Let_def)

lemma expire_keys_distinct: "listed c \<Longrightarrow> distinct (expire_keys c)"
  by (auto simp: expire_keys_def Let_def listed_def)

lemma evict_facts:
  assumes "cache_ok c"
  shows "cache_ok (evict c)" and "shrunk c (evict c)"
    and "k = hd (expire_keys c) \<Longrightarrow> expire_at k (evict c) = expire_at k c"
    and "c_count c \<ge> c_limit c \<Longrightarrow>
      (\<forall>k. k \<noteq> hd (expire_keys c) \<longrightarrow> expire_at k (evict c) = []) \<or> c_limit c - c_count (evict c) \<ge> c_delta c"
proof -
  have d: "distinct (expire_keys c)" using assms by (simp add: cache_ok_def expire_keys_distinct)
  note f = evict_keys_facts [OF assms distinct_drop [OF d], of 1]
  show "cache_ok (evict c)" "shrunk c (evict c)" using f assms by (simp_all add: evict_def)
  show "expire_at k (evict c) = expire_at k c" if "k = hd (expire_keys c)"
  proof -
    have "k \<notin> set (drop 1 (expire_keys c))" using d that by (cases "expire_keys c") auto
    then show ?thesis using f by (simp add: evict_def)
  qed
  assume full: "c_count c \<ge> c_limit c"
  have "expire_at k c = []" if "k \<noteq> hd (expire_keys c)" "k \<notin> set (drop 1 (expire_keys c))" for k
  proof -
    have "k \<notin> set (expire_keys c)" using that by (cases "expire_keys c") auto
    then show ?thesis using keys_iff [OF assms] by simp
  qed
  moreover have e: "evict c = evict_keys (drop 1 (expire_keys c)) c"
    using full by (simp only: evict_def if_True)
  ultimately show "(\<forall>k. k \<noteq> hd (expire_keys c) \<longrightarrow> expire_at k (evict c) = [])
      \<or> c_limit c - c_count (evict c) \<ge> c_delta c"
    using f unfolding e by metis
qed

section \<open>Setting and removing\<close>

lemma cache_set_eq:
  "cache_set w now r e c =
     (let c1 = evict c; k = (case e of Some x \<Rightarrow> x | None \<Rightarrow> now); nm = obj_id (c_heap c r)
      in (put_expire k (expire_at k c1 @ [r]) c1)
           \<lparr>c_heap := (c_heap c)(r := (c_heap c r)\<lparr>obj_expires := Some k\<rparr>),
            c_storage := oset nm r (c_storage c1), c_count := c_count c1 + 1,
            c_subs := c_subs c @ (if w \<and> k \<noteq> 1 then [Subscribe nm] else [])\<rparr>)"
proof -
  have "c_heap (evict_keys ks c') = c_heap c' \<and> c_subs (evict_keys ks c') = c_subs c'" for ks c'
  proof (induction ks arbitrary: c')
    case (Cons k ks)
    show ?case using Cons.IH [of "evict_key k c'"] evict_key_spec [of k c'] by auto
  qed simp
  then have "c_heap (evict c) = c_heap c \<and> c_subs (evict c) = c_subs c" by (simp add: evict_def)
  then show ?thesis by (simp add: cache_set_def put_expire_def Let_def)
qed

lemma shrunk_refs:
  assumes "cache_ok c" and "cache_ok c'" and "shrunk c c'"
  shows "set (all_refs c') \<subseteq> set (all_refs c)"
proof
  fix r assume "r \<in> set (all_refs c')"
  then obtain k where "r \<in> set (expire_at k c')" using refs_iff [OF assms(2)] by auto
  moreover obtain n where "expire_at k c' = drop n (expire_at k c)" using assms(3) unfolding shrunk_def by blast
  ultimately have "r \<in> set (expire_at k c)" using in_set_dropD by metis
  then show "r \<in> set (all_refs c)" using refs_iff [OF assms(1)] by auto
qed

lemma listed_heap:
  "listed c \<Longrightarrow> (\<And>r. r \<in> set (all_refs c) \<Longrightarrow> obj_expires (h r) = obj_expires (c_heap c r)) \<Longrightarrow> listed (c\<lparr>c_heap := h\<rparr>)"
  by (force simp: listed_def all_refs_def)

lemma set_ok:
  assumes ok: "cache_ok c" and new: "r \<notin> set (all_refs c)" and free: "cache_get (obj_id (c_heap c r)) c = None"
  shows "cache_ok (cache_set w now r e c)"
proof -
  define c1 where "c1 = evict c"
  define k where "k = (case e of Some x \<Rightarrow> x | None \<Rightarrow> now)"
  define h where "h = (c_heap c)(r := (c_heap c r)\<lparr>obj_expires := Some k\<rparr>)"
  define c2 where "c2 = put_expire k (expire_at k c1 @ [r]) (c1\<lparr>c_heap := h\<rparr>)"
  note ok1 = evict_facts(1) [OF ok, folded c1_def] and sh = evict_facts(2) [OF ok, folded c1_def]
  have heap1: "c_heap c1 = c_heap c" using sh by (simp add: shrunk_def)
  have sub: "set (all_refs c1) \<subseteq> set (all_refs c)" by (rule shrunk_refs [OF ok ok1 sh])
  have new1: "r \<notin> set (all_refs c1)" using new sub by auto
  have l1: "listed c1" and s1: "stored (c_storage c1) (\<lambda>r. obj_id (c_heap c r)) (all_refs c1)"
    and n1: "c_count c1 = int (length (all_refs c1))" using ok1 heap1 by (simp_all add: cache_ok_def)
  have dk: "distinct (map fst (c_expire (c1\<lparr>c_heap := h\<rparr>)))" using l1 by (simp add: listed_def)
  have free1: "oget (c_storage c1) (obj_id (c_heap c r)) = None"
  proof (rule ccontr)
    assume "\<not> ?thesis"
    then obtain x where "cache_get (obj_id (c_heap c r)) c1 = Some x" by (auto simp: cache_get_def)
    then have "x \<in> set (all_refs c)" "obj_id (c_heap c x) = obj_id (c_heap c r)"
      using get_iff [OF ok1] sub heap1 by auto
    then have "cache_get (obj_id (c_heap c r)) c = Some x" using get_iff [OF ok] by simp
    with free show False by simp
  qed
  have refs: "mset (all_refs c2) = mset (r # all_refs c1)"
    using put_refs [OF dk, of k "expire_at k c1 @ [r]"] expire_at_split [OF listed_distinct [OF l1], of k]
    by (simp add: c2_def others_def)
  have "listed (c1\<lparr>c_heap := h\<rparr>)"
    by (rule listed_heap [OF l1]) (use new1 in \<open>auto simp: h_def heap1\<close>)
  then have "listed c2" unfolding c2_def
    by (rule listed_put) (use expire_at_expires [OF l1, of _ k] in \<open>auto simp: h_def heap1\<close>)
  moreover have "stored (oset (obj_id (c_heap c r)) r (c_storage c1)) (\<lambda>x. obj_id (h x)) (all_refs c2)"
  proof (rule stored_perm [OF _ refs [symmetric]])
    have "(\<lambda>x. obj_id (h x)) = (\<lambda>x. obj_id (c_heap c x))" by (auto simp: h_def)
    then show "stored (oset (obj_id (c_heap c r)) r (c_storage c1)) (\<lambda>x. obj_id (h x)) (r # all_refs c1)"
      using stored_add [OF s1 new1] free1 by simp
  qed
  moreover have "c_count c1 + 1 = int (length (all_refs c2))"
    using n1 arg_cong [OF refs, of size] by simp
  moreover have "cache_set w now r e c = c2\<lparr>c_storage := oset (obj_id (c_heap c r)) r (c_storage c1),
      c_count := c_count c1 + 1,
      c_subs := c_subs c @ (if w \<and> k \<noteq> 1 then [Subscribe (obj_id (c_heap c r))] else [])\<rparr>"
    by (simp add: cache_set_eq Let_def c1_def k_def c2_def h_def put_expire_def)
  ultimately show ?thesis by (simp add: cache_ok_def listed_def all_refs_def c2_def)
qed

lemma filter_one:
  assumes "distinct rs" and "r \<in> set rs" and "\<And>x. x \<in> set rs \<Longrightarrow> P x \<longleftrightarrow> x \<noteq> r"
  shows "mset rs = mset (r # filter P rs)"
proof -
  have "filter P rs = remove1 r rs"
    using assms by (metis (mono_tags, lifting) distinct_remove1_removeAll filter_cong removeAll_filter_not_eq)
  then show ?thesis using assms(2) by simp
qed

lemma mset_trans: "mset a = mset rs + mset ys \<Longrightarrow> mset rs = mset (r # xs) \<Longrightarrow> mset a = mset ([r] @ (xs @ ys))"
  by simp

lemma remove_ok:
  assumes ok: "cache_ok c" and "cache_get key c \<noteq> None"
  obtains c' where "cache_remove w key c = Some c'" and "cache_ok c'"
    and "c_storage c' = odel key (c_storage c)" and "c_count c' = c_count c - 1"
proof -
  let ?nm = "\<lambda>r. obj_id (c_heap c r)"
  obtain r where get: "cache_get key c = Some r" using assms(2) by auto
  with get_iff [OF ok] have r: "r \<in> set (all_refs c)" "?nm r = key" by auto
  have l: "listed c" and s: "stored (c_storage c) ?nm (all_refs c)" and n: "c_count c = int (length (all_refs c))"
    using ok by (simp_all add: cache_ok_def)
  obtain e where e: "r \<in> set (expire_at e c)" using refs_iff [OF ok] r(1) by auto
  obtain rs where rs: "map_of (c_expire c) e = Some rs" "r \<in> set rs" "expire_at e c = rs"
    using e by (cases "map_of (c_expire c) e") (auto simp: expire_at_def)
  have exp: "obj_expires (c_heap c r) = Some e" by (rule expire_at_expires [OF l e])
  have sub: "x \<in> set (all_refs c)" if "x \<in> set rs" for x using refs_iff [OF ok] rs(3) that by auto
  let ?rs = "filter (\<lambda>x. ?nm x \<noteq> key) rs"
  have "distinct rs"
    using s mset_eq_imp_distinct_iff [OF trans [OF expire_at_split [OF listed_distinct [OF l], of e] mset_append [symmetric]]] rs(3)
    by (simp add: stored_def)
  then have one: "mset rs = mset (r # ?rs)"
  proof (rule filter_one [OF _ rs(2)])
    have inj: "inj_on ?nm (set (all_refs c))" using s by (simp add: stored_def)
    show "?nm x \<noteq> key \<longleftrightarrow> x \<noteq> r" if "x \<in> set rs" for x
      using inj_on_eq_iff [OF inj sub [OF that] r(1)] r(2) by simp
  qed
  have old: "mset (all_refs c) = mset ([r] @ (?rs @ others e c))"
    by (rule mset_trans [OF expire_at_split [OF listed_distinct [OF l], of e, unfolded rs(3)] one])
  have new: "mset (?rs @ others e c) = mset (all_refs (put_expire e ?rs c))"
    using put_refs [OF listed_distinct [OF l], of e ?rs] by simp
  have st: "stored (odel key (c_storage c)) ?nm (all_refs (put_expire e ?rs c))"
  proof -
    have "odel key (c_storage c) = filter (\<lambda>p. fst p \<notin> ?nm ` set [r]) (c_storage c)"
      using r(2) by (auto simp: AList.delete_eq intro!: filter_cong)
    then show ?thesis using stored_perm [OF stored_drop [OF stored_perm [OF s old]] new] by simp
  qed
  have li: "listed (put_expire e ?rs c)"
    by (rule listed_put [OF l]) (use expire_at_expires [OF l, of _ e] rs(3) in auto)
  have len: "length (all_refs c) = Suc (length (all_refs (put_expire e ?rs c)))"
    using arg_cong [OF old, of size] arg_cong [OF new, of size] by (simp del: mset_append add: size_mset)
  let ?c' = "(put_expire e ?rs c)\<lparr>c_count := c_count c - 1, c_subs := c_subs c @ (if w then [Unsubscribe key] else []),
      c_storage := odel key (c_storage c)\<rparr>"
  have "cache_remove w key c = Some ?c'" by (simp add: cache_remove_def get exp rs(1))
  moreover have "cache_ok ?c'" using st li len n by (simp add: cache_ok_def listed_def all_refs_def)
  ultimately show ?thesis by (rule that) simp_all
qed

lemma empty_ok: "cache_ok (empty_cache h)"
  by (simp add: cache_ok_def empty_cache_def listed_def stored_def all_refs_def)

lemma clear_ok: "cache_ok (cache_clear w c)"
  by (simp add: cache_ok_def cache_clear_def listed_def stored_def all_refs_def)

section \<open>A registry of objects\<close>

text \<open>The interface that the constructor of individuals uses: it asks for a name and adds on a miss.\<close>

locale registry =
  fixes ok :: "'c \<Rightarrow> bool" and free :: "'r \<Rightarrow> 'c \<Rightarrow> bool"
    and find :: "'k \<Rightarrow> 'c \<Rightarrow> 'r option" and add :: "'r \<Rightarrow> 'k \<Rightarrow> 'c \<Rightarrow> 'c"
  assumes add_ok: "ok c \<Longrightarrow> free r c \<Longrightarrow> find k c = None \<Longrightarrow> ok (add r k c)"
    and find_add: "ok c \<Longrightarrow> free r c \<Longrightarrow> find k c = None \<Longrightarrow> find k (add r k c) = Some r"
    and find_other: "ok c \<Longrightarrow> free r c \<Longrightarrow> find k c = None \<Longrightarrow> k' \<noteq> k \<Longrightarrow>
          find k' (add r k c) = None \<or> find k' (add r k c) = find k' c"
    and one_name: "ok c \<Longrightarrow> find k c = Some r \<Longrightarrow> find k' c = Some r \<Longrightarrow> k = k'"
begin

definition obtain_obj :: "'r \<Rightarrow> 'k \<Rightarrow> 'c \<Rightarrow> 'r \<times> 'c" where
  "obtain_obj r k c = (case find k c of Some x \<Rightarrow> (x, c) | None \<Rightarrow> (r, add r k c))"

lemma obtain_ok: "ok c \<Longrightarrow> free r c \<Longrightarrow> ok (snd (obtain_obj r k c))"
  by (auto simp: obtain_obj_def add_ok split: option.splits)

lemma obtain_found: "ok c \<Longrightarrow> free r c \<Longrightarrow> find k (snd (obtain_obj r k c)) = Some (fst (obtain_obj r k c))"
  by (auto simp: obtain_obj_def find_add split: option.splits)

lemma obtain_again:
  "ok c \<Longrightarrow> free r c \<Longrightarrow> obtain_obj r k c = (x, c') \<Longrightarrow> obtain_obj r' k c' = (x, c')"
  using obtain_found [of c r k] by (simp add: obtain_obj_def)

lemma obtain_others:
  assumes "ok c" and "free r c" and "obtain_obj r k c = (x, c')" and "find k' c' = Some y" and "k' \<noteq> k"
  shows "find k' c = Some y \<and> y \<noteq> x"
proof -
  have c': "c' = snd (obtain_obj r k c)" "x = fst (obtain_obj r k c)" using assms(3) by simp_all
  have "find k' c = Some y"
    using assms find_other [of c r k k'] by (auto simp: obtain_obj_def split: option.splits)
  moreover have "y \<noteq> x"
    using one_name [OF obtain_ok [OF assms(1,2), of k]] obtain_found [OF assms(1,2), of k] assms(4,5) c' by metis
  ultimately show ?thesis ..
qed

end

section \<open>The constructor as a client of the registry\<close>

definition cache_add :: "bool \<Rightarrow> int \<Rightarrow> int option \<Rightarrow> nat \<Rightarrow> string \<Rightarrow> cache \<Rightarrow> cache" where
  "cache_add w now e r u c =
     cache_set w now r e (c\<lparr>c_heap := (c_heap c)(r := \<lparr>obj_id = u, obj_expires = None\<rparr>)\<rparr>)"

lemma evict_get:
  assumes "cache_ok c"
  shows "cache_get u (evict c) = None \<or> cache_get u (evict c) = cache_get u c"
proof (cases "cache_get u (evict c)")
  case (Some r)
  note ok = evict_facts(1) [OF assms] and sh = evict_facts(2) [OF assms]
  have "r \<in> set (all_refs c)" "obj_id (c_heap c r) = u"
    using Some get_iff [OF ok] shrunk_refs [OF assms ok sh] sh by (auto simp: shrunk_def)
  then show ?thesis using Some get_iff [OF assms] by metis
qed simp

lemma alloc_ok:
  assumes "cache_ok c" and "r \<notin> set (all_refs c)"
  shows "cache_ok (c\<lparr>c_heap := (c_heap c)(r := ob)\<rparr>)"
proof -
  let ?c = "c\<lparr>c_heap := (c_heap c)(r := ob)\<rparr>"
  have "all_refs ?c = all_refs c" by (simp add: all_refs_def)
  moreover have "listed ?c"
    using assms by (intro listed_heap) (auto simp: cache_ok_def)
  moreover have "stored (c_storage c) (\<lambda>x. obj_id (c_heap ?c x)) (all_refs c)"
  proof (rule iffD2 [OF stored_cong])
    show "stored (c_storage c) (\<lambda>x. obj_id (c_heap c x)) (all_refs c)" using assms(1) by (simp add: cache_ok_def)
  qed (use assms(2) in auto)
  ultimately show ?thesis using assms(1) by (simp add: cache_ok_def)
qed

lemma set_get:
  "cache_get u (cache_set w now r e c)
     = (if u = obj_id (c_heap c r) then Some r else cache_get u (evict c))"
  by (simp add: cache_set_eq Let_def cache_get_def)

interpretation rg: registry cache_ok "\<lambda>r c. r \<notin> set (all_refs c)" cache_get "cache_add w now e" for w now e
proof
  fix c :: cache and r u u'
  let ?c = "c\<lparr>c_heap := (c_heap c)(r := \<lparr>obj_id = u, obj_expires = None\<rparr>)\<rparr>"
  assume ok: "cache_ok c"
  {
    assume new: "r \<notin> set (all_refs c)" and none: "cache_get u c = None"
    have ok': "cache_ok ?c" by (rule alloc_ok [OF ok new])
    show "cache_ok (cache_add w now e r u c)" unfolding cache_add_def
      by (rule set_ok [OF ok']) (use new none in \<open>simp_all add: all_refs_def cache_get_def\<close>)
    show "cache_get u (cache_add w now e r u c) = Some r"
      by (simp add: cache_add_def set_get)
    show "u' \<noteq> u \<Longrightarrow> cache_get u' (cache_add w now e r u c) = None
        \<or> cache_get u' (cache_add w now e r u c) = cache_get u' c"
      using evict_get [OF ok', of u'] by (simp add: cache_add_def set_get) (simp add: cache_get_def)
  }
  show "cache_get u c = Some r \<Longrightarrow> cache_get u' c = Some r \<Longrightarrow> u = u'"
    using get_iff [OF ok] by simp
qed

lemma intern_obtain: "intern w now r u e c = rg.obtain_obj w now e r u c"
  by (simp add: intern_def rg.obtain_obj_def cache_add_def split: option.splits)

text \<open>The constructor of individuals gives one object per id. It finds the object that is cached under the
  id or caches the new one, the next call gives the same object, different ids give different
  objects, and the others that are still cached are the ones that were cached.\<close>

lemma intern_spec:
  assumes "cache_ok c" and "r \<notin> set (all_refs c)" and "intern w now r u e c = (x, c')"
  shows "x = (case cache_get u c of Some y \<Rightarrow> y | None \<Rightarrow> r)
    \<and> intern w' now' r' u e' c' = (x, c')
    \<and> (\<forall>u' y. u' \<noteq> u \<longrightarrow> cache_get u' c' = Some y \<longrightarrow> cache_get u' c = Some y \<and> y \<noteq> x)"
proof (intro conjI)
  note int = assms(3) [unfolded intern_obtain]
  show "x = (case cache_get u c of Some y \<Rightarrow> y | None \<Rightarrow> r)"
    using assms(3) by (simp add: intern_def split: option.splits)
  show "intern w' now' r' u e' c' = (x, c')"
    using rg.obtain_found [OF assms(1,2), of u w now e] int by (simp add: intern_def)
  show "\<forall>u' y. u' \<noteq> u \<longrightarrow> cache_get u' c' = Some y \<longrightarrow> cache_get u' c = Some y \<and> y \<noteq> x"
    using rg.obtain_others [OF assms(1,2) int] by blast
qed

lemma intern_spec_witness:
  "fst (intern True 9 1 ''d:b'' None (snd (intern True 9 0 ''d:a'' None (empty_cache (\<lambda>_. \<lparr>obj_id = [], obj_expires = None\<rparr>))))) = 1"
proof -
  let ?h = "\<lambda>_. \<lparr>obj_id = [], obj_expires = None\<rparr>"
  obtain x c' where i: "intern True 9 0 ''d:a'' None (empty_cache ?h) = (x, c')" by fastforce
  have ok: "cache_ok c'" using rg.obtain_ok [OF empty_ok [of ?h], of 0 True 9 None "''d:a''"] i
    by (simp add: intern_obtain empty_cache_def all_refs_def)
  have new: "1 \<notin> set (all_refs c')" and none: "cache_get ''d:b'' c' = None" using i
    by (auto simp: intern_def cache_get_def empty_cache_def cache_set_def evict_def expire_at_def all_refs_def Let_def)
  obtain y c'' where "intern True 9 1 ''d:b'' None c' = (y, c'')" by fastforce
  from intern_spec [OF ok new this] this i none show ?thesis by simp
qed

section \<open>Reachable caches\<close>

inductive cache_run :: "cache \<Rightarrow> bool" where
  run_start: "cache_run (empty_cache h)"
| run_intern: "cache_run c \<Longrightarrow> r \<notin> set (all_refs c) \<Longrightarrow> intern w now r u e c = (x, c') \<Longrightarrow> cache_run c'"
| run_forget: "cache_run c \<Longrightarrow> forget w u c = Some c' \<Longrightarrow> cache_run c'"
| run_clear: "cache_run c \<Longrightarrow> cache_run (cache_clear w c)"

lemma forget_ok:
  assumes "cache_ok c"
  obtains c' where "forget w u c = Some c'" and "cache_ok c'"
  using assms remove_ok [of c u w] by (cases "cache_get u c = None") (auto simp: forget_def)

lemma run_ok: "cache_run c \<Longrightarrow> cache_ok c"
proof (induction rule: cache_run.induct)
  case (run_intern c r w now u e x c')
  then show ?case using rg.obtain_ok [of c r w now e u] by (simp add: intern_obtain)
next
  case (run_forget c w u c')
  then show ?case using forget_ok [of c w u] by auto
qed (simp_all add: empty_ok clear_ok)



section \<open>The limit\<close>

lemma evict_count:
  assumes ok: "cache_ok c" and "0 < c_delta c"
  shows "c_count (evict c) + 1 \<le> max (c_limit c) (1 + int (length (expire_at (hd (expire_keys c)) c)))"
proof (cases "c_count c \<ge> c_limit c")
  case False
  then show ?thesis by (simp add: evict_def)
next
  case True
  let ?k = "hd (expire_keys c)"
  note f = evict_facts [OF ok]
  from f(4) [OF True] consider "\<forall>k. k \<noteq> ?k \<longrightarrow> expire_at k (evict c) = []" | "c_limit c - c_count (evict c) \<ge> c_delta c"
    by blast
  then show ?thesis
  proof cases
    case 1
    have "set (all_refs (evict c)) \<subseteq> set (expire_at ?k c)"
    proof
      fix x assume "x \<in> set (all_refs (evict c))"
      then obtain k where k: "x \<in> set (expire_at k (evict c))" using refs_iff [OF f(1)] by auto
      then have "k = ?k" using 1 by (cases "k = ?k") auto
      then show "x \<in> set (expire_at ?k c)" using k f(3) by simp
    qed
    moreover have "distinct (all_refs (evict c))" using f(1) by (simp add: cache_ok_def stored_def)
    ultimately have "length (all_refs (evict c)) \<le> length (expire_at ?k c)"
      using card_mono [of "set (expire_at ?k c)" "set (all_refs (evict c))"] card_length [of "expire_at ?k c"]
      by (simp add: distinct_card)
    then show ?thesis using f(1) by (simp add: cache_ok_def)
  next
    case 2
    then show ?thesis using assms(2) by simp
  qed
qed

text \<open>A new object never takes the cache above its limit, unless the objects of the first key (those of
  the ontology) alone fill it. These are never evicted, and nothing is evicted below the limit.\<close>

lemma cache_bounded:
  fixes w :: bool and now :: int and e :: "int option"
  assumes "cache_ok c" and "r \<notin> set (all_refs c)" and "cache_get (obj_id (c_heap c r)) c = None" and "0 < c_delta c"
  defines "c' \<equiv> cache_set w now r e c" and "first \<equiv> hd (expire_keys c)"
  shows "c_count c' \<le> max (c_limit c) (1 + int (length (expire_at first c)))
    \<and> (u \<noteq> obj_id (c_heap c r) \<and> (c_count c < c_limit c \<or> obj_expires (c_heap c x) = Some first)
          \<and> cache_get u c = Some x \<longrightarrow> cache_get u c' = Some x)"
proof (intro conjI impI)
  show "c_count c' \<le> max (c_limit c) (1 + int (length (expire_at first c)))"
    using evict_count [OF assms(1,4)] by (simp add: c'_def first_def cache_set_eq Let_def)
  assume "u \<noteq> obj_id (c_heap c r) \<and> (c_count c < c_limit c \<or> obj_expires (c_heap c x) = Some first)
      \<and> cache_get u c = Some x"
  then have u: "u \<noteq> obj_id (c_heap c r)" and keep: "c_count c < c_limit c \<or> obj_expires (c_heap c x) = Some first"
    and get: "cache_get u c = Some x" by blast+
  have "cache_get u (evict c) = Some x"
  proof (cases "c_count c < c_limit c")
    case True
    then show ?thesis using get by (simp add: evict_def)
  next
    case False
    note f = evict_facts [OF assms(1)]
    have x: "x \<in> set (all_refs c)" "obj_id (c_heap c x) = u" using get get_iff [OF assms(1)] by auto
    then obtain k where "x \<in> set (expire_at k c)" using refs_iff [OF assms(1)] by auto
    moreover have "k = first"
      using expire_at_expires [of c x k] assms(1) calculation keep False by (simp add: cache_ok_def)
    ultimately have "x \<in> set (all_refs (evict c))"
      using refs_iff [OF f(1), of x] f(3) [of first] unfolding first_def by metis
    then show ?thesis using get_iff [OF f(1)] x(2) f(2) by (simp add: shrunk_def)
  qed
  then show "cache_get u c' = Some x" using u by (simp add: c'_def set_get)
qed

lemma cache_bounded_witness:
  "c_count (cache_set True 9 0 None (empty_cache (\<lambda>_. \<lparr>obj_id = ''d:a'', obj_expires = None\<rparr>))) \<le> 20000"
  using cache_bounded [OF empty_ok [of "\<lambda>_. \<lparr>obj_id = ''d:a'', obj_expires = None\<rparr>"], of 0 True 9 None]
  by (simp add: empty_cache_def all_refs_def cache_get_def expire_at_def)

section \<open>Renaming\<close>

lemma update_same: "map_of al k = Some v \<Longrightarrow> AList.update k v al = al"
  by (induction al) (auto split: if_splits)

text \<open>A new id for a cached object leaves the object in its list twice while the counter counts it once: the
  removal compares the ids of the objects with the old id, but the object has the new one
  already. The cache no longer satisfies its invariant.\<close>

lemma set_id_lists_twice:
  assumes ok: "cache_ok c" and get: "cache_get (obj_id (c_heap c r)) c = Some r"
    and "obj_id (c_heap c r) \<noteq> []" and u: "u \<noteq> obj_id (c_heap c r)" and room: "c_count c < c_limit c"
  obtains c' where "set_id w now r e u c = Some c'" and "cache_get u c' = Some r" and "c_count c' = c_count c"
    and "length (all_refs c') = length (all_refs c) + 1" and "\<not> cache_ok c'"
proof -
  let ?p = "obj_id (c_heap c r)"
  let ?c = "c\<lparr>c_heap := (c_heap c)(r := (c_heap c r)\<lparr>obj_id := u\<rparr>)\<rparr>"
  have r: "r \<in> set (all_refs c)" using get get_iff [OF ok] by simp
  then obtain k where k: "r \<in> set (expire_at k c)" using refs_iff [OF ok] by auto
  have l: "listed c" using ok by (simp add: cache_ok_def)
  obtain rs where rs: "map_of (c_expire c) k = Some rs" "expire_at k c = rs"
    using k by (cases "map_of (c_expire c) k") (auto simp: expire_at_def)
  have exp: "obj_expires (c_heap c r) = Some k" by (rule expire_at_expires [OF l k])
  have inj: "inj_on (\<lambda>r. obj_id (c_heap c r)) (set (all_refs c))" using ok by (simp add: cache_ok_def stored_def)
  have all: "filter (\<lambda>x. obj_id (c_heap ?c x) \<noteq> ?p) rs = rs"
  proof (rule filter_True, rule ballI)
    fix x assume "x \<in> set rs"
    then have x: "x \<in> set (all_refs c)" using refs_iff [OF ok] rs(2) by auto
    show "obj_id (c_heap ?c x) \<noteq> ?p" using inj_on_eq_iff [OF inj x r] u by auto
  qed
  have "rs \<noteq> []" using k rs(2) by auto
  then have "put_expire k rs ?c = ?c" by (simp add: put_expire_def update_same [OF rs(1)])
  then have rem: "cache_remove w ?p ?c = Some (?c\<lparr>c_count := c_count c - 1,
      c_subs := c_subs c @ (if w then [Unsubscribe ?p] else []), c_storage := odel ?p (c_storage c)\<rparr>)" (is "_ = Some ?d")
    using get exp rs(1) all by (simp add: cache_remove_def cache_get_def)
  define c' where "c' = cache_set w now r e ?d"
  define k' where "k' = (case e of Some x \<Rightarrow> x | None \<Rightarrow> now)"
  have ev: "evict ?d = ?d" using room by (simp add: evict_def)
  have c': "c' = (put_expire k' (expire_at k' ?d @ [r]) ?d)
       \<lparr>c_heap := (c_heap ?d)(r := (c_heap ?d r)\<lparr>obj_expires := Some k'\<rparr>),
        c_storage := oset u r (c_storage ?d), c_count := c_count c,
        c_subs := c_subs ?d @ (if w \<and> k' \<noteq> 1 then [Subscribe u] else [])\<rparr>"
    unfolding c'_def cache_set_eq Let_def ev k'_def by simp
  have d: "distinct (map fst (c_expire ?d))" using l by (simp add: listed_def)
  have "mset (all_refs c') = mset (all_refs ?d) + {#r#}"
    using put_refs [OF d, of k' "expire_at k' ?d @ [r]"] expire_at_split [OF d, of k'] unfolding c'
    by (simp add: all_refs_def)
  then have len: "length (all_refs c') = length (all_refs c) + 1"
    using arg_cong [of _ _ size] by (fastforce simp: all_refs_def size_mset [symmetric] simp del: size_mset)
  have cnt: "c_count c' = c_count c" by (simp add: c')
  have "\<not> cache_ok c'" using len cnt ok by (simp add: cache_ok_def)
  moreover have "set_id w now r e u c = Some c'"
    using assms(3) get rem by (simp add: set_id_def Let_def cache_get_def c'_def)
  moreover have "cache_get u c' = Some r" by (simp add: c' cache_get_def)
  ultimately show ?thesis using that len cnt by blast
qed

lemma set_id_lists_twice_witness:
  "\<exists>c'. set_id True 9 0 None ''d:b'' (cache_add True 8 None 0 ''d:a'' (empty_cache (\<lambda>_. \<lparr>obj_id = [], obj_expires = None\<rparr>))) = Some c'
     \<and> \<not> cache_ok c'"
proof -
  let ?h = "\<lambda>_. \<lparr>obj_id = [], obj_expires = None\<rparr> :: cached_obj"
  let ?c = "cache_add True 8 None 0 ''d:a'' (empty_cache ?h)"
  have ok: "cache_ok ?c" by (rule rg.add_ok [OF empty_ok]) (simp_all add: empty_cache_def all_refs_def cache_get_def)
  have i: "obj_id (c_heap ?c 0) = ''d:a''" by (simp add: cache_add_def cache_set_eq Let_def empty_cache_def)
  have g: "cache_get (obj_id (c_heap ?c 0)) ?c = Some 0" unfolding i by (simp add: cache_add_def set_get)
  have n: "c_count ?c < c_limit ?c" by (simp add: cache_add_def cache_set_eq Let_def empty_cache_def evict_def)
  show ?thesis
    by (rule set_id_lists_twice [OF ok g _ _ n, of "''d:b''" True 9 None]) (auto simp: i)
qed

end
