(* ===== verification/Ontology_Model.thy ===== *)
theory Ontology_Model
  imports Common_Util Js_Json
begin

text \<open>
  The ontology in the browser and in the script host (\<^verbatim>\<open>public/js/common/ontology_model.js\<close>): the
  sorting of the ontology's individuals by their type, the tree of classes with their properties
  and specifications, and the queries along the superclasses. Keys of the tables are URIs; the
  key of a missing id is the text \<^verbatim>\<open>undefined\<close>, as in the code.
\<close>

section \<open>The state\<close>

record class_node =
  superClasses :: "string list"
  node_props :: "string list"
  node_specs :: "string obj"

datatype template = Spec individual | Template jdata

record onto =
  ontologies :: "individual obj"
  o_datatypes :: "individual obj"
  classes :: "individual obj"
  o_props :: "individual obj"
  specifications :: "individual obj"
  models :: "individual obj"
  classTree :: "class_node obj"
  templates :: "template list obj"

definition empty_onto :: onto where
  "empty_onto =
     \<lparr>ontologies = [], o_datatypes = [], classes = [], o_props = [], specifications = [], models = [],
      classTree = [], templates = []\<rparr>"

section \<open>Sorting the individuals\<close>

text \<open>\<open>individual.properties[p][0].data\<close>; \<open>None\<close> is the TypeError.\<close>

definition first_data :: "individual \<Rightarrow> string \<Rightarrow> jdata option" where
  "first_data i p = (case pget i p of Some (v # _) \<Rightarrow> Some (vdata v) | _ \<Rightarrow> None)"

definition key_of :: "jdata \<Rightarrow> string" where
  "key_of d = js_str iso_date d"

definition allocate :: "onto \<Rightarrow> individual \<Rightarrow> onto option" where
  "allocate s i =
     (case first_data i ''rdf:type'' of
        None \<Rightarrow> None
      | Some t \<Rightarrow>
          (if t \<in> {DStr ''rdfs:Class'', DStr ''owl:Class''}
           then Some (s\<lparr>classes := oset (uri i) i (classes s)\<rparr>)
           else if t \<in> {DStr ''rdf:Property'', DStr ''owl:DatatypeProperty'', DStr ''owl:ObjectProperty'',
                        DStr ''owl:OntologyProperty'', DStr ''owl:AnnotationProperty''}
           then Some (s\<lparr>o_props := oset (uri i) i (o_props s)\<rparr>)
           else if t \<in> {DStr ''v-ui:PropertySpecification'', DStr ''v-ui:DatatypePropertySpecification'',
                        DStr ''v-ui:ObjectPropertySpecification''}
           then Some (s\<lparr>specifications := oset (uri i) i (specifications s)\<rparr>)
           else if t = DStr ''owl:Ontology'' then Some (s\<lparr>ontologies := oset (uri i) i (ontologies s)\<rparr>)
           else if t = DStr ''rdfs:Datatype'' then Some (s\<lparr>o_datatypes := oset (uri i) i (o_datatypes s)\<rparr>)
           else if t = DStr ''v-ui:ClassModel'' then Some (s\<lparr>models := oset (uri i) i (models s)\<rparr>)
           else if t = DStr ''v-ui:TemplateSpecification''
           then (case first_data i ''v-ui:forClass'' of
                   None \<Rightarrow> None
                 | Some c \<Rightarrow>
                     Some (s\<lparr>templates :=
                       oset (key_of c) ((case oget (templates s) (key_of c) of None \<Rightarrow> [] | Some ts \<Rightarrow> ts) @ [Spec i])
                         (templates s)\<rparr>))
           else Some s))"

fun allocate_all :: "onto \<Rightarrow> individual list \<Rightarrow> onto option" where
  "allocate_all s [] = Some s"
| "allocate_all s (i # is) = (case allocate s i of None \<Rightarrow> None | Some s' \<Rightarrow> allocate_all s' is)"

section \<open>The tree of classes\<close>

text \<open>
  \<open>individual[p]\<close>, the ids of the values: a property of the ontology has a getter in the prototype
  of individuals, another one is \<open>undefined\<close> (\<open>None\<close>). A value that is no individual has no id.
\<close>

definition id_of :: "val \<Rightarrow> string" where
  "id_of v = (if vtype v = TUri then key_of (vdata v) else ''undefined'')"

definition prop_ids :: "onto \<Rightarrow> individual \<Rightarrow> string \<Rightarrow> string list option" where
  "prop_ids s i p =
     (if oget (o_props s) p = None then None
      else Some (case pget i p of None \<Rightarrow> [] | Some vs \<Rightarrow> map id_of vs))"

definition new_node :: class_node where
  "new_node = \<lparr>superClasses = [], node_props = [], node_specs = []\<rparr>"

text \<open>
  A class without a superclass gets \<open>rdfs:Resource\<close>, if that is known; without a getter for
  \<open>rdfs:subClassOf\<close> the assignment makes a plain property, whose only element may be \<open>undefined\<close>.
  \<open>None\<close> is the TypeError, which ends the processing.
\<close>

definition super_of :: "onto \<Rightarrow> individual \<Rightarrow> string list option" where
  "super_of s c =
     (case pget c ''rdfs:subClassOf'' of
        Some (v # vs) \<Rightarrow> prop_ids s c ''rdfs:subClassOf''
      | _ \<Rightarrow>
          (if oget (classes s) ''rdfs:Resource'' \<noteq> None then Some [''rdfs:Resource'']
           else if oget (o_props s) ''rdfs:subClassOf'' \<noteq> None then Some [] else None))"

text \<open>The getter's assignment also changes the individual of the class.\<close>

definition root_class :: "onto \<Rightarrow> individual \<Rightarrow> individual" where
  "root_class s c =
     (if pget c ''rdfs:subClassOf'' \<in> {None, Some []} \<and> oget (classes s) ''rdfs:Resource'' \<noteq> None
         \<and> oget (o_props s) ''rdfs:subClassOf'' \<noteq> None
      then set_prop ''rdfs:subClassOf'' (newUri (DStr ''rdfs:Resource'')) c else c)"

definition add_class :: "onto \<Rightarrow> string \<Rightarrow> individual \<Rightarrow> onto option" where
  "add_class s u c =
     (let node = (case oget (classTree s) (uri c) of None \<Rightarrow> new_node | Some n \<Rightarrow> n);
          s1 = s\<lparr>classTree := oset (uri c) node (classTree s)\<rparr>
      in if uri c = ''rdfs:Resource'' then Some s1
         else (case super_of s1 c of
                 None \<Rightarrow> None
               | Some us \<Rightarrow>
                   Some (s1\<lparr>classes := oset u (root_class s1 c) (classes s1),
                            classTree := oset (uri c) (node\<lparr>superClasses := superClasses node @ us\<rparr>) (classTree s1)\<rparr>)))"

fun add_classes :: "onto \<Rightarrow> (string \<times> individual) list \<Rightarrow> onto option" where
  "add_classes s [] = Some s"
| "add_classes s ((u, c) # cs) = (case add_class s u c of None \<Rightarrow> None | Some s' \<Rightarrow> add_classes s' cs)"

text \<open>A class that is not in the tree is a TypeError, caught per property: the rest of its domains is lost.\<close>

fun add_domains :: "string \<Rightarrow> string list \<Rightarrow> onto \<Rightarrow> onto" where
  "add_domains p [] s = s"
| "add_domains p (c # cs) s =
     (case oget (classTree s) c of
        None \<Rightarrow> s
      | Some n \<Rightarrow> add_domains p cs (s\<lparr>classTree := oset c (n\<lparr>node_props := node_props n @ [p]\<rparr>) (classTree s)\<rparr>))"

definition add_property :: "onto \<Rightarrow> individual \<Rightarrow> onto" where
  "add_property s p =
     (case prop_ids s p ''rdfs:domain'' of None \<Rightarrow> s | Some cs \<Rightarrow> add_domains (uri p) cs s)"

text \<open>The specifications of the properties for one class; \<open>False\<close> after the TypeError.\<close>

fun add_for :: "string \<Rightarrow> string \<Rightarrow> string list \<Rightarrow> onto \<Rightarrow> onto \<times> bool" where
  "add_for spec c [] s = (s, True)"
| "add_for spec c (p # ps) s =
     (case oget (classTree s) c of
        None \<Rightarrow> (s, False)
      | Some n \<Rightarrow> add_for spec c ps (s\<lparr>classTree := oset c (n\<lparr>node_specs := oset p spec (node_specs n)\<rparr>) (classTree s)\<rparr>))"

fun add_for_classes :: "string \<Rightarrow> string list \<Rightarrow> string list option \<Rightarrow> onto \<Rightarrow> onto" where
  "add_for_classes spec [] ps s = s"
| "add_for_classes spec (c # cs) None s = s"
| "add_for_classes spec (c # cs) (Some ps) s =
     (case add_for spec c ps s of (s', ok) \<Rightarrow> if ok then add_for_classes spec cs (Some ps) s' else s')"

definition add_specification :: "onto \<Rightarrow> individual \<Rightarrow> onto" where
  "add_specification s sp =
     (case prop_ids s sp ''v-ui:forClass'' of
        None \<Rightarrow> s
      | Some cs \<Rightarrow> add_for_classes (uri sp) cs (prop_ids s sp ''v-ui:forProperty'') s)"

section \<open>Templates\<close>

text \<open>
  The comparator is no order when a priority is missing. A priority that is there has a value.
\<close>

definition priority :: "individual \<Rightarrow> jdata option" where
  "priority i = first_data i ''v-s:loadPriority''"

definition after :: "individual \<Rightarrow> individual \<Rightarrow> bool" where
  "after cur prev =
     (case (priority cur, priority prev) of
        (None, _) \<Rightarrow> True
      | (Some a, None) \<Rightarrow> False
      | (Some a, Some b) \<Rightarrow>
          (case (to_number a, to_number b) of (Some x, Some y) \<Rightarrow> num_less y x | _ \<Rightarrow> False))"

definition sort_templates :: "individual list \<Rightarrow> individual list" where
  "sort_templates xs = js_sort after xs"

fun spec_inds :: "template list \<Rightarrow> individual list" where
  "spec_inds [] = []"
| "spec_inds (Spec i # ts) = i # spec_inds ts"
| "spec_inds (Template d # ts) = spec_inds ts"

text \<open>
  \<open>sort\<close> works in place before \<open>map\<close> looks for the templates: when one has none (a TypeError,
  caught), the sorted specifications stay.
\<close>

definition resolve_templates :: "template list \<Rightarrow> template list" where
  "resolve_templates ts =
     (let xs = sort_templates (spec_inds ts)
      in if list_all (\<lambda>i. first_data i ''v-ui:defaultTemplate'' \<noteq> None) xs
         then map (\<lambda>i. Template (the (first_data i ''v-ui:defaultTemplate''))) xs
         else map Spec xs)"

definition getClassTemplate :: "onto \<Rightarrow> string \<Rightarrow> template option" where
  "getClassTemplate s u = (case oget (templates s) u of Some (t # _) \<Rightarrow> Some t | _ \<Rightarrow> None)"

section \<open>The whole\<close>

text \<open>An individual without an id and properties is skipped.\<close>

definition processOntology :: "individual list \<Rightarrow> onto option" where
  "processOntology js =
     (case allocate_all empty_onto (filter (\<lambda>i. i \<noteq> \<lparr>uri = [], props = []\<rparr>) js) of
        None \<Rightarrow> None
      | Some s \<Rightarrow>
          (case add_classes s (classes s) of
             None \<Rightarrow> None
           | Some s1 \<Rightarrow>
               (let s2 = foldl (\<lambda>s (u, p). add_property s p) s1 (o_props s1);
                    s3 = foldl (\<lambda>s (u, sp). add_specification s sp) s2 (specifications s2)
                in Some (s3\<lparr>templates := map (\<lambda>(u, ts). (u, resolve_templates ts)) (templates s3)\<rparr>))))"

section \<open>Queries along the superclasses\<close>

text \<open>The first argument is the depth of the stack; \<open>None\<close> is the RangeError of a cycle.\<close>

fun all_some :: "'a option list \<Rightarrow> 'a list option" where
  "all_some [] = Some []"
| "all_some (x # xs) =
     (case (x, all_some xs) of (Some a, Some as) \<Rightarrow> Some (a # as) | _ \<Rightarrow> None)"

fun get_props :: "nat \<Rightarrow> class_node obj \<Rightarrow> string \<Rightarrow> string list option" where
  "get_props 0 tree u = None"
| "get_props (Suc n) tree u =
     (case oget tree u of
        None \<Rightarrow> get_props n tree ''rdfs:Resource''
      | Some c \<Rightarrow> map_option (\<lambda>pss. node_props c @ concat pss) (all_some (map (get_props n tree) (superClasses c))))"

definition getClassProperties :: "nat \<Rightarrow> onto \<Rightarrow> string \<Rightarrow> string list option" where
  "getClassProperties n s u = map_option unique (get_props n (classTree s) u)"

text \<open>
  The specifications of the superclasses are entered into the class itself: \<open>specs\<close> is the
  object of the tree.
\<close>

definition inherit :: "string obj \<Rightarrow> string obj \<Rightarrow> string obj" where
  "inherit specs super =
     foldl (\<lambda>sp (p, x). case oget sp p of None \<Rightarrow> oset p x sp | Some [] \<Rightarrow> oset p x sp | Some y \<Rightarrow> sp) specs super"

definition put_specs :: "string \<Rightarrow> string obj \<Rightarrow> class_node obj \<Rightarrow> class_node obj" where
  "put_specs u sp tree =
     (case oget tree u of None \<Rightarrow> tree | Some c \<Rightarrow> oset u (c\<lparr>node_specs := sp\<rparr>) tree)"

definition specs_at :: "string \<Rightarrow> class_node obj \<Rightarrow> string obj" where
  "specs_at u tree = (case oget tree u of None \<Rightarrow> [] | Some c \<Rightarrow> node_specs c)"

text \<open>The result is the id of the class whose object comes back (the code returns the object itself).\<close>

fun get_specs :: "nat \<Rightarrow> string \<Rightarrow> class_node obj \<Rightarrow> (string \<times> class_node obj) option"
  and get_all_specs :: "nat \<Rightarrow> string list \<Rightarrow> class_node obj \<Rightarrow> (string list \<times> class_node obj) option" where
  "get_specs 0 u tree = None"
| "get_specs (Suc n) u tree =
     (case oget tree u of
        None \<Rightarrow> get_specs n ''rdfs:Resource'' tree
      | Some c \<Rightarrow>
          (case get_all_specs n (superClasses c) tree of
             None \<Rightarrow> None
           | Some (us, tree1) \<Rightarrow>
               Some (u, foldl (\<lambda>t x. put_specs u (inherit (specs_at u t) (specs_at x t)) t) tree1 us)))"
| "get_all_specs n [] tree = Some ([], tree)"
| "get_all_specs n (u # us) tree =
     (case get_specs n u tree of
        None \<Rightarrow> None
      | Some (x, tree1) \<Rightarrow>
          (case get_all_specs n us tree1 of None \<Rightarrow> None | Some (xs, tree2) \<Rightarrow> Some (x # xs, tree2)))"

definition getClassSpecifications :: "nat \<Rightarrow> onto \<Rightarrow> string \<Rightarrow> (string obj \<times> onto) option" where
  "getClassSpecifications n s u =
     map_option (\<lambda>(x, tree). (specs_at x tree, s\<lparr>classTree := tree\<rparr>)) (get_specs n u (classTree s))"

end
