(* ===== verification/Ontology_Props.thy ===== *)
theory Ontology_Props
  imports Ontology_Model
begin

text \<open>
  The queries along the superclasses end on an acyclic tree of classes and give what the
  superclasses hold; entering inherited specifications into the tree changes no answer. The
  tree that \<open>processOntology\<close> builds has exactly the classes of the ontology.
\<close>

section \<open>Superclasses in the tree\<close>

text \<open>A class that is not in the tree stands for \<open>rdfs:Resource\<close>.\<close>

definition shown :: "class_node obj \<Rightarrow> string \<Rightarrow> string" where
  "shown tree u = (if oget tree u = None then ''rdfs:Resource'' else u)"

definition up :: "class_node obj \<Rightarrow> (string \<times> string) set" where
  "up tree = {(u, shown tree x) | u x c. oget tree u = Some c \<and> x \<in> set (superClasses c)}"

text \<open>Acyclic: the superclasses have a smaller rank.\<close>

definition ranked :: "class_node obj \<Rightarrow> (string \<Rightarrow> nat) \<Rightarrow> bool" where
  "ranked tree rank \<longleftrightarrow>
     oget tree ''rdfs:Resource'' \<noteq> None \<and> (\<forall>(u, v) \<in> up tree. rank v < rank u)"

definition depth :: "class_node obj \<Rightarrow> (string \<Rightarrow> nat) \<Rightarrow> string \<Rightarrow> nat" where
  "depth tree rank u = 2 * rank (shown tree u) + (if oget tree u = None then 2 else 1)"

lemma depth_super:
  assumes "ranked tree rank" and "oget tree u = Some c" and "x \<in> set (superClasses c)" and "depth tree rank u \<le> Suc n"
  shows "depth tree rank x \<le> n"
proof -
  have "(u, shown tree x) \<in> up tree" using assms(2,3) by (auto simp: up_def)
  then have "rank (shown tree x) < rank u" using assms(1) by (auto simp: ranked_def)
  then show ?thesis using assms(2,4) by (auto simp: depth_def shown_def)
qed

lemma depth_resource:
  assumes "ranked tree rank" and "oget tree u = None" and "depth tree rank u \<le> Suc n"
  shows "depth tree rank ''rdfs:Resource'' \<le> n"
  using assms by (auto simp: depth_def shown_def ranked_def)

lemma depth_pos: "0 < depth tree rank u"
  by (simp add: depth_def)

section \<open>Properties of a class\<close>

lemma all_some_map:
  "(\<And>x. x \<in> set xs \<Longrightarrow> f x = Some (g x)) \<Longrightarrow> all_some (map f xs) = Some (map g xs)"
  by (induction xs) auto

definition props_at :: "class_node obj \<Rightarrow> string \<Rightarrow> string list" where
  "props_at tree u = (case oget tree u of None \<Rightarrow> [] | Some c \<Rightarrow> node_props c)"

lemma up_step:
  "oget tree u = Some c \<Longrightarrow>
   (u, v) \<in> (up tree)\<^sup>* \<longleftrightarrow> v = u \<or> (\<exists>x \<in> set (superClasses c). (shown tree x, v) \<in> (up tree)\<^sup>*)"
proof -
  assume "oget tree u = Some c"
  then have "(u, w) \<in> up tree \<longleftrightarrow> (\<exists>x \<in> set (superClasses c). w = shown tree x)" for w by (auto simp: up_def)
  moreover have "(u, v) \<in> (up tree)\<^sup>* \<longleftrightarrow> v = u \<or> (\<exists>w. (u, w) \<in> up tree \<and> (w, v) \<in> (up tree)\<^sup>*)"
    by (metis converse_rtranclE converse_rtrancl_into_rtrancl rtrancl.rtrancl_refl)
  ultimately show ?thesis by auto
qed

lemma get_props_spec:
  assumes "ranked tree rank" and "depth tree rank u \<le> n"
  shows "\<exists>ps. get_props n tree u = Some ps
    \<and> set ps = (\<Union>v \<in> {v. (shown tree u, v) \<in> (up tree)\<^sup>*}. set (props_at tree v))"
  using assms(2)
proof (induction n arbitrary: u)
  case 0
  then show ?case using depth_pos [of tree rank u] by simp
next
  case (Suc n)
  show ?case
  proof (cases "oget tree u")
    case None
    have "shown tree ''rdfs:Resource'' = shown tree u" using None by (simp add: shown_def)
    with Suc.IH [OF depth_resource [OF assms(1) None Suc.prems]] None show ?thesis by simp
  next
    case (Some c)
    let ?S = "\<lambda>x. \<Union>v \<in> {v. (shown tree x, v) \<in> (up tree)\<^sup>*}. set (props_at tree v)"
    have "\<forall>x \<in> set (superClasses c). \<exists>ps. get_props n tree x = Some ps \<and> set ps = ?S x"
      using Suc.IH depth_super [OF assms(1) Some _ Suc.prems] by blast
    then obtain f where f: "\<And>x. x \<in> set (superClasses c) \<Longrightarrow> get_props n tree x = Some (f x) \<and> set (f x) = ?S x"
      by metis
    have "get_props (Suc n) tree u = Some (node_props c @ concat (map f (superClasses c)))"
      using Some f all_some_map [of "superClasses c" "get_props n tree" f] by simp
    moreover have "set (node_props c @ concat (map f (superClasses c))) = ?S u"
      using f by (auto simp: up_step [OF Some] shown_def [of tree u] Some props_at_def)
    ultimately show ?thesis by blast
  qed
qed

text \<open>\<^verbatim>\<open>getClassProperties\<close> ends on an acyclic tree of classes (a stack of twice the height
  is enough) and gives, each once, the properties of the class and of all its superclasses.\<close>

lemma class_properties_spec:
  assumes "ranked (classTree s) rank" and "depth (classTree s) rank u \<le> n"
  obtains ps where "getClassProperties n s u = Some ps" and "distinct ps"
    and "set ps = (\<Union>v \<in> {v. (shown (classTree s) u, v) \<in> (up (classTree s))\<^sup>*}. set (props_at (classTree s) v)) - set proto_names"
  using get_props_spec [OF assms]
  by (auto simp: getClassProperties_def unique_def unique_loop_set unique_loop_distinct)

definition tree_ex :: "class_node obj" where
  "tree_ex =
     [(''rdfs:Resource'', \<lparr>superClasses = [], node_props = [''rdfs:label''], node_specs = [(''rdfs:label'', ''s:label'')]\<rparr>),
      (''v:a'', \<lparr>superClasses = [''rdfs:Resource''], node_props = [''v:p''], node_specs = [(''v:p'', ''s:p'')]\<rparr>)]"

lemma tree_ex_ranked: "ranked tree_ex (\<lambda>u. if u = ''v:a'' then 1 else 0)"
  by (auto simp: ranked_def up_def tree_ex_def shown_def split: if_splits)

lemma class_properties_spec_witness:
  "\<exists>ps. getClassProperties 3 (empty_onto\<lparr>classTree := tree_ex\<rparr>) ''v:a'' = Some ps \<and> ''v:p'' \<in> set ps"
proof -
  have 1: "ranked (classTree (empty_onto\<lparr>classTree := tree_ex\<rparr>)) (\<lambda>u. if u = ''v:a'' then 1 else 0)"
    using tree_ex_ranked by simp
  have 2: "depth (classTree (empty_onto\<lparr>classTree := tree_ex\<rparr>)) (\<lambda>u. if u = ''v:a'' then 1 else 0) ''v:a'' \<le> 3"
    by (simp add: depth_def shown_def tree_ex_def)
  obtain ps where ps: "getClassProperties 3 (empty_onto\<lparr>classTree := tree_ex\<rparr>) ''v:a'' = Some ps"
    "set ps = (\<Union>v \<in> {v. (shown tree_ex ''v:a'', v) \<in> (up tree_ex)\<^sup>*}. set (props_at tree_ex v)) - set proto_names"
    by (rule class_properties_spec [OF 1 2]) simp
  have "shown tree_ex ''v:a'' = ''v:a''" and "''v:p'' \<in> set (props_at tree_ex ''v:a'')" and "''v:p'' \<notin> set proto_names"
    by (simp_all add: shown_def tree_ex_def props_at_def proto_names_def)
  then have "''v:p'' \<in> set ps" unfolding ps(2) by auto
  with ps(1) show ?thesis by blast
qed

section \<open>Specifications of a class\<close>

text \<open>
  What a class should answer for a property: its own specification, or the answer of the first
  superclass that has one.
\<close>

fun first_some :: "'a option list \<Rightarrow> 'a option" where
  "first_some [] = None"
| "first_some (x # xs) = (case x of None \<Rightarrow> first_some xs | Some y \<Rightarrow> Some y)"

definition inherits :: "class_node obj \<Rightarrow> (string \<Rightarrow> string \<Rightarrow> string option) \<Rightarrow> bool" where
  "inherits tree sem \<longleftrightarrow>
     (\<forall>u c p. oget tree u = Some c \<longrightarrow>
        sem u p = (case oget (node_specs c) p of
                     Some y \<Rightarrow> Some y | None \<Rightarrow> first_some (map (\<lambda>x. sem (shown tree x) p) (superClasses c)))
        \<and> sem u p \<noteq> Some [])"

text \<open>A later state of the tree: the same classes, with some answers entered.\<close>

definition grown :: "(string \<Rightarrow> string \<Rightarrow> string option) \<Rightarrow> class_node obj \<Rightarrow> class_node obj \<Rightarrow> bool" where
  "grown sem tree t \<longleftrightarrow>
     (\<forall>u. (oget t u = None \<longleftrightarrow> oget tree u = None)
        \<and> (\<forall>c d. oget tree u = Some c \<longrightarrow> oget t u = Some d \<longrightarrow>
             superClasses d = superClasses c \<and> node_props d = node_props c
             \<and> (\<forall>p y. oget (node_specs c) p = Some y \<longrightarrow> oget (node_specs d) p = Some y)
             \<and> (\<forall>p y. oget (node_specs d) p = Some y \<longrightarrow> oget (node_specs c) p = Some y \<or> sem u p = Some y)))"

definition complete :: "(string \<Rightarrow> string \<Rightarrow> string option) \<Rightarrow> class_node obj \<Rightarrow> string \<Rightarrow> bool" where
  "complete sem t u \<longleftrightarrow> (\<forall>p. oget (specs_at u t) p = sem u p)"

lemma grown_node:
  assumes "grown sem tree t" and "oget t u = Some d"
  obtains c where "oget tree u = Some c" and "superClasses d = superClasses c"
    and "\<And>p y. oget (node_specs c) p = Some y \<Longrightarrow> oget (node_specs d) p = Some y"
    and "\<And>p y. oget (node_specs d) p = Some y \<Longrightarrow> oget (node_specs c) p = Some y \<or> sem u p = Some y"
proof (cases "oget tree u")
  case None
  then have "oget t u = None" using assms(1) unfolding grown_def by blast
  with assms(2) show ?thesis by simp
next
  case (Some c)
  show ?thesis by (rule that [OF Some]) (use assms Some in \<open>unfold grown_def, blast+\<close>)
qed

lemma grown_refl: "grown sem t t"
  by (auto simp: grown_def)

lemma grown_trans: "grown sem a b \<Longrightarrow> grown sem b c \<Longrightarrow> grown sem a c"
  unfolding grown_def by (smt (verit) option.exhaust)

lemma inherits_specs:
  assumes "inherits tree sem" and "grown sem tree t" and "oget (specs_at u t) p = Some y"
  shows "sem u p = Some y"
proof -
  from assms(3) obtain d where d: "oget t u = Some d" "oget (node_specs d) p = Some y"
    by (auto simp: specs_at_def split: option.splits)
  from grown_node [OF assms(2) d(1)] d(2)
  obtain c where c: "oget tree u = Some c" and "oget (node_specs c) p = Some y \<or> sem u p = Some y" by metis
  then show ?thesis using assms(1) c unfolding inherits_def by (metis option.simps(5))
qed

lemma inherits_known: "inherits tree sem \<Longrightarrow> oget tree u = Some c \<Longrightarrow> sem u p \<noteq> Some []"
  unfolding inherits_def by blast

lemma inherits_grown:
  assumes "inherits tree sem" and "grown sem tree t"
  shows "inherits t sem"
  unfolding inherits_def
proof (intro allI impI)
  fix u d p assume d: "oget t u = Some d"
  obtain c where c: "oget tree u = Some c" and s: "superClasses d = superClasses c"
    and keep: "\<And>p y. oget (node_specs c) p = Some y \<Longrightarrow> oget (node_specs d) p = Some y"
    by (rule grown_node [OF assms(2) d]) (rule that, assumption+)
  have sh: "shown t x = shown tree x" for x using assms(2) by (simp add: shown_def grown_def)
  have eq: "sem u p = (case oget (node_specs c) p of
      Some y \<Rightarrow> Some y | None \<Rightarrow> first_some (map (\<lambda>x. sem (shown tree x) p) (superClasses c)))"
    using assms(1) c unfolding inherits_def by blast
  have "sem u p = Some y" if "oget (node_specs d) p = Some y" for y
    using inherits_specs [OF assms] that d by (simp add: specs_at_def)
  then have "sem u p = (case oget (node_specs d) p of
      Some y \<Rightarrow> Some y | None \<Rightarrow> first_some (map (\<lambda>x. sem (shown t x) p) (superClasses d)))"
    using eq keep [of p] unfolding s sh by (cases "oget (node_specs d) p"; cases "oget (node_specs c) p") auto
  then show "sem u p = (case oget (node_specs d) p of
      Some y \<Rightarrow> Some y | None \<Rightarrow> first_some (map (\<lambda>x. sem (shown t x) p) (superClasses d))) \<and> sem u p \<noteq> Some []"
    using inherits_known [OF assms(1) c] by blast
qed

lemma complete_grown:
  assumes "inherits tree sem" and "grown sem tree t" and "grown sem t t'" and "complete sem t u"
  shows "complete sem t' u"
  unfolding complete_def
proof
  fix p
  show "oget (specs_at u t') p = sem u p"
  proof (cases "sem u p")
    case None
    then show ?thesis
      using inherits_specs [OF assms(1) grown_trans [OF assms(2,3)]] by (metis option.exhaust)
  next
    case (Some y)
    then have "oget (specs_at u t) p = Some y" using assms(4) by (simp add: complete_def)
    then have "oget (specs_at u t') p = Some y"
      using assms(3) unfolding grown_def specs_at_def by (auto split: option.splits)
    then show ?thesis using Some by simp
  qed
qed

lemma inherit_get:
  assumes "oget a p \<noteq> Some []" and "oget a p = None \<longrightarrow> oget b p \<noteq> Some []"
  shows "oget (inherit a b) p = (case oget a p of Some y \<Rightarrow> Some y | None \<Rightarrow> oget b p)"
  using assms
proof (induction b arbitrary: a)
  case Nil
  then show ?case by (simp add: inherit_def split: option.splits)
next
  case (Cons qx b)
  obtain q x where qx: "qx = (q, x)" by fastforce
  define a' where "a' = (case oget a q of None \<Rightarrow> oset q x a | Some [] \<Rightarrow> oset q x a | Some y \<Rightarrow> a)"
  have st: "inherit a (qx # b) = inherit a' b" by (simp add: inherit_def qx a'_def)
  have "oget a' p = (if q = p then (case oget a p of None \<Rightarrow> Some x | Some y \<Rightarrow> Some y) else oget a p)"
    using Cons.prems(1) by (auto simp: a'_def split: option.splits list.splits)
  then show ?case using Cons.IH [of a'] Cons.prems unfolding st
    by (auto simp: qx split: option.splits if_splits)
qed

lemma specs_at_put:
  "oget t u \<noteq> None \<Longrightarrow> specs_at v (put_specs u sp t) = (if v = u then sp else specs_at v t)"
  by (auto simp: specs_at_def put_specs_def split: option.splits)

lemma put_specs_get:
  "oget (put_specs u sp t) v = (if v = u then map_option (\<lambda>c. c\<lparr>node_specs := sp\<rparr>) (oget t v) else oget t v)"
  by (auto simp: put_specs_def split: option.splits)

lemma enter_all:
  assumes "oget t u = Some c" and "u \<notin> set xs" and "\<And>p. oget (node_specs c) p \<noteq> Some []"
    and "\<And>x. x \<in> set xs \<Longrightarrow> complete sem t x" and "\<And>x p. x \<in> set xs \<Longrightarrow> sem x p \<noteq> Some []"
  shows "\<exists>sp. oget (foldl (\<lambda>t x. put_specs u (inherit (specs_at u t) (specs_at x t)) t) t xs) u = Some (c\<lparr>node_specs := sp\<rparr>)
    \<and> (\<forall>p. oget sp p = first_some (oget (node_specs c) p # map (\<lambda>x. sem x p) xs))
    \<and> (\<forall>v. v \<noteq> u \<longrightarrow> oget (foldl (\<lambda>t x. put_specs u (inherit (specs_at u t) (specs_at x t)) t) t xs) v = oget t v)"
  using assms
proof (induction xs arbitrary: t c)
  case Nil
  then show ?case by (intro exI [of _ "node_specs c"]) (simp split: option.splits)
next
  case (Cons x xs)
  define t1 where "t1 = put_specs u (inherit (specs_at u t) (specs_at x t)) t"
  define c1 where "c1 = c\<lparr>node_specs := inherit (node_specs c) (specs_at x t)\<rparr>"
  have own: "specs_at u t = node_specs c" using Cons.prems(1) by (simp add: specs_at_def)
  have t1: "oget t1 v = (if v = u then Some c1 else oget t v)" for v
    using Cons.prems(1) by (simp add: t1_def c1_def put_specs_get own)
  have other: "oget (specs_at x t) p = sem x p" for p
    using Cons.prems(4) [of x] by (simp add: complete_def)
  have c1: "oget (node_specs c1) p = (case oget (node_specs c) p of Some y \<Rightarrow> Some y | None \<Rightarrow> sem x p)" for p
    using inherit_get [of "node_specs c" p "specs_at x t"] Cons.prems(3) [of p] Cons.prems(5) [of x p]
    by (simp add: c1_def other split: option.splits)
  have "oget (node_specs c1) p \<noteq> Some []" for p
    using Cons.prems(3) [of p] Cons.prems(5) [of x p] by (auto simp: c1 split: option.splits)
  moreover have "complete sem t1 y" if "y \<in> set xs" for y
    using Cons.prems(2,4) that t1 by (auto simp: complete_def specs_at_def)
  ultimately have ih: "\<exists>sp. oget (foldl (\<lambda>t x. put_specs u (inherit (specs_at u t) (specs_at x t)) t) t1 xs) u = Some (c1\<lparr>node_specs := sp\<rparr>)
    \<and> (\<forall>p. oget sp p = first_some (oget (node_specs c1) p # map (\<lambda>x. sem x p) xs))
    \<and> (\<forall>v. v \<noteq> u \<longrightarrow> oget (foldl (\<lambda>t x. put_specs u (inherit (specs_at u t) (specs_at x t)) t) t1 xs) v = oget t1 v)"
    by (intro Cons.IH) (use Cons.prems(2,5) t1 in auto)
  obtain sp where sp:
    "oget (foldl (\<lambda>t x. put_specs u (inherit (specs_at u t) (specs_at x t)) t) t1 xs) u = Some (c1\<lparr>node_specs := sp\<rparr>)"
    "\<And>p. oget sp p = first_some (oget (node_specs c1) p # map (\<lambda>x. sem x p) xs)"
    "\<And>v. v \<noteq> u \<Longrightarrow> oget (foldl (\<lambda>t x. put_specs u (inherit (specs_at u t) (specs_at x t)) t) t1 xs) v = oget t1 v"
    using ih by blast
  have "foldl (\<lambda>t x. put_specs u (inherit (specs_at u t) (specs_at x t)) t) t (x # xs)
      = foldl (\<lambda>t x. put_specs u (inherit (specs_at u t) (specs_at x t)) t) t1 xs" by (simp add: t1_def)
  then show ?case using sp t1
    by (intro exI [of _ sp]) (simp add: c1_def [symmetric] c1 split: option.splits, simp add: c1_def)
qed

lemma grown_same:
  assumes "grown sem t t'"
  shows "shown t' u = shown t u" and "ranked t' rank \<longleftrightarrow> ranked t rank" and "depth t' rank u = depth t rank u"
    and "up t' = up t"
proof -
  have n: "oget t' u = None \<longleftrightarrow> oget t u = None" for u using assms by (simp add: grown_def)
  show s: "shown t' u = shown t u" for u by (simp add: shown_def n)
  have "(\<exists>c. oget t' u = Some c \<and> x \<in> set (superClasses c)) \<longleftrightarrow> (\<exists>c. oget t u = Some c \<and> x \<in> set (superClasses c))" for u x
    using assms n [of u] unfolding grown_def by (metis option.exhaust option.inject)
  then show "up t' = up t" by (auto simp: up_def s)
  then show "ranked t' rank \<longleftrightarrow> ranked t rank" by (simp add: ranked_def n)
  show "depth t' rank u = depth t rank u" by (simp add: depth_def s n)
qed

lemma grown_one:
  assumes "oget t1 u = Some d" and "oget t2 u = Some (d\<lparr>node_specs := sp\<rparr>)" and "\<And>v. v \<noteq> u \<Longrightarrow> oget t2 v = oget t1 v"
    and "\<And>p y. oget (node_specs d) p = Some y \<Longrightarrow> oget sp p = Some y" and "\<And>p. oget sp p = sem u p"
  shows "grown sem t1 t2"
  unfolding grown_def
proof (rule allI)
  fix v
  show "(oget t2 v = None \<longleftrightarrow> oget t1 v = None)
      \<and> (\<forall>c d. oget t1 v = Some c \<longrightarrow> oget t2 v = Some d \<longrightarrow>
           superClasses d = superClasses c \<and> node_props d = node_props c
           \<and> (\<forall>p y. oget (node_specs c) p = Some y \<longrightarrow> oget (node_specs d) p = Some y)
           \<and> (\<forall>p y. oget (node_specs d) p = Some y \<longrightarrow> oget (node_specs c) p = Some y \<or> sem v p = Some y))"
    using assms by (cases "v = u") auto
qed

definition answers :: "(string \<Rightarrow> nat) \<Rightarrow> (string \<Rightarrow> string \<Rightarrow> string option) \<Rightarrow> nat \<Rightarrow> bool" where
  "answers rank sem n \<longleftrightarrow>
     (\<forall>u t. inherits t sem \<longrightarrow> ranked t rank \<longrightarrow> depth t rank u \<le> n \<longrightarrow>
        (\<exists>t'. get_specs n u t = Some (shown t u, t') \<and> grown sem t t' \<and> complete sem t' (shown t u)))"

lemma get_all_specs_spec:
  assumes "answers rank sem n" and "inherits t sem" and "ranked t rank" and "\<And>u. u \<in> set us \<Longrightarrow> depth t rank u \<le> n"
  shows "\<exists>t'. get_all_specs n us t = Some (map (shown t) us, t') \<and> grown sem t t'
    \<and> (\<forall>u \<in> set us. complete sem t' (shown t u))"
  using assms(2-4)
proof (induction us arbitrary: t)
  case Nil
  then show ?case by (simp add: grown_refl)
next
  case (Cons u us)
  obtain t1 where t1: "get_specs n u t = Some (shown t u, t1)" "grown sem t t1" "complete sem t1 (shown t u)"
    using assms(1) Cons.prems unfolding answers_def by (meson list.set_intros(1))
  have i1: "inherits t1 sem" by (rule inherits_grown [OF Cons.prems(1) t1(2)])
  obtain t2 where t2: "get_all_specs n us t1 = Some (map (shown t1) us, t2)" "grown sem t1 t2"
    "\<forall>u \<in> set us. complete sem t2 (shown t1 u)"
    using Cons.IH [OF i1] Cons.prems(2,3) grown_same [OF t1(2)] by auto
  have "complete sem t2 (shown t u)" by (rule complete_grown [OF i1 grown_refl t2(2) t1(3)])
  then show ?case using t1(1) t2 grown_trans [OF t1(2) t2(2)] grown_same(1) [OF t1(2)] by simp
qed

lemma get_specs_spec: "answers rank sem n"
proof (induction n)
  case 0
  then show ?case using depth_pos by (fastforce simp: answers_def)
next
  case (Suc n)
  show ?case unfolding answers_def
  proof (intro allI impI)
    fix u t assume inh: "inherits t sem" and rk: "ranked t rank" and dep: "depth t rank u \<le> Suc n"
    show "\<exists>t'. get_specs (Suc n) u t = Some (shown t u, t') \<and> grown sem t t' \<and> complete sem t' (shown t u)"
    proof (cases "oget t u")
      case None
      have "shown t ''rdfs:Resource'' = shown t u" using None by (simp add: shown_def)
      then show ?thesis
        using Suc.IH [unfolded answers_def, rule_format, OF inh rk depth_resource [OF rk None dep]] None by simp
    next
      case (Some c)
      from get_all_specs_spec [OF Suc.IH inh rk depth_super [OF rk Some _ dep]]
      obtain t1 where t1: "get_all_specs n (superClasses c) t = Some (map (shown t) (superClasses c), t1)" "grown sem t t1"
        "\<forall>x \<in> set (superClasses c). complete sem t1 (shown t x)" by blast
      have i1: "inherits t1 sem" by (rule inherits_grown [OF inh t1(2)])
      have "oget t1 u \<noteq> None" using t1(2) Some unfolding grown_def by simp
      then obtain d where d: "oget t1 u = Some d" by blast
      have sd: "superClasses d = superClasses c" using t1(2) Some d unfolding grown_def by blast
      let ?xs = "map (shown t) (superClasses c)"
      have own: "oget (node_specs d) p \<noteq> Some []" for p
        using inherits_specs [OF i1 grown_refl, of u p] inherits_known [OF i1 d, of p] d by (auto simp: specs_at_def)
      have notin: "u \<notin> set ?xs"
        using rk Some by (auto simp: ranked_def up_def)
      have known: "sem x p \<noteq> Some []" if "x \<in> set ?xs" for x p
      proof -
        have "oget t x \<noteq> None" using that rk by (auto simp: shown_def ranked_def)
        then show ?thesis using inherits_known [OF inh] by blast
      qed
      have comp: "complete sem t1 x" if "x \<in> set ?xs" for x using t1(3) that by auto
      obtain t2 where t2: "t2 = foldl (\<lambda>t x. put_specs u (inherit (specs_at u t) (specs_at x t)) t) t1 ?xs" by blast
      obtain sp where sp: "oget t2 u = Some (d\<lparr>node_specs := sp\<rparr>)"
        "\<And>p. oget sp p = first_some (oget (node_specs d) p # map (\<lambda>x. sem x p) ?xs)" "\<And>v. v \<noteq> u \<Longrightarrow> oget t2 v = oget t1 v"
        using enter_all [OF d notin own comp known] unfolding t2 by blast
      have sh: "shown t1 x = shown t x" for x by (rule grown_same(1) [OF t1(2)])
      have spsem: "oget sp p = sem u p" for p
        using i1 d sh unfolding inherits_def sp(2) by (simp add: sd o_def split: option.splits)
      have "grown sem t1 t2" 
      proof (rule grown_one [OF d sp(1)])
        show "oget t2 v = oget t1 v" if "v \<noteq> u" for v by (rule sp(3) [OF that])
        show "oget sp p = Some y" if "oget (node_specs d) p = Some y" for p y using that by (simp add: sp(2))
        show "oget sp p = sem u p" for p by (rule spsem)
      qed
      then have "grown sem t t2" by (rule grown_trans [OF t1(2)])
      moreover have "complete sem t2 u" using sp(1) spsem by (simp add: complete_def specs_at_def)
      moreover have "get_specs (Suc n) u t = Some (u, t2)" using Some t1(1) t2 by simp
      ultimately show ?thesis using Some by (simp add: shown_def)
    qed
  qed
qed

text \<open>C18: \<^verbatim>\<open>getClassSpecifications\<close> ends on an acyclic tree of classes and answers, for every
  property, the class's own specification or the one of the first superclass that has one. It
  enters what it finds into the tree, and no later question is answered differently for that:
  the tree afterwards inherits the same answers.\<close>

theorem class_specifications_spec:
  assumes "inherits (classTree s) sem" and "ranked (classTree s) rank" and "depth (classTree s) rank u \<le> n"
  obtains specs s' where "getClassSpecifications n s u = Some (specs, s')"
    and "\<And>p. oget specs p = sem (shown (classTree s) u) p"
    and "inherits (classTree s') sem" and "up (classTree s') = up (classTree s)"
proof -
  obtain t where t: "get_specs n u (classTree s) = Some (shown (classTree s) u, t)" "grown sem (classTree s) t"
    "complete sem t (shown (classTree s) u)"
    using get_specs_spec [unfolded answers_def, rule_format, OF assms] by blast
  show ?thesis
  proof (rule that)
    show "getClassSpecifications n s u = Some (specs_at (shown (classTree s) u) t, s\<lparr>classTree := t\<rparr>)"
      by (simp add: getClassSpecifications_def t(1))
    show "oget (specs_at (shown (classTree s) u) t) p = sem (shown (classTree s) u) p" for p
      using t(3) by (simp add: complete_def)
    show "inherits (classTree (s\<lparr>classTree := t\<rparr>)) sem" using inherits_grown [OF assms(1) t(2)] by simp
    show "up (classTree (s\<lparr>classTree := t\<rparr>)) = up (classTree s)" using grown_same(4) [OF t(2)] by simp
  qed
qed

definition answers_ex :: "string \<Rightarrow> string \<Rightarrow> string option" where
  "answers_ex u p = (if p = ''rdfs:label'' then Some ''s:label'' else if p = ''v:p'' \<and> u = ''v:a'' then Some ''s:p'' else None)"

theorem class_specifications_spec_witness:
  "\<exists>specs s'. getClassSpecifications 3 (empty_onto\<lparr>classTree := tree_ex\<rparr>) ''v:a'' = Some (specs, s')
     \<and> oget specs ''rdfs:label'' = Some ''s:label''"
proof -
  let ?s = "empty_onto\<lparr>classTree := tree_ex\<rparr>"
  have 0: "inherits (classTree ?s) answers_ex"
    by (auto simp: inherits_def tree_ex_def answers_ex_def shown_def split: if_splits)
  have 1: "ranked (classTree ?s) (\<lambda>u. if u = ''v:a'' then 1 else 0)" using tree_ex_ranked by simp
  have 2: "depth (classTree ?s) (\<lambda>u. if u = ''v:a'' then 1 else 0) ''v:a'' \<le> 3"
    by (simp add: depth_def shown_def tree_ex_def)
  obtain specs s' where "getClassSpecifications 3 ?s ''v:a'' = Some (specs, s')"
    "\<And>p. oget specs p = answers_ex (shown (classTree ?s) ''v:a'') p"
    by (rule class_specifications_spec [OF 0 1 2]) blast
  then show ?thesis by (simp add: answers_ex_def)
qed

section \<open>The tree of the ontology\<close>

lemma oset_all: "\<forall>(u, c) \<in> set al. P u c \<Longrightarrow> P k v \<Longrightarrow> \<forall>(u, c) \<in> set (AList.update k v al). P u c"
  by (induction al) auto

lemma allocate_keeps:
  assumes "allocate s i = Some s'" and "classTree s = []" and "distinct (map fst (classes s))"
    and "\<forall>(u, c) \<in> set (classes s). uri c = u"
  shows "classTree s' = [] \<and> distinct (map fst (classes s')) \<and> (\<forall>(u, c) \<in> set (classes s'). uri c = u)"
proof -
  have "(\<forall>(u, c) \<in> set (oset (uri i) i (classes s)). uri c = u)"
    by (rule oset_all [OF assms(4)]) simp
  moreover have "classTree s' = classTree s \<and> (classes s' = classes s \<or> classes s' = oset (uri i) i (classes s))"
    using assms(1) [symmetric] unfolding allocate_def
    by (simp del: insert_iff split: option.split_asm if_split_asm)
  ultimately show ?thesis using assms(2-4) by (auto simp: distinct_update)
qed

lemma allocate_all_keeps:
  "allocate_all s is = Some s' \<Longrightarrow> classTree s = [] \<Longrightarrow> distinct (map fst (classes s)) \<Longrightarrow>
   \<forall>(u, c) \<in> set (classes s). uri c = u \<Longrightarrow>
   classTree s' = [] \<and> distinct (map fst (classes s')) \<and> (\<forall>(u, c) \<in> set (classes s'). uri c = u)"
proof (induction s "is" rule: allocate_all.induct)
  case (2 s i "is")
  then show ?case using allocate_keeps [of s i] by (auto split: option.splits)
qed simp

text \<open>What is settled about a class once it is in the tree.\<close>

definition placed :: "onto \<Rightarrow> string \<Rightarrow> bool" where
  "placed s u \<longleftrightarrow>
     (case (oget (classes s) u, oget (classTree s) u) of
        (Some c, Some n) \<Rightarrow>
          u \<noteq> ''rdfs:Resource'' \<and> oget (o_props s) ''rdfs:subClassOf'' \<noteq> None \<longrightarrow>
            prop_ids s c ''rdfs:subClassOf'' = Some (superClasses n)
            \<and> (oget (classes s) ''rdfs:Resource'' \<noteq> None \<longrightarrow> superClasses n \<noteq> [])
      | _ \<Rightarrow> False)"

lemma super_of_root:
  assumes "super_of s c = Some us" and "oget (o_props s) ''rdfs:subClassOf'' \<noteq> None"
  shows "prop_ids s (root_class s c) ''rdfs:subClassOf'' = Some us"
    and "oget (classes s) ''rdfs:Resource'' \<noteq> None \<Longrightarrow> us \<noteq> []"
proof -
  have key: "key_of (DStr x) = x" for x by (simp add: key_of_def)
  show "prop_ids s (root_class s c) ''rdfs:subClassOf'' = Some us"
    using assms
    by (auto simp: super_of_def root_class_def prop_ids_def id_of_def newUri_def key split: option.splits list.splits if_splits)
  show "us \<noteq> []" if "oget (classes s) ''rdfs:Resource'' \<noteq> None"
    using assms that by (auto simp: super_of_def prop_ids_def split: option.splits list.splits)
qed

lemma add_class_cases:
  assumes "add_class s u c = Some s'" and "uri c = u" and "oget (classTree s) u = None"
  obtains "u = ''rdfs:Resource''" and "s' = s\<lparr>classTree := oset u new_node (classTree s)\<rparr>"
  | us where "u \<noteq> ''rdfs:Resource''" and "super_of s c = Some us"
    and "s' = s\<lparr>classes := oset u (root_class s c) (classes s),
                classTree := oset u (new_node\<lparr>superClasses := us\<rparr>) (oset u new_node (classTree s))\<rparr>"
proof (cases "u = ''rdfs:Resource''")
  case True
  then show ?thesis using assms that(1) by (simp add: add_class_def)
next
  case False
  let ?s = "s\<lparr>classTree := oset u new_node (classTree s)\<rparr>"
  have pi: "prop_ids ?s x p = prop_ids s x p" for x p by (simp add: prop_ids_def)
  have r: "classes ?s = classes s" "o_props ?s = o_props s" by simp_all
  have "super_of ?s c = super_of s c" "root_class ?s c = root_class s c"
    unfolding super_of_def root_class_def pi r by (rule refl)+
  note eq = this
  have nil: "superClasses new_node = []" by (simp add: new_node_def)
  show ?thesis
  proof (cases "super_of s c")
    case None
    then show ?thesis using assms False eq by (simp add: add_class_def Let_def)
  next
    case (Some us)
    have "s' = s\<lparr>classes := oset u (root_class s c) (classes s),
        classTree := oset u (new_node\<lparr>superClasses := us\<rparr>) (oset u new_node (classTree s))\<rparr>"
      using assms False Some eq by (simp add: add_class_def Let_def nil)
    then show ?thesis by (rule that(2) [OF False Some])
  qed
qed

lemma add_class_placed:
  assumes "add_class s u c = Some s'" and "uri c = u" and "oget (classTree s) u = None" and "oget (classes s) u = Some c"
  shows "placed s' u" and "o_props s' = o_props s"
    and "oget (classes s') v = None \<longleftrightarrow> oget (classes s) v = None"
    and "v \<noteq> u \<Longrightarrow> oget (classes s') v = oget (classes s) v \<and> oget (classTree s') v = oget (classTree s) v"
proof -
  have "placed s' u \<and> o_props s' = o_props s \<and> (oget (classes s') v = None \<longleftrightarrow> oget (classes s) v = None)
      \<and> (v \<noteq> u \<longrightarrow> oget (classes s') v = oget (classes s) v \<and> oget (classTree s') v = oget (classTree s) v)"
    using assms(1-3)
  proof (cases rule: add_class_cases)
    case 1
    then show ?thesis using assms(4) by (simp add: placed_def)
  next
    case (2 us)
    have "prop_ids s' x p = prop_ids s x p" for x p by (simp add: prop_ids_def 2(3))
    then show ?thesis using 2 assms(4) super_of_root [OF 2(2)] by (auto simp: placed_def)
  qed
  then show "placed s' u" and "o_props s' = o_props s"
    and "oget (classes s') v = None \<longleftrightarrow> oget (classes s) v = None"
    and "v \<noteq> u \<Longrightarrow> oget (classes s') v = oget (classes s) v \<and> oget (classTree s') v = oget (classTree s) v"
    by blast+
qed

lemma placed_other:
  assumes "placed s v" and "o_props s' = o_props s"
    and "\<And>w. oget (classes s') w = None \<longleftrightarrow> oget (classes s) w = None"
    and "oget (classes s') v = oget (classes s) v" and "oget (classTree s') v = oget (classTree s) v"
  shows "placed s' v"
  using assms(1) unfolding placed_def prop_ids_def assms(2-5) .

lemma add_classes_placed:
  assumes "add_classes s cs = Some s'" and "distinct (map fst cs)"
    and "\<forall>(u, c) \<in> set cs. uri c = u \<and> oget (classTree s) u = None \<and> oget (classes s) u = Some c"
    and "\<And>u. u \<notin> fst ` set cs \<Longrightarrow> placed s u \<or> oget (classes s) u = None \<and> oget (classTree s) u = None"
  shows "placed s' u \<or> oget (classes s') u = None \<and> oget (classTree s') u = None"
  using assms
proof (induction s cs rule: add_classes.induct)
  case (2 s v c cs)
  obtain s1 where s1: "add_class s v c = Some s1" "add_classes s1 cs = Some s'"
    using 2(2) by (auto split: option.splits)
  have v: "uri c = v" "oget (classTree s) v = None" "oget (classes s) v = Some c" using 2(4) by auto
  note f = add_class_placed [OF s1(1) v]
  show ?case
  proof (rule 2(1) [OF s1(1,2)])
    show "distinct (map fst cs)" using 2(3) by simp
    show "\<forall>(u, c) \<in> set cs. uri c = u \<and> oget (classTree s1) u = None \<and> oget (classes s1) u = Some c"
    proof clarify
      fix u c' assume m: "(u, c') \<in> set cs"
      then have "u \<noteq> v" using 2(3) by force
      then show "uri c' = u \<and> oget (classTree s1) u = None \<and> oget (classes s1) u = Some c'"
        using 2(4) m f(4) [of u] by auto
    qed
    fix w assume "w \<notin> fst ` set cs"
    show "placed s1 w \<or> oget (classes s1) w = None \<and> oget (classTree s1) w = None"
    proof (cases "w = v")
      case True
      then show ?thesis using f(1) by simp
    next
      case False
      then have "w \<notin> fst ` set ((v, c) # cs)" using \<open>w \<notin> fst ` set cs\<close> by simp
      with 2(5) have "placed s w \<or> oget (classes s) w = None \<and> oget (classTree s) w = None" by blast
      moreover have same: "oget (classes s1) w = oget (classes s) w" "oget (classTree s1) w = oget (classTree s) w"
        using f(4) [OF False] by auto
      moreover have "placed s w \<Longrightarrow> placed s1 w" by (rule placed_other [OF _ f(2) f(3) same])
      ultimately show ?thesis by auto
    qed
  qed
qed simp

definition same_supers :: "onto \<Rightarrow> onto \<Rightarrow> bool" where
  "same_supers s s' \<longleftrightarrow>
     classes s' = classes s \<and> o_props s' = o_props s
     \<and> (\<forall>u. map_option superClasses (oget (classTree s') u) = map_option superClasses (oget (classTree s) u))"

lemma same_supers_refl: "same_supers s s"
  by (simp add: same_supers_def)

lemma same_supers_trans: "same_supers a b \<Longrightarrow> same_supers b c \<Longrightarrow> same_supers a c"
  by (simp add: same_supers_def)

lemma same_supers_put:
  "oget (classTree s) c = Some n \<Longrightarrow> superClasses m = superClasses n \<Longrightarrow>
   same_supers s (s\<lparr>classTree := oset c m (classTree s)\<rparr>)"
  by (simp add: same_supers_def)

lemma same_supers_foldl:
  "(\<And>s x. same_supers s (f s x)) \<Longrightarrow> same_supers s (foldl f s xs)"
  by (induction xs arbitrary: s) (auto intro: same_supers_refl same_supers_trans)

lemma add_domains_same: "same_supers s (add_domains p cs s)"
proof (induction p cs s rule: add_domains.induct)
  case (2 p c cs s)
  show ?case
  proof (cases "oget (classTree s) c")
    case (Some n)
    have "same_supers s (s\<lparr>classTree := oset c (n\<lparr>node_props := node_props n @ [p]\<rparr>) (classTree s)\<rparr>)"
      by (rule same_supers_put [OF Some]) simp
    then show ?thesis using 2 Some by (auto intro: same_supers_trans)
  qed (simp add: same_supers_refl)
qed (simp add: same_supers_refl)

lemma add_for_same: "same_supers s (fst (add_for sp c ps s))"
proof (induction sp c ps s rule: add_for.induct)
  case (2 sp c p ps s)
  show ?case
  proof (cases "oget (classTree s) c")
    case (Some n)
    have "same_supers s (s\<lparr>classTree := oset c (n\<lparr>node_specs := oset p sp (node_specs n)\<rparr>) (classTree s)\<rparr>)"
      by (rule same_supers_put [OF Some]) simp
    then show ?thesis using 2 Some by (auto intro: same_supers_trans)
  qed (simp add: same_supers_refl)
qed (simp add: same_supers_refl)

lemma add_for_classes_same: "same_supers s (add_for_classes sp cs ps s)"
proof (induction sp cs ps s rule: add_for_classes.induct)
  case (3 sp c cs ps s)
  obtain s1 ok where "add_for sp c ps s = (s1, ok)" by fastforce
  then show ?case using 3 add_for_same [of s sp c ps] by (auto intro: same_supers_trans)
qed (simp_all add: same_supers_refl)

lemma placed_same: "same_supers s s' \<Longrightarrow> placed s u \<Longrightarrow> placed s' u"
proof -
  assume same: "same_supers s s'" and pl: "placed s u"
  have eq: "classes s' = classes s" "o_props s' = o_props s" using same by (simp_all add: same_supers_def)
  have pi: "prop_ids s' x p = prop_ids s x p" for x p by (simp add: prop_ids_def eq)
  from pl obtain c n where cn: "oget (classes s) u = Some c" "oget (classTree s) u = Some n"
    by (auto simp: placed_def split: option.splits)
  moreover have "map_option superClasses (oget (classTree s') u) = Some (superClasses n)"
    using same cn(2) unfolding same_supers_def by simp
  then obtain n' where "oget (classTree s') u = Some n'" "superClasses n' = superClasses n" by auto
  ultimately show "placed s' u" using pl by (simp add: placed_def eq pi)
qed

text \<open>The tree has exactly the classes of the ontology. With a property \<open>rdfs:subClassOf\<close>, the
  superclasses of a class in the tree are the values of its individual, and when
  \<open>rdfs:Resource\<close> is known every other class has a superclass.\<close>

lemma ontology_tree:
  assumes "processOntology js = Some s"
  shows "(oget (classTree s) u = None \<longleftrightarrow> oget (classes s) u = None)
    \<and> (oget (classes s) u = Some c \<and> oget (classTree s) u = Some n \<and> u \<noteq> ''rdfs:Resource''
          \<and> oget (o_props s) ''rdfs:subClassOf'' \<noteq> None \<longrightarrow>
          prop_ids s c ''rdfs:subClassOf'' = Some (superClasses n)
          \<and> (oget (classes s) ''rdfs:Resource'' \<noteq> None \<longrightarrow> superClasses n \<noteq> []))"
proof -
  obtain s0 s1 where s0: "allocate_all empty_onto (filter (\<lambda>i. i \<noteq> \<lparr>uri = [], props = []\<rparr>) js) = Some s0"
    and s1: "add_classes s0 (classes s0) = Some s1"
    using assms by (auto simp: processOntology_def split: option.splits)
  define s2 where "s2 = foldl (\<lambda>s (u, p). add_property s p) s1 (o_props s1)"
  define s3 where "s3 = foldl (\<lambda>s (u, sp). add_specification s sp) s2 (specifications s2)"
  have s: "s = s3\<lparr>templates := map (\<lambda>(u, ts). (u, resolve_templates ts)) (templates s3)\<rparr>"
    using assms s0 s1 by (simp add: processOntology_def s2_def s3_def Let_def)
  have k: "classTree s0 = []" "distinct (map fst (classes s0))" "\<forall>(u, c) \<in> set (classes s0). uri c = u"
    using allocate_all_keeps [OF s0] by (simp_all add: empty_onto_def)
  have pl: "placed s1 u \<or> oget (classes s1) u = None \<and> oget (classTree s1) u = None"
  proof (rule add_classes_placed [OF s1 k(2)])
    show "\<forall>(u, c) \<in> set (classes s0). uri c = u \<and> oget (classTree s0) u = None \<and> oget (classes s0) u = Some c"
      using k by auto
    show "u \<notin> fst ` set (classes s0) \<Longrightarrow> placed s0 u \<or> oget (classes s0) u = None \<and> oget (classTree s0) u = None" for u
      using k(1) by (simp add: map_of_eq_None_iff)
  qed
  have "same_supers s1 s2" unfolding s2_def
    by (rule same_supers_foldl) (auto simp: add_property_def add_domains_same same_supers_refl split: option.splits)
  moreover have "same_supers s2 s3" unfolding s3_def
    by (rule same_supers_foldl)
      (auto simp: add_specification_def add_for_classes_same same_supers_refl split: option.splits)
  moreover have "same_supers s3 s" by (simp add: s same_supers_def)
  ultimately have same: "same_supers s1 s" by (blast intro: same_supers_trans)
  then have "placed s u \<or> oget (classes s) u = None \<and> oget (classTree s) u = None"
    using pl placed_same [OF same] same unfolding same_supers_def by (metis None_eq_map_option_iff)
  then show ?thesis
    by (auto simp: placed_def split: option.splits)
qed

definition ontology_ex :: "individual list" where
  "ontology_ex =
     [\<lparr>uri = ''rdfs:Resource'', props = [(''rdf:type'', newUri (DStr ''rdfs:Class''))]\<rparr>,
      \<lparr>uri = ''rdfs:subClassOf'', props = [(''rdf:type'', newUri (DStr ''rdf:Property''))]\<rparr>,
      \<lparr>uri = ''v:a'', props = [(''rdf:type'', newUri (DStr ''owl:Class''))]\<rparr>]"

lemma ontology_tree_witness:
  "\<exists>s. processOntology ontology_ex = Some s \<and> oget (classTree s) ''v:a'' \<noteq> None"
proof -
  obtain s where s: "processOntology ontology_ex = Some s" and c: "oget (classes s) ''v:a'' \<noteq> None"
    by (simp add: processOntology_def ontology_ex_def allocate_def first_data_def empty_onto_def newUri_def
        add_class_def super_of_def root_class_def prop_ids_def Let_def add_property_def)
  have "oget (classTree s) ''v:a'' \<noteq> None" using ontology_tree [OF s, of "''v:a''"] c by metis
  with s show ?thesis by blast
qed

end
