(* ===== verification/Client_Backend.thy ===== *)
theory Client_Backend
  imports Individual_Model
begin

text \<open>
  The backend of the browser (\<^verbatim>\<open>public/js/browser/backend.js\<close>) over its local database: the
  status of the connection, reads that ask the local database first, writes that are queued while
  the server cannot be reached, and the flush of that queue. The answer of the server to a request
  is an argument; the asynchronous flush is a sequence of steps, one per answer.
\<close>

section \<open>The state\<close>

text \<open>A write: one individual with its operation (the removal only uses the id), or several puts.\<close>

datatype call = One request | Many "individual list"

datatype 'a reply = Answered 'a | Failed int

text \<open>
  \<open>line\<close> and \<open>ccus\<close> are the two parts of the status, \<open>polling\<close> says that the server is polled,
  \<open>offline_queue\<close> is the entry of the local database (if any), \<open>flights\<close> are the flushes under way
  with the calls they have still to send, \<open>sent\<close> the writes the server accepted.
\<close>

record client =
  line :: bool
  ccus :: bool
  b_status :: string
  polling :: bool
  db :: "individual obj"
  db_queries :: "string obj"
  offline_queue :: "call list option"
  flights :: "call list list"
  sent :: "call list"
  announced :: "string list"

definition fresh_client :: client where
  "fresh_client =
     \<lparr>line = False, ccus = False, b_status = ''offline'', polling = False, db = [], db_queries = [],
      offline_queue = None, flights = [], sent = [], announced = []\<rparr>"

definition unreachable :: "int \<Rightarrow> bool" where
  "unreachable code \<longleftrightarrow> code = 0 \<or> code = 503 \<or> code = 4000"

section \<open>The status\<close>

definition set_status :: "string \<Rightarrow> client \<Rightarrow> client" where
  "set_status state s =
     (let l = (if state = ''online'' then True else if state = ''offline'' then False else line s);
          c = (if state = ''ccus-online'' then True else if state = ''ccus-offline'' then False else ccus s)
      in s\<lparr>line := l, ccus := c,
           b_status := (if l \<and> c then ''online'' else if l then ''limited'' else ''offline''),
           announced := announced s @ [state, ''status'']\<rparr>)"

text \<open>The poll starts unless it is running.\<close>

definition start_check :: "client \<Rightarrow> client" where
  "start_check s = s\<lparr>polling := True\<rparr>"

text \<open>A flush reads the queue; an empty one ends at once.\<close>

definition flush_start :: "client \<Rightarrow> client" where
  "flush_start s =
     (case offline_queue s of
        Some (c # cs) \<Rightarrow> s\<lparr>flights := flights s @ [c # cs]\<rparr>
      | _ \<Rightarrow> s)"

definition on_event :: "string \<Rightarrow> client \<Rightarrow> client" where
  "on_event e s =
     (let s1 = set_status e s
      in if e = ''online'' then flush_start s1
         else if e = ''ccus-online'' \<or> e = ''ccus-offline'' then start_check s1 else s1)"

text \<open>The answer to a poll.\<close>

definition ping_answered :: "bool \<Rightarrow> client \<Rightarrow> client" where
  "ping_answered ok s = (if ok then on_event ''online'' (s\<lparr>polling := False\<rparr>) else on_event ''offline'' s)"

text \<open>The constructor of \<open>BackendError\<close>.\<close>

definition backend_error :: "int \<Rightarrow> client \<Rightarrow> client" where
  "backend_error code s =
     (let s1 = (if unreachable code then start_check (on_event ''offline'' s) else s)
      in if code = 470 \<or> code = 471 then s1\<lparr>announced := announced s1 @ [''login:failed'']\<rparr> else s1)"

section \<open>Writes\<close>

definition enqueueCall :: "call \<Rightarrow> client \<Rightarrow> client" where
  "enqueueCall c s =
     s\<lparr>offline_queue := Some ((case offline_queue s of None \<Rightarrow> [] | Some q \<Rightarrow> q) @ [c])\<rparr>"

text \<open>\<open>None\<close>: the promise is resolved; \<open>Some code\<close>: it is rejected.\<close>

definition call_server_put :: "call \<Rightarrow> int \<Rightarrow> client \<Rightarrow> int option \<times> client" where
  "call_server_put c code s =
     (if code = 200 then (None, s\<lparr>sent := sent s @ [c]\<rparr>)
      else if unreachable code then (None, enqueueCall c (backend_error code s))
      else (Some code, backend_error code s))"

definition db_put :: "individual \<Rightarrow> client \<Rightarrow> client" where
  "db_put i s = s\<lparr>db := oset (uri i) i (db s)\<rparr>"

text \<open>
  After a resolved call the put and the removal also change the local database; \<open>add_to\<close>,
  \<open>set_in\<close> and \<open>remove_from\<close> do not.
\<close>

definition stored_locally :: "call \<Rightarrow> client \<Rightarrow> client" where
  "stored_locally c s =
     (case c of
        One (OpPut, i) \<Rightarrow> db_put i s
      | One (OpRemove, i) \<Rightarrow> s\<lparr>db := odel (uri i) (db s)\<rparr>
      | Many is \<Rightarrow> foldl (\<lambda>s i. db_put i s) s is
      | _ \<Rightarrow> s)"

definition put_call :: "call \<Rightarrow> int \<Rightarrow> client \<Rightarrow> int option \<times> client" where
  "put_call c code s =
     (case call_server_put c code s of
        (None, s') \<Rightarrow> (None, stored_locally c s')
      | (Some e, s') \<Rightarrow> (Some e, s'))"

section \<open>The flush\<close>

text \<open>
  The answer to the next call of flush \<open>k\<close>. After the last call the queue of the database is
  removed; an error ends the flush and leaves the queue.
\<close>

definition flush_answered :: "nat \<Rightarrow> int \<Rightarrow> client \<Rightarrow> client" where
  "flush_answered k code s =
     (if k < length (flights s)
      then (case flights s ! k of
              [] \<Rightarrow> s
            | c # cs \<Rightarrow>
                (let others = take k (flights s) @ drop (Suc k) (flights s)
                 in if code = 200
                    then (let s1 = s\<lparr>sent := sent s @ [c]\<rparr>
                          in if cs = [] then s1\<lparr>offline_queue := None, flights := others\<rparr>
                             else s1\<lparr>flights := (flights s)[k := cs]\<rparr>)
                    else backend_error code (s\<lparr>flights := others\<rparr>)))
      else s)"

definition flush_answers :: "nat \<Rightarrow> int list \<Rightarrow> client \<Rightarrow> client" where
  "flush_answers k codes s = foldl (\<lambda>s code. flush_answered k code s) s codes"

section \<open>Reads\<close>

definition reset_individual :: "string \<Rightarrow> individual reply \<Rightarrow> client \<Rightarrow> (int + individual) \<times> client" where
  "reset_individual u r s =
     (case r of
        Answered i \<Rightarrow> (Inr i, db_put i s)
      | Failed code \<Rightarrow>
          (let s1 = backend_error code s
           in if unreachable code
              then (case oget (db s) u of Some i \<Rightarrow> (Inr i, s1) | None \<Rightarrow> (Inl code, s1))
              else (Inl code, s1)))"

definition cache_first :: "client \<Rightarrow> bool" where
  "cache_first s \<longleftrightarrow> b_status s = ''online'' \<or> b_status s = ''offline''"

definition get_individual_with :: "string \<Rightarrow> individual reply \<Rightarrow> client \<Rightarrow> (int + individual) \<times> client" where
  "get_individual_with u r s =
     (if cache_first s
      then (case oget (db s) u of
              Some i \<Rightarrow> (Inr i, s)
            | None \<Rightarrow>
                (case r of Answered i \<Rightarrow> (Inr i, db_put i s) | Failed code \<Rightarrow> (Inl code, backend_error code s)))
      else reset_individual u r s)"

text \<open>
  The array of the results has holes for what the local database lacks; the answers of the
  server go into the holes from left to right. Holes at the end are not part of the array.
\<close>

fun fill :: "'a option list \<Rightarrow> 'a list \<Rightarrow> 'a option list" where
  "fill xs [] = xs"
| "fill [] (r # rs) = Some r # fill [] rs"
| "fill (None # xs) (r # rs) = Some r # fill xs rs"
| "fill (Some x # xs) (r # rs) = Some x # fill xs (r # rs)"

definition trimmed :: "'a option list \<Rightarrow> 'a option list" where
  "trimmed xs = rev (dropWhile (\<lambda>x. x = None) (rev xs))"

definition missing_uris :: "client \<Rightarrow> string list \<Rightarrow> string list" where
  "missing_uris s us = filter (\<lambda>u. oget (db s) u = None) us"

text \<open>
  \<open>ask\<close> is what the server answers to the ids it is asked for. The second result of \<open>Inl\<close> is the
  error; with the cache first it is only printed, and the result is \<open>undefined\<close> (\<open>Inl None\<close>).
  When the server comes first, only the first answer reaches the local database: the callback of
  \<open>reduce\<close> returns nothing, so that the second step is a TypeError.
\<close>

definition get_individuals ::
  "string list \<Rightarrow> (string list \<Rightarrow> individual list reply) \<Rightarrow> client \<Rightarrow> (int option + individual option list) \<times> client" where
  "get_individuals us ask s =
     (if cache_first s
      then (let results = map (oget (db s)) us; ms = missing_uris s us
            in if ms = [] then (Inr (trimmed results), s)
               else (case ask ms of
                       Answered rs \<Rightarrow> (Inr (trimmed (fill results rs)), foldl (\<lambda>s i. db_put i s) s rs)
                     | Failed code \<Rightarrow> (Inl None, backend_error code s)))
      else (case ask us of
              Answered rs \<Rightarrow> (Inr (map Some rs), (case rs of [] \<Rightarrow> s | i # _ \<Rightarrow> db_put i s))
            | Failed code \<Rightarrow>
                (let s1 = backend_error code s
                 in if unreachable code
                    then (Inr (map Some (List.map_filter (oget (db s)) us)), s1) else (Inl (Some code), s1))))"

text \<open>
  A query, named by the JSON of its parameters without the ticket: a modified database is asked
  again, an unreachable server is replaced by the last answer, else by the empty one. The list
  holds the answers of the attempts; \<open>None\<close> is a query that still waits for an answer.
\<close>

definition keep_query :: "string \<Rightarrow> string \<Rightarrow> client \<Rightarrow> client" where
  "keep_query key r s = s\<lparr>db_queries := oset key r (db_queries s)\<rparr>"

fun backend_query :: "string \<Rightarrow> string \<Rightarrow> string reply list \<Rightarrow> client \<Rightarrow> ((int + string) \<times> client) option" where
  "backend_query key nothing [] s = None"
| "backend_query key nothing (Answered r # rs) s = Some (Inr r, keep_query key r s)"
| "backend_query key nothing (Failed code # rs) s =
     (let s1 = backend_error code s
      in if code = 999 then backend_query key nothing rs s1
         else if unreachable code
         then (case oget (db_queries s1) key of
                 Some r \<Rightarrow> Some (Inr r, keep_query key r s1) | None \<Rightarrow> Some (Inr nothing, s1))
         else Some (Inl code, s1))"

text \<open>\<open>uploadFile\<close>: another attempt while tries are left; the second result counts the attempts.\<close>

fun uploadFile :: "nat \<Rightarrow> bool list \<Rightarrow> bool \<times> nat" where
  "uploadFile tries [] = (False, 0)"
| "uploadFile tries (ok # oks) =
     (if ok then (True, 1)
      else (case tries of 0 \<Rightarrow> (False, 1) | Suc n \<Rightarrow> map_prod (\<lambda>x. x) Suc (uploadFile n oks)))"

text \<open>The rights that the user has while the server cannot be reached.\<close>

definition offline_rights :: individual where
  "offline_rights =
     \<lparr>uri = ''_'',
      props = [(''rdf:type'', newUri (DStr ''v-s:PermissionStatement'')),
               (''v-s:canCreate'', [mkv TBoolean (DBool True)]), (''v-s:canDelete'', [mkv TBoolean (DBool False)]),
               (''v-s:canRead'', [mkv TBoolean (DBool True)]), (''v-s:canUpdate'', [mkv TBoolean (DBool True)])]\<rparr>"

definition offline_membership :: "string \<Rightarrow> individual" where
  "offline_membership u =
     \<lparr>uri = ''_'',
      props = [(''rdf:type'', newUri (DStr ''v-s:Membership'')), (''v-s:memberOf'', newUri (DStr ''v-s:AllResourcesGroup'')),
               (''v-s:resource'', newUri (DStr u))]\<rparr>"

definition with_default :: "'a \<Rightarrow> 'a reply \<Rightarrow> client \<Rightarrow> (int + 'a) \<times> client" where
  "with_default d r s =
     (case r of
        Answered x \<Rightarrow> (Inr x, s)
      | Failed code \<Rightarrow> (if unreachable code then Inr d else Inl code, backend_error code s))"

definition get_rights :: "individual reply \<Rightarrow> client \<Rightarrow> (int + individual) \<times> client" where
  "get_rights = with_default offline_rights"

definition get_rights_origin :: "individual list reply \<Rightarrow> client \<Rightarrow> (int + individual list) \<times> client" where
  "get_rights_origin = with_default []"

definition get_membership :: "string \<Rightarrow> individual reply \<Rightarrow> client \<Rightarrow> (int + individual) \<times> client" where
  "get_membership u = with_default (offline_membership u)"

definition is_ticket_valid :: "bool reply \<Rightarrow> client \<Rightarrow> (int + bool) \<times> client" where
  "is_ticket_valid = with_default True"

end
