(* ===== verification/Client_Props.thy ===== *)
theory Client_Props
  imports Client_Backend
begin

text \<open>
  The offline queue and the local database. Queued writes reach the server in their order, once,
  when the flush meets no error; an error keeps the whole queue, and what is queued during a
  flush is dropped at its end.
\<close>

section \<open>Effects on the queue\<close>

lemma set_status_simps [simp]:
  "offline_queue (set_status e s) = offline_queue s" "flights (set_status e s) = flights s"
  "sent (set_status e s) = sent s" "db (set_status e s) = db s" "db_queries (set_status e s) = db_queries s"
  by (simp_all add: set_status_def Let_def)

lemma start_check_simps [simp]:
  "offline_queue (start_check s) = offline_queue s" "flights (start_check s) = flights s"
  "sent (start_check s) = sent s" "db (start_check s) = db s" "b_status (start_check s) = b_status s"
  by (simp_all add: start_check_def)

lemma backend_error_simps [simp]:
  "offline_queue (backend_error e s) = offline_queue s" "flights (backend_error e s) = flights s"
  "sent (backend_error e s) = sent s" "db (backend_error e s) = db s"
  by (simp_all add: backend_error_def on_event_def Let_def)

lemma stored_locally_simps [simp]:
  "offline_queue (stored_locally c s) = offline_queue s" "flights (stored_locally c s) = flights s"
  "sent (stored_locally c s) = sent s"
proof -
  have "offline_queue (foldl (\<lambda>s i. db_put i s) s is) = offline_queue s
      \<and> flights (foldl (\<lambda>s i. db_put i s) s is) = flights s \<and> sent (foldl (\<lambda>s i. db_put i s) s is) = sent s" for "is"
    by (induction "is" arbitrary: s) (simp_all add: db_put_def)
  then show "offline_queue (stored_locally c s) = offline_queue s" "flights (stored_locally c s) = flights s"
    "sent (stored_locally c s) = sent s"
    by (auto simp: stored_locally_def db_put_def split: call.splits prod.splits indv_op.splits)
qed

text \<open>The calls that wait in the local database.\<close>

definition waiting :: "client \<Rightarrow> call list" where
  "waiting s = (case offline_queue s of None \<Rightarrow> [] | Some q \<Rightarrow> q)"

lemma write_offline:
  "unreachable code \<Longrightarrow>
   fst (put_call c code s) = None \<and> waiting (snd (put_call c code s)) = waiting s @ [c]
   \<and> sent (snd (put_call c code s)) = sent s \<and> flights (snd (put_call c code s)) = flights s"
  by (auto simp: put_call_def call_server_put_def enqueueCall_def waiting_def unreachable_def split: option.splits)

lemma write_online: "sent (snd (put_call c 200 s)) = sent s @ [c] \<and> fst (put_call c 200 s) = None"
  by (simp add: put_call_def call_server_put_def)

definition writes_with :: "int list \<Rightarrow> call list \<Rightarrow> client \<Rightarrow> client" where
  "writes_with codes cs s = foldl (\<lambda>s (c, code). snd (put_call c code s)) s (zip cs codes)"

lemma writes_offline:
  "length codes = length cs \<Longrightarrow> list_all unreachable codes \<Longrightarrow>
   waiting (writes_with codes cs s) = waiting s @ cs \<and> sent (writes_with codes cs s) = sent s
   \<and> flights (writes_with codes cs s) = flights s"
proof (induction codes cs arbitrary: s rule: list_induct2)
  case Nil
  then show ?case by (simp add: writes_with_def)
next
  case (Cons code codes c cs)
  have "writes_with (code # codes) (c # cs) s = writes_with codes cs (snd (put_call c code s))"
    by (simp add: writes_with_def)
  then show ?case using Cons write_offline [of code c s] by simp
qed

lemma online_flight:
  assumes "flights s = []" and "waiting s = q" and "q \<noteq> []"
  shows "flights (on_event ''online'' s) = [q]" and "offline_queue (on_event ''online'' s) = Some q"
    and "sent (on_event ''online'' s) = sent s"
proof -
  have "offline_queue s = Some q" using assms by (auto simp: waiting_def split: option.splits)
  then show "flights (on_event ''online'' s) = [q]" and "offline_queue (on_event ''online'' s) = Some q"
    and "sent (on_event ''online'' s) = sent s"
    using assms by (auto simp: on_event_def flush_start_def Let_def split: list.splits)
qed

lemma flush_prefix:
  "flights s = [xs @ y # ys] \<Longrightarrow>
   flights (flush_answers 0 (replicate (length xs) 200) s) = [y # ys]
   \<and> sent (flush_answers 0 (replicate (length xs) 200) s) = sent s @ xs
   \<and> offline_queue (flush_answers 0 (replicate (length xs) 200) s) = offline_queue s"
proof (induction xs arbitrary: s)
  case Nil
  then show ?case by (simp add: flush_answers_def)
next
  case (Cons x xs)
  let ?s = "flush_answered 0 200 s"
  have "flights ?s = [xs @ y # ys]" "sent ?s = sent s @ [x]" "offline_queue ?s = offline_queue s"
    using Cons.prems by (simp_all add: flush_answered_def Let_def)
  with Cons.IH [of ?s] show ?case by (simp add: flush_answers_def)
qed

lemma flush_answers_append: "flush_answers k (as @ bs) s = flush_answers k bs (flush_answers k as s)"
  by (simp add: flush_answers_def)

lemma flush_complete:
  assumes "flights s = [q]" and "q \<noteq> []"
  shows "flights (flush_answers 0 (replicate (length q) 200) s) = []"
    and "sent (flush_answers 0 (replicate (length q) 200) s) = sent s @ q"
    and "offline_queue (flush_answers 0 (replicate (length q) 200) s) = None"
proof -
  obtain xs y where q: "q = xs @ [y]" using assms(2) by (metis append_butlast_last_id)
  let ?s = "flush_answers 0 (replicate (length xs) 200) s"
  have p: "flights ?s = [[y]]" "sent ?s = sent s @ xs" using flush_prefix [of s xs y "[]"] assms(1) q by auto
  have "flush_answers 0 (replicate (length q) 200) s = flush_answered 0 200 ?s"
  proof -
    have "replicate (length q) (200 :: int) = replicate (length xs) 200 @ [200]" by (simp add: q replicate_append_same)
    then show ?thesis by (simp add: flush_answers_append) (simp add: flush_answers_def)
  qed
  then show "flights (flush_answers 0 (replicate (length q) 200) s) = []"
    and "sent (flush_answers 0 (replicate (length q) 200) s) = sent s @ q"
    and "offline_queue (flush_answers 0 (replicate (length q) 200) s) = None"
    using p by (simp_all add: flush_answered_def Let_def q)
qed



text \<open>C26: A queued write that the server rejects blocks the queue: the writes behind it are never sent,
  and those before it are sent again by every flush. After \<open>n\<close> attempts the server has got the
  prefix \<open>n\<close> times, and the queue is as before.\<close>

theorem rejected_write_blocks:
  assumes "code \<noteq> 200" and "flights s = []" and "offline_queue s = Some (xs @ c # ys)"
  defines "attempt \<equiv> (\<lambda>s. flush_answers 0 (replicate (length xs) 200 @ [code]) (on_event ''online'' s))"
  shows "sent ((attempt ^^ n) s) = sent s @ concat (replicate n xs)
    \<and> offline_queue ((attempt ^^ n) s) = Some (xs @ c # ys) \<and> flights ((attempt ^^ n) s) = []"
proof -
  have step: "sent (attempt t) = sent t @ xs \<and> offline_queue (attempt t) = Some (xs @ c # ys) \<and> flights (attempt t) = []"
    if t: "flights t = []" "offline_queue t = Some (xs @ c # ys)" for t
  proof -
    have w: "waiting t = xs @ c # ys" "xs @ c # ys \<noteq> []" using t(2) by (simp_all add: waiting_def)
    note o = online_flight [OF t(1) w]
    note p = flush_prefix [OF o(1)]
    have a: "attempt t = flush_answered 0 code (flush_answers 0 (replicate (length xs) 200) (on_event ''online'' t))"
      by (simp add: attempt_def flush_answers_append) (simp add: flush_answers_def)
    show ?thesis unfolding a using p o(2,3) assms(1) by (simp add: flush_answered_def Let_def)
  qed
  show "sent ((attempt ^^ n) s) = sent s @ concat (replicate n xs)
      \<and> offline_queue ((attempt ^^ n) s) = Some (xs @ c # ys) \<and> flights ((attempt ^^ n) s) = []"
  proof (induction n)
    case 0
    then show ?case using assms(2,3) by simp
  next
    case (Suc n)
    have "concat (replicate n xs) @ xs = concat (replicate (Suc n) xs)" by (induction n) simp_all
    then show ?case using step [of "(attempt ^^ n) s"] Suc by (simp del: replicate.simps)
  qed
qed

theorem rejected_write_blocks_witness:
  "sent (((\<lambda>s. flush_answers 0 [200, 472] (on_event ''online'' s)) ^^ 2)
     (fresh_client\<lparr>offline_queue := Some [Many [], One (OpRemove, \<lparr>uri = ''d:x'', props = []\<rparr>), Many []]\<rparr>)) = [Many [], Many []]"
  using rejected_write_blocks [of 472 "fresh_client\<lparr>offline_queue := Some [Many [], One (OpRemove, \<lparr>uri = ''d:x'', props = []\<rparr>), Many []]\<rparr>"
      "[Many []]" "One (OpRemove, \<lparr>uri = ''d:x'', props = []\<rparr>)" "[Many []]" 2]
  by (simp add: fresh_client_def numeral_2_eq_2)

text \<open>A write that is queued while the last call of a flush waits for its answer is resolved, removed
  with the queue when that answer comes, and never sent.\<close>

lemma write_during_flush_lost:
  fixes d :: call
  assumes "flights s = [[c]]" and "unreachable code"
  defines "s' \<equiv> flush_answered 0 200 (snd (put_call d code s))"
  shows "fst (put_call d code s) = None \<and> waiting s' = [] \<and> flights s' = [] \<and> sent s' = sent s @ [c]"
  using write_offline [OF assms(2), of d s] assms(1)
  by (simp_all add: s'_def flush_answered_def Let_def waiting_def)

lemma write_during_flush_lost_witness:
  "sent (flush_answered 0 200 (snd (put_call (One (OpRemove, \<lparr>uri = ''d:x'', props = []\<rparr>)) 0
     (fresh_client\<lparr>flights := [[Many []]], offline_queue := Some [Many []]\<rparr>)))) = [Many []]"
  using write_during_flush_lost [of "fresh_client\<lparr>flights := [[Many []]], offline_queue := Some [Many []]\<rparr>" "Many []" 0
      "One (OpRemove, \<lparr>uri = ''d:x'', props = []\<rparr>)"]
  by (simp add: fresh_client_def unreachable_def)

section \<open>Reads from the local database\<close>

lemma fill_map:
  "length rs = length (filter (\<lambda>u. f u = None) us) \<Longrightarrow>
   (\<And>i. i < length rs \<Longrightarrow> rs ! i = g (filter (\<lambda>u. f u = None) us ! i)) \<Longrightarrow>
   fill (map f us) rs = map (\<lambda>u. Some (case f u of Some x \<Rightarrow> x | None \<Rightarrow> g u)) us"
proof (induction us arbitrary: rs)
  case Nil
  then show ?case by simp
next
  case (Cons u us)
  show ?case
  proof (cases "f u")
    case None
    with Cons.prems(1) obtain r rs' where rs: "rs = r # rs'" by (cases rs) auto
    have "r = g u" using Cons.prems(2) [of 0] None rs by simp
    moreover have "rs' ! i = g (filter (\<lambda>u. f u = None) us ! i)" if "i < length rs'" for i
      using Cons.prems(2) [of "Suc i"] None rs that by simp
    ultimately show ?thesis using Cons.IH [of rs'] Cons.prems(1) None rs by simp
  next
    case (Some x)
    then have IH: "fill (map f us) rs = map (\<lambda>u. Some (case f u of Some x \<Rightarrow> x | None \<Rightarrow> g u)) us"
      using Cons.IH [of rs] Cons.prems by simp
    show ?thesis
    proof (cases rs)
      case Nil
      with IH show ?thesis using Some by simp
    next
      case (Cons r rs')
      with IH show ?thesis using Some by simp
    qed
  qed
qed

lemma trimmed_full: "trimmed (map Some xs) = map Some xs"
proof -
  have "dropWhile (\<lambda>x. x = None) (rev (map Some xs)) = rev (map Some xs)" by (cases "rev xs") (auto simp: rev_map)
  then show ?thesis by (simp add: trimmed_def rev_map)
qed

lemma db_put_all: "db (foldl (\<lambda>s i. db_put i s) s is) = foldl (\<lambda>d i. oset (uri i) i d) (db s) is"
  by (induction "is" arbitrary: s) (simp_all add: db_put_def)

lemma oset_all_get:
  "oget (foldl (\<lambda>d i. oset (uri i) i d) d (map g us)) u
     = (if \<exists>v \<in> set us. uri (g v) = u then Some (g (last (filter (\<lambda>v. uri (g v) = u) us))) else oget d u)"
  by (induction us rule: rev_induct) auto

text \<open>Reading several individuals with the local database first gives, when the server answers every
  request, for each id in its place what the database holds or else the server's answer, and
  afterwards the database holds all of them.\<close>

lemma individuals_in_order:
  assumes "cache_first s" and "\<And>u. uri (g u) = u" and "\<And>ms. ask ms = Answered (map g ms)"
  defines "f \<equiv> (\<lambda>u. case oget (db s) u of Some i \<Rightarrow> i | None \<Rightarrow> g u)"
  shows "fst (get_individuals us ask s) = Inr (map (\<lambda>u. Some (f u)) us)
    \<and> (\<forall>u \<in> set us. oget (db (snd (get_individuals us ask s))) u = Some (f u))"
proof (intro conjI ballI)
  let ?ms = "missing_uris s us"
  have full: "fill (map (oget (db s)) us) (map g ?ms) = map Some (map f us)"
    using fill_map [of "map g ?ms" "oget (db s)" us g] by (simp add: missing_uris_def f_def o_def)
  have none: "map (oget (db s)) us = map Some (map f us)" if "?ms = []"
  proof -
    have "oget (db s) u = Some (f u)" if "u \<in> set us" for u
      using \<open>?ms = []\<close> that by (auto simp: missing_uris_def filter_empty_conv f_def)
    then show ?thesis by simp
  qed
  show "fst (get_individuals us ask s) = Inr (map (\<lambda>u. Some (f u)) us)"
  proof (cases "?ms = []")
    case True
    have "fst (get_individuals us ask s) = Inr (trimmed (map (oget (db s)) us))"
      using assms(1) True by (simp add: get_individuals_def Let_def)
    then show ?thesis unfolding none [OF True] trimmed_full by simp
  next
    case False
    have "fst (get_individuals us ask s) = Inr (trimmed (fill (map (oget (db s)) us) (map g ?ms)))"
      using assms(1) False by (simp add: get_individuals_def Let_def assms(3))
    then show ?thesis unfolding full trimmed_full by simp
  qed
  fix u assume u: "u \<in> set us"
  have "db (snd (get_individuals us ask s)) = foldl (\<lambda>d i. oset (uri i) i d) (db s) (map g ?ms)"
    using assms(1) by (simp add: get_individuals_def Let_def assms(3) db_put_all)
  moreover have "g (last (filter (\<lambda>v. v = u) ?ms)) = g u" if "u \<in> set ?ms"
  proof -
    have "filter (\<lambda>v. v = u) ?ms \<noteq> []" using that by (auto simp: filter_empty_conv)
    from last_in_set [OF this] show ?thesis by simp
  qed
  ultimately show "oget (db (snd (get_individuals us ask s))) u = Some (f u)"
    using u by (auto simp: oset_all_get assms(2) f_def missing_uris_def split: option.splits)
qed

lemma individuals_in_order_witness:
  "fst (get_individuals [''d:a'', ''d:b''] (\<lambda>ms. Answered (map (\<lambda>u. \<lparr>uri = u, props = []\<rparr>) ms))
     (db_put \<lparr>uri = ''d:b'', props = [(''p'', [])]\<rparr> fresh_client))
   = Inr [Some \<lparr>uri = ''d:a'', props = []\<rparr>, Some \<lparr>uri = ''d:b'', props = [(''p'', [])]\<rparr>]"
  using individuals_in_order [of "db_put \<lparr>uri = ''d:b'', props = [(''p'', [])]\<rparr> fresh_client" "\<lambda>u. \<lparr>uri = u, props = []\<rparr>"
      "\<lambda>ms. Answered (map (\<lambda>u. \<lparr>uri = u, props = []\<rparr>) ms)" "[''d:a'', ''d:b'']"]
  by (simp add: cache_first_def db_put_def fresh_client_def)

end
