(* ===== verification/Update_Service.thy ===== *)
theory Update_Service
  imports Individual_Model
begin

text \<open>
  The subscription to changes of individuals: the client (\<^verbatim>\<open>public/js/browser/update_service.js\<close>)
  and the part of the server that answers it (\<^verbatim>\<open>source/veda-ccus/src/server.rs\<close>), with the
  texts they exchange. Time is a sequence of steps: a load that answers, the timer that fires, a
  socket that opens or closes.
\<close>

section \<open>The client\<close>

text \<open>\<open>sub_update\<close> is the counter of the individual, \<open>None\<close> for NaN.\<close>

record usub =
  sub_count :: int
  sub_update :: "int option"
  sub_action :: bool

text \<open>
  \<open>loads\<close> are the subscriptions that wait for their individual. A timer belongs to the socket
  (by number) that started it. \<open>outbox\<close> are the texts sent over the present socket, \<open>called\<close> and
  \<open>resets\<close> what the messages have caused.
\<close>

record usvc =
  subs :: "usub obj"
  loads :: "(string \<times> bool) list"
  buffer :: "string list"
  timer :: "nat option"
  socket :: nat
  is_open :: bool
  outbox :: "string list"
  called :: "(string \<times> int option) list"
  resets :: "string list"

definition new_service :: usvc where
  "new_service =
     \<lparr>subs = [], loads = [], buffer = [], timer = None, socket = 0, is_open = False, outbox = [], called = [],
      resets = []\<rparr>"

definition sendMessage :: "string \<Rightarrow> usvc \<Rightarrow> usvc" where
  "sendMessage msg s =
     (if msg = ''='' \<or> msg = ''-*'' \<or> starts_with ''ccus'' msg
      then (if is_open s then s\<lparr>outbox := outbox s @ [msg]\<rparr> else s)
      else (let s1 = s\<lparr>buffer := buffer s @ [msg]\<rparr>
            in if timer s1 = None then s1\<lparr>timer := Some (socket s1)\<rparr> else s1))"

definition timer_fires :: "usvc \<Rightarrow> usvc" where
  "timer_fires s =
     (case timer s of
        None \<Rightarrow> s
      | Some k \<Rightarrow>
          s\<lparr>outbox := outbox s @ (if k = socket s \<and> is_open s then [join '','' (buffer s)] else []),
            buffer := [], timer := None\<rparr>)"

definition counter_text :: "int option \<Rightarrow> string" where
  "counter_text c = (case c of None \<Rightarrow> ''NaN'' | Some n \<Rightarrow> show_int n)"

definition plus_message :: "string \<Rightarrow> int option \<Rightarrow> string" where
  "plus_message u c = ''+'' @ u @ ''='' @ counter_text c"

definition subscribe :: "string \<Rightarrow> bool \<Rightarrow> usvc \<Rightarrow> usvc" where
  "subscribe u action s =
     (case oget (subs s) u of
        Some x \<Rightarrow> s\<lparr>subs := oset u (x\<lparr>sub_count := sub_count x + 1\<rparr>) (subs s)\<rparr>
      | None \<Rightarrow> s\<lparr>loads := loads s @ [(u, action)]\<rparr>)"

text \<open>The \<open>k\<close>-th waiting subscription gets its individual with this counter.\<close>

definition sub_loaded :: "nat \<Rightarrow> int option \<Rightarrow> usvc \<Rightarrow> usvc" where
  "sub_loaded k c s =
     (if k < length (loads s)
      then (let (u, action) = loads s ! k;
                s1 = s\<lparr>loads := take k (loads s) @ drop (Suc k) (loads s),
                       subs := oset u \<lparr>sub_count = 1, sub_update = c, sub_action = action\<rparr> (subs s)\<rparr>
            in sendMessage (plus_message u c) s1)
      else s)"

definition unsubscribe :: "string \<Rightarrow> usvc \<Rightarrow> usvc" where
  "unsubscribe u s =
     (if u = [] then sendMessage ''-*'' (s\<lparr>subs := []\<rparr>)
      else (case oget (subs s) u of
              Some x \<Rightarrow>
                (if sub_count x > 1 then s\<lparr>subs := oset u (x\<lparr>sub_count := sub_count x - 1\<rparr>) (subs s)\<rparr>
                 else sendMessage (''-'' @ u) (s\<lparr>subs := odel u (subs s)\<rparr>))
            | None \<Rightarrow> sendMessage (''-'' @ u) s))"

definition restore :: "usvc \<Rightarrow> usvc" where
  "restore s = foldl (\<lambda>s (u, x). sendMessage (plus_message u (sub_update x)) s) (sendMessage ''-*'' s) (subs s)"

definition socket_created :: "usvc \<Rightarrow> usvc" where
  "socket_created s = s\<lparr>socket := Suc (socket s), is_open := False, outbox := []\<rparr>"

definition socket_opened :: "string \<Rightarrow> usvc \<Rightarrow> usvc" where
  "socket_opened ticket s = restore (sendMessage (''ccus='' @ ticket) (s\<lparr>is_open := True\<rparr>))"

definition socket_closed :: "usvc \<Rightarrow> usvc" where
  "socket_closed s = s\<lparr>is_open := False\<rparr>"

text \<open>
  One change. \<open>known u c\<close> says that the individual has this counter already. A change of an
  individual that is not in the list is a TypeError, caught.
\<close>

definition receive_change :: "(string \<Rightarrow> int option \<Rightarrow> bool) \<Rightarrow> usvc \<Rightarrow> string \<Rightarrow> usvc" where
  "receive_change known s item =
     (let tmp = split_on (CHR ''='') item; u = hd tmp;
          c = (case tl tmp of [] \<Rightarrow> None | t # _ \<Rightarrow> parse_int_str True t)
      in if u = [] \<or> known u c then s
         else (case oget (subs s) u of
                 None \<Rightarrow> s
               | Some x \<Rightarrow>
                   (let s1 = s\<lparr>subs := oset u (x\<lparr>sub_update := c\<rparr>) (subs s)\<rparr>
                    in if sub_action x then s1\<lparr>called := called s1 @ [(u, c)]\<rparr>
                       else if c \<noteq> Some 0 then s1\<lparr>resets := resets s1 @ [u]\<rparr> else s1)))"

definition receiveMessage :: "(string \<Rightarrow> int option \<Rightarrow> bool) \<Rightarrow> string \<Rightarrow> usvc \<Rightarrow> usvc" where
  "receiveMessage known msg s =
     (let uris = (if starts_with ''='' msg then tl msg else msg)
      in if uris = [] then s else foldl (receive_change known) s (split_on (CHR '','') uris))"

section \<open>The server\<close>

text \<open>Per URI the counter and the sessions that watch it.\<close>

type_synonym ccus_server = "(nat \<times> nat list) obj"

text \<open>\<open>stored u\<close> is the counter in the storage, negative if there is none.\<close>

definition srv_entry :: "string \<Rightarrow> ccus_server \<Rightarrow> nat \<times> nat list" where
  "srv_entry u srv = (case oget srv u of None \<Rightarrow> (0, []) | Some e \<Rightarrow> e)"

definition srv_subscribe :: "(string \<Rightarrow> int) \<Rightarrow> string \<Rightarrow> nat \<Rightarrow> ccus_server \<Rightarrow> nat \<times> ccus_server" where
  "srv_subscribe stored u sess srv =
     (let storage = (if oget srv u = None \<and> stored u \<ge> 0 then nat (stored u) else 0);
          (cnt, ss) = srv_entry u srv;
          ss' = (if sess \<in> set ss then ss else sess # ss);
          cnt' = (if storage > 0 then storage else cnt)
      in (cnt', oset u (cnt', ss') srv))"

definition srv_unsubscribe :: "string \<Rightarrow> nat \<Rightarrow> ccus_server \<Rightarrow> ccus_server" where
  "srv_unsubscribe u sess srv =
     (let (cnt, ss) = srv_entry u srv in oset u (cnt, filter (\<lambda>x. x \<noteq> sess) ss) srv)"

definition srv_unsubscribe_all :: "nat \<Rightarrow> bool \<Rightarrow> ccus_server \<Rightarrow> ccus_server" where
  "srv_unsubscribe_all sess clear_unused srv =
     (let srv1 = map (\<lambda>(u, cnt, ss). (u, cnt, filter (\<lambda>x. x \<noteq> sess) ss)) srv
      in if clear_unused then filter (\<lambda>(u, cnt, ss). ss \<noteq> []) srv1 else srv1)"

text \<open>\<open>get (1..)\<close>: nothing for the empty text or when the second byte continues a character.\<close>

definition rest_of_item :: "string \<Rightarrow> string option" where
  "rest_of_item s =
     (case s of [] \<Rightarrow> None
      | c # cs \<Rightarrow>
          (case cs of [] \<Rightarrow> Some [] | d # _ \<Rightarrow> if 128 \<le> (of_char d :: nat) \<and> (of_char d :: nat) < 192 then None else Some cs))"

definition parse_u64 :: "string \<Rightarrow> nat option" where
  "parse_u64 s =
     (let d = (case s of [] \<Rightarrow> [] | c # cs \<Rightarrow> if c = CHR ''+'' then cs else s)
      in if all_digits d \<and> read_digits 0 d < 2 ^ 64 then Some (read_digits 0 d) else None)"

text \<open>One item of a message: the new state, what to tell the client, and whether to go on.\<close>

definition srv_item ::
  "(string \<Rightarrow> int) \<Rightarrow> nat \<Rightarrow> string \<Rightarrow> ccus_server \<Rightarrow> ccus_server \<times> (string \<times> nat) list \<times> bool" where
  "srv_item stored sess item srv =
     (case split_on (CHR ''='') item of
        [a, b] \<Rightarrow>
          (if a = ''ccus'' then (srv, [], False)
           else (case rest_of_item a of
                   None \<Rightarrow> (srv, [], True)
                 | Some u \<Rightarrow>
                     (let c = (case parse_u64 b of None \<Rightarrow> 0 | Some n \<Rightarrow> n);
                          (reg, srv1) = srv_subscribe stored u sess srv
                      in (srv1, if reg > c \<or> reg = 0 then [(u, reg)] else [], True))))
      | [a] \<Rightarrow>
          (case rest_of_item a of
             None \<Rightarrow> (srv, [], True)
           | Some u \<Rightarrow> (if u = ''*'' then srv_unsubscribe_all sess False srv else srv_unsubscribe u sess srv, [], True))
      | _ \<Rightarrow> (srv, [], True))"

fun srv_items ::
  "(string \<Rightarrow> int) \<Rightarrow> nat \<Rightarrow> string list \<Rightarrow> ccus_server \<Rightarrow> ccus_server \<times> (string \<times> nat) list" where
  "srv_items stored sess [] srv = (srv, [])"
| "srv_items stored sess (x # xs) srv =
     (case srv_item stored sess x srv of
        (srv1, out, go_on) \<Rightarrow>
          (if go_on then (case srv_items stored sess xs srv1 of (srv2, out') \<Rightarrow> (srv2, out @ out')) else (srv1, out)))"

definition changes_text :: "(string \<times> nat) list \<Rightarrow> string" where
  "changes_text cs = join '','' (map (\<lambda>(u, n). u @ ''='' @ show_nat n) cs)"

text \<open>The answer is sent unless it is empty.\<close>

definition prepare_command :: "(string \<Rightarrow> int) \<Rightarrow> nat \<Rightarrow> string \<Rightarrow> ccus_server \<Rightarrow> ccus_server \<times> string option" where
  "prepare_command stored sess msg srv =
     (case srv_items stored sess (split_on (CHR '','') msg) srv of
        (srv1, out) \<Rightarrow> (srv1, if out = [] then None else Some (changes_text out)))"

text \<open>An individual has changed: the sessions to tell.\<close>

definition prepare_queue_el :: "string \<Rightarrow> nat \<Rightarrow> ccus_server \<Rightarrow> ccus_server \<times> nat list" where
  "prepare_queue_el u n srv =
     (case oget srv u of None \<Rightarrow> (srv, []) | Some (cnt, ss) \<Rightarrow> (oset u (n, ss) srv, ss))"

end
