(* ===== verification/Update_Props.thy ===== *)
theory Update_Props
  imports Update_Service
begin

text \<open>
  Client and server of the subscription agree: the list of the client counts its subscribers, and
  after the buffered messages have arrived the server watches exactly the listed individuals.
  Overlapping loads and a cancellation of all subscriptions break that.
\<close>

section \<open>The texts\<close>

text \<open>A URI that the texts can carry.\<close>

definition safe_uri :: "string \<Rightarrow> bool" where
  "safe_uri u \<longleftrightarrow>
     u \<noteq> [] \<and> u \<noteq> ''*'' \<and> CHR '','' \<notin> set u \<and> CHR ''='' \<notin> set u
     \<and> \<not> (128 \<le> (of_char (hd u) :: nat) \<and> (of_char (hd u) :: nat) < 192)"

lemma digits_plain:
  "c \<in> set (show_nat n) \<Longrightarrow> 48 \<le> (of_char c :: nat) \<and> (of_char c :: nat) \<le> 57"
  using show_nat_list_all [of n]
  by (auto simp: list_all_iff char_digit_def Let_def split: if_splits)

lemma counter_text_plain: "CHR '','' \<notin> set (counter_text c) \<and> CHR ''='' \<notin> set (counter_text c)"
proof -
  have n: "CHR '','' \<notin> set (show_nat n) \<and> CHR ''='' \<notin> set (show_nat n)" for n
    using digits_plain [of "CHR '',''" n] digits_plain [of "CHR ''=''" n] by auto
  show ?thesis using n by (auto simp: counter_text_def show_int_def split: option.splits)
qed

lemma split_join:
  "list_all (\<lambda>x. c \<notin> set x) xs \<Longrightarrow> xs \<noteq> [] \<Longrightarrow> split_on c (join [c] xs) = xs"
proof (induction "[c]" xs rule: join.induct)
  case (3 x y xs)
  then show ?case by (simp add: split_on_append)
qed (simp_all add: split_on_none)

section \<open>What a message does to the server\<close>

definition watch :: "ccus_server \<Rightarrow> nat \<Rightarrow> string set" where
  "watch srv sess = {u. sess \<in> set (snd (srv_entry u srv))}"

lemma watch_set: "watch (oset u (n, ss) srv) sess = (if sess \<in> set ss then insert u (watch srv sess) else watch srv sess - {u})"
  by (auto simp: watch_def srv_entry_def split: if_splits)

lemma watch_subscribe: "watch (snd (srv_subscribe stored u sess srv)) sess = insert u (watch srv sess)"
  by (simp add: srv_subscribe_def Let_def case_prod_beta watch_set)

lemma watch_unsubscribe: "watch (srv_unsubscribe u sess srv) sess = watch srv sess - {u}"
  by (simp add: srv_unsubscribe_def Let_def case_prod_beta watch_set)

lemma watch_unsubscribe_all: "watch (srv_unsubscribe_all sess False srv) sess = {}"
proof -
  have "sess \<notin> set (snd (srv_entry u (map (\<lambda>(u, cnt, ss). (u, cnt, filter (\<lambda>x. x \<noteq> sess) ss)) srv)))" for u
    by (induction srv) (auto simp: srv_entry_def)
  then show ?thesis by (auto simp: srv_unsubscribe_all_def Let_def watch_def)
qed

text \<open>The messages of the buffer.\<close>

definition is_item :: "string \<Rightarrow> bool" where
  "is_item m \<longleftrightarrow> (\<exists>u. safe_uri u \<and> ((\<exists>c. m = plus_message u c) \<or> m = CHR ''-'' # u))"

definition effect :: "string \<Rightarrow> string set \<Rightarrow> string set" where
  "effect m W =
     (if hd m = CHR ''+'' then insert (takeWhile (\<lambda>c. c \<noteq> CHR ''='') (tl m)) W else W - {tl m})"

lemma safe_rest: "safe_uri u \<Longrightarrow> rest_of_item (c # u) = Some u"
  by (auto simp: safe_uri_def rest_of_item_def split: list.splits)

lemma effect_plus: "safe_uri u \<Longrightarrow> effect (plus_message u c) W = insert u W"
proof -
  assume "safe_uri u"
  then have "\<forall>x \<in> set u. x \<noteq> CHR ''=''" by (auto simp: safe_uri_def)
  then have "takeWhile (\<lambda>c. c \<noteq> CHR ''='') (u @ CHR ''='' # counter_text c) = u"
    by (simp add: takeWhile_append)
  then show ?thesis by (simp add: effect_def plus_message_def)
qed

lemma effect_minus: "effect (CHR ''-'' # u) W = W - {u}"
  by (simp add: effect_def)

lemma srv_item_plus:
  assumes "safe_uri u"
  shows "watch (fst (srv_item stored sess (plus_message u c) srv)) sess = insert u (watch srv sess)"
    and "snd (snd (srv_item stored sess (plus_message u c) srv))"
proof -
  have "CHR ''='' \<notin> set (CHR ''+'' # u)" using assms by (auto simp: safe_uri_def)
  then have "split_on (CHR ''='') (plus_message u c) = [CHR ''+'' # u, counter_text c]"
    using split_on_append [of "CHR ''=''" "CHR ''+'' # u" "counter_text c"] counter_text_plain [of c]
    by (simp add: plus_message_def split_on_none)
  then show "watch (fst (srv_item stored sess (plus_message u c) srv)) sess = insert u (watch srv sess)"
    and "snd (snd (srv_item stored sess (plus_message u c) srv))"
    using watch_subscribe [of stored u sess srv]
    by (simp_all add: srv_item_def safe_rest [OF assms] Let_def case_prod_beta)
qed

lemma srv_item_minus:
  assumes "safe_uri u"
  shows "srv_item stored sess (CHR ''-'' # u) srv = (srv_unsubscribe u sess srv, [], True)"
proof -
  have "split_on (CHR ''='') (CHR ''-'' # u) = [CHR ''-'' # u]"
    using assms by (intro split_on_none) (auto simp: safe_uri_def)
  moreover have "u \<noteq> ''*''" using assms by (simp add: safe_uri_def)
  ultimately show ?thesis by (simp add: srv_item_def safe_rest [OF assms])
qed

lemma srv_item_effect:
  "is_item m \<Longrightarrow> watch (fst (srv_item stored sess m srv)) sess = effect m (watch srv sess)
     \<and> snd (snd (srv_item stored sess m srv))"
  by (auto simp: is_item_def srv_item_plus srv_item_minus effect_plus effect_minus watch_unsubscribe)

lemma srv_items_effect:
  "list_all is_item ms \<Longrightarrow>
   watch (fst (srv_items stored sess ms srv)) sess = foldl (\<lambda>W m. effect m W) (watch srv sess) ms"
proof (induction ms arbitrary: srv)
  case (Cons m ms)
  obtain srv1 out go where i: "srv_item stored sess m srv = (srv1, out, go)" by (metis prod_cases3)
  then have "watch srv1 sess = effect m (watch srv sess)" and go: "go"
    using srv_item_effect [of m stored sess srv] Cons.prems by auto
  with Cons i show ?case by (simp add: case_prod_beta)
qed simp

lemma item_no_comma: "is_item m \<Longrightarrow> CHR '','' \<notin> set m"
  using counter_text_plain by (auto simp: is_item_def plus_message_def safe_uri_def)

lemma command_effect:
  assumes "list_all is_item ms" and "ms \<noteq> []"
  shows "watch (fst (prepare_command stored sess (join '','' ms) srv)) sess
    = foldl (\<lambda>W m. effect m W) (watch srv sess) ms"
proof -
  have "list_all (\<lambda>x. CHR '','' \<notin> set x) ms" using assms(1) item_no_comma by (auto simp: list_all_iff)
  then show ?thesis
    using srv_items_effect [OF assms(1)] split_join [OF _ assms(2)] by (simp add: prepare_command_def case_prod_beta)
qed

section \<open>Subscribers\<close>

text \<open>A client whose loads answer at once.\<close>

datatype sub_op = Sub string bool "int option" | Unsub string

definition run_op :: "usvc \<Rightarrow> sub_op \<Rightarrow> usvc" where
  "run_op s x =
     (case x of
        Sub u action c \<Rightarrow> (let s1 = subscribe u action s in if loads s1 = [] then s1 else sub_loaded 0 c s1)
      | Unsub u \<Rightarrow> unsubscribe u s)"

definition op_uri :: "sub_op \<Rightarrow> string" where
  "op_uri x = (case x of Sub u a c \<Rightarrow> u | Unsub u \<Rightarrow> u)"

text \<open>Who should be subscribed.\<close>

definition holders :: "sub_op list \<Rightarrow> string \<Rightarrow> nat" where
  "holders xs u =
     foldl (\<lambda>n x. case x of Sub v a c \<Rightarrow> if v = u then n + 1 else n | Unsub v \<Rightarrow> if v = u then n - 1 else n) 0 xs"

definition agrees :: "string set \<Rightarrow> (string \<Rightarrow> nat) \<Rightarrow> usvc \<Rightarrow> bool" where
  "agrees W h s \<longleftrightarrow>
     loads s = [] \<and> list_all is_item (buffer s)
     \<and> (timer s = (if buffer s = [] then None else Some (socket s)))
     \<and> foldl (\<lambda>W m. effect m W) W (buffer s) = {u. h u > 0}
     \<and> (\<forall>u. case oget (subs s) u of None \<Rightarrow> h u = 0 | Some x \<Rightarrow> h u > 0 \<and> sub_count x = int (h u))"

lemma send_item:
  assumes "is_item m"
  shows "sendMessage m s = s\<lparr>buffer := buffer s @ [m], timer := (if timer s = None then Some (socket s) else timer s)\<rparr>"
proof -
  have "hd m = CHR ''+'' \<or> hd m = CHR ''-''" and "m \<noteq> []"
    using assms by (auto simp: is_item_def plus_message_def)
  then have "\<not> starts_with ''ccus'' m" and "m \<noteq> ''=''" by (cases m; auto)+
  moreover have "m \<noteq> ''-*''" using assms by (auto simp: is_item_def safe_uri_def plus_message_def)
  ultimately show ?thesis by (simp add: sendMessage_def Let_def)
qed

lemma agrees_send:
  assumes "agrees W h s" and "is_item m"
    and "\<And>u. case oget us u of None \<Rightarrow> h' u = 0 | Some x \<Rightarrow> h' u > 0 \<and> sub_count x = int (h' u)"
    and "effect m {u. h u > 0} = {u. h' u > 0}"
  shows "agrees W h' (sendMessage m (s\<lparr>subs := us\<rparr>))"
  using assms unfolding agrees_def send_item [OF assms(2)] by (auto split: if_splits)

lemma agrees_put:
  assumes "agrees W h s" and "{u. h' u > 0} = {u. h u > 0}"
    and "\<And>u. case oget us u of None \<Rightarrow> h' u = 0 | Some x \<Rightarrow> h' u > 0 \<and> sub_count x = int (h' u)"
  shows "agrees W h' (s\<lparr>subs := us\<rparr>)"
  using assms by (simp add: agrees_def)

lemma run_op_agrees:
  assumes "agrees W h s" and "safe_uri (op_uri x)"
  defines "h' \<equiv> (\<lambda>u. case x of Sub v a c \<Rightarrow> if v = u then h u + 1 else h u | Unsub v \<Rightarrow> if v = u then h u - 1 else h u)"
  shows "agrees W h' (run_op s x) \<and> outbox (run_op s x) = outbox s \<and> is_open (run_op s x) = is_open s"
proof -
  have l: "loads s = []" and rel: "\<And>u. case oget (subs s) u of None \<Rightarrow> h u = 0 | Some x \<Rightarrow> h u > 0 \<and> sub_count x = int (h u)"
    using assms(1) by (auto simp: agrees_def)
  show ?thesis
  proof (cases x)
    case (Sub v a c)
    then have v: "safe_uri v" using assms(2) by (simp add: op_uri_def)
    then have it: "is_item (plus_message v c)" by (auto simp: is_item_def)
    show ?thesis
    proof (cases "oget (subs s) v")
      case None
      let ?us = "oset v \<lparr>sub_count = 1, sub_update = c, sub_action = a\<rparr> (subs s)"
      have r: "run_op s x = sendMessage (plus_message v c) (s\<lparr>subs := ?us\<rparr>)"
      proof -
        have e: "s\<lparr>loads := [], subs := ?us\<rparr> = s\<lparr>subs := ?us\<rparr>" using l by (cases s) simp
        have "run_op s x = sendMessage (plus_message v c) (s\<lparr>loads := [], subs := ?us\<rparr>)"
          using None l Sub by (simp add: run_op_def subscribe_def sub_loaded_def Let_def)
        then show ?thesis unfolding e .
      qed
      have "agrees W h' (run_op s x)" unfolding r
      proof (rule agrees_send [OF assms(1) it])
        show "case oget ?us u of None \<Rightarrow> h' u = 0 | Some x \<Rightarrow> h' u > 0 \<and> sub_count x = int (h' u)" for u
          using rel [of u] rel [of v] None by (cases "u = v") (auto simp: h'_def Sub split: option.splits)
        show "effect (plus_message v c) {u. h u > 0} = {u. h' u > 0}"
          using effect_plus [OF v] by (auto simp: h'_def Sub)
      qed
      then show ?thesis by (simp add: r send_item [OF it])
    next
      case (Some y)
      have r: "run_op s x = s\<lparr>subs := oset v (y\<lparr>sub_count := sub_count y + 1\<rparr>) (subs s)\<rparr>"
        using Some l Sub by (simp add: run_op_def subscribe_def Let_def)
      have "h v > 0" using rel [of v] Some by simp
      then have "{u. h' u > 0} = {u. h u > 0}" by (auto simp: h'_def Sub)
      then have "agrees W h' (run_op s x)" unfolding r
      proof (rule agrees_put [OF assms(1)])
        show "case oget (oset v (y\<lparr>sub_count := sub_count y + 1\<rparr>) (subs s)) u of
            None \<Rightarrow> h' u = 0 | Some x \<Rightarrow> h' u > 0 \<and> sub_count x = int (h' u)" for u
          using rel [of u] Some by (cases "u = v") (auto simp: h'_def Sub split: option.splits)
      qed
      then show ?thesis by (simp add: r)
    qed
  next
    case (Unsub v)
    then have v: "safe_uri v" using assms(2) by (simp add: op_uri_def)
    then have it: "is_item (CHR ''-'' # v)" and ne: "v \<noteq> []" by (auto simp: is_item_def safe_uri_def)
    show ?thesis
    proof (cases "h v > 1")
      case True
      then obtain y where y: "oget (subs s) v = Some y" "sub_count y = int (h v)" using rel [of v] by (auto split: option.splits)
      have r: "run_op s x = s\<lparr>subs := oset v (y\<lparr>sub_count := sub_count y - 1\<rparr>) (subs s)\<rparr>"
        using y True ne Unsub by (simp add: run_op_def unsubscribe_def)
      have "{u. h' u > 0} = {u. h u > 0}" using True by (auto simp: h'_def Unsub split: if_splits)
      then have "agrees W h' (run_op s x)" unfolding r
      proof (rule agrees_put [OF assms(1)])
        show "case oget (oset v (y\<lparr>sub_count := sub_count y - 1\<rparr>) (subs s)) u of
            None \<Rightarrow> h' u = 0 | Some x \<Rightarrow> h' u > 0 \<and> sub_count x = int (h' u)" for u
          using rel [of u] y True by (cases "u = v") (auto simp: h'_def Unsub of_nat_diff split: option.splits)
      qed
      then show ?thesis by (simp add: r)
    next
      case False
      then have r: "run_op s x = sendMessage (CHR ''-'' # v) (s\<lparr>subs := odel v (subs s)\<rparr>)"
      proof (cases "oget (subs s) v")
        case None
        then have "odel v (subs s) = subs s" by (simp add: delete_idem map_of_eq_None_iff)
        then show ?thesis using None ne Unsub by (simp add: run_op_def unsubscribe_def)
      next
        case (Some y)
        then have "\<not> sub_count y > 1" using rel [of v] False by simp
        then show ?thesis using Some ne Unsub by (simp add: run_op_def unsubscribe_def)
      qed
      have "agrees W h' (run_op s x)" unfolding r
      proof (rule agrees_send [OF assms(1) it])
        show "case oget (odel v (subs s)) u of None \<Rightarrow> h' u = 0 | Some x \<Rightarrow> h' u > 0 \<and> sub_count x = int (h' u)" for u
          using rel [of u] False by (auto simp: h'_def Unsub split: option.splits)
        show "effect (CHR ''-'' # v) {u. h u > 0} = {u. h' u > 0}"
          using False by (auto simp: effect_minus h'_def Unsub split: if_splits)
      qed
      then show ?thesis by (simp add: r send_item [OF it])
    qed
  qed
qed

lemma holders_snoc:
  "holders (xs @ [x]) = (\<lambda>u. case x of Sub v a c \<Rightarrow> if v = u then holders xs u + 1 else holders xs u
     | Unsub v \<Rightarrow> if v = u then holders xs u - 1 else holders xs u)"
  by (simp add: holders_def fun_eq_iff split: sub_op.split)

lemma run_ops_agree:
  "agrees W h0 s \<Longrightarrow> h0 = (\<lambda>_. 0) \<Longrightarrow> list_all (\<lambda>x. safe_uri (op_uri x)) xs \<Longrightarrow>
   agrees W (holders xs) (foldl run_op s xs) \<and> outbox (foldl run_op s xs) = outbox s
   \<and> is_open (foldl run_op s xs) = is_open s"
proof (induction xs rule: rev_induct)
  case Nil
  then show ?case by (simp add: holders_def)
next
  case (snoc x xs)
  then have "agrees W (holders xs) (foldl run_op s xs)" and o: "outbox (foldl run_op s xs) = outbox s"
    and p: "is_open (foldl run_op s xs) = is_open s" and x: "safe_uri (op_uri x)" by simp_all
  from run_op_agrees [OF this(1) x]
  show ?case using o p unfolding holders_snoc by simp
qed



section \<open>Changes\<close>

lemma no_sep_digits: "CHR '','' \<notin> set (show_nat n) \<and> CHR ''='' \<notin> set (show_nat n)"
  using digits_plain [of "CHR '',''" n] digits_plain [of "CHR ''=''" n] by auto

lemma change_parsed:
  assumes "safe_uri u"
  shows "receive_change known s (u @ ''='' @ show_nat n) =
    (if known u (Some (int n)) then s
     else (case oget (subs s) u of
             None \<Rightarrow> s
           | Some x \<Rightarrow>
               (let s1 = s\<lparr>subs := oset u (x\<lparr>sub_update := Some (int n)\<rparr>) (subs s)\<rparr>
                in if sub_action x then s1\<lparr>called := called s1 @ [(u, Some (int n))]\<rparr>
                   else if n \<noteq> 0 then s1\<lparr>resets := resets s1 @ [u]\<rparr> else s1)))"
proof -
  have "CHR ''='' \<notin> set u" using assms by (simp add: safe_uri_def)
  then have "split_on (CHR ''='') (u @ ''='' @ show_nat n) = [u, show_nat n]"
    using split_on_append [of "CHR ''=''" u "show_nat n"] no_sep_digits [of n] by (simp add: split_on_none)
  then show ?thesis using assms
    by (simp add: receive_change_def Let_def parse_show_nat safe_uri_def split: option.splits)
qed

lemma receive_changes:
  assumes "cs \<noteq> []" and "list_all (\<lambda>(u, n). safe_uri u) cs" and "\<not> starts_with ''='' (changes_text cs)"
  shows "receiveMessage known (changes_text cs) s = foldl (\<lambda>s (u, n). receive_change known s (u @ ''='' @ show_nat n)) s cs"
proof -
  let ?ms = "map (\<lambda>(u, n). u @ ''='' @ show_nat n) cs"
  have "list_all (\<lambda>x. CHR '','' \<notin> set x) ?ms"
    using assms(2) no_sep_digits by (auto simp: list_all_iff safe_uri_def)
  then have sp: "split_on (CHR '','') (changes_text cs) = ?ms"
    using split_join [of "CHR '',''" ?ms] assms(1) by (simp add: changes_text_def)
  have "changes_text cs \<noteq> []"
  proof
    assume "changes_text cs = []"
    then have "?ms = [[]]" using sp by simp
    then show False by (cases cs) (auto simp: split: prod.splits)
  qed
  then show ?thesis
    using assms(3) by (simp add: receiveMessage_def Let_def sp foldl_map case_prod_unfold)
qed

text \<open>A change of an individual that a session watches reaches the client: the server names the session,
  and its text makes the client reset the individual (unless it has the counter already, or the
  subscriber has an action of its own, which is called instead) and note the new counter.\<close>

lemma change_arrives:
  assumes "safe_uri u" and "u \<in> watch srv sess" and "oget (subs s) u = Some x" and "\<not> known u (Some (int n))" and "n \<noteq> 0"
  defines "s' \<equiv> receiveMessage known (changes_text [(u, n)]) s"
  shows "sess \<in> set (snd (prepare_queue_el u n srv))
    \<and> resets s' = resets s @ (if sub_action x then [] else [u])
    \<and> called s' = called s @ (if sub_action x then [(u, Some (int n))] else [])
    \<and> oget (subs s') u = Some (x\<lparr>sub_update := Some (int n)\<rparr>)"
proof (intro conjI)
  show "sess \<in> set (snd (prepare_queue_el u n srv))"
    using assms(2) by (auto simp: watch_def srv_entry_def prepare_queue_el_def split: option.splits)
  have "\<not> starts_with ''='' (changes_text [(u, n)])"
    using assms(1) by (cases u) (auto simp: changes_text_def safe_uri_def)
  then have "s' = receive_change known s (u @ ''='' @ show_nat n)"
    using receive_changes [of "[(u, n)]" known s] assms(1) by (simp add: s'_def)
  then show "resets s' = resets s @ (if sub_action x then [] else [u])"
    and "called s' = called s @ (if sub_action x then [(u, Some (int n))] else [])"
    and "oget (subs s') u = Some (x\<lparr>sub_update := Some (int n)\<rparr>)"
    using assms(3-5) unfolding change_parsed [OF assms(1)] by (simp_all add: Let_def)
qed

lemma change_arrives_witness:
  "resets (receiveMessage (\<lambda>_ _. False) (changes_text [(''d:a'', 5)])
     (new_service\<lparr>subs := [(''d:a'', \<lparr>sub_count = 1, sub_update = Some 4, sub_action = False\<rparr>)]\<rparr>)) = [''d:a'']"
  using change_arrives [of "''d:a''" "[(''d:a'', 4, [1])]" 1
      "new_service\<lparr>subs := [(''d:a'', \<lparr>sub_count = 1, sub_update = Some 4, sub_action = False\<rparr>)]\<rparr>"
      "\<lparr>sub_count = 1, sub_update = Some 4, sub_action = False\<rparr>" "\<lambda>_ _. False" 5]
  by (simp add: safe_uri_def watch_def srv_entry_def new_service_def)

section \<open>Overlapping operations\<close>

text \<open>Two subscriptions of which the second comes before the first has its individual both wait for
  their load, and the list counts one. The first cancellation then ends the subscription for
  both: the client forgets the individual and ignores its changes.\<close>

lemma overlapping_loads:
  fixes c :: "int option"
  assumes "oget (subs s) u = None" and "loads s = []" and "safe_uri u"
  defines "s2 \<equiv> sub_loaded 0 c (sub_loaded 0 c (subscribe u False (subscribe u False s)))"
  shows "map_option sub_count (oget (subs s2) u) = Some 1
    \<and> oget (subs (unsubscribe u s2)) u = None
    \<and> receive_change known (unsubscribe u s2) (u @ ''='' @ show_nat n) = unsubscribe u s2"
proof (intro conjI)
  have it: "is_item (plus_message u c)" "is_item (CHR ''-'' # u)" using assms(3) by (auto simp: is_item_def)
  have s2: "oget (subs s2) u = Some \<lparr>sub_count = 1, sub_update = c, sub_action = False\<rparr>"
    using assms(1,2) by (simp add: s2_def subscribe_def sub_loaded_def Let_def send_item [OF it(1)])
  then show "map_option sub_count (oget (subs s2) u) = Some 1" by simp
  have "u \<noteq> []" using assms(3) by (simp add: safe_uri_def)
  then show gone: "oget (subs (unsubscribe u s2)) u = None"
    using s2 send_item [OF it(2)] by (simp add: unsubscribe_def)
  show "receive_change known (unsubscribe u s2) (u @ ''='' @ show_nat n) = unsubscribe u s2"
    unfolding change_parsed [OF assms(3)] gone by simp
qed

lemma overlapping_loads_witness:
  "map_option sub_count (oget (subs (sub_loaded 0 (Some 1) (sub_loaded 0 (Some 1)
     (subscribe ''d:a'' False (subscribe ''d:a'' False new_service))))) ''d:a'') = Some 1"
  using overlapping_loads [of new_service "''d:a''" "Some 1"] by (simp add: new_service_def safe_uri_def)

text \<open>
  The cancellation of all subscriptions overtakes the buffer: the server then watches an
  individual that the client has no subscription for.
\<close>

lemma cancel_all_overtakes:
  fixes c :: "int option"
  assumes "is_open s" and "subs s = []" and "loads s = []" and "buffer s = []" and "timer s = None" and "safe_uri u"
  defines "s' \<equiv> timer_fires (unsubscribe [] (run_op s (Sub u False c)))"
  shows "subs s' = []" and "outbox s' = outbox s @ [''-*'', plus_message u c]"
    and "u \<in> watch (foldl (\<lambda>srv m. fst (prepare_command stored sess m srv)) srv [''-*'', plus_message u c]) sess"
proof -
  have it: "is_item (plus_message u c)" using assms(6) by (auto simp: is_item_def)
  show "subs s' = []" and "outbox s' = outbox s @ [''-*'', plus_message u c]"
    using assms(1-5)
    by (simp_all add: s'_def run_op_def subscribe_def sub_loaded_def Let_def send_item [OF it] unsubscribe_def sendMessage_def
        timer_fires_def plus_message_def)
  show "u \<in> watch (foldl (\<lambda>srv m. fst (prepare_command stored sess m srv)) srv [''-*'', plus_message u c]) sess"
    using command_effect [of "[plus_message u c]" stored sess] it effect_plus [OF assms(6)] by simp
qed

text \<open>
  A socket that opens while a timer of the old socket runs loses its subscriptions: the timer
  sends to the old socket.
\<close>

lemma old_timer_loses_restore:
  fixes ticket :: string
  assumes "timer s = Some (socket s)" and "u \<noteq> []" and "subs s = [(u, x)]" and "safe_uri u"
  defines "s' \<equiv> timer_fires (socket_opened ticket (socket_created s))"
  shows "outbox s' = [''ccus='' @ ticket, ''-*'']" and "buffer s' = []"
proof -
  have it: "is_item (plus_message u (sub_update x))" using assms(4) by (auto simp: is_item_def)
  show "outbox s' = [''ccus='' @ ticket, ''-*'']" and "buffer s' = []"
    using assms(1,3)
    by (simp_all add: s'_def socket_opened_def socket_created_def restore_def send_item [OF it] timer_fires_def)
      (simp_all add: sendMessage_def plus_message_def)
qed

end
