(* ===== verification/Query_Builder.thy ===== *)
theory Query_Builder
  imports Individual_Model
begin

text \<open>
  The query builders of \<^verbatim>\<open>public/js/common/util.js\<close>: from an individual whose values are search
  criteria to a query of the full text index (\<^verbatim>\<open>queryFromIndividual\<close>) and of the tables
  (\<^verbatim>\<open>queryFromIndividualTT_SUB\<close>, \<^verbatim>\<open>queryFromIndividualTT_JOIN\<close>, \<^verbatim>\<open>queryInbox\<close>). A nested criterion
  is a new individual. \<open>None\<close> is an exception, which the table queries catch. The inner
  \<^verbatim>\<open>buildQuery\<close> of \<^verbatim>\<open>queryFromIndividualPT\<close> is never called there.
\<close>

section \<open>The surroundings\<close>

text \<open>
  What the individual with an id holds and whether it is new, the range of a property (\<open>None\<close>:
  unknown to the ontology), the begin and the end of a day of the local time, \<open>Date.parse\<close> and
  the text of a Date.
\<close>

record query_env =
  q_ind :: "string \<Rightarrow> individual"
  q_new :: "string \<Rightarrow> bool"
  q_range :: "string \<Rightarrow> val list option"
  q_start :: "int \<Rightarrow> int"
  q_end :: "int \<Rightarrow> int"
  q_parse :: "string \<Rightarrow> int"
  q_str :: "int \<Rightarrow> string"

section \<open>Texts\<close>

text \<open>\<open>replace (/[^a-zA-Z0-9]/g, '_')\<close>, per UTF-16 unit of the UTF-8 text.\<close>

fun norm_name :: "string \<Rightarrow> string" where
  "norm_name [] = []"
| "norm_name (c # cs) =
     (let n = of_char c :: nat
      in if is_lower c \<or> is_upper c \<or> is_digit c then c # norm_name cs
         else if n < 128 then CHR ''_'' # norm_name cs
         else if n < 192 then norm_name cs
         else if n < 240 then CHR ''_'' # norm_name cs
         else CHR ''_'' # CHR ''_'' # norm_name cs)"

text \<open>\<open>replace (/[-*\s]+/g, ' ')\<close>\<close>

fun blank_runs :: "bool \<Rightarrow> string \<Rightarrow> string" where
  "blank_runs inside [] = []"
| "blank_runs inside (c # cs) =
     (if c = CHR ''-'' \<or> c = CHR ''*'' \<or> is_space c
      then (if inside then blank_runs True cs else CHR '' '' # blank_runs True cs)
      else c # blank_runs False cs)"

definition line_words :: "string \<Rightarrow> string list" where
  "line_words line = split_on (CHR '' '') (blank_runs False (strip line))"

definition text_lines :: "string \<Rightarrow> string list" where
  "text_lines q = split_on (char_of (10 :: nat)) (strip q)"

text \<open>\<open>replace (/\'/g, "\\'")\<close>, then \<open>replace (/\"/g, "'")\<close>\<close>

fun escape_quotes :: "string \<Rightarrow> string" where
  "escape_quotes [] = []"
| "escape_quotes (c # cs) =
     (if c = CHR 0x27 then CHR 0x5C # CHR 0x27 # escape_quotes cs
      else if c = CHR 0x22 then CHR 0x27 # escape_quotes cs
      else c # escape_quotes cs)"

abbreviation quote :: string where "quote \<equiv> [CHR 0x27]"

definition like_cond :: "string \<Rightarrow> string \<Rightarrow> string" where
  "like_cond col line =
     ''arrayStringConcat('' @ col @ '', '' @ quote @ '' '' @ quote @ '') LIKE '' @ quote @ ''%''
     @ escape_quotes (join ''% %'' (line_words line)) @ ''%'' @ quote"

definition text_cond :: "string \<Rightarrow> string \<Rightarrow> string" where
  "text_cond col q = join '' OR '' (map (like_cond col) (text_lines q))"

section \<open>Sorting and grouping\<close>

definition word_char :: "char \<Rightarrow> bool" where
  "word_char c \<longleftrightarrow> is_lower c \<or> is_upper c \<or> is_digit c \<or> c = CHR ''_''"

text \<open>\<open>/'(.+?)'\s+(\w+)/\<close> after the opening quote: the name, the word and the rest.\<close>

fun close_clause :: "string \<Rightarrow> string \<Rightarrow> (string \<times> string \<times> string) option" where
  "close_clause acc [] = None"
| "close_clause acc (c # cs) =
     (let r = dropWhile is_space cs; w = takeWhile word_char r
      in if c = CHR 0x27 \<and> acc \<noteq> [] \<and> r \<noteq> cs \<and> w \<noteq> []
         then Some (rev acc, w, dropWhile word_char r)
         else if (of_char c :: nat) \<in> {10, 13} then None else close_clause (c # acc) cs)"

lemma close_clause_Cons:
  "close_clause acc (c # cs) = Some (p, d, rest) \<Longrightarrow>
   rest = dropWhile word_char (dropWhile is_space cs) \<or> close_clause (c # acc) cs = Some (p, d, rest)"
  by (simp only: close_clause.simps Let_def) (simp split: if_split_asm)

lemma close_clause_shorter: "close_clause acc s = Some (p, d, rest) \<Longrightarrow> length rest < length s"
proof (induction s arbitrary: acc)
  case (Cons c cs)
  consider "rest = dropWhile word_char (dropWhile is_space cs)" | "close_clause (c # acc) cs = Some (p, d, rest)"
    using close_clause_Cons [OF Cons.prems] by blast
  then show ?case
  proof cases
    case 1
    have "length rest \<le> length (dropWhile is_space cs)" unfolding 1 by (rule length_dropWhile_le)
    also have "\<dots> \<le> length cs" by (rule length_dropWhile_le)
    finally show ?thesis by simp
  next
    case 2
    then show ?thesis using Cons.IH [OF 2] by simp
  qed
qed simp

function replace_clauses :: "(string \<Rightarrow> string \<Rightarrow> string option) \<Rightarrow> string \<Rightarrow> string option" where
  "replace_clauses f [] = Some []"
| "replace_clauses f (c # cs) =
     (case (if c = CHR 0x27 then close_clause [] cs else None) of
        None \<Rightarrow> map_option (\<lambda>t. c # t) (replace_clauses f cs)
      | Some (p, d, rest) \<Rightarrow>
          (case f p d of None \<Rightarrow> None | Some x \<Rightarrow> map_option (\<lambda>t. x @ t) (replace_clauses f rest)))"
  by pat_completeness auto
termination
proof (relation "measure (\<lambda>(f, s). length s)", simp_all, goal_cases)
  case (1 c cs rest p d x)
  then show ?case by (auto dest: close_clause_shorter split: if_split_asm)
qed

definition range_suffix :: "query_env \<Rightarrow> string \<Rightarrow> string option" where
  "range_suffix env p =
     (case q_range env p of
        Some (v # _) \<Rightarrow>
          Some (if vtype v = TUri \<and> vdata v = DStr ''xsd:dateTime'' then ''date''
                else if vtype v = TUri \<and> vdata v \<in> {DStr ''xsd:boolean'', DStr ''xsd:integer''} then ''int''
                else if vtype v = TUri \<and> vdata v = DStr ''xsd:decimal'' then ''dec'' else ''str'')
      | _ \<Rightarrow> None)"

definition group_by :: "query_env \<Rightarrow> string option \<Rightarrow> string option" where
  "group_by env order =
     (case order of
        None \<Rightarrow> Some ''id''
      | Some s \<Rightarrow>
          (case replace_clauses (\<lambda>p d. map_option (\<lambda>x. norm_name p @ ''_'' @ x) (range_suffix env p)) s of
             None \<Rightarrow> None
           | Some t \<Rightarrow> Some (if t = [] then ''id'' else ''id, '' @ t)))"

text \<open>Without a sort the order is \<open>undefined\<close>: the empty text here.\<close>

definition order_by :: "query_env \<Rightarrow> string option \<Rightarrow> string option" where
  "order_by env order =
     (case order of
        None \<Rightarrow> Some []
      | Some s \<Rightarrow> replace_clauses (\<lambda>p d. map_option (\<lambda>x. norm_name p @ ''_'' @ x @ '' '' @ d) (range_suffix env p)) s)"

definition finish_query :: "query_env \<Rightarrow> string option \<Rightarrow> string \<Rightarrow> string option" where
  "finish_query env order query =
     (case (group_by env order, order_by env order) of
        (Some g, Some o') \<Rightarrow>
          Some (if query = [] then []
                else query @ '' GROUP BY '' @ g @ '' HAVING sum(sign) > 0'' @ (if o' = [] then [] else '' ORDER BY '' @ o'))
      | _ \<Rightarrow> None)"

section \<open>Conditions on one property\<close>

text \<open>\<open>a < b ? - 1 : a === b ? 0 : 1\<close>: Dates and String objects are never the same.\<close>

definition same_mval :: "mval \<Rightarrow> mval \<Rightarrow> bool" where
  "same_mval a b =
     (case (a, b) of
        (MDate _, _) \<Rightarrow> False | (MTextObj _ _, _) \<Rightarrow> False | (MNaN, _) \<Rightarrow> False
      | _ \<Rightarrow> loose_eq (mval_data a) (mval_data b) \<and> (is_MRef a \<longleftrightarrow> is_MRef b) \<and> (is_MBool a \<longleftrightarrow> is_MBool b))"

definition mval_greater :: "mval \<Rightarrow> mval \<Rightarrow> bool" where
  "mval_greater a b \<longleftrightarrow> \<not> any_less (mval_data a) (mval_data b) \<and> \<not> same_mval a b"

definition sorted_values :: "query_env \<Rightarrow> val list \<Rightarrow> mval list" where
  "sorted_values env vs = js_sort mval_greater (map (parser (q_str env) (q_parse env)) vs)"

definition mval_text :: "query_env \<Rightarrow> mval \<Rightarrow> string" where
  "mval_text env v = (case v of MDate t \<Rightarrow> q_str env t | _ \<Rightarrow> js_str (q_str env) (mval_data v))"

text \<open>\<open>new Date (v)\<close>\<close>

definition mval_time :: "query_env \<Rightarrow> mval \<Rightarrow> int" where
  "mval_time env v =
     (case v of
        MDate t \<Rightarrow> t | MNum n \<Rightarrow> n | MDec m e \<Rightarrow> sgn m * (\<bar>m\<bar> div 10 ^ e) | MBool b \<Rightarrow> (if b then 1 else 0)
      | MTextObj s l \<Rightarrow> q_parse env s | MText s \<Rightarrow> q_parse env s | MRef u \<Rightarrow> q_parse env u | _ \<Rightarrow> 0)"

definition mval_truthy :: "mval \<Rightarrow> bool" where
  "mval_truthy v =
     (case v of MDate t \<Rightarrow> True | MRef u \<Rightarrow> True | MTextObj s l \<Rightarrow> True | _ \<Rightarrow> truthy (mval_data v))"

definition between :: "string \<Rightarrow> string \<Rightarrow> string \<Rightarrow> string" where
  "between col lo hi = col @ '' >= '' @ lo @ '' AND '' @ col @ '' <= '' @ hi"

definition day_cond :: "query_env \<Rightarrow> string \<Rightarrow> mval \<Rightarrow> mval \<Rightarrow> string" where
  "day_cond env col lo hi =
     between col (''toDateTime('' @ show_int (q_start env (mval_time env lo) div 1000) @ '')'')
                 (''toDateTime('' @ show_int (q_end env (mval_time env hi) div 1000) @ '')'')"

definition text_of_mval :: "mval \<Rightarrow> string option" where
  "text_of_mval v = (case v of MTextObj s l \<Rightarrow> Some s | MText s \<Rightarrow> Some s | _ \<Rightarrow> None)"

text \<open>
  All but the individuals. \<open>switch (true)\<close> compares with \<open>Number.isFloat (v)\<close>, which is the
  fraction itself and never \<open>true\<close>: a number with a fraction gives no condition.
\<close>

definition whole_number :: "mval \<Rightarrow> bool" where
  "whole_number v = (case v of MNum n \<Rightarrow> True | MDec m e \<Rightarrow> m mod 10 ^ e = 0 | _ \<Rightarrow> False)"

fun all_texts :: "mval list \<Rightarrow> string list option" where
  "all_texts [] = Some []"
| "all_texts (v # vs) =
     (case (text_of_mval v, all_texts vs) of (Some s, Some ss) \<Rightarrow> Some (s # ss) | _ \<Rightarrow> None)"

definition plain_cond :: "query_env \<Rightarrow> string \<Rightarrow> mval list \<Rightarrow> string option" where
  "plain_cond env col vs =
     (case vs of
        [] \<Rightarrow> Some []
      | v # _ \<Rightarrow>
          (if whole_number v then Some (between (col @ ''_int[1]'') (mval_text env v) (mval_text env (last vs)))
           else if is_MDate v then Some (day_cond env (col @ ''_date[1]'') v (last vs))
           else if is_MBool v
           then Some (join '' OR '' (map (\<lambda>v. col @ ''_int[1] = '' @ (if mval_truthy v then ''1'' else ''0'')) vs))
           else if is_MTextObj v
           then map_option (\<lambda>ss. join '' OR '' (filter (\<lambda>t. t \<noteq> []) (map (text_cond (col @ ''_str'')) ss)))
                  (all_texts (filter mval_truthy vs))
           else Some []))"

text \<open>\<open>oneProp.indexOf (" OR ") > 0\<close>\<close>

definition wrapped :: "string \<Rightarrow> string" where
  "wrapped c = (if has_text '' OR '' c \<and> \<not> starts_with '' OR '' c then ''( '' @ c @ '' )'' else c)"

text \<open>A name with a dot or a star is an error; the type is not a criterion.\<close>

definition nested_name :: "string \<Rightarrow> bool" where
  "nested_name p \<longleftrightarrow> CHR ''.'' \<in> set p \<or> CHR ''*'' \<in> set p"

definition type_ids :: "query_env \<Rightarrow> string \<Rightarrow> string list" where
  "type_ids env u =
     map (\<lambda>v. if vtype v = TUri then js_str iso_date (vdata v) else ''undefined'')
       (case pget (q_ind env u) ''rdf:type'' of None \<Rightarrow> [] | Some vs \<Rightarrow> vs)"

definition not_deleted :: "string \<Rightarrow> string" where
  "not_deleted alias = ''NOT '' @ alias @ ''v_s_deleted_int = [1]''"

section \<open>Conditions of an individual\<close>

text \<open>
  \<open>ask\<close> gives the condition for one individual among the values (an empty text for none) and may
  change the state of the query; \<open>pre\<close> goes before the name of the column.
\<close>

fun ref_conds ::
  "(string \<Rightarrow> string \<Rightarrow> 's \<Rightarrow> (string \<times> 's) option) \<Rightarrow> string \<Rightarrow> mval list \<Rightarrow> 's \<Rightarrow> (string list \<times> 's) option" where
  "ref_conds ask col [] st = Some ([], st)"
| "ref_conds ask col (m # ms) st =
     (if \<not> mval_truthy m then ref_conds ask col ms st
      else (case m of
              MRef u \<Rightarrow>
                (case ask col u st of
                   None \<Rightarrow> None
                 | Some (c, st1) \<Rightarrow>
                     map_option (\<lambda>(cs, st2). (if c = [] then cs else c # cs, st2)) (ref_conds ask col ms st1))
            | _ \<Rightarrow> None))"

definition values_cond ::
  "(string \<Rightarrow> string \<Rightarrow> 's \<Rightarrow> (string \<times> 's) option) \<Rightarrow> query_env \<Rightarrow> string \<Rightarrow> mval list \<Rightarrow> 's \<Rightarrow> (string \<times> 's) option" where
  "values_cond ask env col ms st =
     (if ms \<noteq> [] \<and> is_MRef (hd ms)
      then map_option (\<lambda>(cs, st1). (join '' OR '' cs, st1)) (ref_conds ask (col @ ''_str'') ms st)
      else map_option (\<lambda>c. (c, st)) (plain_cond env col ms))"

fun prop_conds ::
  "(string \<Rightarrow> string \<Rightarrow> 's \<Rightarrow> (string \<times> 's) option) \<Rightarrow> query_env \<Rightarrow> string \<Rightarrow> (string \<times> val list) list \<Rightarrow> 's \<Rightarrow>
   (string list \<times> 's) option" where
  "prop_conds ask env pre [] st = Some ([], st)"
| "prop_conds ask env pre ((p, vs) # ps) st =
     (if nested_name p then None
      else if p = ''rdf:type'' then prop_conds ask env pre ps st
      else (case values_cond ask env (pre @ norm_name p) (sorted_values env vs) st of
              None \<Rightarrow> None
            | Some (c, st1) \<Rightarrow>
                map_option (\<lambda>(cs, st2). (if c = [] then cs else wrapped c # cs, st2)) (prop_conds ask env pre ps st1)))"

definition has_cond :: "string \<Rightarrow> string \<Rightarrow> string" where
  "has_cond col u = ''has('' @ col @ '', '' @ quote @ u @ quote @ '')''"

section \<open>Queries with sub-queries\<close>

text \<open>
  The first argument bounds the depth of the recursion over new individuals; \<open>visited\<close> is shared
  by the whole query.
\<close>

definition add_cond :: "string \<Rightarrow> string \<Rightarrow> string" where
  "add_cond w c = (if w = [] then c else w @ '' AND '' @ c)"

definition select_each :: "query_env \<Rightarrow> string \<Rightarrow> string \<Rightarrow> string" where
  "select_each env u w =
     join '' UNION ALL ''
       (map (\<lambda>t. ''SELECT id FROM veda_tt.`'' @ t @ ''`'' @ (if w = [] then [] else '' WHERE '' @ w)) (type_ids env u))"

primrec sub_query :: "nat \<Rightarrow> query_env \<Rightarrow> bool \<Rightarrow> string \<Rightarrow> string list \<Rightarrow> (string \<times> string list) option" where
  "sub_query 0 env deleted u visited = None"
| "sub_query (Suc n) env deleted u visited =
     (if u \<in> set visited then Some ([], visited)
      else (let ask = (\<lambda>col x v.
                  if q_new env x
                  then map_option (\<lambda>(q, v1). (if q = [] then [] else col @ '' IN ( '' @ q @ '' )'', v1)) (sub_query n env deleted x v)
                  else Some (has_cond col x, v))
            in case prop_conds ask env [] (props (q_ind env u)) (visited @ [u]) of
                 None \<Rightarrow> None
               | Some (conds, visited1) \<Rightarrow>
                   (let w = join '' AND '' conds; w1 = (if deleted then w else add_cond w (not_deleted []))
                    in Some (if length visited1 > 1 \<and> w1 = [] then [] else select_each env u w1, visited1))))"

definition queryFromIndividualTT_SUB :: "nat \<Rightarrow> query_env \<Rightarrow> string option \<Rightarrow> bool \<Rightarrow> string \<Rightarrow> string option" where
  "queryFromIndividualTT_SUB n env order deleted u =
     (case sub_query n env deleted u [] of None \<Rightarrow> None | Some (q, v) \<Rightarrow> finish_query env order q)"

section \<open>Queries with joins\<close>

record join_state =
  j_count :: nat
  j_from :: string
  j_where :: string
  j_visited :: "string obj"

text \<open>The table of an individual, joined to the column of its parent.\<close>

definition enter_table :: "bool \<Rightarrow> string \<Rightarrow> string option \<Rightarrow> string \<Rightarrow> join_state \<Rightarrow> string \<times> join_state" where
  "enter_table deleted u parent type st =
     (let k = j_count st + 1; alias = ''t'' @ show_nat k; table = ''veda_tt.`'' @ type @ ''` AS '' @ alias
      in (alias,
          \<lparr>j_count = k,
           j_from = j_from st @ (case parent of None \<Rightarrow> table
                                 | Some p \<Rightarrow> '' JOIN '' @ table @ '' ON '' @ p @ '' = ['' @ alias @ ''.id]''),
           j_where = (if deleted then j_where st else add_cond (j_where st) (not_deleted (alias @ ''.''))),
           j_visited = oset u alias (j_visited st)\<rparr>))"

primrec join_query ::
  "nat \<Rightarrow> query_env \<Rightarrow> bool \<Rightarrow> string \<Rightarrow> string option \<Rightarrow> nat \<Rightarrow> join_state \<Rightarrow> join_state option" where
  "join_query 0 env deleted u parent k st = None"
| "join_query (Suc n) env deleted u parent k st =
     (if k \<ge> length (type_ids env u) then None
      else (let (alias, st1) = enter_table deleted u parent (type_ids env u ! k) st;
                ask = (\<lambda>col x s.
                  if q_new env x
                  then (case oget (j_visited s) x of
                          None \<Rightarrow> map_option (\<lambda>s1. ([], s1)) (join_query n env deleted x (Some col) 0 s)
                        | Some a \<Rightarrow> Some (''has('' @ col @ '', '' @ a @ ''.id)'', s))
                  else Some (has_cond col x, s))
            in case prop_conds ask env (alias @ ''.'') (props (q_ind env u)) st1 of
                 None \<Rightarrow> None
               | Some (conds, st2) \<Rightarrow>
                   (let w = join '' AND '' conds
                    in Some (if w = [] then st2 else st2\<lparr>j_where := add_cond (j_where st2) w\<rparr>))))"

text \<open>One query per type of the individual; only the numbering of the tables goes on.\<close>

fun join_types :: "nat \<Rightarrow> query_env \<Rightarrow> string option \<Rightarrow> bool \<Rightarrow> string \<Rightarrow> nat list \<Rightarrow> nat \<Rightarrow> string list option" where
  "join_types n env order deleted u [] count = Some []"
| "join_types n env order deleted u (k # ks) count =
     (case join_query n env deleted u None k \<lparr>j_count = count, j_from = [], j_where = [], j_visited = []\<rparr> of
        None \<Rightarrow> None
      | Some st \<Rightarrow>
          (case finish_query env order
                  (''SELECT id FROM '' @ j_from st @ (if j_where st = [] then [] else '' WHERE '' @ j_where st)) of
             None \<Rightarrow> None
           | Some q \<Rightarrow> map_option (\<lambda>qs. q # qs) (join_types n env order deleted u ks (j_count st))))"

definition queryFromIndividualTT_JOIN :: "nat \<Rightarrow> query_env \<Rightarrow> string option \<Rightarrow> bool \<Rightarrow> string \<Rightarrow> string option" where
  "queryFromIndividualTT_JOIN n env order deleted u =
     map_option (join '' UNION ALL '') (join_types n env order deleted u [0..<length (type_ids env u)] 0)"

section \<open>The inbox\<close>

definition inbox_values :: "query_env \<Rightarrow> individual \<Rightarrow> string \<Rightarrow> mval list" where
  "inbox_values env i p = map (parser (q_str env) (q_parse env)) (case pget i p of None \<Rightarrow> [] | Some vs \<Rightarrow> vs)"

text \<open>\<open>sort (a - b)\<close>: numbers, Dates by their milliseconds; NaN moves nothing.\<close>

definition later :: "mval \<Rightarrow> mval \<Rightarrow> bool" where
  "later a b \<longleftrightarrow> num_rel num_less (mval_data b) (mval_data a)"

definition days_cond :: "query_env \<Rightarrow> string \<Rightarrow> mval list \<Rightarrow> string" where
  "days_cond env col vs = (let ss = js_sort later vs in day_cond env col (hd ss) (last ss))"

definition label_cond :: "string \<Rightarrow> mval list \<Rightarrow> string option" where
  "label_cond col vs =
     map_option (\<lambda>ss. join '' OR '' (filter (\<lambda>t. t \<noteq> []) (map (text_cond col) ss))) (all_texts (filter mval_truthy vs))"

definition has_any :: "query_env \<Rightarrow> string \<Rightarrow> mval list \<Rightarrow> string" where
  "has_any env col vs = join '' OR '' (map (\<lambda>v. has_cond col (mval_text env v)) vs)"

definition in_parens :: "string \<Rightarrow> string" where
  "in_parens c = ''('' @ c @ '')''"

text \<open>The first value of a property of a linked individual.\<close>

definition linked :: "query_env \<Rightarrow> individual \<Rightarrow> string \<Rightarrow> individual option option" where
  "linked env blank p =
     (case inbox_values env blank p of
        [] \<Rightarrow> Some None | MRef u # _ \<Rightarrow> Some (Some (q_ind env u)) | _ \<Rightarrow> None)"

definition first_value :: "query_env \<Rightarrow> individual option \<Rightarrow> string \<Rightarrow> mval option" where
  "first_value env i p =
     (case i of None \<Rightarrow> None | Some x \<Rightarrow> (case inbox_values env x p of [] \<Rightarrow> None | v # _ \<Rightarrow> Some v))"

definition inbox_from :: "mval option \<Rightarrow> mval option \<Rightarrow> mval list \<Rightarrow> string" where
  "inbox_from doc_type doc_label decided =
     ''veda_tt.`v-wf:DecisionForm` AS t0''
     @ (if doc_type = None then [] else '' JOIN veda_pt.`rdf:type` AS t1 ON t0.`v_wf_onDocument_str`[1] = t1.id'')
     @ (if doc_label = None then [] else '' JOIN veda_pt.`rdfs:label` AS t2 ON t0.`v_wf_onDocument_str`[1] = t2.id'')
     @ (if decided = [] then [] else '' JOIN veda_pt.`rdf:type` AS t3 ON t0.`v_wf_takenDecision_str`[1] = t3.id'')"

definition inbox_where ::
  "query_env \<Rightarrow> individual \<Rightarrow> bool \<Rightarrow> mval option \<Rightarrow> mval option \<Rightarrow> mval list \<Rightarrow> string list option" where
  "inbox_where env blank deleted doc_type doc_label decided =
     (let get = inbox_values env blank;
          when = (\<lambda>vs c. if vs = [] then [] else [in_parens c]);
          task_label = get ''rdfs:label'';
          done = get ''v-wf:isCompleted''
      in case (label_cond ''t0.`rdfs_label_str`'' task_label,
               label_cond ''t2.str'' (case doc_label of None \<Rightarrow> [] | Some v \<Rightarrow> [v])) of
           (Some task, Some document) \<Rightarrow>
             Some ((if deleted then [] else [in_parens ''NOT (t0.`v_s_deleted_int` = [1])''])
               @ when done (''t0.`v_wf_isCompleted_int` = ['' @ (if mval_truthy (hd done) then ''1'' else ''0'') @ '']'')
               @ when (get ''v-wf:from'') (has_any env ''t0.`v_wf_from_str`'' (get ''v-wf:from''))
               @ when (get ''v-wf:to'') (has_any env ''t0.`v_wf_to_str`'' (get ''v-wf:to''))
               @ when task_label task
               @ when (get ''v-s:created'') (days_cond env ''t0.`v_s_created_date`[1]'' (get ''v-s:created''))
               @ when (get ''v-wf:dateGiven'') (days_cond env ''t0.`v_wf_taskGiven_date`[1]'' (get ''v-wf:dateGiven''))
               @ (case doc_type of
                    None \<Rightarrow> []
                  | Some t \<Rightarrow> [in_parens (has_cond ''t1.str'' (case t of MRef u \<Rightarrow> u | _ \<Rightarrow> ''undefined''))])
               @ (case doc_label of None \<Rightarrow> [] | Some v \<Rightarrow> [in_parens document])
               @ when decided (days_cond env ''t3.`v_s_created_date`'' decided))
         | _ \<Rightarrow> None)"

definition queryInbox :: "query_env \<Rightarrow> string option \<Rightarrow> bool \<Rightarrow> individual \<Rightarrow> string option" where
  "queryInbox env order deleted blank =
     (case (linked env blank ''v-wf:onDocument'', linked env blank ''v-wf:takenDecision'') of
        (Some document, Some decision) \<Rightarrow>
          (let doc_type = first_value env document ''rdf:type'';
               doc_label = first_value env document ''rdfs:label'';
               decided = (case decision of None \<Rightarrow> [] | Some d \<Rightarrow> inbox_values env d ''v-s:created'')
           in case inbox_where env blank deleted doc_type doc_label decided of
                None \<Rightarrow> None
              | Some ws \<Rightarrow>
                  finish_query env order
                    (''SELECT id FROM '' @ inbox_from doc_type doc_label decided @ '' WHERE '' @ join '' AND '' ws))
      | _ \<Rightarrow> None)"

section \<open>Full text queries\<close>

text \<open>The values of nested new individuals under the path of their properties.\<close>

type_synonym flat_state = "val list obj \<times> string list"

definition push_flat :: "string \<Rightarrow> val \<Rightarrow> flat_state \<Rightarrow> flat_state" where
  "push_flat key v st =
     (oset key ((case oget (fst st) key of None \<Rightarrow> [] | Some vs \<Rightarrow> vs) @ [v]) (fst st), snd st)"

fun flatten_values ::
  "(string \<Rightarrow> string \<Rightarrow> flat_state \<Rightarrow> flat_state option) \<Rightarrow> query_env \<Rightarrow> string \<Rightarrow> val list \<Rightarrow> flat_state \<Rightarrow> flat_state option" where
  "flatten_values nested env key [] st = Some st"
| "flatten_values nested env key (v # vs) st =
     (let u = js_str iso_date (vdata v)
      in if vtype v = TUri \<and> q_new env u
         then (case nested key u st of None \<Rightarrow> None | Some st1 \<Rightarrow> flatten_values nested env key vs st1)
         else flatten_values nested env key vs (push_flat key v st))"

fun flatten_all ::
  "(string \<Rightarrow> string \<Rightarrow> flat_state \<Rightarrow> flat_state option) \<Rightarrow> query_env \<Rightarrow> string \<Rightarrow> (string \<times> val list) list \<Rightarrow> flat_state \<Rightarrow>
   flat_state option" where
  "flatten_all nested env pre [] st = Some st"
| "flatten_all nested env pre ((p, vs) # ps) st =
     (case flatten_values nested env (if pre = [] then p else pre @ ''.'' @ p) vs st of
        None \<Rightarrow> None
      | Some st1 \<Rightarrow> flatten_all nested env pre ps st1)"

primrec flattenIndividual :: "nat \<Rightarrow> query_env \<Rightarrow> string \<Rightarrow> string \<Rightarrow> flat_state \<Rightarrow> flat_state option" where
  "flattenIndividual 0 env pre u st = None"
| "flattenIndividual (Suc n) env pre u st =
     (if u \<in> set (snd st) then Some st
      else flatten_all (\<lambda>key x s. flattenIndividual n env key x s) env pre (props (q_ind env u)) (fst st, snd st @ [u]))"

definition data_greater :: "val \<Rightarrow> val \<Rightarrow> bool" where
  "data_greater a b \<longleftrightarrow>
     \<not> any_less (vdata a) (vdata b)
     \<and> (vdata a \<noteq> vdata b \<or> vdata a = DNaN \<or> (case vdata a of DDate t \<Rightarrow> True | _ \<Rightarrow> False))"

definition data_time :: "query_env \<Rightarrow> jdata \<Rightarrow> int" where
  "data_time env d = (case d of DDate t \<Rightarrow> t | DNum n \<Rightarrow> n | _ \<Rightarrow> q_parse env (js_str (q_str env) d))"

definition equals_cond :: "string \<Rightarrow> string \<Rightarrow> string" where
  "equals_cond p t = quote @ p @ quote @ ''=='' @ quote @ t @ quote"

definition search_words :: "string \<Rightarrow> string" where
  "search_words line = join '' '' (map (\<lambda>w. ''+'' @ w @ ''*'') (line_words line))"

definition search_cond :: "string \<Rightarrow> string \<Rightarrow> string" where
  "search_cond p q =
     (if list_ex (\<lambda>c. c = CHR ''+'' \<or> c = CHR ''-'' \<or> c = CHR ''*'') q then equals_cond p q
      else join '' || '' (map (\<lambda>l. equals_cond p (search_words l)) (text_lines q)))"

definition flat_cond :: "query_env \<Rightarrow> string \<Rightarrow> val list \<Rightarrow> string option" where
  "flat_cond env p vs =
     (let ss = js_sort data_greater vs; lo = vdata (hd ss); hi = vdata (last ss); str = js_str (q_str env);
          range = (\<lambda>a b. quote @ p @ quote @ ''==['' @ a @ '','' @ b @ '']'')
      in case vtype (hd ss) of
           TInteger \<Rightarrow> Some (range (str lo) (str hi))
         | TDecimal \<Rightarrow> Some (range (str lo) (str hi))
         | TDatetime \<Rightarrow> Some (range (iso_date (q_start env (data_time env lo))) (iso_date (q_end env (data_time env hi))))
         | TString \<Rightarrow>
             (if list_all (\<lambda>v. case vdata v of DStr q \<Rightarrow> True | _ \<Rightarrow> False) ss
              then Some (join '' || '' (map (\<lambda>v. search_cond p (str (vdata v))) ss)) else None)
         | _ \<Rightarrow> Some (join '' || '' (map (\<lambda>v. equals_cond p (str (vdata v))) ss)))"

text \<open>
  The filter for \<open>undefined\<close> compares a type with \<open>undefined\<close> and keeps everything: a property
  that is skipped leaves an empty operand.
\<close>

fun flat_conds :: "query_env \<Rightarrow> val list obj \<Rightarrow> string list option" where
  "flat_conds env [] = Some []"
| "flat_conds env ((p, vs) # ps) =
     (case (if p = ''v-s:isDraft'' then Some [] else flat_cond env p vs) of
        None \<Rightarrow> None
      | Some c \<Rightarrow> map_option (\<lambda>cs. (if c = [] then [] else ''( '' @ c @ '' )'') # cs) (flat_conds env ps))"

text \<open>The empty text is \<open>undefined\<close>.\<close>

definition queryFromIndividual :: "nat \<Rightarrow> query_env \<Rightarrow> string \<Rightarrow> string option" where
  "queryFromIndividual n env u =
     (case flattenIndividual n env [] u ([], []) of
        None \<Rightarrow> None
      | Some (flat, visited) \<Rightarrow>
          (let built = map_option (\<lambda>cs. let w = join '' && '' cs in if w = [] then [] else ''( '' @ w @ '' )'') (flat_conds env flat)
           in case inbox_values env (q_ind env u) ''*'' of
                [] \<Rightarrow> built
              | v # _ \<Rightarrow>
                  (case text_of_mval v of
                     None \<Rightarrow> None
                   | Some t \<Rightarrow> if has_text ''=='' t \<and> \<not> starts_with ''=='' t then Some t else built)))"

end
