(* ===== verification/Query_Props.thy ===== *)
theory Query_Props
  imports Query_Builder
begin

text \<open>
  The query builders: a searched text stays inside its literal of the query unless it has a double
  quote, and the queries over nested new individuals end also on cycles.
\<close>

section \<open>Literals\<close>

text \<open>What follows a string literal in SQL, whose backslash escapes a character.\<close>

fun after_literal :: "string \<Rightarrow> string option" where
  "after_literal [] = None"
| "after_literal (c # cs) =
     (if c = CHR 0x27 then Some cs
      else if c = CHR 0x5C then (case cs of [] \<Rightarrow> None | d # ds \<Rightarrow> after_literal ds)
      else after_literal cs)"

lemma after_escaped:
  "CHR 0x5C \<notin> set s \<Longrightarrow> CHR 0x22 \<notin> set s \<Longrightarrow> after_literal (escape_quotes s @ t) = after_literal t"
  by (induction s) auto

lemma after_broken:
  assumes "CHR 0x5C \<notin> set s" "CHR 0x22 \<in> set s"
  shows "\<exists>r. after_literal (escape_quotes s @ t) = Some (r @ t)"
  using assms by (induction s) auto

lemma set_blank_runs:
  "c \<noteq> CHR '' '' \<Longrightarrow> c \<noteq> CHR ''-'' \<Longrightarrow> c \<noteq> CHR ''*'' \<Longrightarrow> \<not> is_space c \<Longrightarrow> c \<in> set (blank_runs b s) \<longleftrightarrow> c \<in> set s"
  by (induction b s rule: blank_runs.induct) auto

lemma set_dropWhile_not: "\<not> P c \<Longrightarrow> c \<in> set (dropWhile P s) \<longleftrightarrow> c \<in> set s"
  by (induction s) auto

lemma set_strip: "\<not> is_space c \<Longrightarrow> c \<in> set (strip s) \<longleftrightarrow> c \<in> set s"
  by (simp add: strip_def set_dropWhile_not)

lemma set_join: "d \<notin> set sep \<Longrightarrow> d \<in> set (join sep xs) \<longleftrightarrow> (\<exists>x\<in>set xs. d \<in> set x)"
  by (induction sep xs rule: join.induct) auto

lemma set_split_on: "d \<noteq> c \<Longrightarrow> (\<exists>x\<in>set (split_on c s). d \<in> set x) \<longleftrightarrow> d \<in> set s"
  by (induction s) (auto split: list.splits)

lemma set_words:
  assumes "c \<noteq> CHR '' ''" "c \<noteq> CHR ''-''" "c \<noteq> CHR ''*''" "c \<noteq> CHR ''%''" "\<not> is_space c"
  shows "c \<in> set (join ''% %'' (line_words line)) \<longleftrightarrow> c \<in> set line"
  using assms by (simp add: set_join line_words_def set_split_on set_blank_runs set_strip)



section \<open>Nested queries end\<close>

text \<open>
  Two ways of asking that agree on the states in \<open>Q\<close>, which they keep and on which they give an
  answer, lead to the same conditions; values of one kind raise no error.
\<close>

definition same_asks ::
  "('s \<Rightarrow> bool) \<Rightarrow> (string \<Rightarrow> string \<Rightarrow> 's \<Rightarrow> (string \<times> 's) option) \<Rightarrow>
   (string \<Rightarrow> string \<Rightarrow> 's \<Rightarrow> (string \<times> 's) option) \<Rightarrow> bool" where
  "same_asks Q ask1 ask2 \<longleftrightarrow> (\<forall>col x s. Q s \<longrightarrow> (\<exists>c s'. ask1 col x s = Some (c, s') \<and> ask2 col x s = Some (c, s') \<and> Q s'))"

lemma same_asksE:
  assumes "same_asks Q ask1 ask2" "Q s"
  obtains c s' where "ask1 col x s = Some (c, s')" "ask2 col x s = Some (c, s')" "Q s'"
  using assms unfolding same_asks_def by blast

definition one_kind :: "mval list \<Rightarrow> bool" where
  "one_kind ms \<longleftrightarrow>
     list_all is_MRef ms \<or> list_all is_MTextObj ms \<or> list_all (\<lambda>m. \<not> is_MRef m \<and> \<not> is_MTextObj m) ms"

definition criteria_ok :: "query_env \<Rightarrow> bool" where
  "criteria_ok env \<longleftrightarrow>
     (\<forall>u. \<forall>(p, vs)\<in>set (props (q_ind env u)). \<not> nested_name p \<and> one_kind (map (parser (q_str env) (q_parse env)) vs))"

lemma one_kind_sorted: "one_kind (map (parser (q_str env) (q_parse env)) vs) \<Longrightarrow> one_kind (sorted_values env vs)"
  unfolding one_kind_def sorted_values_def list_all_iff by (simp add: js_sort_perm)

lemma same_ref_conds:
  assumes "same_asks Q ask1 ask2"
  shows "list_all is_MRef ms \<Longrightarrow> Q s \<Longrightarrow>
    \<exists>cs s'. ref_conds ask1 col ms s = Some (cs, s') \<and> ref_conds ask2 col ms s = Some (cs, s') \<and> Q s'"
proof (induction ms arbitrary: s)
  case (Cons m ms)
  then obtain u where m: "m = MRef u" by (cases m) auto
  obtain c s1 where ask: "ask1 col u s = Some (c, s1)" "ask2 col u s = Some (c, s1)" "Q s1"
    using same_asksE [OF assms Cons.prems(2)] by blast
  obtain cs s2 where "ref_conds ask1 col ms s1 = Some (cs, s2)" "ref_conds ask2 col ms s1 = Some (cs, s2)" "Q s2"
    using Cons.IH [OF _ ask(3)] Cons.prems(1) by auto
  with ask show ?case by (simp add: m mval_truthy_def)
qed simp

lemma all_texts_total: "list_all is_MTextObj ms \<Longrightarrow> \<exists>ss. all_texts ms = Some ss"
  by (induction ms) (auto simp: text_of_mval_def split: mval.splits)

lemma plain_cond_total: "one_kind ms \<Longrightarrow> ms = [] \<or> \<not> is_MRef (hd ms) \<Longrightarrow> \<exists>c. plain_cond env col ms = Some c"
proof (cases ms)
  case (Cons m ns)
  assume "one_kind ms" "ms = [] \<or> \<not> is_MRef (hd ms)"
  with Cons have "is_MTextObj m \<Longrightarrow> list_all is_MTextObj (filter mval_truthy ms)"
    by (auto simp: one_kind_def list_all_iff)
  then have "is_MTextObj m \<Longrightarrow> \<exists>ss. all_texts (filter mval_truthy ms) = Some ss" by (rule all_texts_total)
  with Cons show ?thesis by (auto simp: plain_cond_def)
qed (simp add: plain_cond_def)

lemma same_values_cond:
  assumes "same_asks Q ask1 ask2" "one_kind ms" "Q s"
  shows "\<exists>c s'. values_cond ask1 env col ms s = Some (c, s') \<and> values_cond ask2 env col ms s = Some (c, s') \<and> Q s'"
proof (cases "ms \<noteq> [] \<and> is_MRef (hd ms)")
  case True
  then have "list_all is_MRef ms" using assms(2) by (cases ms) (auto simp: one_kind_def mval.disc)
  from same_ref_conds [OF assms(1) this assms(3), of "col @ ''_str''"] True show ?thesis
    by (auto simp: values_cond_def)
next
  case False
  with plain_cond_total [OF assms(2), of env col] assms(3) show ?thesis by (auto simp: values_cond_def)
qed

lemma same_prop_conds:
  assumes "same_asks Q ask1 ask2"
  shows "\<forall>(p, vs)\<in>set ps. \<not> nested_name p \<and> one_kind (map (parser (q_str env) (q_parse env)) vs) \<Longrightarrow> Q s \<Longrightarrow>
    \<exists>cs s'. prop_conds ask1 env pre ps s = Some (cs, s') \<and> prop_conds ask2 env pre ps s = Some (cs, s') \<and> Q s'"
proof (induction ps arbitrary: s)
  case (Cons pv ps)
  obtain p vs where pv: "pv = (p, vs)" by (cases pv)
  have ok: "\<not> nested_name p" "one_kind (sorted_values env vs)"
    using Cons.prems(1) pv one_kind_sorted by auto
  have rest: "Q t \<Longrightarrow> \<exists>cs s'. prop_conds ask1 env pre ps t = Some (cs, s') \<and> prop_conds ask2 env pre ps t = Some (cs, s') \<and> Q s'" for t
    using Cons by simp
  obtain c s1 where c: "values_cond ask1 env (pre @ norm_name p) (sorted_values env vs) s = Some (c, s1)"
      "values_cond ask2 env (pre @ norm_name p) (sorted_values env vs) s = Some (c, s1)" "Q s1"
    using same_values_cond [OF assms ok(2) Cons.prems(2)] by blast
  show ?case
    using rest [OF Cons.prems(2)] rest [OF c(3)] c(1,2) ok(1)
    by (cases "p = ''rdf:type''"; cases "c = []") (auto simp: pv)
qed simp

text \<open>The individuals already visited stay visited, each once.\<close>

lemma sub_query_same:
  assumes N: "finite N" "{x. q_new env x} \<subseteq> N" and ok: "criteria_ok env"
  shows "u \<in> N \<Longrightarrow> distinct v \<Longrightarrow> card (N - set v) < n \<Longrightarrow> card (N - set v) < m \<Longrightarrow>
    \<exists>q v'. sub_query n env deleted u v = Some (q, v') \<and> sub_query m env deleted u v = Some (q, v')
         \<and> set v \<subseteq> set v' \<and> distinct v'"
proof (induction n arbitrary: m u v)
  case (Suc n)
  then obtain m' where m: "m = Suc m'" by (cases m) auto
  show ?case
  proof (cases "u \<in> set v")
    case False
    let ?w = "v @ [u]"
    let ?Q = "\<lambda>s. set ?w \<subseteq> set s \<and> distinct s"
    let ?ask = "\<lambda>n col x v. if q_new env x
      then map_option (\<lambda>(q, v1). (if q = [] then [] else col @ '' IN ( '' @ q @ '' )'', v1)) (sub_query n env deleted x v)
      else Some (has_cond col x, v)"
    have "N - set ?w \<subset> N - set v" using False Suc.prems(1) by auto
    then have less: "card (N - set ?w) < card (N - set v)" using N(1) by (simp add: psubset_card_mono)
    have "same_asks ?Q (?ask n) (?ask m')"
      unfolding same_asks_def
    proof (intro allI impI)
      fix col x s assume s: "?Q s"
      have "card (N - set s) \<le> card (N - set ?w)" using s N(1) by (intro card_mono) auto
      then have "card (N - set s) < n" "card (N - set s) < m'" using less Suc.prems(3,4) m by linarith+
      with Suc.IH [of x s m'] s N(2)
      have "q_new env x \<Longrightarrow> \<exists>q v'. sub_query n env deleted x s = Some (q, v')
          \<and> sub_query m' env deleted x s = Some (q, v') \<and> set s \<subseteq> set v' \<and> distinct v'" by blast
      then consider "\<not> q_new env x" | q v' where "q_new env x" "sub_query n env deleted x s = Some (q, v')"
          "sub_query m' env deleted x s = Some (q, v')" "set s \<subseteq> set v'" "distinct v'" by blast
      then show "\<exists>c s'. ?ask n col x s = Some (c, s') \<and> ?ask m' col x s = Some (c, s') \<and> ?Q s'"
        by cases (use s in \<open>simp; blast\<close>)+
    qed
    from same_prop_conds [OF this, of "props (q_ind env u)" env ?w "[]"] ok False Suc.prems(2)
    obtain cs s' where "prop_conds (?ask n) env [] (props (q_ind env u)) ?w = Some (cs, s')"
        "prop_conds (?ask m') env [] (props (q_ind env u)) ?w = Some (cs, s')" "?Q s'"
      unfolding criteria_ok_def by fastforce
    with False show ?thesis by (simp add: m Let_def)
  qed (use Suc.prems in \<open>simp add: m\<close>)
qed simp

text \<open>
  C21: With finitely many new individuals, however they are linked (cycles
  included), one more step than there are individuals is enough to build the query with
  sub-queries: more steps give the same query, and each new individual is expanded at most once.
\<close>

theorem sub_query_ends:
  assumes "finite {x. q_new env x}" "criteria_ok env"
    and "card (insert u {x. q_new env x}) < n" "n \<le> m"
  shows "\<exists>q v. sub_query n env deleted u [] = Some (q, v) \<and> distinct v
    \<and> queryFromIndividualTT_SUB m env None deleted u = Some (if q = [] then [] else q @ '' GROUP BY id HAVING sum(sign) > 0'')"
proof -
  let ?N = "insert u {x. q_new env x}"
  from sub_query_same [of ?N env u "[]" n m deleted] assms
  obtain q v where "sub_query n env deleted u [] = Some (q, v)" "sub_query m env deleted u [] = Some (q, v)" "distinct v"
    by auto
  then show ?thesis
    by (simp add: queryFromIndividualTT_SUB_def finish_query_def group_by_def order_by_def)
qed

text \<open>Two new individuals that name each other.\<close>

definition knot :: query_env where
  "knot = \<lparr>q_ind = (\<lambda>u. \<lparr>uri = u, props = [(''rdf:type'', newUri (DStr ''d:T'')),
                                      (''p'', newUri (DStr (if u = ''d:a'' then ''d:b'' else ''d:a'')))]\<rparr>),
     q_new = (\<lambda>u. u = ''d:a'' \<or> u = ''d:b''), q_range = (\<lambda>_. None), q_start = (\<lambda>t. t), q_end = (\<lambda>t. t),
     q_parse = (\<lambda>_. 0), q_str = (\<lambda>_. [])\<rparr>"

lemma knot_ok: "{x. q_new knot x} = {''d:a'', ''d:b''}" "criteria_ok knot"
  by (auto simp: knot_def criteria_ok_def nested_name_def one_kind_def newUri_def parser_def)

theorem sub_query_ends_witness:
  "\<exists>q v. sub_query 3 knot True ''d:a'' [] = Some (q, v) \<and> distinct v
    \<and> queryFromIndividualTT_SUB 9 knot None True ''d:a'' = Some (if q = [] then [] else q @ '' GROUP BY id HAVING sum(sign) > 0'')"
  using sub_query_ends [of knot "''d:a''" 3 9 True] by (simp add: knot_ok)

end
