(* ===== verification/Browser_Transform.thy ===== *)
theory Browser_Transform
  imports Transformation
begin

text \<open>
  \<^verbatim>\<open>veda.Util.transformation\<close> of \<^verbatim>\<open>public/js/browser/util.js\<close>, a copy of the server's for start
  forms: without the functions about executors, work orders and processes, with synchronous reads
  that fail for a missing individual, and with objects that no storage has normalised. The rules
  arrive as the answer of \<^verbatim>\<open>get_individuals\<close>, an argument. Guards and scripts are those of
  \<open>tscripts\<close>; a script is given the object under construction in the storage's form.
\<close>

section \<open>Objects under construction\<close>

text \<open>
  An array holds what was pushed: values, or the whole array of a property (\<open>undefined\<close> without
  the property), which \<^verbatim>\<open>putFieldOfObject\<close> pushes as one element.
\<close>

datatype item = IVal val | IArr "val list option"

record draft =
  d_id :: string
  d_items :: "item list obj"

definition items_at :: "string \<Rightarrow> draft \<Rightarrow> item list" where
  "items_at name el = (case oget (d_items el) name of None \<Rightarrow> [] | Some xs \<Rightarrow> xs)"

definition set_items :: "string \<Rightarrow> item list \<Rightarrow> draft \<Rightarrow> draft" where
  "set_items name xs el = el\<lparr>d_items := oset name xs (d_items el)\<rparr>"

definition push_items :: "string \<Rightarrow> item list \<Rightarrow> draft \<Rightarrow> draft" where
  "push_items name xs el = set_items name (items_at name el @ xs) el"

text \<open>What the storage makes of it: \<open>undefined\<close> gives nothing, an array its first value.\<close>

definition stored_items :: "item list \<Rightarrow> val list" where
  "stored_items xs =
     concat (map (\<lambda>x. case x of IVal v \<Rightarrow> [v] | IArr None \<Rightarrow> [] | IArr (Some vs) \<Rightarrow> take 1 vs) xs)"

definition stored_draft :: "draft \<Rightarrow> individual" where
  "stored_draft el = \<lparr>uri = d_id el, props = map (\<lambda>(k, xs). (k, stored_items xs)) (d_items el)\<rparr>"

section \<open>The functions offered to the scripts\<close>

text \<open>A request for the id \<^verbatim>\<open>undefined\<close> finds nothing.\<close>

definition getSync :: "jdata \<Rightarrow> individual js" where
  "getSync d =
     (if d = DUndef then js_throw (ScriptError ''BackendError'')
      else (js_bind (get_individual d) (\<lambda>oi.
        (case oi of None \<Rightarrow> js_throw (ScriptError ''BackendError'') | Some i \<Rightarrow> js_ret i))))"

fun walk_sync :: "individual \<Rightarrow> string list \<Rightarrow> val list option js" where
  "walk_sync c [] = js_ret None"
| "walk_sync c [p] = js_ret (pget c p)"
| "walk_sync c (p # q # r) =
     (case pget c p of
        None \<Rightarrow>
          if p = ''@'' then (js_bind (getSync (DStr (uri c))) (\<lambda>c1. walk_sync c1 (q # r))) else js_ret None
      | Some vs \<Rightarrow> (js_bind (data0 (Some vs)) (\<lambda>d.
          js_bind (getSync (if truthy d then d else DStr (array_text (length vs)))) (\<lambda>c1.
          walk_sync c1 (q # r)))))"

definition put_value_sync :: "tscope \<Rightarrow> string \<Rightarrow> string list \<Rightarrow> draft \<Rightarrow> draft js" where
  "put_value_sync ts name path el = (js_bind (getSync (case ts_element ts of EUri s \<Rightarrow> DStr s | EVals vs \<Rightarrow> getUri (Some vs))) (\<lambda>c.
     js_bind (walk_sync c path) (\<lambda>found.
     js_ret (case found of None \<Rightarrow> el | Some vs \<Rightarrow> push_items name (map IVal vs) el))))"

definition push_typed :: "vtype \<Rightarrow> string \<Rightarrow> jdata \<Rightarrow> draft \<Rightarrow> draft" where
  "push_typed t name d el = push_items name [IVal (mkv t d)] el"

definition replace_typed :: "vtype \<Rightarrow> string \<Rightarrow> jdata \<Rightarrow> draft \<Rightarrow> draft" where
  "replace_typed t name d el = set_items name [IVal (mkv t d)] el"

definition push_value :: "tscope \<Rightarrow> string \<Rightarrow> draft \<Rightarrow> draft" where
  "push_value ts name el = push_items name (map IVal (element_vals (ts_element ts))) el"

definition unshift_value :: "tscope \<Rightarrow> string \<Rightarrow> draft \<Rightarrow> draft" where
  "unshift_value ts name el =
     set_items name (rev (map IVal (element_vals (ts_element ts))) @ items_at name el) el"

definition push_element :: "tscope \<Rightarrow> draft \<Rightarrow> draft" where
  "push_element ts el =
     (case ts_element ts of EUri s \<Rightarrow> el | EVals vs \<Rightarrow> push_items (ts_key ts) (map IVal vs) el)"

definition push_field :: "tscope \<Rightarrow> string \<Rightarrow> string \<Rightarrow> draft \<Rightarrow> draft" where
  "push_field ts name field el = push_items name [IArr (pget (ts_individual ts) field)] el"

text \<open>The names of the other functions are not defined here.\<close>

fun browser_cmd :: "tscope \<Rightarrow> draft \<Rightarrow> tcmd \<Rightarrow> draft js" where
  "browser_cmd ts el (PutUri n d) = js_ret (push_typed TUri n d el)"
| "browser_cmd ts el (SetUri n d) = js_ret (replace_typed TUri n d el)"
| "browser_cmd ts el (PutString n d) = js_ret (push_typed TString n d el)"
| "browser_cmd ts el (SetString n d) = js_ret (replace_typed TString n d el)"
| "browser_cmd ts el (PutDatetime n d) = js_ret (push_typed TDatetime n d el)"
| "browser_cmd ts el (SetDatetime n d) = js_ret (replace_typed TDatetime n d el)"
| "browser_cmd ts el (PutBoolean n d) = js_ret (push_typed TBoolean n d el)"
| "browser_cmd ts el (SetBoolean n d) = js_ret (replace_typed TBoolean n d el)"
| "browser_cmd ts el (PutInteger n d) = js_ret (push_typed TInteger n d el)"
| "browser_cmd ts el (SetInteger n d) = js_ret (replace_typed TInteger n d el)"
| "browser_cmd ts el (PutValue n) = js_ret (push_value ts n el)"
| "browser_cmd ts el (PutFrontValue n) = js_ret (unshift_value ts n el)"
| "browser_cmd ts el PutElement = js_ret (push_element ts el)"
| "browser_cmd ts el (PutValueFrom n path) = put_value_sync ts n path el"
| "browser_cmd ts el (PutFieldOfObject n f) = js_ret (push_field ts n f el)"
| "browser_cmd ts el _ = js_throw (ScriptError ''ReferenceError'')"

section \<open>The loops\<close>

type_synonym dstate = "draft obj \<times> jdata"

definition browser_agg :: "tscripts \<Rightarrow> tscope \<Rightarrow> draft \<Rightarrow> val \<Rightarrow> draft js" where
  "browser_agg scr ts el a =
     (case vdata a of
        DStr s \<Rightarrow> (js_bind (t_agg scr s ts (stored_draft el)) (\<lambda>cmds. js_fold (browser_cmd ts) el cmds))
      | _ \<Rightarrow> js_ret el)"

definition target_draft :: "tscope \<Rightarrow> individual \<Rightarrow> dstate \<Rightarrow> (string \<times> draft \<times> jdata) js" where
  "target_draft ts rule st =
     (case pget rule ''v-wf:grouping'' of
        None \<Rightarrow> (js_bind (new_element) (\<lambda>u. js_ret (u, \<lparr>d_id = u, d_items = []\<rparr>, snd st)))
      | Some grouping \<Rightarrow> (let g = group_of grouping (snd st) in
          js_bind (to_str (snd g)) (\<lambda>k.
          (case oget (fst st) k of
             Some el \<Rightarrow> js_ret (k, el, snd g)
           | None \<Rightarrow>
               if fst g then js_ret (k, \<lparr>d_id = uri (ts_individual ts), d_items = []\<rparr>, snd g)
               else (js_bind (new_element) (\<lambda>u. js_ret (k, \<lparr>d_id = u, d_items = []\<rparr>, snd g)))))))"

definition browser_rule :: "tscripts \<Rightarrow> tscope \<Rightarrow> dstate \<Rightarrow> individual \<Rightarrow> dstate js" where
  "browser_rule scr ts st rule = (js_bind (run_guard scr ts (pget rule ''v-wf:segregateObject'')) (\<lambda>ok.
     js_bind ((if ok then run_guard scr ts (pget rule ''v-wf:segregateElement'') else js_ret False)) (\<lambda>ok2.
     (if \<not> ok2 then js_ret st
      else (js_bind (target_draft ts rule st) (\<lambda>(k, el, gk).
        js_bind (js_some (pget rule ''v-wf:aggregate'')) (\<lambda>agregate.
        js_bind (js_fold (browser_agg scr ts) el agregate) (\<lambda>el'.
        js_ret (oset k el' (fst st), gk)))))))))"

definition browser_individual :: "tscripts \<Rightarrow> individual list \<Rightarrow> dstate \<Rightarrow> individual \<Rightarrow> dstate js" where
  "browser_individual scr rules st i =
     js_fold (\<lambda>st (k, e).
         js_fold
           (browser_rule scr
             \<lparr>ts_individual = i, ts_key = k, ts_element = e, ts_executor = ANone,
              ts_work_order = ANone, ts_process = ANone\<rparr>)
           st rules)
       st (elements_of i)"

text \<open>\<open>None\<close> is \<open>undefined\<close>: no rules, or an exception, which is caught and printed.\<close>

definition browser_transformation ::
  "tscripts \<Rightarrow> individual list \<Rightarrow> individual \<Rightarrow> individual list \<Rightarrow> draft list option js" where
  "browser_transformation scr individuals transform answer =
     (case pget transform ''v-wf:transformRule'' of
        None \<Rightarrow> js_ret None
      | Some [] \<Rightarrow> js_ret None
      | Some vs \<Rightarrow>
          js_catch
            (js_bind (js_fold (browser_individual scr answer) ([], DUndef) individuals) (\<lambda>st.
              js_ret (Some (map snd (js_entries (fst st))))))
            (js_ret None))"

end
