(* ===== verification/Browser_Props.thy ===== *)
theory Browser_Props
  imports Browser_Transform Handler_Props
begin

text \<open>
  The browser's transformation refines the server's, on which the storage normal form of its
  objects is the abstraction.
\<close>

section \<open>Simulation of programs\<close>

definition ends_well :: "'a res \<Rightarrow> bool" where
  "ends_well r \<longleftrightarrow> (case r of Val x \<Rightarrow> True | _ \<Rightarrow> False)"

lemma ends_well_simps [simp]:
  "ends_well (Val x)" "\<not> ends_well Ret" "\<not> ends_well (Throw e)" "\<not> ends_well Hang"
  by (simp_all add: ends_well_def)

text \<open>\<open>m'\<close> does what \<open>m\<close> does where \<open>m\<close> ends well, and under \<open>P\<close> everywhere.\<close>

definition sim :: "bool \<Rightarrow> ('a \<Rightarrow> 'b) \<Rightarrow> 'a js \<Rightarrow> 'b js \<Rightarrow> bool" where
  "sim P f m m' \<longleftrightarrow> (\<forall>w. P \<or> ends_well (fst (m w)) \<longrightarrow> m' w = (map_res f (fst (m w)), snd (m w)))"

definition can_give :: "'a js \<Rightarrow> 'a \<Rightarrow> bool" where
  "can_give m x \<longleftrightarrow> (\<exists>w w'. m w = (Val x, w'))"

named_theorems sims

lemma sim_ret [sims]: "y = f x \<Longrightarrow> sim P f (js_ret x) (js_ret y)"
  by (simp add: sim_def js_ret_def)

lemma sim_throw [sims]: "\<not> P \<Longrightarrow> sim P f (js_throw e) m'"
  by (simp add: sim_def js_throw_def)

lemma sim_refl [sims]: "sim P (\<lambda>x. x) m m"
  by (simp add: sim_def res.map_ident)

lemma sim_bind:
  assumes m: "sim P f m m'" and k: "\<And>x. can_give m x \<Longrightarrow> sim P g (k x) (k' (f x))"
  shows "sim P g (js_bind m k) (js_bind m' k')"
  unfolding sim_def
proof (intro allI impI)
  fix w assume w: "P \<or> ends_well (fst (js_bind m k w))"
  obtain r w1 where mw: "m w = (r, w1)" by (cases "m w")
  have m': "P \<or> ends_well r \<Longrightarrow> m' w = (map_res f r, w1)" using m mw unfolding sim_def by (metis fst_conv snd_conv)
  show "js_bind m' k' w = (map_res g (fst (js_bind m k w)), snd (js_bind m k w))"
  proof (cases r)
    case (Val x)
    then have "can_give m x" using mw by (auto simp: can_give_def)
    from k [OF this] have "P \<or> ends_well (fst (k x w1)) \<Longrightarrow> k' (f x) w1 = (map_res g (fst (k x w1)), snd (k x w1))"
      unfolding sim_def by blast
    with w mw Val m' show ?thesis by (simp add: js_bind_def)
  qed (use w mw m' in \<open>simp_all add: js_bind_def\<close>)
qed

lemma sim_fold:
  assumes "\<And>a x. x \<in> set xs \<Longrightarrow> sim P f (b a x) (b' (f a) x)"
  shows "sim P f (js_fold b a xs) (js_fold b' (f a) xs)"
  using assms by (induction xs arbitrary: a) (auto intro!: sim_bind sim_ret)

lemma sim_map_fold:
  assumes "\<And>a x. x \<in> set xs \<Longrightarrow> sim P f (b a x) (b' (f a) (h x))"
  shows "sim P f (js_fold b a xs) (js_fold b' (f a) (map h xs))"
  using assms by (induction xs arbitrary: a) (auto intro!: sim_bind sim_ret)

section \<open>The objects under construction\<close>

lemma stored_items_append [simp]: "stored_items [] = []" "stored_items (xs @ ys) = stored_items xs @ stored_items ys"
  by (simp_all add: stored_items_def)

lemma stored_items_vals [simp]: "stored_items (map IVal vs) = vs" "stored_items (rev (map IVal vs)) = rev vs"
proof -
  have "concat (map (\<lambda>v. [v]) us) = us" for us :: "val list" by (induction us) auto
  then show "stored_items (map IVal vs) = vs" "stored_items (rev (map IVal vs)) = rev vs"
    unfolding stored_items_def by (simp_all add: comp_def rev_map)
qed

lemma stored_items_single [simp]:
  "stored_items [IVal v] = [v]" "stored_items [IArr None] = []" "stored_items [IArr (Some vs)] = take 1 vs"
  by (simp_all add: stored_items_def)

lemma oset_map_snd: "map (\<lambda>(k, v). (k, f v)) (oset k v ob) = oset k (f v) (map (\<lambda>(k, v). (k, f v)) ob)"
  by (induction ob) auto

lemma out_arr_stored [simp]: "out_arr name (stored_draft el) = stored_items (items_at name el)"
  by (auto simp: out_arr_def stored_draft_def items_at_def oget_map_snd split: option.split)

lemma stored_set_items [simp]: "stored_draft (set_items name xs el) = set_prop name (stored_items xs) (stored_draft el)"
  by (simp add: stored_draft_def set_items_def oset_map_snd set_prop_def)

section \<open>The functions offered to the scripts\<close>

fun plain_cmd :: "tcmd \<Rightarrow> bool" where
  "plain_cmd (PutExecutor n) = False"
| "plain_cmd (PutWorkOrder n) = False"
| "plain_cmd (PutThisProcess n) = False"
| "plain_cmd (RemoveThisProcess n) = False"
| "plain_cmd (PutFieldOfIndividFromElement n f) = False"
| "plain_cmd (PutValueFrom n path) = False"
| "plain_cmd _ = True"

lemma sim_sync: "\<not> P \<Longrightarrow> sim P Some (getSync d) (get_individual d)"
  by (auto simp: sim_def getSync_def js_throw_def js_bind_def get_individual_def js_ret_def split: option.splits)

lemma sim_walk: "\<not> P \<Longrightarrow> sim P (\<lambda>x. x) (walk_sync c path) (walk_path (Some c) path)"
proof (induction c path rule: walk_sync.induct)
  case (3 c p q r)
  then show ?case
    by (auto intro!: sim_ret sim_refl sim_bind [OF sim_sync] sim_bind [OF sim_refl] split: option.split)
qed (simp_all add: sim_refl)

lemma sim_cmd: "(P \<Longrightarrow> plain_cmd c) \<Longrightarrow> sim P stored_draft (browser_cmd ts el c) (run_cmd ts (stored_draft el) c)"
proof (cases c)
  case (PutValueFrom n path)
  assume "P \<Longrightarrow> plain_cmd c"
  with PutValueFrom have "\<not> P" by auto
  then show ?thesis unfolding PutValueFrom browser_cmd.simps run_cmd.simps put_value_sync_def put_value_from_def
    by (auto intro!: sim_bind [OF sim_sync] sim_bind [OF sim_walk] sim_ret simp: push_items_def split: option.split)
qed (auto intro!: sim_ret sim_throw simp: push_typed_def replace_typed_def push_items_def put_typed_def set_typed_def
      push_value_def put_value_def unshift_value_def put_front_value_def push_element_def put_element_def
      push_field_def put_field_of_object_def split: element.split option.split)

section \<open>The loops\<close>

definition plain_scripts :: "tscripts \<Rightarrow> bool" where
  "plain_scripts scr \<longleftrightarrow> (\<forall>s ts el cmds. can_give (t_agg scr s ts el) cmds \<longrightarrow> list_all plain_cmd cmds)"

lemma sim_agg: "(P \<Longrightarrow> plain_scripts scr) \<Longrightarrow> sim P stored_draft (browser_agg scr ts el a) (run_agg scr ts (stored_draft el) a)"
  unfolding browser_agg_def run_agg_def
  by (auto intro!: sim_ret sim_bind [OF sim_refl] sim_fold sim_cmd simp: plain_scripts_def list_all_iff split: jdata.split)

definition stored_objects :: "draft obj \<Rightarrow> individual obj" where
  "stored_objects ob = map (\<lambda>(k, el). (k, stored_draft el)) ob"

abbreviation stored_state :: "dstate \<Rightarrow> tstate" where
  "stored_state st \<equiv> (stored_objects (fst st), snd st)"

lemma sim_target:
  "sim P (\<lambda>(k, el, gk). (k, stored_draft el, gk)) (target_draft ts rule st) (target_element ts rule (stored_state st))"
  unfolding target_draft_def target_element_def
  by (auto intro!: sim_ret sim_bind [OF sim_refl]
      simp: Let_def stored_objects_def oget_map_snd stored_draft_def split: option.split)

lemma stored_objects_oset: "stored_objects (oset k el ob) = oset k (stored_draft el) (stored_objects ob)"
  by (simp add: stored_objects_def oset_map_snd)

lemma sim_rule:
  assumes "P \<Longrightarrow> plain_scripts scr"
  shows "sim P stored_state (browser_rule scr ts st rule) (apply_rule scr ts (stored_state st) rule)"
proof -
  have build: "sim P stored_state
     (js_bind (target_draft ts rule st) (\<lambda>(k, el, gk). js_bind (js_some (pget rule ''v-wf:aggregate''))
        (\<lambda>ag. js_bind (js_fold (browser_agg scr ts) el ag) (\<lambda>el'. js_ret (oset k el' (fst st), gk)))))
     (js_bind (target_element ts rule (stored_state st)) (\<lambda>(k, el, gk). js_bind (js_some (pget rule ''v-wf:aggregate''))
        (\<lambda>ag. js_bind (js_fold (run_agg scr ts) el ag) (\<lambda>el'. js_ret (oset k el' (stored_objects (fst st)), gk)))))"
    by (rule sim_bind [OF sim_target])
      (auto intro!: sim_bind [OF sim_refl] sim_bind [OF sim_fold] sim_agg assms sim_ret simp: stored_objects_oset)
  show ?thesis
    unfolding browser_rule_def apply_rule_def fst_conv
    by (intro sim_bind [OF sim_refl]) (use build in \<open>auto intro!: sim_ret\<close>)
qed

lemma sim_individual:
  "(P \<Longrightarrow> plain_scripts scr) \<Longrightarrow>
   sim P stored_state (browser_individual scr rules st i)
     (transform_individual scr rules ANone ANone ANone (stored_state st) (Some i))"
  unfolding browser_individual_def transform_individual_def
  by (auto intro!: sim_fold sim_rule simp: js_some_def js_bind_def js_ret_def)

lemma sort_key_map_snd:
  "sort_key (\<lambda>p. h (fst p)) (map (\<lambda>(k, v). (k, f v)) ob) = map (\<lambda>(k, v). (k, f v)) (sort_key (\<lambda>p. h (fst p)) ob)"
proof -
  let ?g = "\<lambda>(k, v). (k, f v)"
  have ins: "insort_key (\<lambda>p. h (fst p)) (?g x) (map ?g xs) = map ?g (insort_key (\<lambda>p. h (fst p)) x xs)" for x xs
    by (induction xs) (auto simp: split_def)
  show ?thesis by (induction ob) (simp_all add: ins del: insort_key.simps)
qed

lemma js_entries_map: "js_entries (map (\<lambda>(k, v). (k, f v)) ob) = map (\<lambda>(k, v). (k, f v)) (js_entries ob)"
proof -
  have "filter (\<lambda>p. Q (fst p)) (map (\<lambda>(k, v). (k, f v)) ob) = map (\<lambda>(k, v). (k, f v)) (filter (\<lambda>p. Q (fst p)) ob)" for Q
    by (induction ob) auto
  then show ?thesis by (simp add: js_entries_def sort_key_map_snd)
qed

lemma sim_body:
  assumes "P \<Longrightarrow> plain_scripts scr"
  shows "sim P (map_option (map stored_draft))
    (js_bind (js_fold (browser_individual scr rules) ([], DUndef) is)
      (\<lambda>st. js_ret (Some (map snd (js_entries (fst st))))))
    (js_bind (js_fold (transform_individual scr rules ANone ANone ANone) ([], DUndef) (map Some is))
      (\<lambda>st. js_ret (Some (map snd (js_entries (fst st))))))"
proof (rule sim_bind)
  have "sim P stored_state (js_fold (browser_individual scr rules) ([], DUndef) is)
      (js_fold (transform_individual scr rules ANone ANone ANone) (stored_state ([], DUndef)) (map Some is))"
    by (rule sim_map_fold) (rule sim_individual [OF assms])
  then show "sim P stored_state (js_fold (browser_individual scr rules) ([], DUndef) is)
      (js_fold (transform_individual scr rules ANone ANone ANone) ([], DUndef) (map Some is))"
    by (simp add: stored_objects_def)
qed (auto intro!: sim_ret simp: stored_objects_def js_entries_map [unfolded split_def] comp_def split_def)

text \<open>
  C9: The transformation of the browser refines that of the server on
  the same rules and individuals: whenever it gives objects, the server gives what the storage makes
  of them, with the same new names. If the scripts use only functions that both offer and that read
  no further individual, the two agree on exceptions as well.
\<close>

theorem browser_refines_server:
  fixes scr :: tscripts and individuals :: "individual list" and transform :: individual and w :: world
  defines "b \<equiv> browser_transformation scr individuals transform
      (List.map_filter (\<lambda>v. lookup w (vdata v)) (case pget transform ''v-wf:transformRule'' of None \<Rightarrow> [] | Some vs \<Rightarrow> vs)) w"
    and "s \<equiv> transformation scr (map Some individuals) transform ANone ANone ANone w"
  shows "(\<forall>out w'. b = (Val (Some out), w') \<longrightarrow> s = (Val (Some (map stored_draft out)), w'))
    \<and> (plain_scripts scr \<longrightarrow> s = (map_res (map_option (map stored_draft)) (fst b), snd b))"
proof (cases "pget transform ''v-wf:transformRule''")
  case None
  then show ?thesis by (simp add: b_def s_def browser_transformation_def transformation_def js_ret_def js_catch_def)
next
  case (Some vs)
  show ?thesis
  proof (cases vs)
    case Nil
    with Some show ?thesis by (simp add: b_def s_def browser_transformation_def transformation_def js_ret_def js_catch_def)
  next
    case (Cons r rs)
    let ?rules = "List.map_filter (\<lambda>v. lookup w (vdata v)) vs"
    let ?mb = "js_bind (js_fold (browser_individual scr ?rules) ([], DUndef) individuals)
      (\<lambda>st. js_ret (Some (map snd (js_entries (fst st)))))"
    let ?ms = "js_bind (js_fold (transform_individual scr ?rules ANone ANone ANone) ([], DUndef) (map Some individuals))
      (\<lambda>st. js_ret (Some (map snd (js_entries (fst st)))))"
    have b: "b = js_catch ?mb (js_ret None) w" using Some Cons by (simp add: b_def browser_transformation_def)
    have s: "s = js_catch ?ms (js_ret None) w"
      using Some Cons by (simp add: s_def transformation_def read_rules_def js_ask_def js_bind_def js_catch_def)
    have sim: "(P \<Longrightarrow> plain_scripts scr) \<Longrightarrow> P \<or> ends_well (fst (?mb w)) \<Longrightarrow>
        ?ms w = (map_res (map_option (map stored_draft)) (fst (?mb w)), snd (?mb w))" for P
      using sim_body [of P scr ?rules individuals] unfolding sim_def by blast
    show ?thesis
      unfolding b s using sim [of False] sim [of "plain_scripts scr"]
      by (cases "?mb w"; cases "fst (?mb w)") (simp_all add: js_catch_def js_ret_def)
  qed
qed

text \<open>A rule that copies a title into every new start form.\<close>

definition copy_scripts :: tscripts where
  "copy_scripts = \<lparr>t_guard = (\<lambda>s ts. js_ret (SPrim (DBool (contentName ts ''p'')))),
     t_agg = (\<lambda>s ts el. js_ret [PutFieldOfObject ''t'' ''p'', PutFieldOfObject ''u'' ''q'', PutElement])\<rparr>"

definition copy_rule :: individual where
  "copy_rule = \<lparr>uri = ''d:r'', props = [(''v-wf:segregateElement'', strv ''g''), (''v-wf:aggregate'', strv ''a'')]\<rparr>"

definition copy_world :: world where
  "copy_world = empty_world\<lparr>store := [''d:r'' \<mapsto> copy_rule]\<rparr>"

abbreviation copied :: individual where
  "copied \<equiv> \<lparr>uri = ''d:i'', props = [(''p'', strv ''x'')]\<rparr>"

abbreviation copy_rules :: individual where
  "copy_rules \<equiv> \<lparr>uri = ''d:t'', props = [(''v-wf:transformRule'', uriv ''d:r'')]\<rparr>"

lemma copy_name: "uri_of_guid (guid_of copy_world (nguid copy_world)) @ ''-tr'' = ''d:g0-tr''"
  by (simp add: uri_of_guid_def copy_world_def empty_world_def show_nat_eval char_digit_def)

lemma copy_facts:
  "num_rel num_eq (DBool True) (DBool False) = False" "num_rel num_eq (DBool False) (DBool False) = True"
  "js_entries [(''d:g0-tr'', el)] = [(''d:g0-tr'', el)]"
  by (code_simp, code_simp, simp add: js_entries_def is_index_def all_digits_def char_digit_def)

lemma copy_browser:
  "browser_transformation copy_scripts [copied] copy_rules [copy_rule] copy_world =
    (Val (Some [\<lparr>d_id = ''d:g0-tr'', d_items = [(''t'', [IArr (Some (strv ''x''))]), (''u'', [IArr None]), (''p'', map IVal (strv ''x''))]\<rparr>]),
     next_guid copy_world)"
  by (simp add: browser_transformation_def js_defs browser_individual_def elements_of_def browser_rule_def copy_rule_def
      run_guard_def newUri_def copy_scripts_def contentName_def target_draft_def new_element_def genUri_def browser_agg_def
      copy_name copy_facts push_field_def push_element_def push_items_def set_items_def items_at_def)

theorem browser_refines_server_witness:
  "transformation copy_scripts [Some copied] copy_rules ANone ANone ANone copy_world =
    (Val (Some [\<lparr>uri = ''d:g0-tr'', props = [(''t'', strv ''x''), (''u'', []), (''p'', strv ''x'')]\<rparr>]), next_guid copy_world)"
proof -
  have "List.map_filter (\<lambda>v. lookup copy_world (vdata v)) (uriv ''d:r'') = [copy_rule]"
    by (simp add: newUri_def List.map_filter_simps lookup_def get_id_def copy_world_def)
  with browser_refines_server [where scr = copy_scripts and individuals = "[copied]" and transform = copy_rules and w = copy_world] show ?thesis
    by (simp add: copy_browser stored_draft_def stored_items_def)
qed

end
