(* ===== verification/Order_Props.thy ===== *)
theory Order_Props
  imports Workflow_Props
begin

text \<open>
  The orders of a task: a work item waits for the results of all its orders, follows the flows of
  the net when they are there, and a task gives one order to each executor.
\<close>

section \<open>Programs that only read\<close>

definition inert :: "'a js \<Rightarrow> world \<Rightarrow> bool" where
  "inert m w \<longleftrightarrow> snd (m w) = w \<and> fst (m w) \<noteq> Hang"

named_theorems inerts

lemma inert_bind: "inert m w \<Longrightarrow> (\<And>x. m w = (Val x, w) \<Longrightarrow> inert (f x) w) \<Longrightarrow> inert (js_bind m f) w"
  by (auto simp: inert_def js_bind_def split: prod.splits res.splits)

lemma inert_seq [inerts]: "inert m w \<Longrightarrow> inert n w \<Longrightarrow> inert (js_seq m n) w"
  unfolding js_seq_def by (rule inert_bind)

lemma inert_basic [inerts]:
  "inert (js_ret x) w" "inert js_return w" "inert (js_throw e) w" "inert (get_individual d) w"
  "inert (to_str d) w" "inert (js_some y) w" "inert (some_or_return y) w" "inert (js_ask q) w"
  "inert (data0 pv) w" "inert (flag_is_true pv) w" "inert (trace_if None l d) w" "inert (js_when False m) w"
  by (auto simp: inert_def js_defs some_or_return_def flag_is_true_def trace_if_def split: option.splits list.splits)

lemma inert_fold [inerts]: "(\<And>a x. x \<in> set xs \<Longrightarrow> inert (f a x) w) \<Longrightarrow> inert (js_fold f a xs) w"
  by (induction xs arbitrary: a) (auto intro!: inert_bind inerts)

lemma inert_when [inerts]: "(b \<Longrightarrow> inert m w) \<Longrightarrow> inert (js_when b m) w"
  by (cases b) (auto simp: inert_def js_run)

lemma inertD: "inert m w \<Longrightarrow> m w = (r, w') \<Longrightarrow> w' = w"
  by (simp add: inert_def)

text \<open>A fold whose steps keep a relation of the accumulator.\<close>

lemma js_fold_rel:
  assumes "\<And>a x a'. x \<in> set xs \<Longrightarrow> f a x w = (Val a', w) \<Longrightarrow> Q x a a'" and "\<And>a x. x \<in> set xs \<Longrightarrow> inert (f a x) w"
    and "\<And>a. T [] a a" and "\<And>x ys a b c. x \<in> set xs \<Longrightarrow> Q x a b \<Longrightarrow> T ys b c \<Longrightarrow> T (x # ys) a c"
  shows "js_fold f a xs w = (Val a', w') \<Longrightarrow> T xs a a'"
proof -
  have "set ys \<subseteq> set xs \<Longrightarrow> js_fold f b ys w = (Val a', w') \<Longrightarrow> T ys b a'" for ys b
  proof (induction ys arbitrary: b)
    case Nil
    then show ?case using assms(3) by (simp add: js_run)
  next
    case (Cons y ys)
    then obtain c where c: "f b y w = (Val c, w)" "js_fold f c ys w = (Val a', w')"
      using inertD [OF assms(2) [of y b]] by (auto simp: js_run split: prod.splits res.splits)
    then show ?case using assms(4) [of y b c] Cons assms(1) [of y b c] by simp
  qed
  then show "js_fold f a xs w = (Val a', w') \<Longrightarrow> T xs a a'" by simp
qed

section \<open>Waiting for all orders\<close>

text \<open>The order as the collection reads it has no output variables yet.\<close>

definition unanswered :: "world \<Rightarrow> individual \<Rightarrow> val \<Rightarrow> bool" where
  "unanswered w doc v \<longleftrightarrow>
     (case (if loose_eq (vdata v) (DStr (uri doc)) then Some doc else lookup w (vdata v)) of
        None \<Rightarrow> False | Some wo \<Rightarrow> pget wo ''v-wf:outVars'' = None)"

lemma inert_collect_var [inerts]: "inert (collect_var mapped st v) w"
  unfolding collect_var_def by (cases st) (auto intro!: inert_bind inerts simp: Let_def split: option.split)

lemma inert_collect_order [inerts]: "inert (collect_order mapped doc cs v) w"
  unfolding collect_order_def by (auto intro!: inert_bind inerts split: option.split)

lemma collect_var_results:
  "collect_var mapped st v w = (Val st', w') \<Longrightarrow> cs_results (fst st') = cs_results (fst st)"
  by (auto simp: collect_var_def js_run Let_def split: option.splits if_splits prod.splits res.splits)

lemma collect_vars_results:
  "js_fold (collect_var mapped) st vs w = (Val st', w') \<Longrightarrow> cs_results (fst st') = cs_results (fst st)"
proof (induction vs arbitrary: st w)
  case (Cons v vs)
  then obtain st1 w1 where "collect_var mapped st v w = (Val st1, w1)" "js_fold (collect_var mapped) st1 vs w1 = (Val st', w')"
    by (auto simp: js_run split: prod.splits res.splits)
  with Cons.IH collect_var_results show ?case by metis
qed (simp add: js_run)

lemma collect_order_results:
  assumes "collect_order mapped doc cs v w = (Val cs', w)"
  shows "length (cs_results cs') \<le> (if unanswered w doc v then 0 else 1) + length (cs_results cs)"
proof -
  obtain wo where wo: "(if loose_eq (vdata v) (DStr (uri doc)) then Some doc else lookup w (vdata v)) = Some wo"
    using assms by (cases "lookup w (vdata v)") (auto simp: collect_order_def js_run split: if_splits)
  show ?thesis
  proof (cases "pget wo ''v-wf:outVars''")
    case None
    then show ?thesis using assms wo by (auto simp: collect_order_def js_run unanswered_def split: if_splits)
  next
    case (Some vs)
    then obtain cs1 el b where "js_fold (collect_var mapped) (cs, [(''workOrder'', RText (uri wo))], False) vs w = (Val (cs1, el, b), w)"
        "cs' = (if b then cs1\<lparr>cs_results := cs_results cs1 @ [el]\<rparr> else cs1)"
      using assms wo by (auto simp: collect_order_def js_run split: if_splits prod.splits res.splits)
    with collect_vars_results wo Some show ?thesis by (fastforce simp: unanswered_def)
  qed
qed

lemma collect_results_count:
  assumes "collect_results ne wi doc w = (Val rs, w')"
  shows "length rs \<le> length (filter (\<lambda>v. \<not> unanswered w doc v) (opt_vals (pget wi ''v-wf:workOrderList'')))"
proof -
  let ?vs = "opt_vals (pget wi ''v-wf:workOrderList'')" and ?m = "pget ne ''v-wf:wosResultsMapping'' \<noteq> None"
  obtain cs where cs: "js_fold (collect_order ?m doc) \<lparr>cs_key = DUndef, cs_val = None, cs_results = []\<rparr> ?vs w = (Val cs, w')"
      "rs = cs_results cs"
    using assms by (auto simp: collect_results_def js_run split: prod.splits res.splits)
  have "length (cs_results cs) \<le> length (filter (\<lambda>v. \<not> unanswered w doc v) ?vs) + length (cs_results \<lparr>cs_key = DUndef, cs_val = None, cs_results = []\<rparr>)"
    by (rule js_fold_rel [where T = "\<lambda>ys a c. length (cs_results c) \<le> length (filter (\<lambda>v. \<not> unanswered w doc v) ys) + length (cs_results a)",
          OF collect_order_results _ _ _ cs(1)]) (auto intro: inerts split: if_splits)
  then show ?thesis by (simp add: cs(2))
qed

lemma inert_collect [inerts]: "inert (collect_results ne wi doc) w"
  unfolding collect_results_def by (auto intro!: inert_bind inerts)

lemma finish_waits:
  assumes "wc_trace c = None" "pget (wc_work_item c) ''v-wf:workOrderList'' = Some vs" "v \<in> set vs" "unanswered w (fst st) v"
  shows "inert (wo_finish h c st) w"
proof -
  have "length rs \<noteq> length vs" if "collect_results (wc_net_element c) (wc_work_item c) (fst st) w = (Val rs, w)" for rs
  proof -
    have "length (filter (\<lambda>v. \<not> unanswered w (fst st) v) vs) < length vs" using assms(3,4) by (intro length_filter_less) auto
    with collect_results_count [OF that] assms(2) show ?thesis by (simp add: opt_vals_def)
  qed
  with assms(1,2) show ?thesis
    unfolding wo_finish_def by (auto intro!: inert_bind inerts simp: js_run)
qed

lemma start_answered: "pget (fst st) ''v-wf:outVars'' \<noteq> None \<Longrightarrow> wo_start h c st = js_ret st"
  by (simp add: wo_start_def)

text \<open>
  C1: While an order of the work item has no output variables, the handler of an
  order that has them changes nothing: the work item is not completed, no flow is followed, and only
  error reports can be added.
\<close>

theorem orders_awaited:
  assumes "pget doc ''v-wf:outVars'' \<noteq> None" "untraced doc"
    and "lookup w (getUri (pget doc ''v-wf:forWorkItem'')) = Some wi"
    and "pget wi ''v-wf:workOrderList'' = Some vs" "v \<in> set vs" "unanswered w doc v"
  shows "\<exists>es. prepare_work_order h doc w = (Val (), w\<lparr>errs := errs w @ es\<rparr>)"
proof -
  have fin: "wc_trace c = None \<Longrightarrow> wc_work_item c = wi \<Longrightarrow> inert (wo_finish h c (doc, p, l)) w" for c p l
    by (rule finish_waits) (use assms in auto)
  have trace: "create_new_trace_subjournal pu doc l jt w = (Val None, w)" for pu l jt
    using untraced_run [OF assms(2)] .
  have "inert (create_new_trace_subjournal pu doc l jt) w" for pu l jt
    by (simp add: inert_def trace)
  note reads = inerts this
  have "prepare_work_order h doc = js_func (js_try m) \<Longrightarrow> inert m w \<Longrightarrow> ?thesis" for m
  proof -
    assume "prepare_work_order h doc = js_func (js_try m)" "inert m w"
    then show ?thesis
      by (cases "m w"; cases "fst (m w)") (auto simp: inert_def js_run log_err_def intro: exI [of _ "[]"])
  qed
  note reduce = this
  show ?thesis
    by (rule reduce [OF prepare_work_order_def])
      (use assms(1) in \<open>auto intro!: inert_bind reads fin simp: Let_def start_answered trace run_basic assms(3)\<close>)
qed

text \<open>An answered order whose sibling has no result yet.\<close>

definition answered_ex :: individual where
  "answered_ex = \<lparr>uri = ''d:o1'', props = [(''v-wf:forWorkItem'', uriv ''d:w1''), (''v-wf:outVars'', uriv ''d:v'')]\<rparr>"

definition shared_item_ex :: individual where
  "shared_item_ex = \<lparr>uri = ''d:w1'', props = [(''v-wf:workOrderList'', uriv ''d:o1'' @ uriv ''d:o2'')]\<rparr>"

definition order_world :: world where
  "order_world = world_of [answered_ex, shared_item_ex, \<lparr>uri = ''d:o2'', props = []\<rparr>]"

theorem orders_awaited_witness:
  "\<exists>es. prepare_work_order idle_hooks answered_ex order_world = (Val (), order_world\<lparr>errs := errs order_world @ es\<rparr>)"
proof (rule orders_awaited [where wi = shared_item_ex and vs = "uriv ''d:o1'' @ uriv ''d:o2''" and v = "mkv TUri (DStr ''d:o2'')"])
  show "lookup order_world (getUri (pget answered_ex ''v-wf:forWorkItem'')) = Some shared_item_ex"
    by (simp add: order_world_def lookup_world_of plain_def answered_ex_def shared_item_ex_def)
  show "unanswered order_world answered_ex (mkv TUri (DStr ''d:o2''))"
    by (simp add: unanswered_def order_world_def lookup_world_of plain_def answered_ex_def shared_item_ex_def)
qed (simp_all add: answered_ex_def shared_item_ex_def untraced_def newUri_def)

section \<open>Following the flows\<close>

text \<open>The flow is taken: without a predicate if the element does not split, else if it gives \<open>true\<close>.\<close>

definition taken :: "world \<Rightarrow> (jdata \<Rightarrow> sres) \<Rightarrow> jdata \<Rightarrow> val \<Rightarrow> bool" where
  "taken w ans split fv =
     (case lookup w (vdata fv) of
        None \<Rightarrow> False
      | Some flow \<Rightarrow>
          pget flow ''v-wf:flowsInto'' \<noteq> None
          \<and> (case pget flow ''v-wf:predicate'' of
               None \<Rightarrow> \<not> truthy split \<or> loose_eq split (DStr ''v-wf:None'')
             | Some p \<Rightarrow> truthy (getFirstValue (Some p)) \<and> ans (getFirstValue (Some p)) = SPrim (DBool True)))"

definition guarded :: "world \<Rightarrow> val \<Rightarrow> bool" where
  "guarded w fv =
     (case lookup w (vdata fv) of None \<Rightarrow> False | Some flow \<Rightarrow> pget flow ''v-wf:predicate'' \<noteq> None)"

definition flow_target :: "world \<Rightarrow> val \<Rightarrow> individual option" where
  "flow_target w fv =
     (case lookup w (vdata fv) of None \<Rightarrow> None | Some flow \<Rightarrow> lookup w (getUri (pget flow ''v-wf:flowsInto'')))"

text \<open>The elements behind the flows that are taken; an XOR split takes the first.\<close>

definition next_elements :: "world \<Rightarrow> (jdata \<Rightarrow> sres) \<Rightarrow> jdata \<Rightarrow> val list \<Rightarrow> individual list" where
  "next_elements w ans split flows =
     List.map_filter (flow_target w)
       ((if loose_eq split (DStr ''v-wf:XOR'') then take 1 else (\<lambda>fs. fs)) (filter (taken w ans split) flows))"

text \<open>One new work item for each of the elements.\<close>

definition item_id :: "world \<Rightarrow> nat \<Rightarrow> string" where
  "item_id w k = uri_of_guid (guid_of w k) @ ''-wit''"

definition add_work_item :: "wo_ctx \<Rightarrow> individual \<Rightarrow> individual \<Rightarrow> world \<Rightarrow> world" where
  "add_work_item c wi e w =
     do_put (work_item_body (item_id w (nguid w)) (DDate (now w)) (wc_process_uri c) (uri e) (Some (uri wi)) (wc_trace c \<noteq> None))
       (next_guid w)"

fun new_items :: "wo_ctx \<Rightarrow> individual \<Rightarrow> individual list \<Rightarrow> world \<Rightarrow> string list \<times> world" where
  "new_items c wi [] w = ([], w)"
| "new_items c wi (e # es) w =
     (let (us, w') = new_items c wi es (add_work_item c wi e w) in (item_id w (nguid w) # us, w'))"

text \<open>The names of the new items are not those of the flows and elements that are read.\<close>

definition no_item :: "world \<Rightarrow> jdata \<Rightarrow> bool" where
  "no_item w d \<longleftrightarrow> (\<forall>k \<ge> nguid w. js_str (date_str w) d \<noteq> item_id w k)"

definition net_apart :: "world \<Rightarrow> val list \<Rightarrow> bool" where
  "net_apart w flows \<longleftrightarrow>
     (\<forall>v \<in> set flows. no_item w (vdata v)
        \<and> (\<forall>flow. lookup w (vdata v) = Some flow \<longrightarrow> no_item w (getUri (pget flow ''v-wf:flowsInto''))))"

lemma uri_work_item_body [simp]: "uri (work_item_body u d p e par t) = u"
  by (simp add: work_item_body_def Let_def set_prop_def split: option.split)

lemma item_id_not_Nil [simp]: "item_id w k \<noteq> []" "[] \<noteq> item_id w k"
  by (simp_all add: item_id_def)

lemma add_work_item_env [simp]:
  "nguid (add_work_item c wi e w) = Suc (nguid w)" "date_str (add_work_item c wi e w) = date_str w"
  "item_id (add_work_item c wi e w) k = item_id w k" "gvars (add_work_item c wi e w) = gvars w"
  "store (add_work_item c wi e w) = (store w)(item_id w (nguid w) \<mapsto>
     norm_ind w (work_item_body (item_id w (nguid w)) (DDate (now w)) (wc_process_uri c) (uri e) (Some (uri wi)) (wc_trace c \<noteq> None)))"
  by (simp_all add: add_work_item_def item_id_def store_do_put)

lemma no_item_add: "no_item w d \<Longrightarrow> no_item (add_work_item c wi e w) d"
  by (simp add: no_item_def)

lemma lookup_add [simp]: "no_item w d \<Longrightarrow> lookup (add_work_item c wi e w) d = lookup w d"
  by (cases d) (auto simp: lookup_def get_id_def no_item_def)

lemma net_apart_add: "net_apart w flows \<Longrightarrow> net_apart (add_work_item c wi e w) flows"
  by (auto simp: net_apart_def no_item_add)

lemma map_filter_cong: "(\<And>x. x \<in> set xs \<Longrightarrow> f x = g x) \<Longrightarrow> List.map_filter f xs = List.map_filter g xs"
  by (induction xs) (auto simp: List.map_filter_simps split: option.split)

lemma taken_add:
  assumes "net_apart w flows" "v \<in> set flows"
  shows "taken (add_work_item c wi e w) ans split v = taken w ans split v"
    "flow_target (add_work_item c wi e w) v = flow_target w v"
  using assms by (auto simp: net_apart_def taken_def flow_target_def split: option.split)

lemma next_elements_add:
  assumes "net_apart w flows"
  shows "next_elements (add_work_item c wi e w) ans split flows = next_elements w ans split flows"
proof -
  let ?w = "add_work_item c wi e w"
  have f: "filter (taken ?w ans split) flows = filter (taken w ans split) flows"
    using taken_add(1) [OF assms] by (intro filter_cong) auto
  have "List.map_filter (flow_target ?w) ys = List.map_filter (flow_target w) ys" if "set ys \<subseteq> set flows" for ys
    using taken_add(2) [OF assms] that by (intro map_filter_cong) auto
  moreover have "set (take 1 (filter (taken w ans split) flows)) \<subseteq> set flows"
    using set_take_subset [of 1 "filter (taken w ans split) flows"] by auto
  ultimately show ?thesis unfolding next_elements_def f by (auto simp: filter_is_subset)
qed

lemma loose_eq_XOR: "loose_eq split (DStr ''v-wf:XOR'') \<Longrightarrow> split = DStr ''v-wf:XOR''"
proof -
  have "parse_number ''v-wf:XOR'' = None" by code_simp
  then show "loose_eq split (DStr ''v-wf:XOR'') \<Longrightarrow> split = DStr ''v-wf:XOR''"
    by (cases split) (auto simp: num_rel_def num_eq_def split: option.splits)
qed

lemma new_item_run:
  "next_work_item c wi flowsInto acc w =
     (case lookup w (getUri (Some flowsInto)) of
        None \<Rightarrow> (Val acc, w)
      | Some e \<Rightarrow> (Val (acc @ uriv (item_id w (nguid w))), add_work_item c wi e w))"
  by (simp add: next_work_item_def create_work_item_def run_bind run_seq run_basic item_id_def add_work_item_def
      next_guid_simps split: option.split)

lemma flow_step_run:
  assumes ev: "\<And>e w. eval_js (h_eval h) e sc w = (Val (ans e), w)" and trace: "wc_trace c = None"
  shows "wo_flow_step h c sc wi split acc v w =
    (if \<not> taken w ans split v then (Val (acc, True), w)
     else (case flow_target w v of
             None \<Rightarrow> (Val (acc, \<not> loose_eq split (DStr ''v-wf:XOR'')), w)
           | Some e \<Rightarrow> (Val (acc @ uriv (item_id w (nguid w)), \<not> loose_eq split (DStr ''v-wf:XOR'')), add_work_item c wi e w)))"
proof (cases "lookup w (vdata v)")
  case None
  then show ?thesis by (simp add: wo_flow_step_def run_bind run_basic taken_def)
next
  case (Some flow)
  show ?thesis
  proof (cases "pget flow ''v-wf:flowsInto''")
    case None
    with Some show ?thesis by (simp add: wo_flow_step_def run_bind run_basic taken_def)
  next
    case (Some fi)
    note fi = this
    show ?thesis
    proof (cases "pget flow ''v-wf:predicate''")
      case None
      have "\<not> truthy split \<or> loose_eq split (DStr ''v-wf:None'') \<Longrightarrow> \<not> loose_eq split (DStr ''v-wf:XOR'')"
        using loose_eq_XOR by fastforce
      with None fi \<open>lookup w (vdata v) = Some flow\<close> show ?thesis
        by (auto simp: wo_flow_step_def run_bind run_basic taken_def flow_target_def new_item_run split: option.split)
    next
      case (Some p)
      with fi \<open>lookup w (vdata v) = Some flow\<close> ev trace show ?thesis
        by (auto simp: wo_flow_step_def wo_guarded_flow_def Let_def run_bind run_seq run_basic run_control taken_def flow_target_def
            new_item_run split: option.split)
    qed
  qed
qed

lemma net_apart_Cons: "net_apart w (v # fs) \<Longrightarrow> net_apart w fs"
  by (simp add: net_apart_def)

lemma next_elements_Cons:
  "next_elements w ans split (v # fs) =
    (if \<not> taken w ans split v then next_elements w ans split fs
     else if loose_eq split (DStr ''v-wf:XOR'') then List.map_filter (flow_target w) [v]
     else (case flow_target w v of None \<Rightarrow> next_elements w ans split fs | Some e \<Rightarrow> e # next_elements w ans split fs))"
  by (simp add: next_elements_def List.map_filter_simps split: option.split)

lemma follow_flows:
  assumes ev: "\<And>e w. eval_js (h_eval h) e sc w = (Val (ans e), w)" and trace: "wc_trace c = None"
  shows "net_apart w flows \<Longrightarrow>
    js_fold_break (wo_flow_step h c sc wi split) acc flows w =
      (case new_items c wi (next_elements w ans split flows) w of (ids, w') \<Rightarrow> (Val (acc @ concat (map uriv ids)), w'))"
proof (induction flows arbitrary: acc w)
  case Nil
  then show ?case by (simp add: run_basic next_elements_def List.map_filter_simps)
next
  case (Cons v fs)
  note step = flow_step_run [OF ev trace, of wi split acc v w]
  note apart = net_apart_Cons [OF Cons.prems]
  consider "\<not> taken w ans split v"
    | "taken w ans split v" "loose_eq split (DStr ''v-wf:XOR'')"
    | "taken w ans split v" "\<not> loose_eq split (DStr ''v-wf:XOR'')" by blast
  then show ?case
  proof cases
    case 1
    then show ?thesis using Cons.IH [OF apart, of acc] by (simp add: run_bind step next_elements_Cons)
  next
    case 2
    then show ?thesis
      by (cases "flow_target w v") (simp_all add: run_bind run_basic step next_elements_Cons List.map_filter_simps)
  next
    case 3
    show ?thesis
    proof (cases "flow_target w v")
      case None
      with 3 show ?thesis using Cons.IH [OF apart, of acc] by (simp add: run_bind step next_elements_Cons)
    next
      case (Some e)
      with 3 show ?thesis
        using Cons.IH [OF net_apart_add [OF apart], of "acc @ uriv (item_id w (nguid w))" c wi e]
        by (simp add: run_bind step next_elements_Cons next_elements_add [OF apart] split: prod.split)
    qed
  qed
qed

lemma new_items_length: "length (fst (new_items c wi es w)) = length es"
  by (induction es arbitrary: w) (simp_all add: split_def Let_def)

text \<open>
  C2: Completing a work item of an element without mappings follows the flows of
  the net: one new work item, which names its predecessor, for the element behind each flow that is
  taken, in order, at most one with an XOR split; then the work item is stored as completed with the
  list of its successors, and the journal is cleaned up.
\<close>

theorem flows_followed:
  fixes c :: wo_ctx and w :: world and wi :: individual
  defines "wi \<equiv> wc_work_item c" and "ne \<equiv> wc_net_element c"
  assumes "\<And>e w. eval_js (h_eval h) e \<lparr>sc_process = Some process, sc_task = Some wi, sc_order = None, sc_result = Some results\<rparr> w = (Val (ans e), w)"
    and "wc_trace c = None" "pget ne ''v-wf:completedMapping'' = None" "pget ne ''v-wf:completedJournalMap'' = None"
    and "pget ne ''v-wf:hasFlow'' = Some flows" "net_apart w flows"
  shows "\<exists>elements ids w'. elements = next_elements w ans (getUri (pget ne ''v-wf:split'')) flows
    \<and> new_items c wi elements w = (ids, w') \<and> length ids = length elements
    \<and> (loose_eq (getUri (pget ne ''v-wf:split'')) (DStr ''v-wf:XOR'') \<longrightarrow> length ids \<le> 1)
    \<and> wo_complete h c results (doc, process, vars) w =
        remove_empty_branches_from_journal (getJournalUri (uri doc))
          (do_put (completed_item (concat (map uriv ids)) vars wi) w')"
proof -
  let ?split = "getUri (pget ne ''v-wf:split'')"
  let ?es = "next_elements w ans ?split flows"
  obtain ids w' where n: "new_items c wi ?es w = (ids, w')" by (cases "new_items c wi ?es w")
  note follow = follow_flows [OF assms(3,4,8), of wi ?split "[]", unfolded n]
  have "length ids = length ?es" using new_items_length [of c wi ?es w] n by simp
  moreover have "loose_eq ?split (DStr ''v-wf:XOR'') \<Longrightarrow> length ?es \<le> 1"
    by (auto simp: next_elements_def List.map_filter_def intro: order_trans [OF length_filter_le])
  moreover have "wo_complete h c results (doc, process, vars) w =
        remove_empty_branches_from_journal (getJournalUri (uri doc)) (do_put (completed_item (concat (map uriv ids)) vars wi) w')"
    using follow assms(5-7)
    by (auto simp: wo_complete_def wi_def ne_def mapToJournal_def Let_def run_bind run_seq run_basic split: list.split)
  ultimately show ?thesis using n by auto
qed

text \<open>Two flows whose predicates both hold, under an XOR split.\<close>

definition yes_hooks :: hooks where
  "yes_hooks = idle_hooks\<lparr>h_eval := (\<lambda>s sc. js_ret (SPrim (DBool True)))\<rparr>"

definition fork_ex :: individual where
  "fork_ex = \<lparr>uri = ''d:t'', props = [(''v-wf:split'', uriv ''v-wf:XOR''), (''v-wf:hasFlow'', uriv ''d:f1'' @ uriv ''d:f2'')]\<rparr>"

definition guarded_flow_ex :: "string \<Rightarrow> individual" where
  "guarded_flow_ex u = set_prop ''v-wf:predicate'' (strv ''yes'') (flow_ex u)"

definition fork_world :: world where
  "fork_world = world_of [guarded_flow_ex ''d:f1'', guarded_flow_ex ''d:f2'', join_ex]"

definition fork_context :: wo_ctx where
  "fork_context = \<lparr>wc_executor = None, wc_f_executor = None, wc_for_process = None, wc_process_uri = ''d:p'',
     wc_net_element = fork_ex, wc_work_item = item_ex, wc_trace = None, wc_journal = []\<rparr>"

lemma fork_lookups [simp]:
  "lookup fork_world (DStr ''d:f1'') = Some (guarded_flow_ex ''d:f1'')"
  "lookup fork_world (DStr ''d:f2'') = Some (guarded_flow_ex ''d:f2'')"
  "lookup fork_world (DStr ''d:e'') = Some join_ex"
  unfolding fork_world_def by (simp_all add: lookup_world_of plain_def guarded_flow_ex_def set_prop_def flow_ex_def join_ex_def)

lemma fork_item_id: "item_id fork_world k = ''d:g'' @ show_nat k @ ''-wit''"
  by (simp add: item_id_def uri_of_guid_def fork_world_def world_of_def empty_world_def char_digit_def)

abbreviation say_yes :: "jdata \<Rightarrow> sres" where
  "say_yes \<equiv> \<lambda>e. case e of DStr s \<Rightarrow> SPrim (DBool True) | d \<Rightarrow> SPrim d"

lemma fork_next:
  "next_elements fork_world say_yes (DStr ''v-wf:XOR'') (uriv ''d:f1'' @ uriv ''d:f2'') = [join_ex]"
  by (simp add: next_elements_def taken_def flow_target_def List.map_filter_simps newUri_def guarded_flow_ex_def flow_ex_def)

theorem flows_followed_witness:
  "wo_complete yes_hooks fork_context [] (answered_ex, process_ex, []) fork_world =
    remove_empty_branches_from_journal (getJournalUri ''d:o1'')
      (do_put (completed_item (uriv ''d:g0-wit'') [] item_ex) (add_work_item fork_context item_ex join_ex fork_world))"
proof -
  have apart: "net_apart fork_world (uriv ''d:f1'' @ uriv ''d:f2'')"
    by (simp add: net_apart_def no_item_def fork_item_id newUri_def guarded_flow_ex_def flow_ex_def)
  have id: "item_id fork_world (nguid fork_world) = ''d:g0-wit''"
    by (simp add: fork_item_id) (simp add: fork_world_def world_of_def empty_world_def show_nat_eval)
  have "eval_js (h_eval yes_hooks) e sc w = (Val (say_yes e), w)" for e sc w
    by (simp add: yes_hooks_def eval_js_def run_basic split: jdata.split)
  from flows_followed [where c = fork_context and h = yes_hooks and process = process_ex and results = "[]" and ans = say_yes
      and w = fork_world and flows = "uriv ''d:f1'' @ uriv ''d:f2''" and doc = answered_ex and vars = "[]", OF this]
  show ?thesis
    using apart by (simp add: fork_context_def fork_ex_def fork_next id answered_ex_def Let_def)
qed

section \<open>The orders of a task\<close>

definition order_id :: "world \<Rightarrow> nat \<Rightarrow> string" where
  "order_id w k = uri_of_guid (guid_of w k) @ ''-wo''"

definition put_all :: "individual list \<Rightarrow> world \<Rightarrow> world" where
  "put_all is w = foldl (\<lambda>w i. do_put i w) w is"

lemma put_all_run: "js_for is put_individual w = (Val (), put_all is w)"
  by (induction "is" arbitrary: w) (simp_all add: js_run put_all_def)

definition orders_from :: "world \<Rightarrow> string \<Rightarrow> val list option \<Rightarrow> val option list \<Rightarrow> individual list" where
  "orders_from w item sub xs =
     map (\<lambda>(k, x). work_order_body (order_id w k) item sub False x) (enumerate (nguid w) xs)"

lemma new_orders_run:
  "new_orders item sub False xs w = (Val (orders_from w item sub xs), w\<lparr>nguid := nguid w + length xs\<rparr>)"
proof -
  have "js_fold (\<lambda>os x. js_bind genUri (\<lambda>u. js_ret (os @ [work_order_body (u @ ''-wo'') item sub False x]))) acc xs w =
      (Val (acc @ orders_from w item sub xs), w\<lparr>nguid := nguid w + length xs\<rparr>)" for acc
    by (induction xs arbitrary: acc w) (simp_all add: run_basic run_bind run_fold_Cons orders_from_def order_id_def next_guid_def)
  from this [of "[]"] show ?thesis by (simp add: new_orders_def)
qed

lemma work_order_body_simps:
  "uri (work_order_body u item sub t x) = u"
  "pget (work_order_body u item sub t x) ''v-wf:forWorkItem'' = Some (uriv item)"
  "pget (work_order_body u item sub t x) ''v-wf:executor'' = map_option (\<lambda>v. [v]) x"
  "pget (work_order_body u item sub t x) ''v-wf:outVars'' = None"
  by (auto simp: work_order_body_def Let_def set_prop_def split: option.split)

text \<open>Executors that are individuals themselves, not definitions of executors.\<close>

definition plain_executors :: "world \<Rightarrow> val list \<Rightarrow> bool" where
  "plain_executors w vs \<longleftrightarrow>
     (\<forall>v\<in>set vs. \<exists>ex. lookup w (vdata v) = Some ex \<and> \<not> has_uri ex ''rdf:type'' ''v-wf:ExecutorDefinition'')"

lemma executor_list_run:
  assumes "wx_trace c = None" "plain_executors w vs"
  shows "js_fold (add_executor h c p d) acc vs w = (Val (acc @ vs), w)"
  using assms(2)
proof (induction vs arbitrary: acc)
  case (Cons v vs)
  then obtain ex where "lookup w (vdata v) = Some ex" "\<not> has_uri ex ''rdf:type'' ''v-wf:ExecutorDefinition''"
    by (auto simp: plain_executors_def)
  with Cons assms(1) show ?case by (simp add: run_basic run_bind run_seq run_fold_Cons add_executor_def plain_executors_def)
qed (simp add: run_basic)

text \<open>
  C5: The work item of a task without mappings gives one new order to each executor,
  in order (one order without an executor if there is none): each order names its work item and its
  executor and has no result, and the work item is stored with the list of exactly these orders.
\<close>

theorem task_orders:
  fixes c :: wi_ctx and doc :: individual and vs :: "val list"
  defines "ne \<equiv> wx_net_element c" and "xs \<equiv> (if vs = [] then [None] else map Some vs)"
  assumes "wx_trace c = None" "pget ne ''v-wf:startingMapping'' = None" "pget ne ''v-wf:startingJournalMap'' = None"
    and "create_new_subjournal (wx_process_uri c) (uri doc) (label_of (pget ne ''rdfs:label'')) ''v-wf:WorkItemStarted'' w = (Val ju, w1)"
    and "pget ne ''v-wf:executor'' = Some vs" "plain_executors w1 vs"
  shows "\<exists>orders. length orders = length xs
    \<and> (\<forall>k < length xs. uri (orders ! k) = order_id w1 (nguid w1 + k)
         \<and> pget (orders ! k) ''v-wf:forWorkItem'' = Some (uriv (uri doc))
         \<and> pget (orders ! k) ''v-wf:executor'' = map_option (\<lambda>v. [v]) (xs ! k)
         \<and> pget (orders ! k) ''v-wf:outVars'' = None)
    \<and> wi_task h c process doc w =
        (Val (), put_all (set_prop ''v-wf:workOrderList'' (var_refs orders) doc # orders) (w1\<lparr>nguid := nguid w1 + length xs\<rparr>))"
proof -
  let ?os = "orders_from w1 (uri doc) (pget ne ''v-wf:subNet'') xs"
  have ex: "executor_list_of h c process doc w1 = (Val (map Some vs), w1)"
    using assms(7) executor_list_run [OF assms(3,8), of h process doc "[]"]
    by (simp add: executor_list_of_def ne_def run_bind run_basic)
  have "k < length xs \<Longrightarrow> ?os ! k = work_order_body (order_id w1 (nguid w1 + k)) (uri doc) (pget ne ''v-wf:subNet'') False (xs ! k)" for k
    by (simp add: orders_from_def nth_enumerate_eq)
  moreover have "wi_task h c process doc w =
      (Val (), put_all (set_prop ''v-wf:workOrderList'' (var_refs ?os) doc # ?os) (w1\<lparr>nguid := nguid w1 + length xs\<rparr>))"
    using assms(3-6) ex
    by (simp add: wi_task_def ne_def [symmetric] xs_def mapToJournal_def run_bind run_seq run_basic new_orders_run put_all_run)
      (simp add: put_all_def)
  ultimately show ?thesis by (intro exI [of _ ?os]) (simp add: work_order_body_simps orders_from_def)
qed

text \<open>A task with two executors, whose work item already has a journal.\<close>

definition staffed_ex :: individual where
  "staffed_ex = \<lparr>uri = ''d:t'', props = [(''v-wf:executor'', uriv ''d:u'' @ uriv ''d:v'')]\<rparr>"

definition staffed_context :: wi_ctx where
  "staffed_context = \<lparr>wx_net = net_ex, wx_net_element = staffed_ex, wx_process_uri = ''d:p'', wx_trace = None\<rparr>"

definition staffed_world :: world where
  "staffed_world = world_of [\<lparr>uri = getJournalUri (uri item_ex), props = []\<rparr>, \<lparr>uri = ''d:u'', props = []\<rparr>, \<lparr>uri = ''d:v'', props = []\<rparr>]"

lemma staffed_journal:
  "create_new_subjournal ''d:p'' (uri item_ex) l jt staffed_world = (Val (getJournalUri (uri item_ex)), staffed_world)"
  by (simp add: create_new_subjournal_def create_new_subjournal_any_def Let_def run_bind run_basic staffed_world_def
      lookup_world_of plain_def getJournalUri_def item_ex_def)

theorem task_orders_witness:
  "\<exists>orders. length orders = 2 \<and> pget (orders ! 1) ''v-wf:executor'' = Some (uriv ''d:v'')
    \<and> wi_task idle_hooks staffed_context process_ex item_ex staffed_world =
        (Val (), put_all (set_prop ''v-wf:workOrderList'' (var_refs orders) item_ex # orders)
          (staffed_world\<lparr>nguid := nguid staffed_world + 2\<rparr>))"
proof -
  let ?vs = "[mkv TUri (DStr ''d:u''), mkv TUri (DStr ''d:v'')]"
  have ex: "plain_executors staffed_world ?vs"
    by (simp add: plain_executors_def staffed_world_def lookup_world_of plain_def getJournalUri_def item_ex_def hasValue_def)
  have ne: "wx_net_element staffed_context = staffed_ex" "wx_trace staffed_context = None" "wx_process_uri staffed_context = ''d:p''"
    by (simp_all add: staffed_context_def)
  have facts: "pget staffed_ex ''v-wf:startingMapping'' = None" "pget staffed_ex ''v-wf:startingJournalMap'' = None"
      "pget staffed_ex ''v-wf:executor'' = Some ?vs"
    by (simp_all add: staffed_ex_def newUri_def)
  from task_orders [where c = staffed_context and doc = item_ex and w = staffed_world and ju = "getJournalUri (uri item_ex)"
      and ?w1.0 = staffed_world and vs = ?vs and h = idle_hooks and process = process_ex, unfolded ne, OF refl facts(1,2) staffed_journal facts(3) ex]
  show ?thesis by (rule ex_forward) (auto simp: newUri_def)
qed

end
