(* ===== verification/Net_Editor.thy ===== *)
theory Net_Editor
  imports Individual_Model
begin

text \<open>
  The editor of nets, \<^verbatim>\<open>public/modules/docflow/js/browser/veda_workflow_editor.js\<close>: what its
  operations do to the individuals of a net, and what it shows of a process. The drawing itself
  belongs to the library jsPlumb, whose events are the operations here. Every id has one model (the
  cache of individuals). The properties that the editor reads hold individuals; ids that
  \<open>new IndividualModel ()\<close> draws and places on the canvas are arguments.
\<close>

section \<open>The state\<close>

record editor =
  e_net :: string
  e_models :: "string \<Rightarrow> imodel"

definition model_refs :: "imodel \<Rightarrow> string \<Rightarrow> string list" where
  "model_refs m p = map (\<lambda>v. js_str iso_date (vdata v)) (filter (\<lambda>v. vtype v = TUri) (mvals m p))"

definition refs :: "editor \<Rightarrow> string \<Rightarrow> string \<Rightarrow> string list" where
  "refs ed u p = model_refs (e_models ed u) p"

text \<open>\<open>hasValue (p, v)\<close> for an individual \<open>v\<close>\<close>

definition has_ref :: "editor \<Rightarrow> string \<Rightarrow> string \<Rightarrow> string \<Rightarrow> bool" where
  "has_ref ed u p v \<longleftrightarrow> v \<in> set (refs ed u p)"

definition set_prop_values :: "string \<Rightarrow> string \<Rightarrow> mval list \<Rightarrow> editor \<Rightarrow> editor" where
  "set_prop_values u p vs ed = ed\<lparr>e_models := (e_models ed)(u := set_value iso_date p vs False (e_models ed u))\<rparr>"

definition set_refs :: "string \<Rightarrow> string \<Rightarrow> string list \<Rightarrow> editor \<Rightarrow> editor" where
  "set_refs u p ids ed = set_prop_values u p (map MRef ids) ed"

definition fresh_model :: "string \<Rightarrow> editor \<Rightarrow> editor" where
  "fresh_model u ed = ed\<lparr>e_models := (e_models ed)(u := new_model u)\<rparr>"

abbreviation elements :: "editor \<Rightarrow> string list" where
  "elements ed \<equiv> refs ed (e_net ed) ''v-wf:consistsOf''"

definition add_element :: "string \<Rightarrow> editor \<Rightarrow> editor" where
  "add_element u ed = set_refs (e_net ed) ''v-wf:consistsOf'' (elements ed @ [u]) ed"

text \<open>\<open>veda.Util.forSubIndividual\<close> and \<open>removeSubIndividual\<close>: the getter copies the array.\<close>

definition forSubIndividual :: "string \<Rightarrow> string \<Rightarrow> string \<Rightarrow> (editor \<Rightarrow> editor) \<Rightarrow> editor \<Rightarrow> editor" where
  "forSubIndividual u p x f ed = foldl (\<lambda>ed y. if y = x then f ed else ed) ed (refs ed u p)"

definition removeSubIndividual :: "editor \<Rightarrow> string \<Rightarrow> string \<Rightarrow> string \<Rightarrow> string list" where
  "removeSubIndividual ed u p x = filter (\<lambda>y. y \<noteq> x) (refs ed u p)"

section \<open>Flows\<close>

text \<open>
  A new connection, or one whose target was moved. jsPlumb names its own connections \<^verbatim>\<open>con_n\<close>: an
  id with \<^verbatim>\<open>con\<close> in it is taken for a new flow, any other for an existing one.
\<close>

definition on_connection :: "string \<Rightarrow> string \<Rightarrow> string \<Rightarrow> string \<Rightarrow> editor \<Rightarrow> editor" where
  "on_connection conn source target fresh ed =
     (if \<not> has_text ''con'' conn then set_refs conn ''v-wf:flowsInto'' [target] ed
      else let ed1 = set_refs fresh ''rdf:type'' [''v-wf:Flow''] (fresh_model fresh ed);
               ed2 = add_element fresh ed1;
               ed3 = set_refs source ''v-wf:hasFlow'' (refs ed2 source ''v-wf:hasFlow'' @ [fresh]) ed2
           in set_refs fresh ''v-wf:flowsInto'' [target] ed3)"

definition move_source :: "string \<Rightarrow> string \<Rightarrow> string \<Rightarrow> editor \<Rightarrow> string \<Rightarrow> editor" where
  "move_source orig new conn ed s =
     (let ed1 = (if s = orig then set_refs s ''v-wf:hasFlow'' (removeSubIndividual ed s ''v-wf:hasFlow'' conn) ed else ed)
      in if s = new then set_refs s ''v-wf:hasFlow'' (refs ed1 s ''v-wf:hasFlow'' @ [conn]) ed1 else ed1)"

definition on_connection_moved :: "string \<Rightarrow> string \<Rightarrow> string \<Rightarrow> editor \<Rightarrow> editor" where
  "on_connection_moved orig new conn ed =
     (if orig = new then ed else foldl (move_source orig new conn) ed (elements ed))"

definition deleteFlow :: "string \<Rightarrow> string \<Rightarrow> editor \<Rightarrow> editor" where
  "deleteFlow flow source ed =
     (let ed1 = set_refs (e_net ed) ''v-wf:consistsOf'' (removeSubIndividual ed (e_net ed) ''v-wf:consistsOf'' flow) ed
      in set_refs source ''v-wf:hasFlow'' (removeSubIndividual ed1 source ''v-wf:hasFlow'' flow) ed1)"

section \<open>Elements\<close>

definition delete_if_into :: "string \<Rightarrow> string \<Rightarrow> editor \<Rightarrow> string \<Rightarrow> editor" where
  "delete_if_into x state ed flow =
     (case refs ed flow ''v-wf:flowsInto'' of [] \<Rightarrow> ed | t # _ \<Rightarrow> if t = x then deleteFlow flow state ed else ed)"

definition deleteState :: "string \<Rightarrow> editor \<Rightarrow> editor" where
  "deleteState x ed =
     (let ed1 = set_refs (e_net ed) ''v-wf:consistsOf'' (removeSubIndividual ed (e_net ed) ''v-wf:consistsOf'' x) ed
      in foldl (\<lambda>ed state. foldl (delete_if_into x state) ed (refs ed state ''v-wf:hasFlow'')) ed1 (elements ed1))"

datatype element_kind = KCondition | KTask | KInput | KOutput

fun kind_type :: "element_kind \<Rightarrow> string" where
  "kind_type KCondition = ''v-wf:Condition''"
| "kind_type KTask = ''v-wf:Task''"
| "kind_type KInput = ''v-wf:InputCondition''"
| "kind_type KOutput = ''v-wf:OutputCondition''"

text \<open>\<open>n + k\<close> on a number\<close>

fun add_num :: "mval \<Rightarrow> int \<Rightarrow> mval" where
  "add_num (MNum n) k = MNum (n + k)"
| "add_num (MDec m e) k = MDec (m + k * 10 ^ e) e"
| "add_num _ k = MNaN"

definition num_at :: "editor \<Rightarrow> string \<Rightarrow> string \<Rightarrow> mval" where
  "num_at ed u p =
     (case get_values iso_date (\<lambda>_. 0) (e_models ed u) p of [] \<Rightarrow> MUndef | v # _ \<Rightarrow> v)"

text \<open>The two empty labels are no values: the assignment changes nothing but the mark of a change.\<close>

definition createEmptyNetElement :: "element_kind \<Rightarrow> string \<Rightarrow> mval \<Rightarrow> mval \<Rightarrow> editor \<Rightarrow> editor" where
  "createEmptyNetElement k fresh x y ed =
     (let ed1 = set_prop_values fresh ''rdfs:label'' [MText [], MText []] (fresh_model fresh ed);
          ed2 = set_prop_values fresh ''v-wf:locationY'' [y] (set_prop_values fresh ''v-wf:locationX'' [x] ed1);
          ed3 = (if k = KOutput
                 then set_prop_values fresh ''v-wf:locationX'' [add_num (num_at ed2 fresh ''v-wf:locationX'') 200] ed2
                 else ed2)
      in add_element fresh (set_refs fresh ''rdf:type'' [kind_type k] ed3))"

text \<open>Only tasks and conditions are copied; \<open>clone\<close> then runs the scripts of the class.\<close>

definition copy_element :: "(string \<Rightarrow> int) \<Rightarrow> string \<Rightarrow> string \<Rightarrow> editor \<Rightarrow> editor" where
  "copy_element date_parse u fresh ed =
     (case refs ed u ''rdf:type'' of
        [] \<Rightarrow> ed
      | t # _ \<Rightarrow>
          if t = ''v-wf:Task'' \<or> t = ''v-wf:Condition''
          then let ed1 = ed\<lparr>e_models := (e_models ed)(fresh := clone_model date_parse fresh (e_models ed u))\<rparr>;
                   ed2 = set_prop_values fresh ''v-wf:locationX'' [add_num (num_at ed u ''v-wf:locationX'') 50] ed1;
                   ed3 = set_prop_values fresh ''v-wf:locationY'' [add_num (num_at ed u ''v-wf:locationY'') 50] ed2
               in add_element fresh (set_refs fresh ''v-wf:hasFlow'' [] ed3)
          else ed)"

text \<open>A net without an input or an output condition gets one; \<open>found\<close> are the prefetched elements.\<close>

definition createNetView :: "string list \<Rightarrow> string \<Rightarrow> string \<Rightarrow> mval \<Rightarrow> mval \<Rightarrow> editor \<Rightarrow> editor" where
  "createNetView found fresh1 fresh2 x y ed =
     (let ed1 = (if list_ex (\<lambda>u. has_ref ed u ''rdf:type'' ''v-wf:InputCondition'') found then ed
                 else createEmptyNetElement KInput fresh1 x y ed)
      in if list_ex (\<lambda>u. has_ref ed u ''rdf:type'' ''v-wf:OutputCondition'') found then ed1
         else createEmptyNetElement KOutput fresh2 x y ed1)"

section \<open>Variables and saving\<close>

definition first_text :: "imodel \<Rightarrow> string \<Rightarrow> string" where
  "first_text m p = (case mvals m p of [] \<Rightarrow> ''undefined'' | v # _ \<Rightarrow> js_str iso_date (vdata v))"

definition addVarProperty :: "string \<Rightarrow> string \<Rightarrow> string \<Rightarrow> string \<Rightarrow> editor \<Rightarrow> editor" where
  "addVarProperty stateId mapping varId fresh ed =
     (let ed1 = set_refs fresh ''v-wf:mapToVariable'' [varId] (set_refs fresh ''rdf:type'' [''v-wf:Mapping''] (fresh_model fresh ed));
          expression = ''process.getInputVariable ('' @ [CHR 0x27] @ first_text (e_models ed varId) ''v-wf:varDefineName''
            @ [CHR 0x27] @ '')'';
          ed2 = set_prop_values fresh ''v-wf:mappingExpression'' [MText expression] ed1
      in forSubIndividual (e_net ed) ''v-wf:consistsOf'' stateId
           (\<lambda>ed. add_element fresh (set_refs stateId mapping (refs ed stateId mapping @ [fresh]) ed)) ed2)"

text \<open>The individuals that the save button saves, in order.\<close>

definition saved_mapping :: "editor \<Rightarrow> string \<Rightarrow> string \<Rightarrow> string list" where
  "saved_mapping ed el mapping =
     concat (map (\<lambda>m. refs ed m ''v-wf:mapToVariable'' @ [m]) (refs ed el mapping))"

definition saved :: "editor \<Rightarrow> string list" where
  "saved ed =
     concat (map (\<lambda>el. concat (map (saved_mapping ed el)
                  [''v-wf:startingMapping'', ''v-wf:completedMapping'', ''v-wf:startingExecutorJournalMap'',
                   ''v-wf:completedExecutorJournalMap'', ''v-wf:startingJournalMap'', ''v-wf:completedJournalMap''])
                @ refs ed el ''v-wf:executor'' @ [el]) (elements ed)) @ [e_net ed]"

section \<open>What is shown\<close>

definition getSplitJoinType :: "string \<Rightarrow> editor \<Rightarrow> string \<Rightarrow> string" where
  "getSplitJoinType sj ed u =
     (case refs ed u (''v-wf:'' @ sj) of
        [] \<Rightarrow> '' '' @ sj @ ''-no''
      | t # _ \<Rightarrow>
          if t = ''v-wf:XOR'' then '' '' @ sj @ ''-xor''
          else if t = ''v-wf:OR'' then '' '' @ sj @ ''-or''
          else if t = ''v-wf:AND'' then '' '' @ sj @ ''-and''
          else if t = ''v-wf:NONE'' then '' '' @ sj @ ''-none''
          else '' '' @ sj @ ''-no'')"

text \<open>The classes of the drawn element; \<open>None\<close>: nothing is drawn.\<close>

definition createState :: "editor \<Rightarrow> string \<Rightarrow> string option" where
  "createState ed u =
     (case refs ed u ''rdf:type'' of
        [] \<Rightarrow> None
      | t # _ \<Rightarrow>
          if t = ''v-wf:InputCondition'' then Some ''w state-io-condition state-io-condition-input''
          else if t = ''v-wf:OutputCondition'' then Some ''w state-io-condition state-io-condition-output''
          else if t = ''v-wf:Condition'' then Some ''w state-condition''
          else if t = ''v-wf:Task''
          then Some (''w state-task split-join '' @ getSplitJoinType ''split'' ed u @ getSplitJoinType ''join'' ed u)
          else None)"

text \<open>The badge of an element in the view of a process: work items, background, the mark.\<close>

record badge =
  b_count :: nat
  b_color :: string
  b_mark :: string

definition blank_badge :: badge where
  "blank_badge = \<lparr>b_count = 0, b_color = ''white'', b_mark = []\<rparr>"

definition is_done :: "imodel \<Rightarrow> bool" where
  "is_done wi = (case mvals wi ''v-wf:isCompleted'' of [] \<Rightarrow> False | v # _ \<Rightarrow> loose_eq (vdata v) (DBool True))"

definition mark_badge :: "imodel \<Rightarrow> badge \<Rightarrow> badge" where
  "mark_badge wi b =
     (let b1 = b\<lparr>b_count := b_count b + 1\<rparr>; red = (b_mark b = ''red'')
      in if mvals wi ''v-wf:workOrderList'' = [] then b1\<lparr>b_color := ''#FF3333'', b_mark := ''red''\<rparr>
         else if is_done wi \<and> \<not> red then b1\<lparr>b_color := ''#88B288'', b_mark := ''green''\<rparr>
         else if \<not> red then b1\<lparr>b_color := ''#FFB266'', b_mark := ''red''\<rparr>
         else b1)"

text \<open>The badges of the drawn elements; a work item of another element marks nothing.\<close>

definition mark_element :: "badge obj \<Rightarrow> imodel \<Rightarrow> badge obj" where
  "mark_element bs wi =
     (case model_refs wi ''v-wf:forNetElement'' of
        [] \<Rightarrow> bs
      | e # _ \<Rightarrow> (case oget bs e of None \<Rightarrow> bs | Some b \<Rightarrow> oset e (mark_badge wi b) bs))"

definition createProcessView :: "string list \<Rightarrow> imodel list \<Rightarrow> badge obj" where
  "createProcessView drawn wis = foldl mark_element (map (\<lambda>e. (e, blank_badge)) drawn) wis"

text \<open>
  The path that led to a work item: the largest depth and the labels of the connections, each with
  its target and source. The first argument bounds the recursion along \<^verbatim>\<open>v-wf:previousWorkItem\<close>.
\<close>

type_synonym run_path = "nat \<times> (string \<times> string \<times> int) list"

fun over_previous ::
  "(string \<Rightarrow> run_path \<Rightarrow> run_path option) \<Rightarrow> editor \<Rightarrow> string \<Rightarrow> nat \<Rightarrow> string list \<Rightarrow> run_path \<Rightarrow> run_path option" where
  "over_previous rec ed wi depth [] st = Some st"
| "over_previous rec ed wi depth (p # ps) st =
     (case (refs ed wi ''v-wf:forNetElement'', refs ed p ''v-wf:forNetElement'') of
        (e # _, f # _) \<Rightarrow>
          (case rec p st of
             None \<Rightarrow> None
           | Some (d, ls) \<Rightarrow> over_previous rec ed wi depth ps (d, ls @ [(e, f, int d - int depth)]))
      | _ \<Rightarrow> over_previous rec ed wi depth ps st)"

primrec showProcessRunPath :: "nat \<Rightarrow> editor \<Rightarrow> string \<Rightarrow> nat \<Rightarrow> run_path \<Rightarrow> run_path option" where
  "showProcessRunPath 0 ed wi depth st = None"
| "showProcessRunPath (Suc n) ed wi depth st =
     (case refs ed wi ''v-wf:previousWorkItem'' of
        [] \<Rightarrow> Some (depth, snd st)
      | ps \<Rightarrow> over_previous (\<lambda>p st. showProcessRunPath n ed p (depth + 1) st) ed wi depth ps st)"

end
