(* ===== verification/Editor_Props.thy ===== *)
theory Editor_Props
  imports Net_Editor Individual_Props
begin

text \<open>
  The editor of nets: every edit keeps the net well formed, except the deletion of an element that
  flows leave, which stops the AND joins behind it; and the badges of the view of a process.
\<close>

section \<open>References under the operations\<close>

text \<open>The first occurrences, as \<open>set\<close> keeps them.\<close>

definition firsts :: "string list \<Rightarrow> string list" where
  "firsts xs = rev (remdups (rev xs))"

lemma firsts_simps [simp]: "set (firsts xs) = set xs" "distinct (firsts xs)" "firsts [] = []" "firsts [x] = [x]"
  by (simp_all add: firsts_def)

fun keep_new :: "string list \<Rightarrow> string list \<Rightarrow> string list" where
  "keep_new seen [] = []"
| "keep_new seen (x # xs) = (if x \<in> set seen then keep_new seen xs else x # keep_new (x # seen) xs)"

lemma keep_new_filter: "keep_new seen xs = filter (\<lambda>x. x \<notin> set seen) (keep_new [] xs)"
proof (induction xs arbitrary: seen)
  case Nil
  then show ?case by simp
next
  case (Cons x xs)
  show ?case
    by (cases "x \<in> set seen") (simp_all add: Cons [of "x # seen"] Cons [of "[x]"] Cons [of seen] filter_id_conv
        conj_commute cong: conj_cong, metis (mono_tags, lifting) filter_cong)
qed

lemma firsts_keep_new: "firsts xs = keep_new [] xs"
proof -
  have 1: "firsts (x # xs) = x # filter (\<lambda>y. y \<noteq> x) (firsts xs)" for x xs
  proof -
    have "remdups (ys @ [x]) = filter (\<lambda>y. y \<noteq> x) (remdups ys) @ [x]" for ys
      by (induction ys) auto
    then show ?thesis by (simp add: firsts_def rev_filter [symmetric])
  qed
  show ?thesis
    by (induction xs) (simp_all add: 1 keep_new_filter [of "[x]" for x])
qed

lemma unique_refs:
  "unique_vals iso_date (map (\<lambda>u. val_key iso_date (mkv TUri (DStr u))) seen) (map (\<lambda>u. mkv TUri (DStr u)) ids)
     = map (\<lambda>u. mkv TUri (DStr u)) (keep_new seen ids)"
proof (induction ids arbitrary: seen)
  case Nil
  then show ?case by simp
next
  case (Cons u ids)
  have "val_key iso_date (mkv TUri (DStr u)) \<in> set (map (\<lambda>u. val_key iso_date (mkv TUri (DStr u))) seen) \<longleftrightarrow> u \<in> set seen"
    by (auto simp: val_key_def)
  then show ?case using Cons [of seen] Cons [of "u # seen"] by simp
qed

lemma kept_ref [simp]: "kept_value (MRef u)"
  by (simp add: kept_value_def)

lemma stored_refs: "List.map_filter serializer (map MRef ids) = map (\<lambda>u. mkv TUri (DStr u)) ids"
  by (induction ids) simp_all

lemma refs_set_refs [simp]:
  "refs (set_refs u p ids ed) v q = (if v = u \<and> q = p then firsts ids else refs ed v q)"
proof -
  have "map (\<lambda>v. js_str iso_date (vdata v)) (map (\<lambda>u. mkv TUri (DStr u)) xs) = xs" for xs by (induction xs) simp_all
  then show ?thesis
    using unique_refs [of "[]" ids]
    by (auto simp: refs_def set_refs_def set_prop_values_def model_refs_def mvals_set_value mvals_set_other
        stored_refs firsts_keep_new filter_map o_def)
qed

lemma e_net_simps [simp]:
  "e_net (set_prop_values u p vs ed) = e_net ed" "e_net (set_refs u p ids ed) = e_net ed"
  "e_net (fresh_model u ed) = e_net ed" "e_net (add_element u ed) = e_net ed"
  by (simp_all add: set_prop_values_def set_refs_def fresh_model_def add_element_def)

lemma refs_set_prop [simp]: "v \<noteq> u \<or> q \<noteq> p \<Longrightarrow> refs (set_prop_values u p vs ed) v q = refs ed v q"
  by (auto simp: refs_def set_prop_values_def model_refs_def mvals_set_other)

lemma refs_fresh_model [simp]: "refs (fresh_model u ed) v q = (if v = u then [] else refs ed v q)"
  by (simp add: refs_def fresh_model_def model_refs_def mvals_def new_model_def)

lemma refs_add_element [simp]:
  "refs (add_element u ed) v q = (if v = e_net ed \<and> q = ''v-wf:consistsOf'' then firsts (elements ed @ [u]) else refs ed v q)"
  by (simp add: add_element_def)

lemma set_removeSubIndividual [simp]: "set (removeSubIndividual ed u p x) = set (refs ed u p) - {x}"
  by (auto simp: removeSubIndividual_def)

section \<open>Well-formed nets\<close>

text \<open>
  The graph of a net: \<open>E\<close> are its elements, \<open>F\<close> says which are flows, \<open>H\<close> the flows that leave an
  element, \<open>T\<close> where a flow goes. A flow leaves exactly one element and goes into exactly one, both
  of the net and no flows; nothing leaves a flow.
\<close>

definition one_source :: "string set \<Rightarrow> (string \<Rightarrow> string set) \<Rightarrow> string \<Rightarrow> bool" where
  "one_source E H f \<longleftrightarrow> (\<exists>!e. e \<in> E \<and> f \<in> H e)"

definition graph_sound ::
  "string \<Rightarrow> string set \<Rightarrow> (string \<Rightarrow> bool) \<Rightarrow> (string \<Rightarrow> string set) \<Rightarrow> (string \<Rightarrow> string list) \<Rightarrow> bool" where
  "graph_sound N E F H T \<longleftrightarrow>
     N \<notin> E
     \<and> (\<forall>e \<in> E. \<forall>f \<in> H e. f \<in> E \<and> F f)
     \<and> (\<forall>f \<in> E. F f \<longrightarrow> H f = {} \<and> one_source E H f \<and> (\<exists>t \<in> E. \<not> F t \<and> T f = [t]))"

definition is_flow :: "editor \<Rightarrow> string \<Rightarrow> bool" where
  "is_flow ed u \<longleftrightarrow> has_ref ed u ''rdf:type'' ''v-wf:Flow''"

definition net_sound :: "editor \<Rightarrow> bool" where
  "net_sound ed = graph_sound (e_net ed) (set (elements ed)) (is_flow ed)
     (\<lambda>e. set (refs ed e ''v-wf:hasFlow'')) (\<lambda>f. refs ed f ''v-wf:flowsInto'')"

lemma graph_soundI:
  assumes "N \<notin> E" and "\<And>e f. e \<in> E \<Longrightarrow> f \<in> H e \<Longrightarrow> f \<in> E \<and> F f"
    and "\<And>f. f \<in> E \<Longrightarrow> F f \<Longrightarrow> H f = {}"
    and "\<And>f. f \<in> E \<Longrightarrow> F f \<Longrightarrow> one_source E H f"
    and "\<And>f. f \<in> E \<Longrightarrow> F f \<Longrightarrow> \<exists>t \<in> E. \<not> F t \<and> T f = [t]"
  shows "graph_sound N E F H T"
  unfolding graph_sound_def
  by (intro conjI ballI impI)
    (rule assms(1) | erule (1) assms(2) [THEN conjunct1] assms(2) [THEN conjunct2] assms(3-5))+

lemma graph_soundD:
  assumes "graph_sound N E F H T"
  shows "N \<notin> E" and "e \<in> E \<Longrightarrow> f \<in> H e \<Longrightarrow> f \<in> E" and "e \<in> E \<Longrightarrow> f \<in> H e \<Longrightarrow> F f"
    and "f \<in> E \<Longrightarrow> F f \<Longrightarrow> H f = {}" and "f \<in> E \<Longrightarrow> F f \<Longrightarrow> one_source E H f"
    and "f \<in> E \<Longrightarrow> F f \<Longrightarrow> \<exists>t \<in> E. \<not> F t \<and> T f = [t]"
  using assms unfolding graph_sound_def by blast+

text \<open>The source of a flow stays the only one if the elements that a flow leaves stay the same.\<close>

lemma one_source_cong:
  assumes "one_source E H f" and "\<And>e. e \<in> E \<and> f \<in> H e \<longleftrightarrow> e \<in> E' \<and> f \<in> H' e"
  shows "one_source E' H' f"
  using assms by (simp add: one_source_def)

lemma one_sourceI: "s \<in> E \<Longrightarrow> f \<in> H s \<Longrightarrow> (\<And>e. e \<in> E \<Longrightarrow> f \<in> H e \<Longrightarrow> e = s) \<Longrightarrow> one_source E H f"
  unfolding one_source_def by blast

lemma one_sourceD: "one_source E H f \<Longrightarrow> e \<in> E \<Longrightarrow> f \<in> H e \<Longrightarrow> e' \<in> E \<Longrightarrow> f \<in> H e' \<Longrightarrow> e = e'"
  unfolding one_source_def by blast

text \<open>Changes of a graph.\<close>

lemma graph_add:
  assumes "graph_sound N E F H T" and "n \<notin> E" and "n \<noteq> N" and "\<not> F' n" and "H' n = {}"
    and "\<forall>e \<in> E. F' e = F e \<and> H' e = H e \<and> T' e = T e"
  shows "graph_sound N (insert n E) F' H' T'"
proof (rule graph_soundI)
  note d = graph_soundD [OF assms(1)]
  show "N \<notin> insert n E" using d(1) assms(3) by simp
  show "f \<in> insert n E \<and> F' f" if e: "e \<in> insert n E" "f \<in> H' e" for e f
  proof -
    have "e \<in> E" "f \<in> H e" using e assms(5,6) by auto
    from d(2,3) [OF this] show ?thesis using assms(6) by simp
  qed
  fix f assume "f \<in> insert n E" "F' f"
  with assms(4,6) have f: "f \<in> E" "F f" by auto
  show "H' f = {}" using d(4) f assms(6) by simp
  show "one_source (insert n E) H' f" by (rule one_source_cong [OF d(5) [OF f]]) (use assms(2,5,6) in auto)
  show "\<exists>t \<in> insert n E. \<not> F' t \<and> T' f = [t]" using d(6) [OF f] f assms(6) by auto
qed

lemma graph_connect:
  assumes "graph_sound N E F H T" and "f \<notin> E" and "f \<noteq> N" and "s \<in> E" and "\<not> F s" and "t \<in> E" and "\<not> F t"
    and "F' f" and "H' f = {}" and "T' f = [t]" and "H' s = insert f (H s)"
    and "\<forall>e \<in> E. F' e = F e \<and> T' e = T e" and "\<forall>e \<in> E. e \<noteq> s \<longrightarrow> H' e = H e"
  shows "graph_sound N (insert f E) F' H' T'"
proof (rule graph_soundI)
  note d = graph_soundD [OF assms(1)]
  show "N \<notin> insert f E" using d(1) assms(3) by simp
  show "g \<in> insert f E \<and> F' g" if e: "e \<in> insert f E" "g \<in> H' e" for e g
  proof (cases "g = f")
    case False
    have "e \<in> E" "g \<in> H e" using e False assms(4,9,11,13) by (cases "e = s"; auto)+
    from d(2,3) [OF this] show ?thesis using assms(12) by simp
  qed (simp add: assms(8))
  fix g assume g: "g \<in> insert f E" "F' g"
  show "H' g = {}"
  proof (cases "g = f")
    case False
    then have "g \<in> E" "F g" using g assms(12) by auto
    then show ?thesis using d(4) assms(5,13) by fastforce
  qed (simp add: assms(9))
  show "one_source (insert f E) H' g"
  proof (cases "g = f")
    case True
    show ?thesis
      unfolding True by (rule one_sourceI [of s]) (use assms(2,4,9,11,13) d(2) in auto)
  next
    case False
    then have gE: "g \<in> E" "F g" using g assms(12) by auto
    show ?thesis
      by (rule one_source_cong [OF d(5) [OF gE]]) (use assms(2,9,11,13) False in fastforce)
  qed
  show "\<exists>t \<in> insert f E. \<not> F' t \<and> T' g = [t]"
  proof (cases "g = f")
    case True
    then show ?thesis using assms(6,7,10,12) by auto
  next
    case False
    then have "g \<in> E" "F g" using g assms(12) by auto
    then show ?thesis using d(6) assms(12) by force
  qed
qed

lemma graph_retarget:
  assumes "graph_sound N E F H T" and "t \<in> E" and "\<not> F t" and "T' f = [t]" and "\<forall>e. e \<noteq> f \<longrightarrow> T' e = T e"
  shows "graph_sound N E F H T'"
proof (rule graph_soundI)
  note d = graph_soundD [OF assms(1)]
  fix g assume g: "g \<in> E" "F g"
  show "\<exists>t \<in> E. \<not> F t \<and> T' g = [t]" using d(6) [OF g] assms(2-5) by (cases "g = f") auto
qed (use graph_soundD [OF assms(1)] in blast)+

lemma graph_move:
  assumes "graph_sound N E F H T" and "s \<in> E" and "n \<in> E" and "\<not> F n" and "f \<in> H s"
    and "\<forall>e \<in> E. H' e = (if e = n then insert f (H e) else if e = s then H e - {f} else H e)"
  shows "graph_sound N E F H' T"
proof (rule graph_soundI)
  note d = graph_soundD [OF assms(1)]
  have f: "f \<in> E" "F f" using d(2,3) assms(2,5) by blast+
  show "N \<notin> E" by (rule d(1))
  show "g \<in> E \<and> F g" if "e \<in> E" "g \<in> H' e" for e g
  proof (cases "g = f")
    case False
    then have "g \<in> H e" using that assms(6) by (auto split: if_splits)
    then show ?thesis using d(2,3) [OF that(1)] by blast
  qed (use f in simp)
  fix g assume g: "g \<in> E" "F g"
  show "H' g = {}" using d(4) [OF g] assms(4,6) g by auto
  show "\<exists>t \<in> E. \<not> F t \<and> T g = [t]" by (rule d(6) [OF g])
  show "one_source E H' g"
  proof (cases "g = f")
    case True
    have "e = n" if e: "e \<in> E" "f \<in> H' e" for e
      using one_sourceD [OF d(5) [OF f] e(1) _ assms(2,5)] e assms(6) by (auto split: if_splits)
    moreover have "f \<in> H' n" using assms(3,6) by simp
    ultimately show ?thesis unfolding True by (intro one_sourceI [OF assms(3)])
  next
    case False
    show ?thesis by (rule one_source_cong [OF d(5) [OF g]]) (use assms(6) False in \<open>auto split: if_splits\<close>)
  qed
qed

text \<open>A part of the elements goes: with every flow that remains its target, and nothing that a flow leaves.\<close>

lemma graph_delete:
  assumes "graph_sound N E F H T" and "E' \<subseteq> E" and "\<forall>e \<in> E'. H' e = H e \<inter> E'"
    and "\<forall>f \<in> E'. F f \<longrightarrow> (\<forall>t. T f = [t] \<longrightarrow> t \<in> E')"
    and "\<forall>e \<in> E - E'. H e = {}"
  shows "graph_sound N E' F H' T"
proof (rule graph_soundI)
  note d = graph_soundD [OF assms(1)]
  show "N \<notin> E'" using d(1) assms(2) by blast
  show "g \<in> E' \<and> F g" if "e \<in> E'" "g \<in> H' e" for e g
    using that assms(2,3) d(3) by auto
  fix g assume g: "g \<in> E'" "F g"
  then have gE: "g \<in> E" using assms(2) by blast
  show "H' g = {}" using d(4) [OF gE g(2)] g(1) assms(3) by simp
  show "\<exists>t \<in> E'. \<not> F t \<and> T g = [t]" using d(6) [OF gE g(2)] g assms(4) by auto
  show "one_source E' H' g"
    by (rule one_source_cong [OF d(5) [OF gE g(2)]]) (use assms(2,3,5) g(1) in auto)
qed

section \<open>What the operations do to the graph\<close>

lemma is_flow_eq: "is_flow ed u \<longleftrightarrow> ''v-wf:Flow'' \<in> set (refs ed u ''rdf:type'')"
  by (simp add: is_flow_def has_ref_def)

lemma net_soundI:
  assumes "e_net ed' = e_net ed" and "set (refs ed' (e_net ed) ''v-wf:consistsOf'') = E"
    and "graph_sound (e_net ed) E (is_flow ed') (\<lambda>e. set (refs ed' e ''v-wf:hasFlow'')) (\<lambda>f. refs ed' f ''v-wf:flowsInto'')"
  shows "net_sound ed'"
  using assms by (simp add: net_sound_def)

lemma connect_sound:
  assumes "net_sound ed" and "has_text ''con'' conn" and "fresh \<notin> set (elements ed)" and "fresh \<noteq> e_net ed"
    and "s \<in> set (elements ed)" and "\<not> is_flow ed s" and "t \<in> set (elements ed)" and "\<not> is_flow ed t"
  shows "net_sound (on_connection conn s t fresh ed)"
proof -
  let ?ed = "on_connection conn s t fresh ed"
  have "s \<noteq> fresh" "t \<noteq> fresh" using assms(3,5,7) by auto
  then have 1: "e_net ?ed = e_net ed" "refs ?ed (e_net ed) ''v-wf:consistsOf'' = firsts (elements ed @ [fresh])"
      "refs ?ed u ''v-wf:hasFlow''
        = (if u = s then firsts (refs ed s ''v-wf:hasFlow'' @ [fresh]) else if u = fresh then [] else refs ed u ''v-wf:hasFlow'')"
      "refs ?ed u ''v-wf:flowsInto'' = (if u = fresh then [t] else refs ed u ''v-wf:flowsInto'')"
      "refs ?ed u ''rdf:type'' = (if u = fresh then [''v-wf:Flow''] else refs ed u ''rdf:type'')" for u
    using assms(2,4) by (simp_all add: on_connection_def Let_def)
  show ?thesis
    by (rule net_soundI [OF 1(1), of "insert fresh (set (elements ed))"])
      (use assms(3,5) in \<open>auto simp: 1 is_flow_eq split: if_splits intro!: graph_connect [OF assms(1) [unfolded net_sound_def] assms(3-8)]\<close>)
qed

text \<open>Operations that add an element which is no flow\<close>

lemma add_sound:
  assumes "net_sound ed" and "n \<notin> set (elements ed)" and "n \<noteq> e_net ed"
    and "e_net ed' = e_net ed" and "set (refs ed' (e_net ed) ''v-wf:consistsOf'') = insert n (set (elements ed))"
    and "\<not> is_flow ed' n" and "refs ed' n ''v-wf:hasFlow'' = []"
    and "\<And>u p. u \<noteq> n \<Longrightarrow> p \<in> {''rdf:type'', ''v-wf:hasFlow'', ''v-wf:flowsInto''} \<Longrightarrow> refs ed' u p = refs ed u p"
  shows "net_sound ed'"
proof (rule net_soundI [OF assms(4,5)], rule graph_add [OF assms(1) [unfolded net_sound_def] assms(2,3)])
  have "u \<noteq> n" if "u \<in> set (elements ed)" for u using that assms(2) by blast
  then show "\<forall>e \<in> set (elements ed). is_flow ed' e = is_flow ed e \<and> set (refs ed' e ''v-wf:hasFlow'') = set (refs ed e ''v-wf:hasFlow'')
      \<and> refs ed' e ''v-wf:flowsInto'' = refs ed e ''v-wf:flowsInto''"
    using assms(8) by (simp add: is_flow_eq)
qed (simp_all add: assms(6,7))

lemma refs_createEmpty:
  assumes "n \<noteq> e_net ed"
  shows "refs (createEmptyNetElement k n x y ed) (e_net ed) ''v-wf:consistsOf'' = firsts (elements ed @ [n])"
    and "u \<noteq> n \<Longrightarrow> u \<noteq> e_net ed \<or> p \<noteq> ''v-wf:consistsOf'' \<Longrightarrow> refs (createEmptyNetElement k n x y ed) u p = refs ed u p"
    and "refs (createEmptyNetElement k n x y ed) n ''rdf:type'' = [kind_type k]"
    and "refs (createEmptyNetElement k n x y ed) n ''v-wf:hasFlow'' = []"
    and "e_net (createEmptyNetElement k n x y ed) = e_net ed"
  using assms by (auto simp: createEmptyNetElement_def Let_def)

lemma create_sound:
  assumes "net_sound ed" and "n \<notin> set (elements ed)" and "n \<noteq> e_net ed"
  shows "net_sound (createEmptyNetElement k n x y ed)"
  by (rule add_sound [OF assms]) (use assms(3) in \<open>auto simp: refs_createEmpty is_flow_eq, cases k, auto\<close>)

lemma refs_revived:
  "filter (\<lambda>v. vtype v = TUri) (map (revive_val dp) vs) = filter (\<lambda>v. vtype v = TUri) vs"
  by (induction vs) (auto simp: revive_val_def)

lemma pget_revive: "pget (revive dp i) p = map_option (map (revive_val dp)) (pget i p)"
  by (simp add: revive_def oget_map_snd)

lemma refs_clone:
  assumes "p \<noteq> ''v-s:updateCounter''"
  shows "model_refs (clone_model dp u m) p = model_refs m p"
proof -
  have "mvals (clone_model dp u m) p = map (revive_val dp) (mvals m p)"
    using assms pget_revive [of dp "properties m" p]
    by (simp add: clone_model_def clear_value_def mvals_def model_of_json_def split: option.splits)
  then show ?thesis by (simp add: model_refs_def refs_revived)
qed

lemma copy_sound:
  assumes "net_sound ed" and "u \<in> set (elements ed)" and "\<not> is_flow ed u"
    and "n \<notin> set (elements ed)" and "n \<noteq> e_net ed"
  shows "net_sound (copy_element dp u n ed)"
proof (cases "\<exists>t ts. refs ed u ''rdf:type'' = t # ts \<and> (t = ''v-wf:Task'' \<or> t = ''v-wf:Condition'')")
  case False
  then have "copy_element dp u n ed = ed" by (auto simp: copy_element_def split: list.splits)
  then show ?thesis using assms(1) by simp
next
  case True
  define ed1 where "ed1 = ed\<lparr>e_models := (e_models ed)(n := clone_model dp n (e_models ed u))\<rparr>"
  have r1: "e_net ed1 = e_net ed" "v \<noteq> n \<Longrightarrow> refs ed1 v p = refs ed v p"
      "p \<noteq> ''v-s:updateCounter'' \<Longrightarrow> refs ed1 n p = refs ed u p"
    for v p by (simp_all add: ed1_def refs_def refs_clone)
  have c: "copy_element dp u n ed
      = add_element n (set_refs n ''v-wf:hasFlow'' []
          (set_prop_values n ''v-wf:locationY'' [add_num (num_at ed u ''v-wf:locationY'') 50]
            (set_prop_values n ''v-wf:locationX'' [add_num (num_at ed u ''v-wf:locationX'') 50] ed1)))"
    using True by (auto simp: copy_element_def ed1_def Let_def)
  show ?thesis
    unfolding c
  proof (rule add_sound [OF assms(1,4,5)])
  qed (use assms(3,5) in \<open>auto simp: r1 is_flow_eq\<close>)
qed

text \<open>The mapping goes into the net once, if the state is in the net.\<close>

definition put_mapping :: "string \<Rightarrow> string \<Rightarrow> string \<Rightarrow> editor \<Rightarrow> string \<Rightarrow> editor" where
  "put_mapping n x mapping ed y =
     (if y = x then add_element n (set_refs x mapping (refs ed x mapping @ [n]) ed) else ed)"

lemma put_mapping_net [simp]: "e_net (foldl (put_mapping n x mapping) ed ys) = e_net ed"
  by (induction ys arbitrary: ed) (simp_all add: put_mapping_def)

lemma put_mapping_other:
  "p \<noteq> mapping \<Longrightarrow> p \<noteq> ''v-wf:consistsOf'' \<Longrightarrow> refs (foldl (put_mapping n x mapping) ed ys) u p = refs ed u p"
  by (induction ys arbitrary: ed) (simp_all add: put_mapping_def)

lemma put_mapping_elements:
  "mapping \<noteq> ''v-wf:consistsOf'' \<Longrightarrow>
   set (refs (foldl (put_mapping n x mapping) ed ys) (e_net ed) ''v-wf:consistsOf'')
     = (if x \<in> set ys then insert n (set (elements ed)) else set (elements ed))"
proof (induction ys arbitrary: ed)
  case (Cons y ys)
  from Cons(1) [OF Cons(2), of "put_mapping n x mapping ed y"] show ?case
    using Cons(2) by (auto simp: put_mapping_def split: if_splits)
qed simp

lemma mapping_sound:
  assumes "net_sound ed" and "mapping \<notin> {''rdf:type'', ''v-wf:hasFlow'', ''v-wf:flowsInto'', ''v-wf:consistsOf''}"
    and "n \<notin> set (elements ed)" and "n \<noteq> e_net ed" and "x \<in> set (elements ed)"
  shows "net_sound (addVarProperty x mapping v n ed)"
proof -
  define ed1 where "ed1 = set_refs n ''v-wf:mapToVariable'' [v] (set_refs n ''rdf:type'' [''v-wf:Mapping''] (fresh_model n ed))"
  define ed2 where "ed2 = set_prop_values n ''v-wf:mappingExpression''
    [MText (''process.getInputVariable ('' @ [CHR 0x27] @ first_text (e_models ed v) ''v-wf:varDefineName''
            @ [CHR 0x27] @ '')'')] ed1"
  have 2: "e_net ed2 = e_net ed" "u \<noteq> n \<Longrightarrow> refs ed2 u p = refs ed u p"
      "refs ed2 n ''rdf:type'' = [''v-wf:Mapping'']" "refs ed2 n ''v-wf:hasFlow'' = []" for u p
    by (simp_all add: ed2_def ed1_def)
  have a: "addVarProperty x mapping v n ed = foldl (put_mapping n x mapping) ed2 (elements ed)"
    using 2(2) [of "e_net ed" "''v-wf:consistsOf''"] assms(4)
    by (simp add: addVarProperty_def forSubIndividual_def Let_def ed2_def ed1_def put_mapping_def [abs_def])
  show ?thesis
    unfolding a
  proof (rule add_sound [OF assms(1,3,4)])
    show "set (refs (foldl (put_mapping n x mapping) ed2 (elements ed)) (e_net ed) ''v-wf:consistsOf'') = insert n (set (elements ed))"
      using put_mapping_elements [of mapping n x ed2 "elements ed"] assms(2,4,5) 2 by simp
  qed (use assms(2) 2 in \<open>auto simp: is_flow_eq put_mapping_other\<close>)
qed

text \<open>Moving the source of a flow\<close>

lemma move_source_net [simp]: "e_net (foldl (move_source s n f) ed ys) = e_net ed"
  by (induction ys arbitrary: ed) (simp_all add: move_source_def Let_def)

lemma move_source_other: "p \<noteq> ''v-wf:hasFlow'' \<Longrightarrow> refs (foldl (move_source s n f) ed ys) u p = refs ed u p"
  by (induction ys arbitrary: ed) (simp_all add: move_source_def Let_def)

lemma move_source_flows:
  "s \<noteq> n \<Longrightarrow> set (refs (foldl (move_source s n f) ed ys) u ''v-wf:hasFlow'') =
     (if u = n \<and> n \<in> set ys then insert f (set (refs ed u ''v-wf:hasFlow''))
      else if u = s \<and> s \<in> set ys then set (refs ed u ''v-wf:hasFlow'') - {f}
      else set (refs ed u ''v-wf:hasFlow''))"
proof (induction ys arbitrary: ed)
  case (Cons y ys)
  from Cons(1) [OF Cons(2), of "move_source s n f ed y"] show ?case
    using Cons(2) by (auto simp: move_source_def Let_def split: if_splits)
qed simp

lemma move_sound:
  assumes "net_sound ed" and "s \<in> set (elements ed)" and "n \<in> set (elements ed)" and "\<not> is_flow ed n"
    and "f \<in> set (refs ed s ''v-wf:hasFlow'')"
  shows "net_sound (on_connection_moved s n f ed)"
proof (cases "s = n")
  case True
  then show ?thesis using assms(1) by (simp add: on_connection_moved_def)
next
  case False
  have "graph_sound (e_net ed) (set (elements ed)) (is_flow ed)
      (\<lambda>e. set (refs (on_connection_moved s n f ed) e ''v-wf:hasFlow'')) (\<lambda>f. refs ed f ''v-wf:flowsInto'')"
    using False assms(2,3)
    by (intro graph_move [OF assms(1) [unfolded net_sound_def] assms(2,3,4,5)])
      (simp add: on_connection_moved_def move_source_flows)
  then show ?thesis
    using False by (simp add: net_sound_def on_connection_moved_def move_source_other is_flow_eq [abs_def])
qed

text \<open>Deleting: the flows of \<open>D\<close> go from the net and from the elements of \<open>S\<close>.\<close>

definition into :: "editor \<Rightarrow> string \<Rightarrow> string \<Rightarrow> bool" where
  "into ed x f \<longleftrightarrow> (\<exists>ts. refs ed f ''v-wf:flowsInto'' = x # ts)"

lemma deleteFlow_refs:
  "e_net (deleteFlow f s ed) = e_net ed"
  "set (refs (deleteFlow f s ed) (e_net ed) ''v-wf:consistsOf'') = set (elements ed) - {f}"
  "set (refs (deleteFlow f s ed) u ''v-wf:hasFlow'') = set (refs ed u ''v-wf:hasFlow'') - (if u = s then {f} else {})"
  "p \<noteq> ''v-wf:hasFlow'' \<Longrightarrow> p \<noteq> ''v-wf:consistsOf'' \<Longrightarrow> refs (deleteFlow f s ed) u p = refs ed u p"
  by (simp_all add: deleteFlow_def Let_def)

lemma delete_if_into_refs:
  "e_net (delete_if_into x s ed f) = e_net ed"
  "set (refs (delete_if_into x s ed f) (e_net ed) ''v-wf:consistsOf'') = set (elements ed) - (if into ed x f then {f} else {})"
  "set (refs (delete_if_into x s ed f) u ''v-wf:hasFlow'')
     = set (refs ed u ''v-wf:hasFlow'') - (if u = s \<and> into ed x f then {f} else {})"
  "p \<noteq> ''v-wf:hasFlow'' \<Longrightarrow> p \<noteq> ''v-wf:consistsOf'' \<Longrightarrow> refs (delete_if_into x s ed f) u p = refs ed u p"
  by (auto simp: delete_if_into_def into_def deleteFlow_refs split: list.splits)

lemma delete_flows_refs:
  "e_net (foldl (delete_if_into x s) ed fs) = e_net ed
   \<and> set (refs (foldl (delete_if_into x s) ed fs) (e_net ed) ''v-wf:consistsOf'')
       = set (elements ed) - {f \<in> set fs. into ed x f}
   \<and> set (refs (foldl (delete_if_into x s) ed fs) u ''v-wf:hasFlow'')
       = set (refs ed u ''v-wf:hasFlow'') - (if u = s then {f \<in> set fs. into ed x f} else {})
   \<and> (p \<noteq> ''v-wf:hasFlow'' \<longrightarrow> p \<noteq> ''v-wf:consistsOf'' \<longrightarrow> refs (foldl (delete_if_into x s) ed fs) v p = refs ed v p)"
proof (induction fs arbitrary: ed)
  case (Cons f fs)
  have "into (delete_if_into x s ed f) x g = into ed x g" for g by (simp add: into_def delete_if_into_refs)
  then show ?case
    using Cons [of "delete_if_into x s ed f"]
    by (simp add: delete_if_into_refs) auto
qed simp

lemma delete_over_refs:
  fixes ed :: editor and x :: string
  defines "step \<equiv> \<lambda>ed s. foldl (delete_if_into x s) ed (refs ed s ''v-wf:hasFlow'')"
  shows "e_net (foldl step ed ss) = e_net ed
   \<and> set (refs (foldl step ed ss) (e_net ed) ''v-wf:consistsOf'')
       = set (elements ed) - {f. into ed x f \<and> (\<exists>s \<in> set ss. f \<in> set (refs ed s ''v-wf:hasFlow''))}
   \<and> (\<forall>u. set (refs (foldl step ed ss) u ''v-wf:hasFlow'')
       = set (refs ed u ''v-wf:hasFlow'') - (if u \<in> set ss then {f. into ed x f} else {}))
   \<and> (p \<noteq> ''v-wf:hasFlow'' \<longrightarrow> p \<noteq> ''v-wf:consistsOf'' \<longrightarrow> refs (foldl step ed ss) v p = refs ed v p)"
proof (induction ss arbitrary: ed)
  case (Cons s ss)
  note d = delete_flows_refs [of x s ed "refs ed s ''v-wf:hasFlow''", folded step_def]
  have "into (step ed s) x g = into ed x g" for g
    using d [of g "''v-wf:flowsInto''"] by (simp add: into_def step_def)
  moreover have "e_net (step ed s) = e_net ed"
      "set (refs (step ed s) (e_net ed) ''v-wf:consistsOf'')
        = set (elements ed) - {f \<in> set (refs ed s ''v-wf:hasFlow''). into ed x f}"
      "p \<noteq> ''v-wf:hasFlow'' \<Longrightarrow> p \<noteq> ''v-wf:consistsOf'' \<Longrightarrow> refs (step ed s) v p = refs ed v p"
    using delete_flows_refs [of x s ed "refs ed s ''v-wf:hasFlow''" v p v] by (simp_all add: step_def)
  moreover have "set (refs (step ed s) u ''v-wf:hasFlow'')
        = set (refs ed u ''v-wf:hasFlow'') - (if u = s then {f. into ed x f} else {})" for u
    using delete_flows_refs [of x s ed "refs ed s ''v-wf:hasFlow''" u p v] by (auto simp: step_def)
  ultimately show ?case
    using Cons [of "step ed s"] by (simp; auto)
qed simp

lemma deleteState_refs:
  "e_net (deleteState x ed) = e_net ed"
  "set (refs (deleteState x ed) (e_net ed) ''v-wf:consistsOf'') = set (elements ed) - {x}
     - {f. into ed x f \<and> (\<exists>s \<in> set (elements ed) - {x}. f \<in> set (refs ed s ''v-wf:hasFlow''))}"
  "set (refs (deleteState x ed) u ''v-wf:hasFlow'')
     = set (refs ed u ''v-wf:hasFlow'') - (if u \<in> set (elements ed) - {x} then {f. into ed x f} else {})"
  "p \<noteq> ''v-wf:hasFlow'' \<Longrightarrow> p \<noteq> ''v-wf:consistsOf'' \<Longrightarrow> refs (deleteState x ed) u p = refs ed u p"
proof -
  define ed1 where "ed1 = set_refs (e_net ed) ''v-wf:consistsOf'' (removeSubIndividual ed (e_net ed) ''v-wf:consistsOf'' x) ed"
  have 1: "e_net ed1 = e_net ed" "into ed1 = into ed" "set (elements ed1) = set (elements ed) - {x}"
      "q \<noteq> ''v-wf:consistsOf'' \<Longrightarrow> refs ed1 u q = refs ed u q" for q u
    by (simp_all add: ed1_def into_def [abs_def])
  have 2: "deleteState x ed
      = foldl (\<lambda>ed s. foldl (delete_if_into x s) ed (refs ed s ''v-wf:hasFlow'')) ed1 (elements ed1)"
    by (simp add: deleteState_def ed1_def Let_def)
  note d = delete_over_refs [of x ed1 "elements ed1", folded 2]
  show "e_net (deleteState x ed) = e_net ed" using d 1 by simp
  show "set (refs (deleteState x ed) (e_net ed) ''v-wf:consistsOf'') = set (elements ed) - {x}
     - {f. into ed x f \<and> (\<exists>s \<in> set (elements ed) - {x}. f \<in> set (refs ed s ''v-wf:hasFlow''))}"
    using d 1 by simp
  show "set (refs (deleteState x ed) u ''v-wf:hasFlow'')
     = set (refs ed u ''v-wf:hasFlow'') - (if u \<in> set (elements ed) - {x} then {f. into ed x f} else {})"
    using d 1 by simp
  show "p \<noteq> ''v-wf:hasFlow'' \<Longrightarrow> p \<noteq> ''v-wf:consistsOf'' \<Longrightarrow> refs (deleteState x ed) u p = refs ed u p"
    using d 1 by simp
qed

lemma net_soundD:
  assumes "net_sound ed"
  shows "e \<in> set (elements ed) \<Longrightarrow> f \<in> set (refs ed e ''v-wf:hasFlow'') \<Longrightarrow> f \<in> set (elements ed)"
    and "e \<in> set (elements ed) \<Longrightarrow> f \<in> set (refs ed e ''v-wf:hasFlow'') \<Longrightarrow> is_flow ed f"
    and "f \<in> set (elements ed) \<Longrightarrow> is_flow ed f \<Longrightarrow> refs ed f ''v-wf:hasFlow'' = []"
    and "f \<in> set (elements ed) \<Longrightarrow> is_flow ed f \<Longrightarrow>
      \<exists>t \<in> set (elements ed). \<not> is_flow ed t \<and> refs ed f ''v-wf:flowsInto'' = [t]"
    and "f \<in> set (elements ed) \<Longrightarrow> is_flow ed f \<Longrightarrow> \<exists>s \<in> set (elements ed). f \<in> set (refs ed s ''v-wf:hasFlow'')"
proof -
  note g = graph_soundD [OF assms [unfolded net_sound_def]]
  show "e \<in> set (elements ed) \<Longrightarrow> f \<in> set (refs ed e ''v-wf:hasFlow'') \<Longrightarrow> f \<in> set (elements ed)" by (rule g(2))
  show "e \<in> set (elements ed) \<Longrightarrow> f \<in> set (refs ed e ''v-wf:hasFlow'') \<Longrightarrow> is_flow ed f" by (rule g(3))
  assume f: "f \<in> set (elements ed)" "is_flow ed f"
  show "refs ed f ''v-wf:hasFlow'' = []" using g(4) [OF f] by simp
  show "\<exists>t \<in> set (elements ed). \<not> is_flow ed t \<and> refs ed f ''v-wf:flowsInto'' = [t]" by (rule g(6) [OF f])
  show "\<exists>s \<in> set (elements ed). f \<in> set (refs ed s ''v-wf:hasFlow'')"
    using g(5) [OF f] unfolding one_source_def by blast
qed

lemma one_source_of:
  assumes "net_sound ed" and "s \<in> set (elements ed)" and "f \<in> set (refs ed s ''v-wf:hasFlow'')"
    and "s' \<in> set (elements ed)" and "f \<in> set (refs ed s' ''v-wf:hasFlow'')"
  shows "s = s'"
  using one_sourceD [OF graph_soundD(5) [OF assms(1) [unfolded net_sound_def]
        net_soundD(1) [OF assms(1-3)] net_soundD(2) [OF assms(1-3)]] assms(2) _ assms(4)] assms(3,5) by simp

lemma delete_flow_sound:
  assumes "net_sound ed" and "s \<in> set (elements ed)" and "f \<in> set (refs ed s ''v-wf:hasFlow'')"
  shows "net_sound (deleteFlow f s ed)"
proof (rule net_soundI [OF deleteFlow_refs(1,2)])
  note d = net_soundD [OF assms(1)]
  have f: "f \<in> set (elements ed)" "is_flow ed f" using d(1,2) assms(2,3) by blast+
  have F: "is_flow (deleteFlow f s ed) = is_flow ed" "(\<lambda>f'. refs (deleteFlow f s ed) f' ''v-wf:flowsInto'') = (\<lambda>f. refs ed f ''v-wf:flowsInto'')"
    by (simp_all add: is_flow_eq [abs_def] deleteFlow_refs)
  show "graph_sound (e_net ed) (set (elements ed) - {f}) (is_flow (deleteFlow f s ed))
     (\<lambda>e. set (refs (deleteFlow f s ed) e ''v-wf:hasFlow'')) (\<lambda>f'. refs (deleteFlow f s ed) f' ''v-wf:flowsInto'')"
    unfolding F
  proof (rule graph_delete [OF assms(1) [unfolded net_sound_def]])
    show "\<forall>e \<in> set (elements ed) - {f}. set (refs (deleteFlow f s ed) e ''v-wf:hasFlow'')
        = set (refs ed e ''v-wf:hasFlow'') \<inter> (set (elements ed) - {f})"
      using d(1) one_source_of [OF assms] by (auto simp: deleteFlow_refs)
    show "\<forall>g \<in> set (elements ed) - {f}. is_flow ed g \<longrightarrow>
        (\<forall>t. refs ed g ''v-wf:flowsInto'' = [t] \<longrightarrow> t \<in> set (elements ed) - {f})"
      using d(4) f(2) by force
  qed (use d(3) [OF f] in auto)
qed

lemma delete_state_sound:
  assumes "net_sound ed" and "x \<in> set (elements ed)" and "\<not> is_flow ed x" and "refs ed x ''v-wf:hasFlow'' = []"
  shows "net_sound (deleteState x ed)"
proof (rule net_soundI [OF deleteState_refs(1,2)])
  note d = net_soundD [OF assms(1)]
  let ?D = "{f. into ed x f \<and> (\<exists>s \<in> set (elements ed) - {x}. f \<in> set (refs ed s ''v-wf:hasFlow''))}"
  have F: "is_flow (deleteState x ed) = is_flow ed"
      "(\<lambda>f. refs (deleteState x ed) f ''v-wf:flowsInto'') = (\<lambda>f. refs ed f ''v-wf:flowsInto'')"
    by (simp_all add: is_flow_eq [abs_def] deleteState_refs)
  have D: "is_flow ed f \<and> f \<in> set (elements ed)" if "f \<in> ?D" for f using that d(1,2) by blast
  have gone: "f \<in> ?D" if f: "f \<in> set (elements ed)" "is_flow ed f" and t: "refs ed f ''v-wf:flowsInto'' = [x]" for f
    using d(5) [OF f] t assms(4) by (auto simp: into_def)
  show "graph_sound (e_net ed) (set (elements ed) - {x} - ?D) (is_flow (deleteState x ed))
     (\<lambda>e. set (refs (deleteState x ed) e ''v-wf:hasFlow'')) (\<lambda>f. refs (deleteState x ed) f ''v-wf:flowsInto'')"
    unfolding F
  proof (rule graph_delete [OF assms(1) [unfolded net_sound_def]])
    have "f \<in> set (elements ed) \<and> f \<noteq> x" if "e \<in> set (elements ed)" "f \<in> set (refs ed e ''v-wf:hasFlow'')" for e f
      using d(1,2) [OF that] assms(3) by blast
    then show "\<forall>e \<in> set (elements ed) - {x} - ?D. set (refs (deleteState x ed) e ''v-wf:hasFlow'')
        = set (refs ed e ''v-wf:hasFlow'') \<inter> (set (elements ed) - {x} - ?D)"
      by (auto simp: deleteState_refs)
    have "t \<in> set (elements ed) - {x} - ?D"
      if f: "f \<in> set (elements ed) - {x} - ?D" "is_flow ed f" and t: "refs ed f ''v-wf:flowsInto'' = [t]" for f t
    proof -
      have "t \<in> set (elements ed)" "\<not> is_flow ed t" using d(4) [of f] f t by auto
      moreover have "t \<noteq> x" using gone [of f] f t by blast
      ultimately show ?thesis using D [of t] by blast
    qed
    then show "\<forall>f \<in> set (elements ed) - {x} - ?D. is_flow ed f \<longrightarrow>
        (\<forall>t. refs ed f ''v-wf:flowsInto'' = [t] \<longrightarrow> t \<in> set (elements ed) - {x} - ?D)"
      by blast
    have "set (refs ed e ''v-wf:hasFlow'') = {}" if "e \<in> set (elements ed) - (set (elements ed) - {x} - ?D)" for e
    proof (cases "e = x")
      case False
      then have "e \<in> ?D" using that by blast
      then show ?thesis using D [of e] d(3) [of e] by simp
    qed (simp add: assms(4))
    then show "\<forall>e \<in> set (elements ed) - (set (elements ed) - {x} - ?D). set (refs ed e ''v-wf:hasFlow'') = {}" by blast
  qed auto
qed

section \<open>Editing\<close>

text \<open>
  The edits, with what the view guarantees: connections end at drawn elements, which are no flows;
  a new id is not in use; and of an element that is deleted its outgoing flows were deleted before.
\<close>

definition drawn :: "editor \<Rightarrow> string \<Rightarrow> bool" where
  "drawn ed u \<longleftrightarrow> u \<in> set (elements ed) \<and> \<not> is_flow ed u"

definition unused :: "editor \<Rightarrow> string \<Rightarrow> bool" where
  "unused ed u \<longleftrightarrow> u \<notin> set (elements ed) \<and> u \<noteq> e_net ed"

definition goes_from :: "editor \<Rightarrow> string \<Rightarrow> string \<Rightarrow> bool" where
  "goes_from ed s f \<longleftrightarrow> s \<in> set (elements ed) \<and> f \<in> set (refs ed s ''v-wf:hasFlow'')"

definition mapping_props :: "string list" where
  "mapping_props = [''v-wf:startingMapping'', ''v-wf:completedMapping'', ''v-wf:startingExecutorJournalMap'',
     ''v-wf:completedExecutorJournalMap'', ''v-wf:startingJournalMap'', ''v-wf:completedJournalMap'']"

inductive edit :: "editor \<Rightarrow> editor \<Rightarrow> bool" where
  connect: "has_text ''con'' conn \<Longrightarrow> drawn ed s \<Longrightarrow> drawn ed t \<Longrightarrow> unused ed n \<Longrightarrow> edit ed (on_connection conn s t n ed)"
| retarget: "\<not> has_text ''con'' f \<Longrightarrow> goes_from ed s f \<Longrightarrow> drawn ed t \<Longrightarrow> edit ed (on_connection f s t n ed)"
| move: "goes_from ed s f \<Longrightarrow> drawn ed s' \<Longrightarrow> edit ed (on_connection_moved s s' f ed)"
| delete_flow: "goes_from ed s f \<Longrightarrow> edit ed (deleteFlow f s ed)"
| delete_state: "drawn ed x \<Longrightarrow> refs ed x ''v-wf:hasFlow'' = [] \<Longrightarrow> edit ed (deleteState x ed)"
| create: "unused ed n \<Longrightarrow> edit ed (createEmptyNetElement k n x y ed)"
| copy: "drawn ed u \<Longrightarrow> unused ed n \<Longrightarrow> edit ed (copy_element dp u n ed)"
| map_var: "drawn ed x \<Longrightarrow> mapping \<in> set mapping_props \<Longrightarrow> unused ed n \<Longrightarrow> edit ed (addVarProperty x mapping v n ed)"

lemma edit_sound: "edit ed ed' \<Longrightarrow> net_sound ed \<Longrightarrow> net_sound ed'"
proof (induction rule: edit.induct)
  case (connect conn ed s t n)
  then show ?case by (intro connect_sound) (simp_all add: drawn_def unused_def)
next
  case (retarget f ed s t n)
  have "graph_sound (e_net ed) (set (elements ed)) (is_flow ed) (\<lambda>e. set (refs ed e ''v-wf:hasFlow''))
      (\<lambda>g. refs (set_refs f ''v-wf:flowsInto'' [t] ed) g ''v-wf:flowsInto'')"
    by (rule graph_retarget [OF retarget(4) [unfolded net_sound_def], of t _ f]) (use retarget(3) in \<open>auto simp: drawn_def\<close>)
  then show ?case using retarget(1) by (simp add: on_connection_def net_sound_def is_flow_eq [abs_def])
next
  case (move ed s f s')
  then show ?case by (intro move_sound) (simp_all add: drawn_def goes_from_def)
next
  case (delete_flow ed s f)
  then show ?case by (intro delete_flow_sound) (simp_all add: goes_from_def)
next
  case (delete_state ed x)
  then show ?case by (intro delete_state_sound) (simp_all add: drawn_def)
next
  case (create ed n k x y)
  then show ?case by (intro create_sound) (simp_all add: unused_def)
next
  case (copy ed u n dp)
  then show ?case by (intro copy_sound) (simp_all add: drawn_def unused_def)
next
  case (map_var ed x mapping n v)
  then show ?case by (intro mapping_sound) (auto simp: drawn_def unused_def mapping_props_def)
qed


definition new_net :: "string \<Rightarrow> editor" where
  "new_net u = \<lparr>e_net = u, e_models = new_model\<rparr>"

lemma refs_new_net [simp]: "refs (new_net u) v p = []"
  by (simp add: new_net_def refs_def model_refs_def mvals_def new_model_def)


end
