(* ===== verification/Editor_Run.thy ===== *)
theory Editor_Run
  imports Editor_Props Workflow_Props
begin

text \<open>
  The editor of nets and the handler of work items together: an element that flows leave is
  deleted, and the AND joins behind it wait for ever. And the badges of the view of a process.
\<close>

section \<open>Deleting an element that flows leave\<close>

text \<open>What the server reads of a stored net\<close>

definition as_uris :: "string list \<Rightarrow> val list" where
  "as_uris us = map (\<lambda>u. mkv TUri (DStr u)) us"

lemma stored_has_uri: "opt_vals (pget i p) = as_uris us \<Longrightarrow> has_uri i p u \<longleftrightarrow> u \<in> set us"
  by (cases "pget i p") (auto simp: has_uri_iff as_uris_def opt_vals_def)

lemma stored_getUri: "opt_vals (pget i p) = as_uris us \<Longrightarrow> getUri (pget i p) = (case us of [] \<Rightarrow> DUndef | u # _ \<Rightarrow> DStr u)"
  by (cases "pget i p") (auto simp: as_uris_def opt_vals_def split: list.splits)

lemma key_of_flows:
  "oget (foldl (\<lambda>m f. oset (js_str ds (vdata f)) x m) m (as_uris us)) f = None \<longleftrightarrow> oget m f = None \<and> f \<notin> set us"
  by (induction us arbitrary: m) (auto simp: as_uris_def)

definition stored_element :: "world \<Rightarrow> editor \<Rightarrow> string \<Rightarrow> individual \<Rightarrow> bool" where
  "stored_element w ed u i \<longleftrightarrow> lookup w (DStr u) = Some i \<and> uri i = u
     \<and> (\<forall>p \<in> {''rdf:type'', ''v-wf:hasFlow'', ''v-wf:flowsInto''}. opt_vals (pget i p) = as_uris (refs ed u p))"

lemma scan_stored:
  assumes "stored_element w ed u i"
  shows "scan_net w t st (mkv TUri (DStr u)) =
    (if is_flow ed u
     then (if \<exists>ts. refs ed u ''v-wf:flowsInto'' = t # ts then (fst st @ [i], snd st) else st)
     else if has_ref ed u ''rdf:type'' ''v-wf:Task''
     then (fst st, foldl (\<lambda>m f. oset (js_str (date_str w) (vdata f)) u m) (snd st) (as_uris (refs ed u ''v-wf:hasFlow'')))
     else st)"
proof -
  have i: "lookup w (DStr u) = Some i" "uri i = u"
      "opt_vals (pget i ''rdf:type'') = as_uris (refs ed u ''rdf:type'')"
      "opt_vals (pget i ''v-wf:hasFlow'') = as_uris (refs ed u ''v-wf:hasFlow'')"
      "opt_vals (pget i ''v-wf:flowsInto'') = as_uris (refs ed u ''v-wf:flowsInto'')"
    using assms by (simp_all add: stored_element_def)
  show ?thesis
    by (auto simp: scan_net_def i(1,2,4) stored_has_uri [OF i(3)] stored_getUri [OF i(5)] is_flow_eq has_ref_def
        split: list.splits)
qed

text \<open>A flow that no element leaves has no entry among the tasks, and stays among the flows into its target.\<close>

lemma scan_orphan:
  assumes "\<forall>u \<in> set us. \<exists>i. stored_element w ed u i"
    and "\<forall>u \<in> set us. f \<notin> set (refs ed u ''v-wf:hasFlow'')" and "oget (snd st) f = None"
  shows "oget (snd (foldl (scan_net w t) st (as_uris us))) f = None
    \<and> set (fst st) \<subseteq> set (fst (foldl (scan_net w t) st (as_uris us)))
    \<and> (f \<in> set us \<longrightarrow> is_flow ed f \<longrightarrow> refs ed f ''v-wf:flowsInto'' = [t] \<longrightarrow>
        (\<exists>i \<in> set (fst (foldl (scan_net w t) st (as_uris us))). uri i = f))"
  using assms
proof (induction us arbitrary: st)
  case Nil
  then show ?case by (simp add: as_uris_def)
next
  case (Cons u us)
  define st' where "st' = scan_net w t st (mkv TUri (DStr u))"
  obtain i where i: "stored_element w ed u i" using Cons(2) by auto
  have u: "uri i = u" using i by (simp add: stored_element_def)
  have "oget (snd st') f = None" "set (fst st) \<subseteq> set (fst st')"
    using Cons(3,4) by (auto simp: st'_def scan_stored [OF i] key_of_flows)
  moreover have "u = f \<longrightarrow> is_flow ed f \<longrightarrow> refs ed f ''v-wf:flowsInto'' = [t] \<longrightarrow> i \<in> set (fst st')"
    using i by (auto simp: st'_def scan_stored)
  moreover have "foldl (scan_net w t) st (as_uris (u # us)) = foldl (scan_net w t) st' (as_uris us)"
    by (simp add: as_uris_def st'_def)
  ultimately show ?case using Cons(1) [of st'] Cons(2,3) u by auto
qed

text \<open>C7: Deleting an element takes the flows into it out of the net, but not the flows that leave it:
  such a flow stays an element of the net that nothing leaves. If the net is stored like this, the
  AND join the flow goes into never fires: whatever work items the process has, the handler of a
  work item of that join changes nothing.\<close>

theorem deleted_state_blocks_join:
  assumes "net_sound ed" and "drawn ed x" and "goes_from ed x f" and "refs ed f ''v-wf:flowsInto'' = [uri e]" and "uri e \<noteq> x"
    and "opt_vals (pget n ''v-wf:consistsOf'') = as_uris (elements (deleteState x ed))"
    and "\<forall>u \<in> set (elements (deleteState x ed)). \<exists>i. stored_element w (deleteState x ed) u i"
    and "item_context w d p n e" and "untraced d" and "pget d ''v-wf:isCompleted'' = None"
    and "getUri (pget e ''v-wf:join'') = DStr ''v-wf:AND''" and "pget p ''v-wf:workItemList'' = Some wl"
    and "rsffiwit (stack_max w) w wl ''v-wf:forNetElement'' (getUri (pget d ''v-wf:forNetElement'')) p = Some (fs, [])"
    and "\<forall>y \<in> set fs. found_element y \<noteq> DUndef"
  shows "prepare_work_item h d w = (Val (), w) \<and> \<not> net_sound (deleteState x ed)"
proof -
  let ?ed = "deleteState x ed"
  have x: "x \<in> set (elements ed)" "\<not> is_flow ed x" and f: "f \<in> set (refs ed x ''v-wf:hasFlow'')"
    using assms(2,3) by (simp_all add: drawn_def goes_from_def)
  have fE: "f \<in> set (elements ed)" "is_flow ed f" using net_soundD(1,2) [OF assms(1) x(1) f] .
  have "\<not> into ed x f" using assms(4,5) by (simp add: into_def)
  moreover have "f \<noteq> x" using fE x by blast
  ultimately have in': "f \<in> set (elements ?ed)" "is_flow ?ed f" "refs ?ed f ''v-wf:flowsInto'' = [uri e]"
    using fE assms(4) by (simp_all add: deleteState_refs is_flow_eq)
  have left': "f \<notin> set (refs ?ed u ''v-wf:hasFlow'')" if "u \<in> set (elements ?ed)" for u
    using that one_source_of [OF assms(1) x(1) f, of u] by (auto simp: deleteState_refs)
  obtain flows t2f where scan: "foldl (scan_net w (uri e)) ([], []) (as_uris (elements ?ed)) = (flows, t2f)"
    by fastforce
  have orphan: "oget t2f f = None" "\<exists>i \<in> set flows. uri i = f"
    using scan_orphan [of "elements ?ed" w ?ed f "([], [])" "uri e"] assms(7) left' in' by (simp_all add: scan)
  then obtain i where i: "i \<in> set flows" "out_task t2f i = DUndef" by (auto simp: out_task_def)
  have "\<not> loose_eq DUndef (found_element y)" if "y \<in> set fs" for y
    using assms(14) that by (cases "found_element y") auto
  then have "prepare_work_item h d w = (Val (), w)"
    using and_join_waits [OF assms(8-13) scan [folded assms(6)] i(1)] i(2) by simp
  moreover have "\<not> net_sound ?ed" using net_soundD(5) [of ?ed f] in' left' by blast
  ultimately show ?thesis by simp
qed

text \<open>The example of the AND join, after the second task was deleted in the editor\<close>

definition cut_net :: individual where
  "cut_net = \<lparr>uri = ''d:n'', props = [(''v-wf:consistsOf'', uriv ''d:f1'' @ uriv ''d:f2'' @ uriv ''d:t1'' @ uriv ''d:e'')]\<rparr>"

definition cut_world :: world where
  "cut_world = world_of [flow_ex ''d:f1'', flow_ex ''d:f2'', task_ex ''d:t1'' ''d:f1'', join_ex, cut_net, process_ex,
     done_item_ex, item_ex]"

definition editor_ex :: editor where
  "editor_ex = \<lparr>e_net = ''d:n'', e_models = (\<lambda>u. case lookup join_world (DStr u) of
      None \<Rightarrow> new_model u | Some i \<Rightarrow> model_of_json i)\<rparr>"

lemma cut_lookups [simp]:
  "lookup cut_world (DStr ''d:f1'') = Some (flow_ex ''d:f1'')" "lookup cut_world (DStr ''d:f2'') = Some (flow_ex ''d:f2'')"
  "lookup cut_world (DStr ''d:t1'') = Some (task_ex ''d:t1'' ''d:f1'')" "lookup cut_world (DStr ''d:e'') = Some join_ex"
  "lookup cut_world (DStr ''d:n'') = Some cut_net" "lookup cut_world (DStr ''d:p'') = Some process_ex"
  "lookup cut_world (DStr ''d:w1'') = Some done_item_ex" "lookup cut_world (DStr ''d:w'') = Some item_ex"
  unfolding cut_world_def
  by (simp_all add: lookup_world_of plain_def flow_ex_def task_ex_def join_ex_def cut_net_def
      process_ex_def done_item_ex_def item_ex_def)

lemma refs_editor_ex:
  "lookup join_world (DStr u) = Some i \<Longrightarrow>
   refs editor_ex u p = map (\<lambda>v. js_str iso_date (vdata v)) (filter (\<lambda>v. vtype v = TUri) (opt_vals (pget i p)))"
  by (simp add: refs_def editor_ex_def model_refs_def mvals_def model_of_json_def opt_vals_def)

lemma editor_ex_net [simp]: "e_net editor_ex = ''d:n''"
  by (simp add: editor_ex_def)

lemma elements_ex: "refs editor_ex ''d:n'' ''v-wf:consistsOf'' = [''d:f1'', ''d:f2'', ''d:t1'', ''d:t2'', ''d:e'']"
  by (simp add: refs_editor_ex net_ex_def opt_vals_def newUri_def)

lemma element_refs_ex:
  "refs editor_ex ''d:f1'' ''v-wf:hasFlow'' = []" "refs editor_ex ''d:f2'' ''v-wf:hasFlow'' = []"
  "refs editor_ex ''d:t1'' ''v-wf:hasFlow'' = [''d:f1'']" "refs editor_ex ''d:t2'' ''v-wf:hasFlow'' = [''d:f2'']"
  "refs editor_ex ''d:e'' ''v-wf:hasFlow'' = []" "refs editor_ex ''d:f1'' ''v-wf:flowsInto'' = [''d:e'']"
  "refs editor_ex ''d:f2'' ''v-wf:flowsInto'' = [''d:e'']" "refs editor_ex ''d:t1'' ''v-wf:flowsInto'' = []"
  "refs editor_ex ''d:e'' ''v-wf:flowsInto'' = []"
  "refs editor_ex ''d:f1'' ''rdf:type'' = [''v-wf:Flow'']" "refs editor_ex ''d:f2'' ''rdf:type'' = [''v-wf:Flow'']"
  "refs editor_ex ''d:t1'' ''rdf:type'' = [''v-wf:Task'']" "refs editor_ex ''d:t2'' ''rdf:type'' = [''v-wf:Task'']"
  "refs editor_ex ''d:e'' ''rdf:type'' = [''v-wf:Task'']"
  by (simp_all add: refs_editor_ex flow_ex_def task_ex_def join_ex_def opt_vals_def newUri_def)

lemma editor_ex_sound: "net_sound editor_ex"
  unfolding net_sound_def editor_ex_net elements_ex
proof (rule graph_soundI)
  fix f assume "f \<in> set [''d:f1'', ''d:f2'', ''d:t1'', ''d:t2'', ''d:e'']" and "is_flow editor_ex f"
  then have f: "f = ''d:f1'' \<or> f = ''d:f2''" by (auto simp: is_flow_eq element_refs_ex)
  then show "set (refs editor_ex f ''v-wf:hasFlow'') = {}" by (auto simp: element_refs_ex)
  from f show "one_source (set [''d:f1'', ''d:f2'', ''d:t1'', ''d:t2'', ''d:e'']) (\<lambda>e. set (refs editor_ex e ''v-wf:hasFlow'')) f"
  proof
    assume "f = ''d:f1''"
    then show ?thesis by (intro one_sourceI [of "''d:t1''"]) (auto simp: element_refs_ex)
  next
    assume "f = ''d:f2''"
    then show ?thesis by (intro one_sourceI [of "''d:t2''"]) (auto simp: element_refs_ex)
  qed
  from f show "\<exists>t \<in> set [''d:f1'', ''d:f2'', ''d:t1'', ''d:t2'', ''d:e'']. \<not> is_flow editor_ex t
      \<and> refs editor_ex f ''v-wf:flowsInto'' = [t]"
    by (auto simp: element_refs_ex is_flow_eq)
qed (auto simp: element_refs_ex is_flow_eq)

lemma cut_ex: "deleteState ''d:t2'' editor_ex
    = set_refs ''d:n'' ''v-wf:consistsOf'' [''d:f1'', ''d:f2'', ''d:t1'', ''d:e''] editor_ex"
  by (simp add: deleteState_def removeSubIndividual_def elements_ex element_refs_ex Let_def delete_if_into_def firsts_def)

lemma cut_tree:
  "rsffiwit (stack_max cut_world) cut_world (uriv ''d:w1'') ''v-wf:forNetElement'' (DStr ''d:e'') process_ex
     = Some ([(done_item_ex, item_ex)], [])"
proof -
  have "stack_max cut_world = Suc (Suc (Suc (Suc (Suc 0))))" by (simp add: cut_world_def world_of_def)
  then show ?thesis by (simp add: newUri_def) (simp add: done_item_ex_def item_ex_def newUri_def)
qed

theorem deleted_state_blocks_join_witness: "prepare_work_item idle_hooks item_ex cut_world = (Val (), cut_world)"
proof -
  have ctx: "item_context cut_world item_ex process_ex cut_net join_ex"
    by (simp add: item_context_def item_ex_def process_ex_def)
  have el: "elements (deleteState ''d:t2'' editor_ex) = [''d:f1'', ''d:f2'', ''d:t1'', ''d:e'']"
    by (simp add: cut_ex firsts_def)
  have st: "\<forall>u \<in> set (elements (deleteState ''d:t2'' editor_ex)). \<exists>i. stored_element cut_world (deleteState ''d:t2'' editor_ex) u i"
    unfolding el
    by (simp add: stored_element_def cut_ex element_refs_ex as_uris_def)
      (simp add: flow_ex_def task_ex_def join_ex_def opt_vals_def newUri_def)
  show ?thesis
    by (rule deleted_state_blocks_join [OF editor_ex_sound _ _ _ _ _ st ctx, THEN conjunct1, of "''d:f2''" "uriv ''d:w1''" "[(done_item_ex, item_ex)]"])
      (use cut_tree in \<open>simp_all add: drawn_def goes_from_def elements_ex element_refs_ex is_flow_eq el untraced_def\<close>,
       simp_all add: item_ex_def join_ex_def process_ex_def done_item_ex_def cut_net_def as_uris_def opt_vals_def newUri_def)
qed

section \<open>The view of a process\<close>

text \<open>What the badge of an element means, in terms of all its work items.\<close>

definition item_of :: "string \<Rightarrow> imodel \<Rightarrow> bool" where
  "item_of e wi \<longleftrightarrow> (\<exists>es. model_refs wi ''v-wf:forNetElement'' = e # es)"

definition no_orders :: "imodel \<Rightarrow> bool" where
  "no_orders wi \<longleftrightarrow> mvals wi ''v-wf:workOrderList'' = []"

definition badge_color :: "imodel list \<Rightarrow> string" where
  "badge_color ws =
     (if list_ex no_orders ws then ''#FF3333''
      else if \<not> list_all is_done ws then ''#FFB266''
      else if ws \<noteq> [] then ''#88B288'' else ''white'')"

definition badge_of :: "imodel list \<Rightarrow> badge" where
  "badge_of ws = \<lparr>b_count = length ws, b_color = badge_color ws,
     b_mark = (if list_ex no_orders ws \<or> \<not> list_all is_done ws then ''red'' else if ws \<noteq> [] then ''green'' else [])\<rparr>"

lemma mark_badge_of: "mark_badge wi (badge_of ws) = badge_of (ws @ [wi])"
  by (auto simp: mark_badge_def badge_of_def badge_color_def no_orders_def Let_def list_ex_iff list_all_iff)

lemma view_badges:
  assumes "\<And>e. oget bs e = (if e \<in> E then Some (badge_of (filter (item_of e) ws)) else None)"
  shows "oget (foldl mark_element bs wis) e = (if e \<in> E then Some (badge_of (filter (item_of e) (ws @ wis))) else None)"
  using assms
proof (induction wis arbitrary: bs ws)
  case (Cons wi wis)
  have "oget (mark_element bs wi) e' = (if e' \<in> E then Some (badge_of (filter (item_of e') (ws @ [wi]))) else None)" for e'
    using Cons(2) by (auto simp: mark_element_def item_of_def mark_badge_of split: list.splits option.splits if_splits)
  from Cons(1) [OF this] show ?case by simp
qed simp

text \<open>In the view of a process an element shows the number of its work items, and a colour that does
  not depend on their order: red if some item has no orders, else orange if some item is not
  completed, else green, and white without items. Items of elements that are not drawn show nothing.\<close>

lemma badges_of_view:
  "map_option (\<lambda>b. (b_count b, b_color b)) (oget (createProcessView drawn_els wis) e)
   = (if e \<in> set drawn_els
      then (let ws = filter (item_of e) wis
            in Some (length ws,
                     if list_ex no_orders ws then ''#FF3333'' else if \<not> list_all is_done ws then ''#FFB266''
                     else if ws \<noteq> [] then ''#88B288'' else ''white''))
      else None)"
proof -
  have "oget (map (\<lambda>e. (e, blank_badge)) drawn_els) e'
      = (if e' \<in> set drawn_els then Some (badge_of (filter (item_of e') [])) else None)" for e'
    by (induction drawn_els) (auto simp: badge_of_def badge_color_def blank_badge_def)
  from view_badges [OF this, of wis e] show ?thesis
    by (simp add: createProcessView_def badge_of_def badge_color_def Let_def)
qed

end
