(* ===== verification/Presenter.thy ===== *)
theory Presenter
  imports Individual_Model
begin

text \<open>
  The presenter of individuals, \<^verbatim>\<open>public/js/browser/individual_presenter.js\<close>: the check of the
  values against the specification of their property, the results that bubble through embedded
  templates, the default values, and the calls of save, reset and the like over the tree of
  templates. The rendering itself is jQuery. A template is a node of a tree: its embedded templates
  are its children.
\<close>

section \<open>The check of one property\<close>

text \<open>
  What the check asks of its surroundings: \<open>regexp_test\<close> is \<open>new RegExp (p).test (s)\<close> for the
  patterns of the ontology, \<open>p_label\<close> the text of an individual, \<open>p_date\<close> the text of a Date,
  \<open>p_parse\<close> is \<open>Date.parse\<close>.
\<close>

record present_env =
  regexp_test :: "string \<Rightarrow> string \<Rightarrow> bool"
  p_label :: "string \<Rightarrow> string"
  p_date :: "int \<Rightarrow> string"
  p_parse :: "string \<Rightarrow> int"

record check =
  c_state :: bool
  c_cause :: "string list"

definition passed :: check where
  "passed = \<lparr>c_state = True, c_cause = []\<rparr>"

definition judge :: "string \<Rightarrow> bool \<Rightarrow> check \<Rightarrow> check" where
  "judge cause ok r =
     \<lparr>c_state = c_state r \<and> ok, c_cause = (if ok then c_cause r else c_cause r @ [cause])\<rparr>"

definition pvals :: "present_env \<Rightarrow> imodel \<Rightarrow> string \<Rightarrow> mval list" where
  "pvals env m p = get_values (p_date env) (p_parse env) m p"

text \<open>\<open>typeof item\<close> is boolean or number, or else the item is truthy: every object is.\<close>

definition nonempty :: "mval \<Rightarrow> bool" where
  "nonempty v \<longleftrightarrow> v \<noteq> MUndef \<and> v \<noteq> MNull \<and> v \<noteq> MText []"

text \<open>\<open>a <= b\<close> on values\<close>

definition mval_le :: "mval \<Rightarrow> mval \<Rightarrow> bool" where
  "mval_le a b =
     (case (mval_data a, mval_data b) of
        (DStr s, DStr t) \<Rightarrow> \<not> text_less t s
      | (x, y) \<Rightarrow> js_le x y)"

text \<open>\<open>v.toString ()\<close>; \<open>None\<close> is the TypeError of \<open>undefined\<close>.\<close>

definition mval_string :: "present_env \<Rightarrow> mval \<Rightarrow> string option" where
  "mval_string env v =
     (case v of
        MUndef \<Rightarrow> None | MNull \<Rightarrow> None
      | MRef u \<Rightarrow> Some (p_label env u)
      | MDate t \<Rightarrow> Some (p_date env t)
      | _ \<Rightarrow> Some (js_str (p_date env) (mval_data v)))"

text \<open>One constraint of the specification: skipped if it is not there; the test gets its first value.\<close>

definition constrain ::
  "present_env \<Rightarrow> imodel \<Rightarrow> string \<Rightarrow> (mval \<Rightarrow> bool option) \<Rightarrow> check \<Rightarrow> check option" where
  "constrain env spec c test r =
     (case pvals env spec c of
        [] \<Rightarrow> Some r
      | x # _ \<Rightarrow> map_option (\<lambda>ok. judge c ok r) (test x))"

definition check_cardinality :: "present_env \<Rightarrow> imodel \<Rightarrow> mval list \<Rightarrow> check \<Rightarrow> check option" where
  "check_cardinality env spec vs r =
     (let n = MNum (int (length vs)); full = list_all nonempty vs
      in Option.bind (constrain env spec ''v-ui:minCardinality'' (\<lambda>x. Some (mval_le x n \<and> full)) r)
           (constrain env spec ''v-ui:maxCardinality'' (\<lambda>x. Some (mval_le n x \<and> full))))"

definition pattern_of :: "present_env \<Rightarrow> mval \<Rightarrow> string" where
  "pattern_of env v = (case mval_string env v of None \<Rightarrow> [] | Some s \<Rightarrow> s)"

definition check_range :: "present_env \<Rightarrow> imodel \<Rightarrow> mval \<Rightarrow> check \<Rightarrow> check option" where
  "check_range env spec v r =
     (let len = map_option (\<lambda>s. MNum (int (utf16_length s))) (mval_string env v)
      in Option.bind (constrain env spec ''v-ui:minValue'' (\<lambda>x. Some (mval_le x v)) r) (\<lambda>r.
         Option.bind (constrain env spec ''v-ui:maxValue'' (\<lambda>x. Some (mval_le v x)) r) (\<lambda>r.
         Option.bind (constrain env spec ''v-ui:minLength'' (\<lambda>x. map_option (mval_le x) len) r)
           (constrain env spec ''v-ui:maxLength'' (\<lambda>x. map_option (\<lambda>n. mval_le n x) len)))))"

text \<open>The type of the specification decides on the ranges; without a type there is a TypeError.\<close>

definition check_value :: "present_env \<Rightarrow> imodel \<Rightarrow> check \<Rightarrow> mval \<Rightarrow> check option" where
  "check_value env spec r v =
     Option.bind (constrain env spec ''v-ui:regexp''
         (\<lambda>x. map_option (regexp_test env (pattern_of env x)) (mval_string env v)) r) (\<lambda>r.
       (case pvals env spec ''rdf:type'' of
          MRef t # _ \<Rightarrow> if t = ''v-ui:DatatypePropertySpecification'' then check_range env spec v r else Some r
        | [] \<Rightarrow> None
        | MUndef # _ \<Rightarrow> None
        | _ \<Rightarrow> Some r))"

fun check_values :: "present_env \<Rightarrow> imodel \<Rightarrow> mval list \<Rightarrow> check \<Rightarrow> check option" where
  "check_values env spec [] r = Some r"
| "check_values env spec (v # vs) r = Option.bind (check_value env spec r v) (check_values env spec vs)"

definition validate :: "present_env \<Rightarrow> imodel \<Rightarrow> string \<Rightarrow> imodel option \<Rightarrow> check option" where
  "validate env m p spec =
     (case spec of
        None \<Rightarrow> Some passed
      | Some sp \<Rightarrow>
          let vs = pvals env m p
          in Option.bind (check_cardinality env sp vs passed) (check_values env sp vs))"

section \<open>The results in a tree of templates\<close>

text \<open>
  \<open>n_checks\<close> are the results that the template keeps, one per property of a control (and per
  property that a script of the template added), \<open>n_state\<close> its \<^verbatim>\<open>state\<close>.
\<close>

datatype vnode = VNode (n_ind: string) (n_edit: bool) (n_checks: "check obj") (n_state: bool) (n_embedded: "vnode list")

text \<open>
  The page: the individuals, the specification of a property for an individual, and what the
  scripts of the templates answer to the event \<^verbatim>\<open>validate\<close> (each answer is an event
  \<^verbatim>\<open>validated\<close>, merged at once).
\<close>

record page =
  g_env :: present_env
  g_model :: "string \<Rightarrow> imodel"
  g_spec :: "string \<Rightarrow> string \<Rightarrow> imodel option"
  g_script :: "(string \<Rightarrow> imodel) \<Rightarrow> string \<Rightarrow> check obj list"

text \<open>An uncaught TypeError in the check of a property would end the handler; \<open>None\<close> stands for it.\<close>

definition own_checks :: "page \<Rightarrow> string \<Rightarrow> check obj \<Rightarrow> check obj option" where
  "own_checks g u cs =
     those (map (\<lambda>(p, c). map_option (Pair p) (validate (g_env g) (g_model g u) p (g_spec g u p))) cs)"

definition all_pass :: "check obj \<Rightarrow> bool" where
  "all_pass cs = list_all (\<lambda>(p, c). c_state c) cs"

definition merge_checks :: "check obj \<Rightarrow> check obj \<Rightarrow> check obj" where
  "merge_checks cs result = foldl (\<lambda>cs (p, c). oset p c cs) cs result"

text \<open>\<open>mergeValidationResult\<close>: the state afterwards looks at no embedded template.\<close>

fun mergeValidationResult :: "check obj \<Rightarrow> vnode \<Rightarrow> vnode" where
  "mergeValidationResult result (VNode u e cs st kids) =
     (if e then (let cs' = merge_checks cs result in VNode u e cs' (all_pass cs') kids) else VNode u e cs st kids)"

definition script_checks :: "page \<Rightarrow> string \<Rightarrow> check obj \<Rightarrow> check obj" where
  "script_checks g u cs = foldl merge_checks cs (g_script g (g_model g) u)"

text \<open>\<open>validateTemplate\<close> on the template itself\<close>

fun refresh :: "page \<Rightarrow> vnode \<Rightarrow> vnode option" where
  "refresh g (VNode u e cs st kids) =
     (if e then map_option (\<lambda>cs. let cs' = script_checks g u cs in VNode u e cs' (all_pass cs' \<and> list_all n_state kids) kids)
                  (own_checks g u cs)
      else Some (VNode u e cs st kids))"

text \<open>
  The event \<^verbatim>\<open>internal-validate\<close> at the template with the given path: every embedded template
  passes the event on to the one around it, whatever its mode. (A change of a property that
  embeds templates renders these anew; the tree is then another one.)
\<close>

fun validateTemplate :: "page \<Rightarrow> nat list \<Rightarrow> vnode \<Rightarrow> vnode option" where
  "validateTemplate g [] n = refresh g n"
| "validateTemplate g (i # is) (VNode u e cs st kids) =
     (if i < length kids
      then Option.bind (validateTemplate g is (kids ! i)) (\<lambda>k. refresh g (VNode u e cs st (kids[i := k])))
      else None)"

text \<open>The templates that show an individual; each listens to its event \<^verbatim>\<open>propertyModified\<close>.\<close>

fun shows_of :: "string \<Rightarrow> vnode \<Rightarrow> nat list list" where
  "shows_of x (VNode u e cs st kids) =
     (if u = x \<and> e then [[]] else [])
     @ concat (map (\<lambda>(i, ps). map ((#) i) ps) (enumerate 0 (map (shows_of x) kids)))"

fun run_paths :: "page \<Rightarrow> nat list list \<Rightarrow> vnode \<Rightarrow> vnode option" where
  "run_paths g [] n = Some n"
| "run_paths g (p # ps) n = Option.bind (validateTemplate g p n) (run_paths g ps)"

definition triggerValidation :: "page \<Rightarrow> string \<Rightarrow> vnode \<Rightarrow> vnode option" where
  "triggerValidation g x n = run_paths g (shows_of x n) n"

text \<open>The default value of a control, when the template goes into the mode edit.\<close>

definition assignDefaultValue :: "present_env \<Rightarrow> string \<Rightarrow> imodel option \<Rightarrow> imodel \<Rightarrow> imodel" where
  "assignDefaultValue env p spec m =
     (case spec of
        None \<Rightarrow> m
      | Some sp \<Rightarrow>
          if mvals sp ''v-ui:defaultValue'' \<noteq> [] \<and> mvals m p = []
          then set_value (p_date env) p (pvals env sp ''v-ui:defaultValue'') False m else m)"

section \<open>save, reset and the like\<close>

text \<open>
  The calls on the individuals in their order, and the notices. \<open>fails u\<close> says that the call on
  \<open>u\<close> is rejected; every template catches what happens in it. The calls of the embedded templates of
  one template run side by side; they are listed here one after another.
\<close>

datatype step = Called string | Success | Danger | Touched string

fun callModelMethod :: "bool \<Rightarrow> (string \<Rightarrow> bool) \<Rightarrow> string option \<Rightarrow> vnode \<Rightarrow> step list" where
  "callModelMethod is_reset fails parent (VNode u e cs st kids) =
     concat (map (callModelMethod is_reset fails (Some u)) kids)
     @ (if parent = Some u then [] else [Called u])
     @ (if parent \<noteq> Some u \<and> fails u then [Danger]
        else if is_reset then []
        else case parent of
            None \<Rightarrow> [Success]
          | Some q \<Rightarrow> if q \<noteq> u then [Touched q] else [])"

end
