(* ===== verification/Presenter_Props.thy ===== *)
theory Presenter_Props
  imports Presenter
begin

text \<open>
  The presenter: the check of a property finds exactly the violated constraints, the state of a
  template stays the conjunction over all templates embedded in it, and a failing call stops no
  other call.
\<close>

section \<open>The check of a property\<close>

text \<open>A constraint of the specification that is there, with its first value, and does not hold.\<close>

definition broken :: "present_env \<Rightarrow> imodel \<Rightarrow> string \<Rightarrow> (mval \<Rightarrow> bool) \<Rightarrow> bool" where
  "broken env spec c holds \<longleftrightarrow> (\<exists>x xs. pvals env spec c = x # xs \<and> \<not> holds x)"

definition text_in :: "present_env \<Rightarrow> mval \<Rightarrow> string" where
  "text_in env v = (case mval_string env v of None \<Rightarrow> [] | Some s \<Rightarrow> s)"

definition is_datatype_spec :: "present_env \<Rightarrow> imodel \<Rightarrow> bool" where
  "is_datatype_spec env spec \<longleftrightarrow> (\<exists>ts. pvals env spec ''rdf:type'' = MRef ''v-ui:DatatypePropertySpecification'' # ts)"

text \<open>The constraints that a value violates, and the ones that the number of values violates.\<close>

definition broken_by_value :: "present_env \<Rightarrow> imodel \<Rightarrow> mval \<Rightarrow> string set" where
  "broken_by_value env spec v =
     {c. c = ''v-ui:regexp'' \<and> broken env spec c (\<lambda>x. regexp_test env (text_in env x) (text_in env v))}
     \<union> (if is_datatype_spec env spec
        then {c. c = ''v-ui:minValue'' \<and> broken env spec c (\<lambda>x. mval_le x v)}
           \<union> {c. c = ''v-ui:maxValue'' \<and> broken env spec c (\<lambda>x. mval_le v x)}
           \<union> {c. c = ''v-ui:minLength'' \<and> broken env spec c (\<lambda>x. mval_le x (MNum (int (utf16_length (text_in env v)))))}
           \<union> {c. c = ''v-ui:maxLength'' \<and> broken env spec c (\<lambda>x. mval_le (MNum (int (utf16_length (text_in env v)))) x)}
        else {})"

definition broken_by_count :: "present_env \<Rightarrow> imodel \<Rightarrow> mval list \<Rightarrow> string set" where
  "broken_by_count env spec vs =
     {c. c = ''v-ui:minCardinality'' \<and> broken env spec c (\<lambda>x. mval_le x (MNum (int (length vs))) \<and> list_all nonempty vs)}
     \<union> {c. c = ''v-ui:maxCardinality'' \<and> broken env spec c (\<lambda>x. mval_le (MNum (int (length vs))) x \<and> list_all nonempty vs)}"

definition sound_check :: "check \<Rightarrow> bool" where
  "sound_check r \<longleftrightarrow> (c_state r \<longleftrightarrow> c_cause r = [])"

lemma constrain_sound:
  assumes "constrain env spec c test r = Some r'" and "\<And>x ok. test x = Some ok \<Longrightarrow> ok = holds x"
  shows "set (c_cause r') = set (c_cause r) \<union> {d. d = c \<and> broken env spec c holds} \<and> (sound_check r \<longrightarrow> sound_check r')"
  using assms(1)
  by (auto simp: constrain_def broken_def judge_def sound_check_def split: list.splits if_splits dest!: assms(2))

lemma check_range_sound:
  assumes "check_range env spec v r = Some r'" and "is_datatype_spec env spec"
  shows "set (c_cause r') = set (c_cause r) \<union> (broken_by_value env spec v - {''v-ui:regexp''}) \<and> (sound_check r \<longrightarrow> sound_check r')"
proof -
  let ?l = "\<lambda>v. MNum (int (utf16_length (text_in env v)))"
  obtain r1 r2 r3 where r: "constrain env spec ''v-ui:minValue'' (\<lambda>x. Some (mval_le x v)) r = Some r1"
      "constrain env spec ''v-ui:maxValue'' (\<lambda>x. Some (mval_le v x)) r1 = Some r2"
      "constrain env spec ''v-ui:minLength''
         (\<lambda>x. map_option (mval_le x) (map_option (\<lambda>s. MNum (int (utf16_length s))) (mval_string env v))) r2 = Some r3"
      "constrain env spec ''v-ui:maxLength''
         (\<lambda>x. map_option (\<lambda>n. mval_le n x) (map_option (\<lambda>s. MNum (int (utf16_length s))) (mval_string env v))) r3 = Some r'"
    using assms(1) by (auto simp: check_range_def Let_def bind_eq_Some_conv)
  have "set (c_cause r1) = set (c_cause r) \<union> {d. d = ''v-ui:minValue'' \<and> broken env spec ''v-ui:minValue'' (\<lambda>x. mval_le x v)}
      \<and> (sound_check r \<longrightarrow> sound_check r1)"
    by (rule constrain_sound [OF r(1)]) simp
  moreover have "set (c_cause r2) = set (c_cause r1) \<union> {d. d = ''v-ui:maxValue'' \<and> broken env spec ''v-ui:maxValue'' (\<lambda>x. mval_le v x)}
      \<and> (sound_check r1 \<longrightarrow> sound_check r2)"
    by (rule constrain_sound [OF r(2)]) simp
  moreover have "set (c_cause r3) = set (c_cause r2) \<union> {d. d = ''v-ui:minLength'' \<and> broken env spec ''v-ui:minLength'' (\<lambda>x. mval_le x (?l v))}
      \<and> (sound_check r2 \<longrightarrow> sound_check r3)"
    by (rule constrain_sound [OF r(3)]) (auto simp: text_in_def)
  moreover have "set (c_cause r') = set (c_cause r3) \<union> {d. d = ''v-ui:maxLength'' \<and> broken env spec ''v-ui:maxLength'' (\<lambda>x. mval_le (?l v) x)}
      \<and> (sound_check r3 \<longrightarrow> sound_check r')"
    by (rule constrain_sound [OF r(4)]) (auto simp: text_in_def)
  ultimately show ?thesis using assms(2) by (simp add: broken_by_value_def) auto
qed

lemma check_value_sound:
  assumes "check_value env spec r v = Some r'"
  shows "set (c_cause r') = set (c_cause r) \<union> broken_by_value env spec v \<and> (sound_check r \<longrightarrow> sound_check r')"
proof -
  obtain r1 where r1: "constrain env spec ''v-ui:regexp''
         (\<lambda>x. map_option (regexp_test env (pattern_of env x)) (mval_string env v)) r = Some r1"
      and rest: "(case pvals env spec ''rdf:type'' of
          MRef t # _ \<Rightarrow> if t = ''v-ui:DatatypePropertySpecification'' then check_range env spec v r1 else Some r1
        | [] \<Rightarrow> None | MUndef # _ \<Rightarrow> None | _ \<Rightarrow> Some r1) = Some r'"
    using assms by (auto simp: check_value_def bind_eq_Some_conv)
  have 1: "set (c_cause r1) = set (c_cause r)
      \<union> {d. d = ''v-ui:regexp'' \<and> broken env spec ''v-ui:regexp'' (\<lambda>x. regexp_test env (text_in env x) (text_in env v))}
      \<and> (sound_check r \<longrightarrow> sound_check r1)"
    by (rule constrain_sound [OF r1]) (auto simp: text_in_def pattern_of_def)
  show ?thesis
  proof (cases "is_datatype_spec env spec")
    case True
    then have "check_range env spec v r1 = Some r'" using rest by (auto simp: is_datatype_spec_def)
    from check_range_sound [OF this True] 1 show ?thesis using True by (simp add: broken_by_value_def) auto
  next
    case False
    then have "r' = r1" using rest by (auto simp: is_datatype_spec_def split: list.splits mval.splits if_splits)
    with 1 False show ?thesis by (auto simp: broken_by_value_def)
  qed
qed

lemma check_values_sound:
  "check_values env spec vs r = Some r' \<Longrightarrow>
   set (c_cause r') = set (c_cause r) \<union> (\<Union>v \<in> set vs. broken_by_value env spec v) \<and> (sound_check r \<longrightarrow> sound_check r')"
proof (induction vs arbitrary: r)
  case (Cons v vs)
  then obtain r1 where "check_value env spec r v = Some r1" "check_values env spec vs r1 = Some r'"
    by (auto simp: bind_eq_Some_conv)
  with check_value_sound [of env spec r v r1] Cons(1) [of r1] show ?case by auto
qed simp

text \<open>The check of a property gives as causes exactly the constraints of its specification that the
  values violate (their number, the pattern, the bounds of value and of length, the last four only for
  a specification of a datatype property), and its state is good exactly if there is no cause.
  Without a specification every value is good.\<close>

lemma validate_spec:
  assumes "validate env m p spec = Some r"
  shows "(c_state r \<longleftrightarrow> c_cause r = [])
    \<and> set (c_cause r) = (case spec of
        None \<Rightarrow> {}
      | Some sp \<Rightarrow> broken_by_count env sp (pvals env m p) \<union> (\<Union>v \<in> set (pvals env m p). broken_by_value env sp v))"
proof (cases spec)
  case None
  then show ?thesis using assms by (auto simp: validate_def passed_def)
next
  case (Some sp)
  let ?vs = "pvals env m p"
  have p: "sound_check passed" "c_cause passed = []" by (simp_all add: sound_check_def passed_def)
  obtain r1 where r1: "check_cardinality env sp ?vs passed = Some r1" and r: "check_values env sp ?vs r1 = Some r"
    using assms Some by (auto simp: validate_def Let_def bind_eq_Some_conv)
  obtain r0 where r0: "constrain env sp ''v-ui:minCardinality''
        (\<lambda>x. Some (mval_le x (MNum (int (length ?vs))) \<and> list_all nonempty ?vs)) passed = Some r0"
      and r01: "constrain env sp ''v-ui:maxCardinality''
        (\<lambda>x. Some (mval_le (MNum (int (length ?vs))) x \<and> list_all nonempty ?vs)) r0 = Some r1"
    using r1 by (auto simp: check_cardinality_def Let_def bind_eq_Some_conv)
  have "set (c_cause r0) = set (c_cause passed) \<union> {d. d = ''v-ui:minCardinality'' \<and> broken env sp ''v-ui:minCardinality''
        (\<lambda>x. mval_le x (MNum (int (length ?vs))) \<and> list_all nonempty ?vs)} \<and> (sound_check passed \<longrightarrow> sound_check r0)"
    by (rule constrain_sound [OF r0]) simp
  moreover have "set (c_cause r1) = set (c_cause r0) \<union> {d. d = ''v-ui:maxCardinality'' \<and> broken env sp ''v-ui:maxCardinality''
        (\<lambda>x. mval_le (MNum (int (length ?vs))) x \<and> list_all nonempty ?vs)} \<and> (sound_check r0 \<longrightarrow> sound_check r1)"
    by (rule constrain_sound [OF r01]) simp
  ultimately show ?thesis
    using check_values_sound [OF r] p Some by (simp add: broken_by_count_def sound_check_def) auto
qed

section \<open>The results in the tree of templates\<close>

text \<open>The result of a property that the template should hold: the last answer of its script, or else the check.\<close>

definition script_answers :: "page \<Rightarrow> string \<Rightarrow> check obj" where
  "script_answers g u = concat (g_script g (g_model g) u)"

definition expected :: "page \<Rightarrow> string \<Rightarrow> string \<Rightarrow> check option" where
  "expected g u p =
     (case oget (rev (script_answers g u)) p of
        Some c \<Rightarrow> Some c | None \<Rightarrow> validate (g_env g) (g_model g u) p (g_spec g u p))"

definition fresh_checks :: "page \<Rightarrow> string \<Rightarrow> check obj \<Rightarrow> bool" where
  "fresh_checks g u cs \<longleftrightarrow>
     (\<forall>(p, c) \<in> set cs. expected g u p = Some c) \<and> fst ` set (script_answers g u) \<subseteq> fst ` set cs"

lemma nth_size [termination_simp]: "i < length xs \<Longrightarrow> size (xs ! i) < Suc (size_list size xs)"
  by (meson le_imp_less_Suc nth_mem order_refl size_list_estimation')

text \<open>
  Every state is the conjunction of the template's results and the states of its embedded templates,
  and outside of the paths \<open>P\<close> the results are the expected ones.
\<close>

fun settled :: "page \<Rightarrow> nat list set \<Rightarrow> vnode \<Rightarrow> bool" where
  "settled g P (VNode u e cs st kids) =
     (distinct (map fst cs) \<and> (e \<longrightarrow> (st \<longleftrightarrow> all_pass cs \<and> list_all n_state kids))
      \<and> (e \<longrightarrow> [] \<notin> P \<longrightarrow> fresh_checks g u cs)
      \<and> (\<forall>i < length kids. settled g {q. i # q \<in> P} (kids ! i)))"

text \<open>What a state means: all results of the template and of all templates embedded in it are good.\<close>

fun all_good :: "page \<Rightarrow> vnode \<Rightarrow> bool" where
  "all_good g (VNode u e cs st kids) =
     (if e then (\<forall>p \<in> fst ` set cs. \<exists>c. expected g u p = Some c \<and> c_state c) \<and> list_all (all_good g) kids else st)"

fun is_path :: "nat list \<Rightarrow> vnode \<Rightarrow> bool" where
  "is_path [] n = True"
| "is_path (i # is) n = (i < length (n_embedded n) \<and> is_path is (n_embedded n ! i))"

definition checks_total :: "page \<Rightarrow> bool" where
  "checks_total g \<longleftrightarrow> (\<forall>u p. validate (g_env g) (g_model g u) p (g_spec g u p) \<noteq> None)"

lemma merge_all: "script_checks g u cs = merge_checks cs (script_answers g u)"
proof -
  have "foldl merge_checks cs xs = merge_checks cs (concat xs)" for xs
    by (induction xs arbitrary: cs) (simp_all add: merge_checks_def)
  then show ?thesis by (simp add: script_checks_def script_answers_def)
qed

lemma merge_facts:
  "distinct (map fst cs) \<Longrightarrow> distinct (map fst (merge_checks cs rs))"
  "oget (merge_checks cs rs) p = (case oget (rev rs) p of Some c \<Rightarrow> Some c | None \<Rightarrow> oget cs p)"
  "fst ` set (merge_checks cs rs) = fst ` set cs \<union> fst ` set rs"
proof -
  show "distinct (map fst cs) \<Longrightarrow> distinct (map fst (merge_checks cs rs))"
    by (induction rs arbitrary: cs) (auto simp: merge_checks_def distinct_update split: prod.splits)
  show "oget (merge_checks cs rs) p = (case oget (rev rs) p of Some c \<Rightarrow> Some c | None \<Rightarrow> oget cs p)"
    by (induction rs arbitrary: cs) (auto simp: merge_checks_def split: prod.splits option.splits)
  show "fst ` set (merge_checks cs rs) = fst ` set cs \<union> fst ` set rs"
  proof (induction rs arbitrary: cs)
    case (Cons x rs)
    have "fst ` set (oset (fst x) (snd x) cs) = insert (fst x) (fst ` set cs)"
      using dom_update [of "fst x" "snd x" cs] by (simp add: dom_map_of_conv_image_fst)
    with Cons [of "oset (fst x) (snd x) cs"] show ?case by (auto simp: merge_checks_def case_prod_beta)
  qed (simp add: merge_checks_def)
qed

lemma own_total:
  assumes "checks_total g"
  obtains cs' where "own_checks g u cs = Some cs'" and "map fst cs' = map fst cs"
    and "\<And>p. p \<in> fst ` set cs \<Longrightarrow> oget cs' p = validate (g_env g) (g_model g u) p (g_spec g u p)"
proof -
  have "\<exists>cs'. own_checks g u cs = Some cs' \<and> map fst cs' = map fst cs
      \<and> (\<forall>p. p \<in> fst ` set cs \<longrightarrow> oget cs' p = validate (g_env g) (g_model g u) p (g_spec g u p))"
  proof (induction cs)
    case Nil
    then show ?case by (simp add: own_checks_def)
  next
    case (Cons x cs)
    obtain p c where x: "x = (p, c)" by fastforce
    obtain r where "validate (g_env g) (g_model g u) p (g_spec g u p) = Some r"
      using assms unfolding checks_total_def by blast
    with Cons x show ?case by (auto simp: own_checks_def)
  qed
  then show ?thesis using that by blast
qed

lemma refresh_settles:
  assumes "checks_total g" and "settled g P (VNode u e cs st kids0)" and "length kids = length kids0"
    and "\<And>i. i < length kids \<Longrightarrow> settled g {q. i # q \<in> Q} (kids ! i)"
  obtains cs' st' where "refresh g (VNode u e cs st kids) = Some (VNode u e cs' st' kids)"
    and "settled g (Q - {[]}) (VNode u e cs' st' kids)"
proof (cases e)
  case False
  then show ?thesis using that [of cs st] assms by auto
next
  case True
  obtain cs1 where cs1: "own_checks g u cs = Some cs1" "map fst cs1 = map fst cs"
      "\<And>p. p \<in> fst ` set cs \<Longrightarrow> oget cs1 p = validate (g_env g) (g_model g u) p (g_spec g u p)"
    using own_total [OF assms(1)] by blast
  define cs' where "cs' = script_checks g u cs1"
  have d: "distinct (map fst cs1)" using assms(2) cs1(2) by simp
  then have d': "distinct (map fst cs')" by (simp add: cs'_def merge_all merge_facts(1))
  have keys: "fst ` set cs1 = fst ` set cs" using cs1(2) by (metis set_map)
  have "expected g u p = Some c" if "(p, c) \<in> set cs'" for p c
  proof -
    have c: "oget cs' p = Some c" using that d' by simp
    show ?thesis
    proof (cases "oget (rev (script_answers g u)) p")
      case None
      then have "oget cs1 p = Some c" using c by (simp add: cs'_def merge_all merge_facts(2))
      then show ?thesis using None cs1(3) [of p] keys oget_in_keys [of cs1 p c] by (simp add: expected_def)
    next
      case (Some d)
      then show ?thesis using c by (simp add: cs'_def merge_all merge_facts(2) expected_def)
    qed
  qed
  then have "fresh_checks g u cs'"
    by (auto simp: fresh_checks_def cs'_def merge_all merge_facts(3))
  then show ?thesis
    using that [of cs' "all_pass cs' \<and> list_all n_state kids"] True cs1(1) d' assms(4)
    by (auto simp: cs'_def Let_def)
qed

lemma settled_mono: "settled g P t \<Longrightarrow> P \<subseteq> Q \<Longrightarrow> settled g Q t"
proof (induction g P t arbitrary: Q rule: settled.induct)
  case (1 g P u e cs st kids)
  have "settled g {q. i # q \<in> Q} (kids ! i)" if "i < length kids" for i
    by (rule 1(1) [OF that]) (use 1(2,3) that in auto)
  then show ?case using 1(2,3) by auto
qed

lemma path_settles:
  assumes "checks_total g"
  shows "settled g P t \<Longrightarrow> is_path p t \<Longrightarrow>
    \<exists>t'. validateTemplate g p t = Some t' \<and> settled g (P - {p}) t' \<and> (\<forall>q. is_path q t' = is_path q t)"
proof (induction p arbitrary: P t)
  case Nil
  obtain u e cs st kids where t: "t = VNode u e cs st kids" by (cases t)
  have k: "settled g {q. i # q \<in> P} (kids ! i)" if "i < length kids" for i using Nil(1) that t by simp
  obtain cs' st' where "refresh g t = Some (VNode u e cs' st' kids)" "settled g (P - {[]}) (VNode u e cs' st' kids)"
    unfolding t by (rule refresh_settles [OF assms Nil(1) [unfolded t] refl, of P]) (use k in auto)
  moreover have "is_path q (VNode u e cs' st' kids) = is_path q t" for q by (cases q) (simp_all add: t)
  ultimately show ?case by auto
next
  case (Cons i p)
  obtain u e cs st kids where t: "t = VNode u e cs st kids" by (cases t)
  have i: "i < length kids" "is_path p (kids ! i)" and k: "settled g {q. i # q \<in> P} (kids ! i)"
    using Cons(2,3) t by auto
  obtain k' where k': "validateTemplate g p (kids ! i) = Some k'" "settled g ({q. i # q \<in> P} - {p}) k'"
      "\<forall>q. is_path q k' = is_path q (kids ! i)"
    using Cons(1) [OF k i(2)] by blast
  let ?Q = "P - {i # p}" and ?kids = "kids[i := k']"
  have all: "settled g {q. j # q \<in> ?Q} (?kids ! j)" if "j < length ?kids" for j
  proof (cases "j = i")
    case True
    then have "{q. j # q \<in> ?Q} = {q. i # q \<in> P} - {p}" by auto
    then show ?thesis using True that k'(2) by simp
  next
    case False
    then have "{q. j # q \<in> ?Q} = {q. j # q \<in> P}" by auto
    then show ?thesis using False that Cons(2) t by simp
  qed
  obtain cs' st' where r: "refresh g (VNode u e cs st ?kids) = Some (VNode u e cs' st' ?kids)"
      and s: "settled g (?Q - {[]}) (VNode u e cs' st' ?kids)"
    by (rule refresh_settles [OF assms Cons(2) [unfolded t], of ?kids ?Q]) (use all in auto)
  have "is_path q (VNode u e cs' st' ?kids) = is_path q t" for q
    using k'(3) i(1) by (cases q) (auto simp: t nth_list_update)
  then show ?case
    using r k'(1) i(1) settled_mono [OF s, of ?Q] t by auto
qed

lemma run_settles:
  assumes "checks_total g"
  shows "settled g P t \<Longrightarrow> \<forall>p \<in> set ps. is_path p t \<Longrightarrow>
    \<exists>t'. run_paths g ps t = Some t' \<and> settled g (P - set ps) t'"
proof (induction ps arbitrary: P t)
  case (Cons p ps)
  obtain t1 where "validateTemplate g p t = Some t1" "settled g (P - {p}) t1" "\<forall>q. is_path q t1 = is_path q t"
    using path_settles [OF assms Cons(2), of p] Cons(3) by auto
  moreover have "P - {p} - set ps = P - set (p # ps)" by auto
  ultimately show ?case using Cons(1) [of "P - {p}" t1] Cons(3) by auto
qed simp

lemma in_shows_of:
  "p \<in> set (shows_of x (VNode u e cs st kids)) \<longleftrightarrow>
     (case p of [] \<Rightarrow> u = x \<and> e | i # q \<Rightarrow> i < length kids \<and> q \<in> set (shows_of x (kids ! i)))"
proof -
  have "p \<in> set (concat (map (\<lambda>(i, ps). map ((#) i) ps) (enumerate 0 (map (shows_of x) kids))))
      \<longleftrightarrow> (\<exists>i q. p = i # q \<and> i < length kids \<and> q \<in> set (shows_of x (kids ! i)))"
    by (force simp: enumerate_eq_zip in_set_zip)
  then show ?thesis by (cases p) auto
qed

lemma shows_are_paths: "p \<in> set (shows_of x t) \<Longrightarrow> is_path p t"
proof (induction p arbitrary: t)
  case (Cons i p)
  then show ?case by (cases t) (auto simp: in_shows_of simp del: shows_of.simps)
qed simp

text \<open>After a change of one individual only the templates that show it are stale.\<close>

lemma stale_shows:
  assumes "\<And>u cs. u \<noteq> x \<Longrightarrow> fresh_checks g' u cs = fresh_checks g u cs"
  shows "settled g {} t \<Longrightarrow> settled g' (set (shows_of x t)) t"
proof (induction t)
  case (VNode u e cs st kids)
  have kid: "settled g' {q. i # q \<in> set (shows_of x (VNode u e cs st kids))} (kids ! i)" if i: "i < length kids" for i
  proof -
    have "{q. i # q \<in> set (shows_of x (VNode u e cs st kids))} = set (shows_of x (kids ! i))"
      using i by (auto simp: in_shows_of simp del: shows_of.simps)
    then show ?thesis using VNode(1) [of "kids ! i"] VNode(2) i by simp
  qed
  have "[] \<notin> set (shows_of x (VNode u e cs st kids)) \<Longrightarrow> e \<Longrightarrow> u \<noteq> x"
    by (auto simp: in_shows_of simp del: shows_of.simps)
  then show ?case using VNode(2) kid assms by (simp del: shows_of.simps)
qed

lemma all_pass_fresh: "fresh_checks g u cs \<Longrightarrow> all_pass cs \<longleftrightarrow> (\<forall>p \<in> fst ` set cs. \<exists>c. expected g u p = Some c \<and> c_state c)"
  by (force simp: fresh_checks_def all_pass_def list_all_iff)

lemma settled_state: "settled g {} t \<Longrightarrow> n_state t = all_good g t"
proof (induction t)
  case (VNode u e cs st kids)
  have "n_state k = all_good g k" if "k \<in> set kids" for k
    using VNode(1) [OF that] VNode(2) that by (auto simp: in_set_conv_nth)
  then have "list_all n_state kids = list_all (all_good g) kids" by (simp add: list_all_iff)
  then show ?case using VNode(2) all_pass_fresh [of g u cs] by auto
qed

text \<open>C12: The state of a template is what it should be: that every property, of the template and of all
  templates embedded in it at any depth, passes its check (or the last answer of the template's script).
  This holds again after a change of one individual, when the templates that show it have handled
  the event and passed it on outwards, in the order of the page; the handling always ends in a result. It
  does not survive an answer of a script outside of this handling: \<^verbatim>\<open>mergeValidationResult\<close> then makes a
  template good although an embedded one is not.\<close>

theorem validation_tree:
  assumes "settled g {} t" and "checks_total g'"
    and "\<And>u cs. u \<noteq> x \<Longrightarrow> fresh_checks g' u cs = fresh_checks g u cs"
  shows "(\<exists>t'. triggerValidation g' x t = Some t' \<and> settled g' {} t' \<and> n_state t' = all_good g' t')
    \<and> n_state (mergeValidationResult [] (VNode u True [] False [VNode v True [(p, judge c False passed)] False []]))"
proof -
  have "settled g' (set (shows_of x t)) t" by (rule stale_shows [OF assms(3,1)])
  moreover have "\<forall>p \<in> set (shows_of x t). is_path p t" using shows_are_paths by blast
  ultimately obtain t' where "run_paths g' (shows_of x t) t = Some t'" "settled g' {} t'"
    using run_settles [OF assms(2), of "set (shows_of x t)" t "shows_of x t"] by auto
  then show ?thesis using settled_state [of g' t'] by (simp add: triggerValidation_def merge_checks_def all_pass_def)
qed

definition penv_ex :: present_env where
  "penv_ex = \<lparr>regexp_test = (\<lambda>p s. True), p_label = (\<lambda>u. u), p_date = iso_date, p_parse = (\<lambda>_. 0)\<rparr>"

definition spec_ex :: imodel where
  "spec_ex = model_of_json \<lparr>uri = ''d:s'', props =
     [(''rdf:type'', [mkv TUri (DStr ''v-ui:DatatypePropertySpecification'')]),
      (''v-ui:minCardinality'', [mkv TInteger (DNum 1)]), (''v-ui:maxValue'', [mkv TInteger (DNum 9)])]\<rparr>"

definition held_ex :: "int list \<Rightarrow> imodel" where
  "held_ex ns = model_of_json \<lparr>uri = ''d:u'', props = [(''d:q'', map (\<lambda>n. mkv TInteger (DNum n)) ns)]\<rparr>"

lemma spec_vals [simp]:
  "pvals penv_ex spec_ex ''v-ui:minCardinality'' = [MNum 1]" "pvals penv_ex spec_ex ''v-ui:maxCardinality'' = []"
  "pvals penv_ex spec_ex ''v-ui:regexp'' = []" "pvals penv_ex spec_ex ''v-ui:minValue'' = []"
  "pvals penv_ex spec_ex ''v-ui:maxValue'' = [MNum 9]" "pvals penv_ex spec_ex ''v-ui:minLength'' = []"
  "pvals penv_ex spec_ex ''v-ui:maxLength'' = []"
  "pvals penv_ex spec_ex ''rdf:type'' = [MRef ''v-ui:DatatypePropertySpecification'']"
  by (simp_all add: pvals_def get_values_def mvals_def spec_ex_def model_of_json_def parser_def)

lemma held_vals [simp]: "pvals penv_ex (held_ex ns) ''d:q'' = map MNum ns"
  by (simp add: pvals_def get_values_def mvals_def held_ex_def model_of_json_def parser_def)

lemma new_model_vals [simp]: "pvals env (new_model u) p = []"
  by (simp add: pvals_def get_values_def mvals_def new_model_def)

lemma check_steps_ex [simp]:
  "check_cardinality penv_ex spec_ex vs r = Some (judge ''v-ui:minCardinality'' (mval_le (MNum 1) (MNum (int (length vs))) \<and> list_all nonempty vs) r)"
  "check_value penv_ex spec_ex r v = Some (judge ''v-ui:maxValue'' (mval_le v (MNum 9)) r)"
  by (simp_all add: check_cardinality_def check_value_def check_range_def constrain_def Let_def)

lemma mval_le_num [simp]: "mval_le (MNum a) (MNum b) \<longleftrightarrow> a \<le> b"
  by (simp add: mval_le_def)

lemma validate_spec_witness:
  "validate penv_ex (held_ex [5, 12]) ''d:q'' (Some spec_ex) = Some \<lparr>c_state = False, c_cause = [''v-ui:maxValue'']\<rparr>
   \<and> {''v-ui:maxValue''} = broken_by_count penv_ex spec_ex (pvals penv_ex (held_ex [5, 12]) ''d:q'')
       \<union> (\<Union>v \<in> set (pvals penv_ex (held_ex [5, 12]) ''d:q''). broken_by_value penv_ex spec_ex v)"
proof -
  have v: "validate penv_ex (held_ex [5, 12]) ''d:q'' (Some spec_ex) = Some \<lparr>c_state = False, c_cause = [''v-ui:maxValue'']\<rparr>"
    by (simp add: validate_def Let_def judge_def passed_def nonempty_def)
  with validate_spec [OF v] show ?thesis by (simp del: held_vals)
qed

definition page_ex :: "(string \<Rightarrow> imodel) \<Rightarrow> page" where
  "page_ex m = \<lparr>g_env = penv_ex, g_model = m, g_spec = (\<lambda>u p. Some spec_ex), g_script = (\<lambda>m u. [])\<rparr>"

theorem validation_tree_witness:
  "let g' = page_ex new_model; t = VNode ''d:o'' True [] True [VNode ''d:u'' True [(''d:q'', passed)] True []]
   in \<exists>t'. triggerValidation g' ''d:u'' t = Some t' \<and> n_state t' = all_good g' t'"
proof -
  let ?g = "page_ex (\<lambda>u. if u = ''d:u'' then held_ex [5] else new_model u)" and ?g' = "page_ex new_model"
  let ?t = "VNode ''d:o'' True [] True [VNode ''d:u'' True [(''d:q'', passed)] True []]"
  have "expected ?g ''d:u'' ''d:q'' = Some passed"
    by (simp add: expected_def script_answers_def page_ex_def validate_def Let_def judge_def passed_def nonempty_def)
  then have "settled ?g {} ?t"
    by (simp add: fresh_checks_def script_answers_def all_pass_def passed_def) (simp add: page_ex_def)
  moreover have "checks_total ?g'"
    by (simp add: checks_total_def page_ex_def validate_def Let_def)
  moreover have "fresh_checks ?g' u cs = fresh_checks ?g u cs" if "u \<noteq> ''d:u''" for u cs
    using that by (simp add: fresh_checks_def expected_def script_answers_def page_ex_def)
  ultimately show ?thesis using validation_tree [of ?g ?t ?g' "''d:u''"] by (auto simp: Let_def)
qed

section \<open>Calls on the tree of templates\<close>

fun called :: "step \<Rightarrow> string option" where
  "called (Called u) = Some u"
| "called _ = None"

definition calls_in :: "step list \<Rightarrow> string list" where
  "calls_in ss = List.map_filter called ss"

text \<open>The individuals of the templates, the embedded ones first; not again inside of a template of the same one.\<close>

fun tree_order :: "string option \<Rightarrow> vnode \<Rightarrow> string list" where
  "tree_order parent (VNode u e cs st kids) =
     concat (map (tree_order (Some u)) kids) @ (if parent = Some u then [] else [u])"

lemma calls_concat: "calls_in (concat xss) = concat (map calls_in xss)"
  by (induction xss) (simp_all add: calls_in_def)

lemma calls_in_order: "calls_in (callModelMethod r fails parent t) = tree_order parent t"
proof (induction t arbitrary: parent)
  case (VNode u e cs st kids)
  have "map (calls_in \<circ> callModelMethod r fails (Some u)) kids = map (tree_order (Some u)) kids"
    using VNode by simp
  then have "calls_in (concat (map (callModelMethod r fails (Some u)) kids)) = concat (map (tree_order (Some u)) kids)"
    by (simp only: calls_concat map_map)
  then show ?case by (cases parent) (auto simp: calls_in_def)
qed

lemma dangers_counted:
  "count_list (callModelMethod r fails parent t) Danger = length (filter fails (calls_in (callModelMethod r fails parent t)))"
proof (induction t arbitrary: parent)
  case (VNode u e cs st kids)
  have "count_list (concat xss) Danger = length (filter fails (calls_in (concat xss)))"
    if "\<forall>xs \<in> set xss. count_list xs Danger = length (filter fails (calls_in xs))" for xss
    using that by (induction xss) (auto simp: calls_in_def)
  from this [of "map (callModelMethod r fails (Some u)) kids"] show ?case
    using VNode by (cases parent) (auto simp: calls_in_def)
qed

lemma embedded_no_success: "Success \<notin> set (callModelMethod r fails (Some q) t)"
proof (induction t arbitrary: q)
  case (VNode u e cs st kids)
  then show ?case by auto
qed

text \<open>Saving (or deleting, recovering, removing, resetting) calls the individuals of all embedded
  templates and then the one of the template itself, each template's after those embedded in it,
  whatever calls fail: a failure stops no other call. There is one notice of a failure per call that
  fails; and success is announced exactly if the outermost call does not fail, even when an embedded
  object could not be saved.\<close>

lemma calls_go_on:
  "calls_in (callModelMethod r fails None t) = tree_order None t
   \<and> count_list (callModelMethod r fails None t) Danger = length (filter fails (tree_order None t))
   \<and> (Success \<in> set (callModelMethod r fails None t)) = (\<not> r \<and> \<not> fails (n_ind t))"
proof -
  have "(Success \<in> set (callModelMethod r fails None t)) = (\<not> r \<and> \<not> fails (n_ind t))"
    by (cases t) (auto simp: embedded_no_success)
  then show ?thesis using dangers_counted [of r fails None t] by (simp add: calls_in_order)
qed

end
