(* ===== verification/Session.thy ===== *)
theory Session
  imports Individual_Model
begin

text \<open>
  Authentication in the browser, \<^verbatim>\<open>public/js/browser/auth.js\<close> with \<open>login\<close> and \<open>logout\<close> of
  \<^verbatim>\<open>public/js/common/app_model.js\<close>: the session kept in the local storage, in the application and
  in the cookie, the timer that ends it, and the panels of the login form. The answers of the server,
  the captcha and the NTLM frame are steps of their own; the initialisation of the user is a
  component of its own.
\<close>

section \<open>The state\<close>

text \<open>
  \<open>a_ticket\<close>, \<open>a_user\<close>, \<open>a_end\<close> are the fields of the application, \<open>a_cookie\<close> is the cookie
  \<^verbatim>\<open>ticket\<close> with the time it expires (\<open>None\<close>: with the browser), \<open>a_timers\<close> the times at which
  a timer triggers \<^verbatim>\<open>login:failed\<close>, \<open>a_inits\<close> the users that \<open>veda.init\<close> was called with.
\<close>

record auth =
  a_store :: "string obj"
  a_ticket :: jdata
  a_user :: jdata
  a_end :: jdata
  a_cookie :: "(string \<times> int option) option"
  a_timers :: "int list"
  a_form :: bool
  a_inits :: "string list"

record auth_result =
  r_ticket :: jdata
  r_user :: jdata
  r_end :: jdata

definition data_text :: "jdata \<Rightarrow> string" where
  "data_text d = js_str iso_date d"

text \<open>\<open>parseInt\<close> of a time in milliseconds; \<open>None\<close> is NaN.\<close>

definition time_of :: "jdata \<Rightarrow> int option" where
  "time_of d = (case parse_int_data True d of DNum n \<Rightarrow> Some n | _ \<Rightarrow> None)"

text \<open>A cookie whose time is invalid lives as long as the browser; one of the past is deleted.\<close>

definition setTicketCookie :: "int \<Rightarrow> jdata \<Rightarrow> jdata \<Rightarrow> auth \<Rightarrow> auth" where
  "setTicketCookie clock ticket expires s =
     s\<lparr>a_cookie := (case time_of expires of
        None \<Rightarrow> Some (data_text ticket, None)
      | Some t \<Rightarrow> if clock < t then Some (data_text ticket, Some t) else None)\<rparr>"

definition delTicketCookie :: "int \<Rightarrow> auth \<Rightarrow> auth" where
  "delTicketCookie clock s = setTicketCookie clock (DStr ''null'') (DNum 0) s"

definition forget_ticket :: "auth \<Rightarrow> auth" where
  "forget_ticket s = s\<lparr>a_store := odel ''end_time'' (odel ''user_uri'' (odel ''ticket'' (a_store s)))\<rparr>"

section \<open>Events\<close>

text \<open>\<open>setTimeout\<close> takes the delay modulo \<open>2 ^ 32\<close> as a signed number; NaN and negative delays are 0.\<close>

definition timer_due :: "int \<Rightarrow> int option \<Rightarrow> int" where
  "timer_due clock d = clock + max 0 (to_int32 (case d of None \<Rightarrow> 0 | Some x \<Rightarrow> x))"

definition login_success :: "int \<Rightarrow> auth_result \<Rightarrow> auth \<Rightarrow> auth" where
  "login_success clock r s =
     (let put = (\<lambda>k d. oset k (data_text d));
          s1 = s\<lparr>a_form := False, a_user := r_user r, a_ticket := r_ticket r, a_end := r_end r,
                 a_store := put ''end_time'' (r_end r) (put ''ticket'' (r_ticket r) (put ''user_uri'' (r_user r) (a_store s)))\<rparr>;
          s2 = setTicketCookie clock (r_ticket r) (r_end r) s1;
          s3 = (if truthy (r_end r)
                then s2\<lparr>a_timers := a_timers s2 @ [timer_due clock (map_option (\<lambda>e. e - clock) (time_of (r_end r)))]\<rparr>
                else s2)
      in s3\<lparr>a_inits := a_inits s3 @ [data_text (r_user r)]\<rparr>)"

text \<open>\<open>ntlm\<close>: whether an NTLM provider is configured; its frame is then loaded.\<close>

definition login_failed :: "int \<Rightarrow> bool \<Rightarrow> auth \<Rightarrow> auth" where
  "login_failed clock ntlm s =
     (let s1 = delTicketCookie clock (forget_ticket s)
      in case oget (a_store s1) ''logout'' of
           Some (c # cs) \<Rightarrow> s1\<lparr>a_form := True, a_store := odel ''logout'' (a_store s1)\<rparr>
         | _ \<Rightarrow> if ntlm then s1 else s1\<lparr>a_form := True\<rparr>)"

definition frame_loaded :: "int \<Rightarrow> string \<Rightarrow> string \<Rightarrow> string \<Rightarrow> auth \<Rightarrow> auth" where
  "frame_loaded clock ticket user_uri end_time s =
     (if ticket \<noteq> [] \<and> user_uri \<noteq> [] \<and> end_time \<noteq> []
      then login_success clock \<lparr>r_ticket = DStr ticket, r_user = DStr user_uri, r_end = DStr end_time\<rparr> s
      else s\<lparr>a_form := True\<rparr>)"

text \<open>The page is loaded anew: storage and cookie stay.\<close>

definition reload :: "auth \<Rightarrow> auth" where
  "reload s = s\<lparr>a_ticket := DUndef, a_user := DUndef, a_end := DUndef, a_timers := [], a_form := False, a_inits := [''cfg:Guest'']\<rparr>"

definition logout :: "int \<Rightarrow> auth \<Rightarrow> auth" where
  "logout clock s =
     (let s1 = delTicketCookie clock (forget_ticket s)
      in reload (s1\<lparr>a_store := oset ''logout'' ''true'' (a_store s1)\<rparr>))"

text \<open>
  The start of the application. \<open>valid\<close> is the answer to \<open>is_ticket_valid\<close>, \<open>open_access\<close>
  says that \<^verbatim>\<open>cfg:AuthRequired\<close> is false.
\<close>

definition stored_text :: "string \<Rightarrow> auth \<Rightarrow> string" where
  "stored_text k s = (case oget (a_store s) k of None \<Rightarrow> [] | Some t \<Rightarrow> t)"

definition asks_server :: "int \<Rightarrow> auth \<Rightarrow> bool" where
  "asks_server clock s \<longleftrightarrow> stored_text ''ticket'' s \<noteq> [] \<and> stored_text ''user_uri'' s \<noteq> [] \<and> stored_text ''end_time'' s \<noteq> []
     \<and> (case time_of (DStr (stored_text ''end_time'' s)) of None \<Rightarrow> False | Some e \<Rightarrow> clock < e)"

definition stored_result :: "auth \<Rightarrow> auth_result" where
  "stored_result s =
     (let f = (\<lambda>k. case oget (a_store s) k of None \<Rightarrow> DUndef | Some t \<Rightarrow> DStr t)
      in \<lparr>r_ticket = f ''ticket'', r_user = f ''user_uri'', r_end = f ''end_time''\<rparr>)"

definition started :: "int \<Rightarrow> bool \<Rightarrow> bool \<Rightarrow> bool \<Rightarrow> auth \<Rightarrow> auth" where
  "started clock valid open_access ntlm s =
     (if asks_server clock s \<and> valid then login_success clock (stored_result s) s
      else if open_access then login_success clock \<lparr>r_ticket = DStr [], r_user = DStr ''cfg:Guest'', r_end = DNum 0\<rparr> s
      else login_failed clock ntlm s)"

text \<open>
  \<open>veda.login\<close>: the end time comes in units of 100 ns since the year 1 (the rounding of such a
  number to a double is left out).
\<close>

definition login_answered :: "int \<Rightarrow> string \<Rightarrow> string \<Rightarrow> int \<Rightarrow> auth \<Rightarrow> auth" where
  "login_answered clock ticket user_uri ticks s =
     (let r = \<lparr>r_ticket = DStr ticket, r_user = DStr user_uri, r_end = DNum ((ticks - 621355968000000000) div 10000)\<rparr>
      in login_success clock r (s\<lparr>a_ticket := r_ticket r, a_user := r_user r, a_end := r_end r\<rparr>))"

text \<open>A call of the server that fails: 470 and 471 say that the ticket is not valid (any more).\<close>

definition call_failed :: "int \<Rightarrow> int \<Rightarrow> bool \<Rightarrow> auth \<Rightarrow> auth" where
  "call_failed clock code ntlm s = (if code = 470 \<or> code = 471 then login_failed clock ntlm s else s)"

text \<open>Time passes: the timers that are due fire, and a cookie expires.\<close>

definition tick :: "int \<Rightarrow> bool \<Rightarrow> auth \<Rightarrow> auth" where
  "tick clock ntlm s =
     (let s1 = s\<lparr>a_timers := filter (\<lambda>d. clock < d) (a_timers s),
                 a_cookie := (case a_cookie s of Some (v, Some t) \<Rightarrow> if clock < t then a_cookie s else None | c \<Rightarrow> c)\<rparr>
      in foldl (\<lambda>s d. login_failed clock ntlm s) s1 (filter (\<lambda>d. d \<le> clock) (a_timers s)))"

section \<open>The panels of the login form\<close>

definition reveal :: "string \<Rightarrow> string list \<Rightarrow> string list" where
  "reveal p ps = (if p \<in> set ps then ps else ps @ [p])"

definition conceal :: "string \<Rightarrow> string list \<Rightarrow> string list" where
  "conceal p ps = filter (\<lambda>q. q \<noteq> p) ps"

definition forms :: "string list" where
  "forms = [''enter-login-password'', ''enter-new-password'']"

definition messages :: "string list" where
  "messages = [''invalid-secret-warning'', ''empty-password-warning'', ''equal-password-warning'',
     ''invalid-password-warning'', ''frequent-pass-change-warning'', ''pass-change-not-allowed-warning'',
     ''secret-expired-warning'', ''password-expired-error'', ''login-failed-error'', ''auth-locked-error'',
     ''pass-change-locked-error'', ''unavailable-error'']"

definition conceal_all :: "string list \<Rightarrow> string list" where
  "conceal_all ps = foldl (\<lambda>ps p. conceal p ps) ps (forms @ messages @ [''secret-request-info'', ''ok''])"

definition message_of :: "int \<Rightarrow> string" where
  "message_of code =
     (if code = 423 then ''frequent-pass-change-warning'' else if code = 429 then ''auth-locked-error''
      else if code = 430 then ''pass-change-locked-error'' else if code = 463 then ''pass-change-not-allowed-warning''
      else if code = 464 then ''secret-expired-warning'' else if code = 465 then ''empty-password-warning''
      else if code = 466 then ''equal-password-warning'' else if code = 467 then ''invalid-password-warning''
      else if code = 468 then ''invalid-secret-warning'' else ''unavailable-error'')"

text \<open>The panels shown, and what the button OK does: the message it hides and the panels it shows.\<close>

definition handleLoginError ::
  "bool \<Rightarrow> int \<Rightarrow> string list \<Rightarrow> string list \<times> (string \<times> string list) option" where
  "handleLoginError changePasswordPressed code ps0 =
     (let ps = conceal_all ps0; new = [''enter-new-password'', ''secret-request-info'']
      in if code = 469
         then (if \<not> changePasswordPressed
               then (reveal ''ok'' (reveal ''password-expired-error'' ps), Some (''password-expired-error'', new))
               else (foldl (\<lambda>ps p. reveal p ps) ps new, None))
         else if code = 473 then (reveal ''login-failed-error'' ps, None)
         else (reveal ''ok'' (reveal (message_of code) ps), Some (message_of code, [''enter-login-password''])))"

definition okClicked :: "(string \<times> string list) option \<Rightarrow> string list \<Rightarrow> string list" where
  "okClicked handler ps =
     (case handler of
        None \<Rightarrow> conceal ''ok'' ps
      | Some (m, fs) \<Rightarrow> conceal ''ok'' (foldl (\<lambda>ps p. reveal p ps) (conceal m ps) fs))"

text \<open>The captcha of the code 473: \<open>.alert, fieldset\<close> are all panels but the button.\<close>

definition captcha_panels :: "string \<Rightarrow> string list \<Rightarrow> string list" where
  "captcha_panels p ps = reveal p (foldl (\<lambda>ps p. conceal p ps) ps (forms @ messages @ [''secret-request-info'']))"

definition captcha_success :: "string list \<Rightarrow> string list" where
  "captcha_success ps = captcha_panels ''enter-login-password'' ps"

definition captcha_expired :: "string list \<Rightarrow> string list" where
  "captcha_expired ps = captcha_panels ''login-failed-error'' ps"

definition handleLoginSuccess :: "string list \<Rightarrow> string list" where
  "handleLoginSuccess ps = reveal ''enter-login-password'' (conceal_all ps)"

section \<open>A new password\<close>

text \<open>
  \<^verbatim>\<open>^(?=.*[a-z])(?=.*[A-Z])(?=.*[0-9])(?=.{6,})\<close>, on one line.
\<close>

definition password_strong :: "string \<Rightarrow> bool" where
  "password_strong s \<longleftrightarrow> list_ex is_lower s \<and> list_ex is_upper s \<and> list_ex is_digit s
     \<and> 6 \<le> utf16_length s"

text \<open>The hints that are shown, and whether the button is enabled.\<close>

definition validateNewPassword :: "string \<Rightarrow> string \<Rightarrow> string \<Rightarrow> string list \<times> bool" where
  "validateNewPassword newPassword confirm secret =
     (let reMatch = password_strong newPassword; passwordsMatch = (confirm = newPassword); isSecret = (secret \<noteq> [])
      in ((if reMatch then [] else [''password-strength'']) @ (if passwordsMatch then [] else [''password-must-match''])
          @ (if isSecret then [] else [''enter-secret'']),
          reMatch \<and> passwordsMatch \<and> isSecret))"

end
