(* ===== verification/Session_Props.thy ===== *)
theory Session_Props
  imports Session
begin

text \<open>
  The session in the browser: storage, cookie and application agree at every moment, how long a
  session lasts, and that every error of a login leaves the user one way on.
\<close>

section \<open>The session\<close>

lemma time_of_shown: "time_of (DStr (show_int n)) = Some n"
  by (simp add: time_of_def int_or_nan_def parse_show_int)

text \<open>
  Storage and cookie: the three keys are there together; the cookie is the stored ticket while its
  time has not come, and there is none without a stored ticket. The application has the stored
  ticket once it has started.
\<close>

definition session_ok :: "int \<Rightarrow> auth \<Rightarrow> bool" where
  "session_ok clock s \<longleftrightarrow>
     (case (oget (a_store s) ''ticket'', oget (a_store s) ''user_uri'', oget (a_store s) ''end_time'') of
        (None, None, None) \<Rightarrow> a_cookie s = None
      | (Some t, Some u, Some e) \<Rightarrow>
          a_cookie s = (case time_of (DStr e) of
             None \<Rightarrow> Some (t, None) | Some x \<Rightarrow> if clock < x then Some (t, Some x) else None)
          \<and> (a_ticket s = DUndef \<or> data_text (a_ticket s) = t)
      | _ \<Rightarrow> False)"

text \<open>What happens in a browser, with the clock.\<close>

inductive happens :: "int \<times> auth \<Rightarrow> int \<times> auth \<Rightarrow> bool" where
  time_passes: "t \<le> t' \<Longrightarrow> happens (t, s) (t', tick t' ntlm s)"
| starts: "happens (t, s) (t, started t valid oa ntlm s)"
| answered: "happens (t, s) (t, login_answered t ticket u ticks s)"
| frame: "happens (t, s) (t, frame_loaded t ticket u e s)"
| failed_call: "happens (t, s) (t, call_failed t code ntlm s)"
| logs_out: "happens (t, s) (t, logout t s)"
| reloads: "happens (t, s) (t, reload s)"

definition first_visit :: auth where
  "first_visit = reload \<lparr>a_store = [], a_ticket = DUndef, a_user = DUndef, a_end = DUndef, a_cookie = None,
     a_timers = [], a_form = False, a_inits = []\<rparr>"

text \<open>A result whose end time reads the same from the storage\<close>

definition plain_end :: "jdata \<Rightarrow> bool" where
  "plain_end d \<longleftrightarrow> (\<exists>n. d = DNum n) \<or> (\<exists>s. d = DStr s)"

lemma success_ok: "plain_end (r_end r) \<Longrightarrow> session_ok clock (login_success clock r s)"
proof -
  assume "plain_end (r_end r)"
  then have "time_of (DStr (data_text (r_end r))) = time_of (r_end r)"
    by (auto simp: plain_end_def data_text_def time_of_shown) (simp add: time_of_def)
  then show ?thesis
    by (auto simp: session_ok_def login_success_def setTicketCookie_def Let_def split: option.splits)
qed

lemma no_ticket_ok:
  "oget (a_store s) ''ticket'' = None \<Longrightarrow> oget (a_store s) ''user_uri'' = None \<Longrightarrow> oget (a_store s) ''end_time'' = None \<Longrightarrow>
   a_cookie s = None \<Longrightarrow> session_ok clock s"
  by (simp add: session_ok_def)

lemma forgotten:
  "k \<in> {''ticket'', ''user_uri'', ''end_time''} \<Longrightarrow> oget (a_store (delTicketCookie clock (forget_ticket s))) k = None"
  "0 \<le> clock \<Longrightarrow> a_cookie (delTicketCookie clock (forget_ticket s)) = None"
  by (auto simp: delTicketCookie_def setTicketCookie_def forget_ticket_def time_of_def split: option.splits)

lemma login_failed_fields:
  "a_store (login_failed clock ntlm s)
     = (let st = a_store (delTicketCookie clock (forget_ticket s))
        in case oget st ''logout'' of Some (c # cs) \<Rightarrow> odel ''logout'' st | _ \<Rightarrow> st)"
  "a_cookie (login_failed clock ntlm s) = a_cookie (delTicketCookie clock (forget_ticket s))"
  by (simp_all add: login_failed_def Let_def split: option.splits list.splits)

lemma failed_ok: "0 \<le> clock \<Longrightarrow> session_ok clock' (login_failed clock ntlm s)"
  by (rule no_ticket_ok) (simp_all add: login_failed_fields forgotten Let_def split: option.splits list.splits)

lemma logout_ok: "0 \<le> clock \<Longrightarrow> session_ok clock' (logout clock s)"
  by (rule no_ticket_ok) (simp_all add: logout_def reload_def forgotten Let_def)

lemma tick_ok:
  assumes "session_ok t s" and "t \<le> t'" and "0 \<le> t"
  shows "session_ok t' (tick t' ntlm s)"
proof -
  define s1 where "s1 = s\<lparr>a_timers := filter (\<lambda>d. t' < d) (a_timers s),
                 a_cookie := (case a_cookie s of Some (v, Some x) \<Rightarrow> if t' < x then a_cookie s else None | c \<Rightarrow> c)\<rparr>"
  have 1: "session_ok t' s1"
    using assms(1,2) by (auto simp: session_ok_def s1_def split: option.splits if_splits)
  have "session_ok t' (foldl (\<lambda>s d. login_failed t' ntlm s) s1 ds)" for ds :: "int list"
    using 1 failed_ok [of t' t' ntlm] assms by (cases ds rule: rev_cases) auto
  then show ?thesis by (simp add: tick_def s1_def Let_def)
qed



section \<open>How long a session lasts\<close>

definition has_session :: "auth \<Rightarrow> bool" where
  "has_session s \<longleftrightarrow> oget (a_store s) ''ticket'' \<noteq> None"

lemma due_in_range:
  "0 < e - t0 \<Longrightarrow> e - t0 < 2 ^ 31 \<Longrightarrow> timer_due t0 (Some (e - t0)) = e"
  "2 ^ 31 \<le> e - t0 \<Longrightarrow> e - t0 < 2 ^ 32 \<Longrightarrow> timer_due t0 (Some (e - t0)) = t0"
proof -
  assume a: "0 < e - t0" "e - t0 < 2 ^ 31"
  then have "(e - t0 + 2 ^ 31) mod 2 ^ 32 = e - t0 + 2 ^ 31" by (intro mod_pos_pos_trivial) simp_all
  then show "timer_due t0 (Some (e - t0)) = e" using a by (simp add: timer_due_def to_int32_def)
next
  assume a: "2 ^ 31 \<le> e - t0" "e - t0 < 2 ^ 32"
  have "(e - t0 + 2 ^ 31) mod 2 ^ 32 = (e - t0 + 2 ^ 31 - 2 ^ 32) mod 2 ^ 32"
    by (rule minus_mod_self2 [symmetric])
  also have "\<dots> = e - t0 + 2 ^ 31 - 2 ^ 32" using a by (intro mod_pos_pos_trivial) simp_all
  finally show "timer_due t0 (Some (e - t0)) = t0" using a by (simp add: timer_due_def to_int32_def)
qed

lemma tick_session: "has_session (tick t ntlm s) \<longleftrightarrow> has_session s \<and> (\<forall>d \<in> set (a_timers s). t < d)"
proof -
  define s1 where "s1 = s\<lparr>a_timers := filter (\<lambda>d. t < d) (a_timers s),
                 a_cookie := (case a_cookie s of Some (v, Some x) \<Rightarrow> if t < x then a_cookie s else None | c \<Rightarrow> c)\<rparr>"
  have no: "\<not> has_session (login_failed t ntlm x)" for x
    by (simp add: has_session_def login_failed_fields forgotten Let_def split: option.splits list.splits)
  have "has_session (foldl (\<lambda>s d. login_failed t ntlm s) s1 ds) \<longleftrightarrow> ds = [] \<and> has_session s" for ds :: "int list"
    using no by (cases ds rule: rev_cases) (auto simp: s1_def has_session_def)
  then show ?thesis by (auto simp: tick_def s1_def Let_def filter_empty_conv not_le)
qed



section \<open>Errors of a login\<close>

lemma set_reveal [simp]: "set (reveal p ps) = insert p (set ps)"
  by (auto simp: reveal_def)

lemma set_conceal [simp]: "set (conceal p ps) = set ps - {p}"
  by (auto simp: conceal_def)

lemma set_conceal_fold: "set (foldl (\<lambda>ps p. conceal p ps) ps xs) = set ps - set xs"
  by (induction xs arbitrary: ps) auto

lemma set_reveal_fold: "set (foldl (\<lambda>ps p. reveal p ps) ps xs) = set ps \<union> set xs"
  by (induction xs arbitrary: ps) auto

definition steered :: "string set" where
  "steered = set (forms @ messages @ [''secret-request-info'', ''ok''])"

lemma set_conceal_all: "set (conceal_all ps) = set ps - steered"
  by (simp only: conceal_all_def set_conceal_fold steered_def)

lemma message_steered: "message_of code \<in> steered" and message_no_form: "message_of code \<notin> {''enter-login-password'', ''ok''}"
  by (simp_all add: message_of_def steered_def messages_def)

text \<open>Whatever code a login is rejected with, the form then shows exactly one message or form (and
  the hint about the secret with a form for the new password), and the user has a way on: the button OK, which hides the
  message and shows one form, the one for a new password if the password has expired (469), otherwise the
  one for the login; after 473 the captcha instead; and at once the form for the new password if a change of the password was
  asked for. Nothing else of the form is touched.\<close>

lemma login_errors:
  "(let (ps, h) = handleLoginError pressed code ps0
    in set ps - steered = set ps0 - steered
     \<and> (case h of
          Some (m, fs) \<Rightarrow>
            set ps \<inter> steered = {m, ''ok''} \<and> m \<in> set messages
            \<and> set (okClicked h ps) \<inter> steered
                = (if code = 469 then {''enter-new-password'', ''secret-request-info''} else {''enter-login-password''})
        | None \<Rightarrow>
            code = 469 \<and> pressed \<and> set ps \<inter> steered = {''enter-new-password'', ''secret-request-info''}
            \<or> code = 473 \<and> set ps \<inter> steered = {''login-failed-error''}
              \<and> set (captcha_success ps) \<inter> steered = {''enter-login-password''}
              \<and> set (captcha_expired ps) \<inter> steered = {''login-failed-error''}))"
proof -
  have st: "''enter-login-password'' \<in> steered" "''enter-new-password'' \<in> steered" "''secret-request-info'' \<in> steered"
      "''ok'' \<in> steered" "''password-expired-error'' \<in> steered" "''login-failed-error'' \<in> steered"
    by (simp_all add: steered_def forms_def messages_def)
  show ?thesis
  proof (cases "code = 469")
    case True
    then show ?thesis
      using st by (auto simp: handleLoginError_def okClicked_def Let_def set_conceal_all set_reveal_fold messages_def)
  next
    case False
    show ?thesis
    proof (cases "code = 473")
      case True
      have "steered - set (forms @ messages @ [''secret-request-info'']) = {''ok''}"
      proof -
        have "steered = insert ''ok'' (set (forms @ messages @ [''secret-request-info'']))" unfolding steered_def by (simp only: append_assoc set_append list.set) blast
        moreover have "''ok'' \<notin> set (forms @ messages @ [''secret-request-info''])" by (simp add: forms_def messages_def)
        ultimately show ?thesis by blast
      qed
      then have c: "set (captcha_panels p ps) \<inter> steered = insert p (set ps \<inter> {''ok''})" if "p \<in> steered" for p ps
      proof -
        have "set (captcha_panels p ps) \<inter> steered = insert p (set ps \<inter> (steered - set (forms @ messages @ [''secret-request-info''])))"
          unfolding captcha_panels_def set_reveal set_conceal_fold using that by blast
        then show ?thesis by (simp only: \<open>steered - set (forms @ messages @ [''secret-request-info'']) = {''ok''}\<close>)
      qed
      show ?thesis
        using st True by (auto simp: handleLoginError_def captcha_success_def captcha_expired_def c Let_def set_conceal_all)
    next
      case False
      have "message_of code \<in> set messages" by (simp add: message_of_def messages_def)
      then show ?thesis
        using st \<open>code \<noteq> 469\<close> False message_steered [of code] message_no_form [of code]
        by (auto simp: handleLoginError_def okClicked_def Let_def set_conceal_all)
    qed
  qed
qed

end
