(* ===== verification/Batch.thy ===== *)
theory Batch
  imports Main
begin

text \<open>
  Queries whose results are processed in portions: \<open>processQuery\<close> and \<open>processResult\<close> of
  \<^verbatim>\<open>public/js/common/util.js\<close>. The server is an argument: what it answers to a cursor. A loop that
  does not end has no result. Then what is processed when the server pages through a list.
\<close>

section \<open>Fetching\<close>

text \<open>A page: its results, the cursor behind it, and the estimated number of all results.\<close>

record 'a page_of =
  pg_result :: "'a list"
  pg_cursor :: int
  pg_estimated :: int

text \<open>\<open>xs.splice (start)\<close>: what remains.\<close>

definition splice_from :: "int \<Rightarrow> 'a list \<Rightarrow> 'a list" where
  "splice_from start xs = take (nat (if start < 0 then int (length xs) + start else start)) xs"

text \<open>\<open>result.splice (limit - cursor || limit)\<close>; without a limit the position is \<open>undefined\<close>, that is 0.\<close>

definition cut_to_limit :: "int option \<Rightarrow> int \<Rightarrow> 'a list \<Rightarrow> 'a list" where
  "cut_to_limit limit cursor result =
     splice_from (case limit of None \<Rightarrow> 0 | Some l \<Rightarrow> if l - cursor \<noteq> 0 then l - cursor else l) result"

definition lower_limit :: "int option \<Rightarrow> int \<Rightarrow> int option" where
  "lower_limit limit estimated = map_option (\<lambda>l. if l > estimated then estimated else l) limit"

definition fetched_all :: "int option \<Rightarrow> 'a page_of \<Rightarrow> bool" where
  "fetched_all limit pg \<longleftrightarrow> pg_cursor pg = pg_estimated pg \<or> (case limit of None \<Rightarrow> False | Some l \<Rightarrow> pg_cursor pg \<ge> l)"

partial_function (option) fetchResult :: "(int \<Rightarrow> 'a page_of) \<Rightarrow> int option \<Rightarrow> 'a list \<Rightarrow> int \<Rightarrow> 'a list option" where
  "fetchResult server limit0 result from =
     (let pg = server from; limit = lower_limit limit0 (pg_estimated pg)
      in if fetched_all limit pg then Some (cut_to_limit limit (pg_cursor pg) (result @ pg_result pg))
         else fetchResult server limit (result @ pg_result pg) (pg_cursor pg))"

section \<open>Processing\<close>

text \<open>
  The portions, one after another; within a portion every item is handed to the function in turn,
  and a failure is logged. The second component of an entry says that the item failed.
\<close>

definition portion_log :: "('a \<Rightarrow> bool) \<Rightarrow> 'a list \<Rightarrow> ('a \<times> bool) list" where
  "portion_log fails p = map (\<lambda>x. (x, fails x)) p"

partial_function (option) processPortion :: "('a \<Rightarrow> bool) \<Rightarrow> nat \<Rightarrow> 'a list \<Rightarrow> ('a \<times> bool) list list option" where
  "processPortion fails delta result =
     (let p = portion_log fails (take delta result); rest = drop delta result
      in if rest = [] then Some [p] else Option.bind (processPortion fails delta rest) (\<lambda>ps. Some (p # ps)))"

definition processResult :: "('a \<Rightarrow> bool) \<Rightarrow> nat \<Rightarrow> 'a list \<Rightarrow> ('a \<times> bool) list list option" where
  "processResult fails delta result = processPortion fails delta result"

definition processQuery ::
  "(int \<Rightarrow> 'a page_of) \<Rightarrow> int option \<Rightarrow> nat \<Rightarrow> ('a \<Rightarrow> bool) \<Rightarrow> ('a \<times> bool) list list option" where
  "processQuery server limit processDelta fails =
     Option.bind (fetchResult server limit [] 0) (processResult fails processDelta)"

section \<open>What is processed\<close>

text \<open>A server that pages through \<open>xs\<close>: from every position it gives some of the next results.\<close>

definition pages :: "(int \<Rightarrow> 'a page_of) \<Rightarrow> 'a list \<Rightarrow> bool" where
  "pages server xs \<longleftrightarrow>
     (xs = [] \<longrightarrow> server 0 = \<lparr>pg_result = [], pg_cursor = 0, pg_estimated = 0\<rparr>)
     \<and> (\<forall>n < length xs. \<exists>k. 0 < k \<and> n + k \<le> length xs
          \<and> server (int n) = \<lparr>pg_result = take k (drop n xs), pg_cursor = int (n + k), pg_estimated = int (length xs)\<rparr>)"

lemma fetch_pages:
  assumes "pages server xs" and "n < length xs" and "0 \<le> l" and "n \<noteq> 0 \<longrightarrow> int n < l"
  shows "fetchResult server (Some l) (take n xs) (int n) = Some (take (nat l) xs)"
  using assms(2-4)
proof (induction "length xs - n" arbitrary: n l rule: less_induct)
  case less
  obtain k where k: "0 < k" "n + k \<le> length xs"
      "server (int n) = \<lparr>pg_result = take k (drop n xs), pg_cursor = int (n + k), pg_estimated = int (length xs)\<rparr>"
    using assms(1) less(2) unfolding pages_def by blast
  have app: "take n xs @ take k (drop n xs) = take (n + k) xs" by (simp add: take_add)
  define l' where "l' = min l (int (length xs))"
  have low: "lower_limit (Some l) (int (length xs)) = Some l'" by (auto simp: lower_limit_def l'_def)
  have cut: "take (nat l') xs = take (nat l) xs" by (auto simp: l'_def min_def)
  show ?case
  proof (cases "int (n + k) = int (length xs) \<or> int (n + k) \<ge> l'")
    case True
    have "l' \<le> int (n + k)" using True k(2) by (auto simp: l'_def)
    then have "cut_to_limit (Some l') (int (n + k)) (take (n + k) xs) = take (nat l') xs"
      using less(3) k by (auto simp: cut_to_limit_def splice_from_def l'_def min_absorb1 min_absorb2 nat_add_distrib)
    then show ?thesis
      using True cut by (subst fetchResult.simps) (simp add: k(3) low fetched_all_def app)
  next
    case False
    have "fetchResult server (Some l') (take (n + k) xs) (int (n + k)) = Some (take (nat l') xs)"
      by (rule less(1)) (use False k less(2,3) in \<open>auto simp: l'_def\<close>)
    then show ?thesis
      using False cut by (subst fetchResult.simps) (simp add: k(3) low fetched_all_def app)
  qed
qed

lemma fetch_no_limit:
  assumes "pages server xs" and "n < length xs"
  shows "fetchResult server None result (int n) = Some []"
  using assms(2)
proof (induction "length xs - n" arbitrary: n result rule: less_induct)
  case less
  obtain k where k: "0 < k" "n + k \<le> length xs"
      "server (int n) = \<lparr>pg_result = take k (drop n xs), pg_cursor = int (n + k), pg_estimated = int (length xs)\<rparr>"
    using assms(1) less(2) unfolding pages_def by blast
  have l: "lower_limit None e = None" for e by (simp add: lower_limit_def)
  show ?case
  proof (cases "n + k = length xs")
    case True
    then show ?thesis by (subst fetchResult.simps) (simp add: k(3) l fetched_all_def cut_to_limit_def splice_from_def)
  next
    case False
    have "fetchResult server None (result @ take k (drop n xs)) (int (n + k)) = Some []"
      by (rule less(1)) (use False k less(2) in auto)
    then show ?thesis using False by (subst fetchResult.simps) (simp add: k(3) l fetched_all_def)
  qed
qed

lemma portions:
  assumes "0 < delta"
  shows "\<exists>ps. processPortion fails delta xs = Some ps \<and> concat ps = portion_log fails xs
    \<and> (\<forall>p \<in> set (butlast ps). length p = delta) \<and> (\<forall>p \<in> set ps. length p \<le> delta)"
proof (induction "length xs" arbitrary: xs rule: less_induct)
  case less
  show ?case
  proof (cases "drop delta xs = []")
    case True
    then show ?thesis by (subst processPortion.simps) (simp add: portion_log_def)
  next
    case False
    then have "length (drop delta xs) < length xs" using assms by auto
    then obtain ps where ps: "processPortion fails delta (drop delta xs) = Some ps"
        "concat ps = portion_log fails (drop delta xs)"
        "\<forall>p \<in> set (butlast ps). length p = delta" "\<forall>p \<in> set ps. length p \<le> delta"
      using less by blast
    have "portion_log fails (take delta xs) @ portion_log fails (drop delta xs) = portion_log fails xs"
      by (simp add: portion_log_def map_append [symmetric] del: map_append)
    moreover have "length (portion_log fails (take delta xs)) = delta" using False by (simp add: portion_log_def)
    ultimately show ?thesis
      using False ps by (subst processPortion.simps) (auto simp: Let_def)
  qed
qed


definition pages_ex :: "int \<Rightarrow> string page_of" where
  "pages_ex from =
     (let k = (if from = 3 then 1 else 2)
      in \<lparr>pg_result = take k (drop (nat from) [''a'', ''b'', ''c'', ''d'']), pg_cursor = from + int k, pg_estimated = 4\<rparr>)"


end
