(* ===== verification/Router.thy ===== *)
theory Router
  imports Individual_Model
begin

text \<open>
  The shell of the browser application, \<^verbatim>\<open>public/js/browser/app_presenter.js\<close>: the route of a hash,
  the values in it, and the notifications of the client; with the texts of numbers of
  \<^verbatim>\<open>public/js/common/util.js\<close> that such values are written in. What is shown is jQuery.
\<close>

section \<open>Numbers as they are shown\<close>

text \<open>
  \<^verbatim>\<open>(n+"").replace (/.(?=(?:[0-9]{3})+\b)/g, '$& ')\<close>: a space goes behind every character that is
  followed by groups of three digits up to the end of a word.
\<close>

definition word_end :: "string \<Rightarrow> bool" where
  "word_end r \<longleftrightarrow> r = [] \<or> \<not> (is_lower (hd r) \<or> is_upper (hd r) \<or> is_digit (hd r) \<or> hd r = CHR ''_'')"

definition groups_follow :: "string \<Rightarrow> bool" where
  "groups_follow r \<longleftrightarrow>
     (let d = takeWhile is_digit r in d \<noteq> [] \<and> length d mod 3 = 0 \<and> word_end (dropWhile is_digit r))"

fun group_digits :: "string \<Rightarrow> string" where
  "group_digits [] = []"
| "group_digits (c # r) = (if groups_follow r then c # CHR '' '' # group_digits r else c # group_digits r)"

text \<open>The text of a number has an exponent from \<open>10 ^ 21\<close> on, which is left out.\<close>

definition formatNumber :: "jdata \<Rightarrow> string" where
  "formatNumber n = group_digits (js_str iso_date n)"

text \<open>
  \<open>formatValue\<close>: a text of another language than the ones the user reads is \<open>undefined\<close> (\<open>None\<close>).
  The texts of Dates and individuals are arguments.
\<close>

definition formatString :: "string list \<Rightarrow> string \<Rightarrow> string option \<Rightarrow> string option" where
  "formatString languages s l =
     (case l of
        None \<Rightarrow> Some s
      | Some x \<Rightarrow> if x = [] \<or> x = ''NONE'' \<or> x \<in> set languages then Some s else None)"

definition formatValue ::
  "string list \<Rightarrow> (int \<Rightarrow> string) \<Rightarrow> (string \<Rightarrow> string) \<Rightarrow> mval \<Rightarrow> string option" where
  "formatValue languages show_date label v =
     (case v of
        MDate t \<Rightarrow> Some (show_date t)
      | MNum n \<Rightarrow> Some (formatNumber (DNum n))
      | MDec m e \<Rightarrow> Some (formatNumber (DDec m e))
      | MNaN \<Rightarrow> Some (formatNumber DNaN)
      | MText s \<Rightarrow> formatString languages s None
      | MTextObj s l \<Rightarrow> formatString languages s l
      | MRef u \<Rightarrow> Some (label u)
      | MBool b \<Rightarrow> Some (if b then ''true'' else ''false'')
      | _ \<Rightarrow> None)"

text \<open>
  \<open>formatDate\<close> on the parts of a time: the local ones (day, month, year, hours, minutes, seconds) and
  whether the time is midnight UTC.
\<close>

definition zeroPref :: "int \<Rightarrow> string" where
  "zeroPref n = (if n > 9 then show_int n else ''0'' @ show_int n)"

record date_parts =
  dp_day :: int
  dp_month :: int
  dp_year :: int
  dp_hours :: int
  dp_mins :: int
  dp_secs :: int
  dp_utc_midnight :: bool

definition formatDate :: "date_parts \<Rightarrow> string" where
  "formatDate d =
     (let fdate = join ''.'' [zeroPref (dp_day d), zeroPref (dp_month d), show_int (dp_year d)];
          ftime = join '':'' [zeroPref (dp_hours d), zeroPref (dp_mins d), zeroPref (dp_secs d)]
      in if dp_utc_midnight d then fdate
         else (if fdate = ''01.01.1970'' then [] else fdate)
              @ (if ftime = ''00:00:00'' then [] else '' '' @ (if dp_secs d = 0 then take 5 ftime else ftime)))"

section \<open>Values in a hash\<close>

text \<open>
  \<open>parse\<close>: \<open>date_parse\<close> is \<open>Date.parse\<close> (\<open>None\<close>: NaN), \<open>known\<close> says that an individual is
  loaded and stored. The empty text converts to 0, and so is no NaN, but \<open>parseFloat\<close> of it is.
\<close>

definition plain_numeral :: "string \<Rightarrow> string" where
  "plain_numeral s = map (\<lambda>c. if c = CHR '','' then CHR ''.'' else c) (filter (\<lambda>c. c \<noteq> CHR '' '') s)"

definition mval_of_number :: "int \<times> nat \<Rightarrow> mval" where
  "mval_of_number x = (if snd x = 0 then MNum (fst x) else MDec (fst x) (snd x))"

definition parse_value :: "(string \<Rightarrow> int option) \<Rightarrow> (string \<Rightarrow> bool) \<Rightarrow> string \<Rightarrow> mval" where
  "parse_value date_parse known s =
     (case parse_number (plain_numeral s) of
        Some x \<Rightarrow> if strip (plain_numeral s) = [] then MNaN else mval_of_number x
      | None \<Rightarrow>
          (case date_parse s of
             Some t \<Rightarrow> MDate t
           | None \<Rightarrow>
               if s = ''true'' then MBool True
               else if s = ''false'' then MBool False
               else if known s then MRef s
               else if s = [] then MNull else MText s))"

section \<open>Routes\<close>

text \<open>
  \<open>decodeURI\<close>: an escaped byte stays escaped if it is one of the reserved characters; bytes above 127
  must form a character of UTF-8, otherwise there is a URIError (\<open>None\<close>).
\<close>

definition hex_byte :: "string \<Rightarrow> nat option" where
  "hex_byte s =
     (case s of
        a # b # r \<Rightarrow> (case (hex_digit a, hex_digit b) of (Some x, Some y) \<Rightarrow> Some (16 * x + y) | _ \<Rightarrow> None)
      | _ \<Rightarrow> None)"

definition escaped :: "string \<Rightarrow> nat option" where
  "escaped s = (case s of c # r \<Rightarrow> if c = CHR ''%'' then hex_byte r else None | [] \<Rightarrow> None)"

text \<open>How many bytes follow a first byte, and the range of the second\<close>

definition utf8_follow :: "nat \<Rightarrow> (nat \<times> nat \<times> nat) option" where
  "utf8_follow b =
     (if 194 \<le> b \<and> b \<le> 223 then Some (1, 128, 191)
      else if b = 224 then Some (2, 160, 191)
      else if b = 237 then Some (2, 128, 159)
      else if 225 \<le> b \<and> b \<le> 239 then Some (2, 128, 191)
      else if b = 240 then Some (3, 144, 191)
      else if 241 \<le> b \<and> b \<le> 243 then Some (3, 128, 191)
      else if b = 244 then Some (3, 128, 143)
      else None)"

fun more_bytes :: "nat \<Rightarrow> string \<Rightarrow> string option" where
  "more_bytes 0 s = Some []"
| "more_bytes (Suc n) s =
     (case escaped s of
        None \<Rightarrow> None
      | Some b \<Rightarrow> if 128 \<le> b \<and> b \<le> 191 then map_option ((#) (char_of b)) (more_bytes n (drop 3 s)) else None)"

definition reserved :: "string" where
  "reserved = '';/?:@&=+$,#''"

function decodeURI :: "string \<Rightarrow> string option" where
  "decodeURI [] = Some []"
| "decodeURI (c # s) =
     (if c \<noteq> CHR ''%'' then map_option ((#) c) (decodeURI s)
      else (case hex_byte s of
              None \<Rightarrow> None
            | Some b \<Rightarrow>
                if b < 128
                then (let d = char_of b
                      in map_option (\<lambda>r. (if d \<in> set reserved then c # take 2 s else [d]) @ r) (decodeURI (drop 2 s)))
                else (case (utf8_follow b, escaped (drop 2 s)) of
                        (Some (n, lo, hi), Some b2) \<Rightarrow>
                          if lo \<le> b2 \<and> b2 \<le> hi
                          then (case more_bytes n (drop 2 s) of
                                  None \<Rightarrow> None
                                | Some bs \<Rightarrow> map_option (\<lambda>r. char_of b # bs @ r) (decodeURI (drop (3 * n + 2) s)))
                          else None
                      | _ \<Rightarrow> None)))"
  by pat_completeness auto
termination
  by (relation "measure length") auto

datatype route =
    Main
  | Shown (rt_uri: string) (rt_container: string) (rt_template: "string option") (rt_mode: "string option") (rt_extra: "mval list obj")
  | Failed

definition extra_pair ::
  "(string \<Rightarrow> mval) \<Rightarrow> mval list obj option \<Rightarrow> string \<Rightarrow> mval list obj option" where
  "extra_pair parse acc pair =
     (case acc of
        None \<Rightarrow> None
      | Some ob \<Rightarrow>
          (case split_on (CHR ''='') pair of
             name # vals # _ \<Rightarrow>
               Some (oset name ((case oget ob name of None \<Rightarrow> [] | Some vs \<Rightarrow> vs) @ map parse (split_on (CHR ''|'') vals)) ob)
           | _ \<Rightarrow> None))"

definition parse_extra :: "(string \<Rightarrow> mval) \<Rightarrow> string \<Rightarrow> mval list obj option" where
  "parse_extra parse extra = foldl (extra_pair parse) (Some []) (split_on (CHR ''&'') extra)"

definition token :: "string list \<Rightarrow> nat \<Rightarrow> string option" where
  "token ts n = (if n < length ts then Some (ts ! n) else None)"

text \<open>Without a hash in the text the main page is shown.\<close>

definition route_of :: "(string \<Rightarrow> mval) \<Rightarrow> string \<Rightarrow> route" where
  "route_of parse s =
     (case dropWhile (\<lambda>c. c \<noteq> CHR ''#'') s of
        [] \<Rightarrow> Main
      | hash \<Rightarrow>
          (case decodeURI hash of
             None \<Rightarrow> Failed
           | Some h \<Rightarrow>
               let ts = split_on (CHR ''/'') (drop 2 h);
                   uri = (case token ts 0 of None \<Rightarrow> [] | Some u \<Rightarrow> u);
                   container = (case token ts 1 of None \<Rightarrow> ''#main'' | Some c \<Rightarrow> if c = [] then ''#main'' else c);
                   extra = (case token ts 4 of None \<Rightarrow> Some [] | Some x \<Rightarrow> if x = [] then Some [] else parse_extra parse x)
               in (case extra of
                     None \<Rightarrow> Failed
                   | Some ex \<Rightarrow> if uri = [] then Main else Shown uri container (token ts 2) (token ts 3) ex)))"

section \<open>Notifications of the client\<close>

text \<open>The walk over the two sorted lists: the audience of a notification and the groups of the user.\<close>

fun common_group :: "string list \<Rightarrow> string list \<Rightarrow> string option" where
  "common_group (a # as) (m # ms) =
     (if a = [] \<or> m = [] then None
      else if text_less m a then common_group (a # as) ms
      else if text_less a m then common_group as (m # ms)
      else Some a)"
| "common_group _ _ = None"

definition js_sort_texts :: "string list \<Rightarrow> string list" where
  "js_sort_texts xs = js_sort (\<lambda>a b. text_less b a) xs"

text \<open>
  \<open>nt_read\<close> is the list in the local storage, \<open>nt_shown\<close> the notifications the user is asked to
  confirm, \<open>nt_run\<close> those whose script runs. \<open>audience\<close> is what loading a notification gives
  (\<open>None\<close>: it fails), \<open>confirms\<close> the answer of the user, \<open>has_script\<close> whether there is a script.
\<close>

record note_state =
  nt_read :: "string list"
  nt_shown :: "string list"
  nt_run :: "string list"

definition show_note ::
  "(string \<Rightarrow> string list option) \<Rightarrow> string list \<Rightarrow> (string \<Rightarrow> bool) \<Rightarrow> (string \<Rightarrow> bool) \<Rightarrow> string list \<Rightarrow> string list
   \<Rightarrow> note_state \<Rightarrow> string \<Rightarrow> note_state" where
  "show_note audience groups confirms has_script server browser st u =
     (if u \<in> set browser then st
      else (case audience u of
              None \<Rightarrow> st
            | Some a \<Rightarrow>
                if common_group (js_sort_texts a) (js_sort_texts groups) = None then st
                else (let st1 = st\<lparr>nt_shown := nt_shown st @ [u]\<rparr>
                      in if confirms u
                         then (let st2 = st1\<lparr>nt_read := server\<rparr>
                               in if has_script u then st2\<lparr>nt_run := nt_run st2 @ [u]\<rparr> else st2)
                         else st1)))"

definition checkNotification ::
  "(string \<Rightarrow> string list option) \<Rightarrow> string list \<Rightarrow> (string \<Rightarrow> bool) \<Rightarrow> (string \<Rightarrow> bool) \<Rightarrow> string list \<Rightarrow> note_state \<Rightarrow> note_state" where
  "checkNotification audience groups confirms has_script server st =
     (if nt_read st \<noteq> server \<and> server \<noteq> []
      then foldl (show_note audience groups confirms has_script server (nt_read st)) st server
      else st\<lparr>nt_read := server\<rparr>)"

end
