(* ===== verification/Router_Props.thy ===== *)
theory Router_Props
  imports Router
begin

text \<open>
  The shell of the browser: a number survives its way through the text that is shown, and the
  notifications are the unread ones for a group of the user.
\<close>

section \<open>Numbers\<close>

text \<open>Characters of numerals\<close>

definition numeral_char :: "char \<Rightarrow> bool" where
  "numeral_char c \<longleftrightarrow> is_digit c \<or> c = CHR ''-'' \<or> c = CHR ''.''"

lemma numeral_plain: "numeral_char c \<Longrightarrow> c \<noteq> CHR '' '' \<and> c \<noteq> CHR '','' \<and> \<not> is_space c"
  by (auto simp: numeral_char_def char_in_def is_space_def)

lemma plain_group: "list_all numeral_char s \<Longrightarrow> plain_numeral (group_digits s) = s"
proof -
  have 1: "filter (\<lambda>c. c \<noteq> CHR '' '') (group_digits s) = filter (\<lambda>c. c \<noteq> CHR '' '') s" for s
    by (induction s) auto
  assume "list_all numeral_char s"
  then have "\<forall>c \<in> set s. c \<noteq> CHR '' '' \<and> c \<noteq> CHR '',''" by (auto simp: list_all_iff dest: numeral_plain)
  then have "filter (\<lambda>c. c \<noteq> CHR '' '') s = s" and "map (\<lambda>c. if c = CHR '','' then CHR ''.'' else c) s = s"
    by (simp add: filter_id_conv) (rule map_idI, use \<open>\<forall>c \<in> set s. c \<noteq> CHR '' '' \<and> c \<noteq> CHR '',''\<close> in simp)
  then show ?thesis by (simp add: plain_numeral_def 1)
qed

lemma strip_numeral: "list_all numeral_char s \<Longrightarrow> strip s = s"
proof -
  have d: "dropWhile is_space xs = xs" if "\<forall>c \<in> set xs. \<not> is_space c" for xs using that by (cases xs) auto
  assume "list_all numeral_char s"
  then have "\<forall>c \<in> set s. \<not> is_space c" by (auto simp: list_all_iff dest: numeral_plain)
  then show ?thesis using d [of s] d [of "rev s"] by (simp add: strip_def)
qed

lemma digits_numeral: "list_all numeral_char (show_nat n)"
  using digit_bounds [of _ n] by (auto simp: list_all_iff numeral_char_def char_in_def)

lemma parse_number_int: "parse_number (show_int n) = Some (n, 0)"
proof -
  have nn: "list_all numeral_char (show_int n)" using digits_numeral by (simp add: show_int_def numeral_char_def)
  have hd: "hd (show_nat k) \<noteq> CHR ''-'' \<and> hd (show_nat k) \<noteq> CHR ''+''" for k
    using digit_bounds [of "hd (show_nat k)" k] show_nat_nonempty [of k] by auto
  show ?thesis
    using strip_numeral [OF nn] hd show_nat_nonempty show_nat_digits
    by (auto simp: parse_number_def show_int_def Let_def read_show_nat)
qed

lemma read_zeros: "read_digits 0 (replicate k CHR ''0'' @ s) = read_digits 0 s"
  by (induction k) (simp_all add: char_digit_def)

lemma zeros_digits: "list_all (\<lambda>c. char_digit c \<noteq> None) (replicate k CHR ''0'')"
  by (induction k) (simp_all add: char_digit_def)

text \<open>A reduced decimal: its last digit behind the point is not 0.\<close>

definition reduced :: "int \<Rightarrow> nat \<Rightarrow> bool" where
  "reduced m e \<longleftrightarrow> 0 < e \<and> m mod 10 \<noteq> 0"

text \<open>The text of a decimal fraction: a sign, digits, the point and as many digits as the scale says.\<close>

lemma dec_str_parts:
  assumes "reduced m e"
  obtains w f where "dec_str m e = (if m < 0 then ''-'' else []) @ w @ CHR ''.'' # f" and "w \<noteq> []" and "length f = e"
    and "list_all (\<lambda>c. char_digit c \<noteq> None) w" and "list_all (\<lambda>c. char_digit c \<noteq> None) f"
    and "read_digits 0 (w @ f) = nat \<bar>m\<bar>"
proof -
  define q where "q = replicate (Suc e - length (show_nat (nat \<bar>m\<bar>))) CHR ''0'' @ show_nat (nat \<bar>m\<bar>)"
  define w where "w = take (length q - e) q"
  define f where "f = drop (length q - e) q"
  have red: "dec_reduce m e = (m, e)" using assms by (cases e) (simp_all add: reduced_def)
  have len: "e < length q" by (simp add: q_def)
  have wf: "q = w @ f" "length f = e" "w \<noteq> []" using len by (auto simp: w_def f_def)
  have d: "dec_str m e = (if m < 0 then ''-'' else []) @ w @ CHR ''.'' # f"
    using assms unfolding dec_str_def red fst_conv snd_conv Let_def q_def [symmetric] w_def [symmetric] f_def [symmetric]
    by (simp add: reduced_def)
  have ds: "list_all (\<lambda>c. char_digit c \<noteq> None) q"
    using zeros_digits show_nat_list_all by (simp add: q_def)
  have num: "read_digits 0 q = nat \<bar>m\<bar>" by (simp add: q_def read_zeros read_show_nat)
  have "list_all (\<lambda>c. char_digit c \<noteq> None) w" "list_all (\<lambda>c. char_digit c \<noteq> None) f" using ds wf(1) by simp_all
  then show ?thesis using that [OF d] wf num by simp
qed

lemma digit_is_digit: "char_digit c \<noteq> None \<longleftrightarrow> is_digit c"
  by (auto simp: char_digit_def char_in_def Let_def)

lemma dec_numeral: "reduced m e \<Longrightarrow> list_all numeral_char (dec_str m e)"
  by (erule dec_str_parts, simp only: digit_is_digit) (auto simp: list_all_iff numeral_char_def)

lemma parse_number_dec:
  assumes "reduced m e"
  shows "list_all numeral_char (dec_str m e) \<and> parse_number (dec_str m e) = Some (m, e)"
proof -
  obtain w f where d: "dec_str m e = (if m < 0 then ''-'' else []) @ w @ CHR ''.'' # f" and wf: "w \<noteq> []" "length f = e"
    and wfd: "list_all (\<lambda>c. char_digit c \<noteq> None) w" "list_all (\<lambda>c. char_digit c \<noteq> None) f"
    and num: "read_digits 0 (w @ f) = nat \<bar>m\<bar>"
    using dec_str_parts [OF assms] by metis
  note n = dec_numeral [OF assms]
  have nodot: "char_digit CHR ''.'' = None" "char_digit CHR ''-'' = None" "char_digit CHR ''+'' = None"
    by (simp_all add: char_digit_def)
  have hw: "hd w \<noteq> CHR ''-''" "hd w \<noteq> CHR ''+''" using wfd(1) wf(1) nodot by (cases w; auto)+
  have tw: "takeWhile (\<lambda>c. c \<noteq> CHR ''.'') (w @ CHR ''.'' # f) = w"
    using wfd(1) nodot by (induction w) auto
  have ad: "\<not> all_digits (w @ CHR ''.'' # f)" "all_digits (w @ f)"
    using nodot wfd wf(1) by (simp_all add: all_digits_def)
  have "parse_number (dec_str m e) = Some ((if m < 0 then -1 else 1) * int (nat \<bar>m\<bar>), e)"
    using strip_numeral [OF n] hw wf tw ad num by (simp add: parse_number_def d Let_def)
  then show ?thesis using n by simp
qed

text \<open>C28: A number that is shown with its digits in groups and read back from such a text, as in a hash, is the
  same number: integers and decimal fractions of either sign. The text itself is not always right:
  a space also goes behind the point or the sign if groups of three digits follow.\<close>

theorem number_roundtrip:
  "parse_value date_parse known (formatNumber (DNum n)) = MNum n
   \<and> (reduced m e \<longrightarrow> parse_value date_parse known (formatNumber (DDec m e)) = MDec m e)
   \<and> formatNumber (DDec (- 123456) 3) = ''- 123. 456''"
proof -
  have i: "list_all numeral_char (show_int n)" using digits_numeral by (simp add: show_int_def numeral_char_def)
  have ne: "show_int n \<noteq> []" using show_nat_nonempty by (simp add: show_int_def)
  have 1: "parse_value date_parse known (formatNumber (DNum n)) = MNum n"
    using plain_group [OF i] strip_numeral [OF i] ne
    by (simp add: parse_value_def formatNumber_def parse_number_int mval_of_number_def)
  have 2: "parse_value date_parse known (formatNumber (DDec m e)) = MDec m e" if r: "reduced m e"
  proof -
    note p = parse_number_dec [OF r]
    have "dec_str m e \<noteq> []" using p r by (auto simp: parse_number_def strip_def reduced_def)
    then show ?thesis
      using p plain_group [of "dec_str m e"] strip_numeral [of "dec_str m e"] r
      by (simp add: parse_value_def formatNumber_def mval_of_number_def reduced_def)
  qed
  have "dec_reduce (- 123456) 3 = (- 123456, 3)" by (simp add: numeral_3_eq_3)
  moreover have "show_nat 123456 = ''123456''" by (simp add: show_nat_eval)
  ultimately have "dec_str (- 123456) 3 = ''-123.456''" by (simp add: dec_str_def Let_def)
  then have "formatNumber (DDec (- 123456) 3) = ''- 123. 456''"
    by (simp add: formatNumber_def groups_follow_def char_in_def word_end_def Let_def)
  with 1 2 show ?thesis by blast
qed

theorem number_roundtrip_witness:
  "formatNumber (DDec (- 123456) 3) = ''- 123. 456''
   \<and> parse_value (\<lambda>_. None) (\<lambda>_. False) ''- 123. 456'' = MDec (- 123456) 3"
proof -
  note r = number_roundtrip [of "\<lambda>_. None" "\<lambda>_. False" 0 "- 123456" 3]
  have "reduced (- 123456) 3" by (simp add: reduced_def)
  with r have "parse_value (\<lambda>_. None) (\<lambda>_. False) (formatNumber (DDec (- 123456) 3)) = MDec (- 123456) 3" by blast
  with r show ?thesis by metis
qed

section \<open>Notifications\<close>

abbreviation text_le :: "string \<Rightarrow> string \<Rightarrow> bool" where
  "text_le a b \<equiv> \<not> text_less b a"

lemma text_less_irrefl: "\<not> text_less s s"
  by (induction s) (auto simp: Let_def)

lemma text_less_total: "\<not> text_less s t \<Longrightarrow> \<not> text_less t s \<Longrightarrow> s = t"
proof (induction s arbitrary: t)
  case Nil
  then show ?case by (cases t) auto
next
  case (Cons c s)
  then show ?case by (cases t) (auto simp: Let_def)
qed

lemma text_less_trans: "text_less s t \<Longrightarrow> text_less t r \<Longrightarrow> text_less s r"
proof (induction s arbitrary: t r)
  case Nil
  then show ?case by (cases t; cases r) auto
next
  case (Cons c s)
  then show ?case by (cases t; cases r) (auto simp: Let_def)
qed

lemma text_le_less_trans: "text_le a b \<Longrightarrow> text_less b c \<Longrightarrow> text_less a c"
  using text_less_total text_less_trans by metis

lemma text_le_trans: "text_le a b \<Longrightarrow> text_le b c \<Longrightarrow> text_le a c"
  using text_le_less_trans text_less_irrefl by metis

lemma shift_sorted:
  assumes "sorted_wrt text_le xs"
  shows "sorted_wrt text_le (shift_in (\<lambda>a b. text_less b a) xs x)"
proof -
  define L where "L = rev (dropWhile (\<lambda>y. text_less x y) (rev xs))"
  define R where "R = rev (takeWhile (\<lambda>y. text_less x y) (rev xs))"
  have xs: "xs = L @ R" unfolding L_def R_def by (metis rev_append rev_rev_ident takeWhile_dropWhile_id)
  have s: "sorted_wrt text_le L" "sorted_wrt text_le R" using assms by (simp_all add: xs sorted_wrt_append)
  have LR: "\<forall>a \<in> set L. \<forall>b \<in> set R. text_le a b" using assms by (simp add: xs sorted_wrt_append)
  have R: "text_less x b" if "b \<in> set R" for b using that by (auto simp: R_def dest: set_takeWhileD)
  have L: "text_le a x" if a: "a \<in> set L" for a
  proof -
    have ne: "L \<noteq> []" using a by auto
    then have "dropWhile (\<lambda>y. text_less x y) (rev xs) \<noteq> []" by (simp add: L_def)
    from hd_dropWhile [OF this] have "\<not> text_less x (last L)" by (simp add: L_def last_rev)
    moreover have "text_le a (last L)"
    proof (cases "a = last L")
      case False
      obtain M where M: "L = M @ [last L]" using ne by (metis append_butlast_last_id)
      then have "a \<in> set M" using a False by (metis Un_iff empty_iff list.set(1) list.set(2) insert_iff set_append)
      then show ?thesis using s(1) by (subst (asm) M) (simp add: sorted_wrt_append)
    qed (simp add: text_less_irrefl)
    ultimately show ?thesis using text_le_trans by blast
  qed
  have "shift_in (\<lambda>a b. text_less b a) xs x = L @ [x] @ R" by (simp add: shift_in_def L_def R_def Let_def)
  moreover have "text_le x b" if "b \<in> set R" for b using R [OF that] text_less_trans text_less_irrefl by blast
  ultimately show ?thesis using s LR L by (auto simp: sorted_wrt_append)
qed

lemma sorted_texts: "sorted_wrt text_le (js_sort_texts xs)"
  by (induction xs rule: rev_induct) (simp_all add: js_sort_texts_def js_sort_def shift_sorted)

lemma common_group_iff:
  "sorted_wrt text_le as \<Longrightarrow> sorted_wrt text_le ms \<Longrightarrow> [] \<notin> set as \<Longrightarrow> [] \<notin> set ms \<Longrightarrow>
   common_group as ms = None \<longleftrightarrow> set as \<inter> set ms = {}"
proof (induction as ms rule: common_group.induct)
  case (1 a as m ms)
  show ?case
  proof (cases "text_less m a")
    case True
    then have "m \<notin> set (a # as)" using 1(3) text_less_irrefl by auto
    then show ?thesis using 1 True by auto
  next
    case False
    show ?thesis
    proof (cases "text_less a m")
      case True
      then have "a \<notin> set (m # ms)" using 1(4) text_less_irrefl by auto
      then show ?thesis using 1 True False by auto
    next
      case ge: False
      then have "a = m" using False text_less_total by blast
      then show ?thesis using 1(5,6) False ge by auto
    qed
  qed
qed simp_all

lemma group_shared:
  assumes "[] \<notin> set xs" and "[] \<notin> set ys"
  shows "common_group (js_sort_texts xs) (js_sort_texts ys) = None \<longleftrightarrow> set xs \<inter> set ys = {}"
proof -
  have "set (js_sort_texts zs) = set zs" for zs by (simp add: js_sort_texts_def js_sort_perm)
  then show ?thesis using common_group_iff [OF sorted_texts sorted_texts, of xs ys] assms by simp
qed

text \<open>C29: If the server's list of notifications is not the one in the local storage, the user is asked to
  confirm, in the order of the list, exactly those that are not in the storage and whose audience
  shares a group with the user (the walk over the two sorted lists finds a shared group if there is one);
  the scripts of the confirmed ones run; and once one is confirmed, the whole list of the server
  counts as read, also the ones the user has declined.\<close>

theorem notifications_due:
  assumes "nt_read st \<noteq> server" and "server \<noteq> []" and "[] \<notin> set groups"
    and "\<And>u a. audience u = Some a \<Longrightarrow> [] \<notin> set a"
  defines "due \<equiv> filter (\<lambda>u. u \<notin> set (nt_read st) \<and> (\<exists>a. audience u = Some a \<and> set a \<inter> set groups \<noteq> {})) server"
  shows "checkNotification audience groups confirms has_script server st
    = st\<lparr>nt_read := (if \<exists>u \<in> set due. confirms u then server else nt_read st),
         nt_shown := nt_shown st @ due,
         nt_run := nt_run st @ filter (\<lambda>u. confirms u \<and> has_script u) due\<rparr>"
proof -
  define ok where "ok = (\<lambda>u. u \<notin> set (nt_read st) \<and> (\<exists>a. audience u = Some a \<and> set a \<inter> set groups \<noteq> {}))"
  have 1: "show_note audience groups confirms has_script server (nt_read st) x u
      = (if ok u then x\<lparr>nt_read := (if confirms u then server else nt_read x), nt_shown := nt_shown x @ [u],
            nt_run := nt_run x @ (if confirms u \<and> has_script u then [u] else [])\<rparr> else x)" for x u
    using group_shared [OF assms(4) assms(3), of u]
    by (auto simp: show_note_def ok_def Let_def split: option.splits)
  have "foldl (show_note audience groups confirms has_script server (nt_read st)) x us
      = x\<lparr>nt_read := (if \<exists>u \<in> set (filter ok us). confirms u then server else nt_read x),
          nt_shown := nt_shown x @ filter ok us,
          nt_run := nt_run x @ filter (\<lambda>u. confirms u \<and> has_script u) (filter ok us)\<rparr>" for x us
    by (induction us arbitrary: x) (auto simp: 1)
  from this [of st server] show ?thesis using assms(1,2) by (simp add: checkNotification_def due_def ok_def)
qed

theorem notifications_due_witness:
  "checkNotification (\<lambda>u. if u = ''d:n1'' then Some [''g:b'', ''g:a''] else Some [''g:c'']) [''g:x'', ''g:a''] (\<lambda>u. True) (\<lambda>u. False)
     [''d:n1'', ''d:n2''] \<lparr>nt_read = [], nt_shown = [], nt_run = []\<rparr>
   = \<lparr>nt_read = [''d:n1'', ''d:n2''], nt_shown = [''d:n1''], nt_run = []\<rparr>"
  by (subst notifications_due) (auto split: if_splits)

end
