(* ===== verification/Labels.thy ===== *)
theory Labels
  imports Individual_Model Messages
begin

text \<open>
  Labels that are composed of the values of an individual and of those it refers to:
  \<open>complexLabel\<close> of \<^verbatim>\<open>public/js/common/util.js\<close>, with \<open>getPropertyChain\<close> of the scripts. An
  exception is \<open>None\<close>; \<open>complexLabel\<close> catches it.
\<close>

section \<open>Parts of texts\<close>

text \<open>
  The UTF-16 units of a text given by its UTF-8 bytes: a character of four bytes is a pair, whose
  second half is written as the empty text (a cut between the halves keeps the character whole).
\<close>

function text_units :: "string \<Rightarrow> string list" where
  "text_units [] = []"
| "text_units (c # cs) =
     (let more = (\<lambda>c. 128 \<le> (of_char c :: nat) \<and> (of_char c :: nat) < 192)
      in ((c # takeWhile more cs) # (if 240 \<le> (of_char c :: nat) then [[]] else [])) @ text_units (dropWhile more cs))"
  by pat_completeness auto
termination
  by (relation "measure length") (auto simp: le_imp_less_Suc length_dropWhile_le)

text \<open>\<open>substring (a, b)\<close>\<close>

definition js_substring :: "int \<Rightarrow> int \<Rightarrow> string \<Rightarrow> string" where
  "js_substring a b s =
     (let us = text_units s; n = int (length us); x = max 0 (min a n); y = max 0 (min b n);
          lo = nat (min x y); hi = nat (max x y)
      in concat (take (hi - lo) (drop lo us)))"

text \<open>\<open>+t\<close> as a position; NaN (and a missing text) is 0.\<close>

definition position :: "string option \<Rightarrow> int" where
  "position t =
     (case t of
        None \<Rightarrow> 0
      | Some s \<Rightarrow> (case parse_number s of None \<Rightarrow> 0 | Some (m, e) \<Rightarrow> sgn m * (\<bar>m\<bar> div 10 ^ e)))"

text \<open>
  \<open>replace (/{(\s*([^{}]+)\s*)}/g, f)\<close>: every pair of braces with something in it that is no brace.
\<close>

abbreviation no_brace :: "char \<Rightarrow> bool" where
  "no_brace c \<equiv> c \<noteq> CHR 0x7B \<and> c \<noteq> CHR 0x7D"

function replace_braces :: "(string \<Rightarrow> string option) \<Rightarrow> string \<Rightarrow> string option" where
  "replace_braces f [] = Some []"
| "replace_braces f (c # cs) =
     (let x = takeWhile no_brace cs; r = dropWhile no_brace cs
      in if c = CHR 0x7B \<and> x \<noteq> [] \<and> r \<noteq> [] \<and> hd r = CHR 0x7D
         then (case f x of None \<Rightarrow> None | Some y \<Rightarrow> map_option (\<lambda>z. y @ z) (replace_braces f (tl r)))
         else map_option ((#) c) (replace_braces f cs))"
  by pat_completeness auto
termination
proof (relation "measure (\<lambda>(f, s). length s)")
  fix cs :: string
  have "length (tl (dropWhile no_brace cs)) < Suc (length cs)"
    using length_dropWhile_le [of no_brace cs] by simp
  then show "\<And>f c x r y. x = takeWhile no_brace cs \<Longrightarrow> r = dropWhile no_brace cs \<Longrightarrow>
      c = CHR 0x7B \<and> x \<noteq> [] \<and> r \<noteq> [] \<and> hd r = CHR 0x7D \<Longrightarrow> f x = Some y \<Longrightarrow>
      ((f, tl r), (f, c # cs)) \<in> measure (\<lambda>(f, s). length s)"
    by simp
qed simp_all

section \<open>Chains of properties\<close>

text \<open>
  \<open>get\<close>: the individual itself hides the stored one. \<open>label_offset\<close> is \<open>getTimezoneOffset\<close> in minutes
  at a time, \<open>label_parse\<close> is \<open>Date.parse\<close>.
\<close>

record label_env =
  label_world :: world
  label_self :: individual
  label_offset :: "int \<Rightarrow> int"
  label_parse :: "string \<Rightarrow> int option"

definition get_known :: "label_env \<Rightarrow> jdata \<Rightarrow> individual option" where
  "get_known env d =
     (if js_str (date_str (label_world env)) d = uri (label_self env) then Some (label_self env)
      else lookup (label_world env) d)"

definition local_day :: "label_env \<Rightarrow> int \<Rightarrow> string" where
  "local_day env t = take 10 (iso_date (t - label_offset env t * 60000))"

text \<open>\<^verbatim>\<open>/^\d{4}-\d{2}-\d{2}T\d{2}:\d{2}:\d{2}.*Z$/i\<close>\<close>

definition dated_text :: "string \<Rightarrow> bool" where
  "dated_text s \<longleftrightarrow> 20 \<le> length s \<and> shape ''0000-00-00T00:00:00'' (map upper_char (take 19 s))
     \<and> upper_char (last s) = CHR ''Z'' \<and> list_all (\<lambda>c. of_char c \<noteq> (10::nat) \<and> of_char c \<noteq> (13::nat)) s"

definition value_text :: "label_env \<Rightarrow> jdata \<Rightarrow> string option" where
  "value_text env d =
     (case d of
        DDate t \<Rightarrow> Some (local_day env t)
      | DStr s \<Rightarrow> if dated_text s then map_option (local_day env) (label_parse env s) else Some s
      | _ \<Rightarrow> Some (js_str (date_str (label_world env)) d))"

definition in_language :: "string \<Rightarrow> val \<Rightarrow> bool" where
  "in_language language v \<longleftrightarrow>
     (case vlang v of None \<Rightarrow> True
      | Some l \<Rightarrow> l = [] \<or> l = ''NONE'' \<or> map lower_char l = map lower_char language)"

definition add_value_text :: "label_env \<Rightarrow> string \<Rightarrow> string option \<Rightarrow> val \<Rightarrow> string option" where
  "add_value_text env language acc v =
     (case acc of
        None \<Rightarrow> None
      | Some s \<Rightarrow> if in_language language v then map_option ((@) s) (value_text env (vdata v)) else Some s)"

text \<open>
  The parts of the last property. Under \<^verbatim>\<open>@\<close> there is a text and no array: reading it as one is a
  TypeError, and so is reading a property of an individual that is not there.
\<close>

fun last_parts :: "label_env \<Rightarrow> string \<Rightarrow> string \<Rightarrow> individual option list \<Rightarrow> string list option" where
  "last_parts env language p [] = Some []"
| "last_parts env language p (None # is) = None"
| "last_parts env language p (Some i # is) =
     (if p = ''@'' then (if uri i = [] then last_parts env language p is else None)
      else (case pget i p of
              None \<Rightarrow> last_parts env language p is
            | Some vs \<Rightarrow>
                (case foldl (add_value_text env language) (Some []) vs of
                   None \<Rightarrow> None
                 | Some s \<Rightarrow> map_option ((#) s) (last_parts env language p is))))"

fun next_individuals :: "label_env \<Rightarrow> string \<Rightarrow> individual option list \<Rightarrow> individual option list option" where
  "next_individuals env p [] = Some []"
| "next_individuals env p (oi # is) =
     (if p = ''@'' then (if oi = None \<or> map_option uri oi = Some [] then next_individuals env p is else None)
      else if hasValue oi p None
      then (case oi of
              None \<Rightarrow> None
            | Some i \<Rightarrow> map_option ((@) (map (\<lambda>v. get_known env (vdata v)) (opt_vals (pget i p)))) (next_individuals env p is))
      else next_individuals env p is)"

fun follow_chain :: "label_env \<Rightarrow> string \<Rightarrow> individual option list \<Rightarrow> string list \<Rightarrow> string option" where
  "follow_chain env language is [] = Some []"
| "follow_chain env language is (p # ps) =
     (if p = [] then Some []
      else if ps = [] then map_option (join '', '') (last_parts env language p is)
      else (case next_individuals env p is of
              None \<Rightarrow> None
            | Some js \<Rightarrow> if js = [] then Some [] else follow_chain env language js ps))"

definition get_localized_chain :: "label_env \<Rightarrow> string \<Rightarrow> string \<Rightarrow> string list \<Rightarrow> string option" where
  "get_localized_chain env language u ps =
     (case get_known env (DStr u) of None \<Rightarrow> Some [] | Some i \<Rightarrow> follow_chain env language [Some i] ps)"

section \<open>The label\<close>

text \<open>One pair of braces: a chain, \<^verbatim>\<open>@\<close> is the individual itself, and after a blank a range of positions.\<close>

definition replace_group :: "label_env \<Rightarrow> string \<Rightarrow> string \<Rightarrow> string option" where
  "replace_group env language grp =
     (let temp = split_on (CHR '' '') grp; chain = split_on (CHR ''.'') (hd temp);
          start = (if hd chain = ''@'' then uri (label_self env) else hd chain);
          localed = get_localized_chain env language start (tl chain)
      in case tl temp of
           [] \<Rightarrow> localed
         | t # _ \<Rightarrow>
             let indexes = split_on (CHR '','') (js_substring 1 (int (length (text_units t)) - 1) t)
             in map_option (js_substring (position (Some (hd indexes)))
                  (position (case tl indexes of [] \<Rightarrow> None | x # _ \<Rightarrow> Some x))) localed)"

definition first_data_of :: "individual option \<Rightarrow> string \<Rightarrow> jdata option" where
  "first_data_of oi p =
     (case oi of None \<Rightarrow> None | Some i \<Rightarrow> (case pget i p of Some (v # vs) \<Rightarrow> Some (vdata v) | _ \<Rightarrow> None))"

definition languages_of :: "label_env \<Rightarrow> string list option" where
  "languages_of env =
     (case get_known env (DStr ''v-ui:AvailableLanguage'') of
        None \<Rightarrow> None
      | Some a \<Rightarrow>
          (case pget a ''rdf:value'' of
             None \<Rightarrow> None
           | Some vs \<Rightarrow> those (map (\<lambda>v. map_option (js_str (date_str (label_world env)))
                 (first_data_of (get_known env (vdata v)) ''rdf:value'')) vs)))"

definition labels_of_type :: "label_env \<Rightarrow> string list \<Rightarrow> val \<Rightarrow> val list option" where
  "labels_of_type env languages t =
     (let ot = get_known env (vdata t)
      in if \<not> hasValue ot ''v-s:labelPattern'' None then Some []
         else (case first_data_of ot ''v-s:labelPattern'' of
                 Some (DStr pattern) \<Rightarrow>
                   those (map (\<lambda>l. map_option (\<lambda>s. \<lparr>vtype = TString, vdata = DStr s, vlang = Some l\<rparr>)
                     (replace_braces (replace_group env l) pattern)) languages)
               | _ \<Rightarrow> if languages = [] then Some [] else None))"

definition complexLabel :: "label_env \<Rightarrow> val list" where
  "complexLabel env =
     (case (languages_of env, pget (label_self env) ''rdf:type'') of
        (Some ls, Some ts) \<Rightarrow>
          (case those (map (labels_of_type env ls) ts) of None \<Rightarrow> [] | Some xss \<Rightarrow> concat xss)
      | _ \<Rightarrow> [])"

section \<open>The chain of the scripts\<close>

text \<open>
  \<open>getPropertyChain\<close> of the scripts: the data of the last property, along first values; the value
  \<open>None\<close> is \<open>undefined\<close>. On the way a value that is no URI ends the chain.
\<close>

fun server_chain :: "world \<Rightarrow> individual option \<Rightarrow> string list \<Rightarrow> jdata list option" where
  "server_chain w oi [] = None"
| "server_chain w oi (p # ps) =
     (if \<not> hasValue oi p None then None
      else (case oi of
              None \<Rightarrow> None
            | Some i \<Rightarrow>
                if ps = [] then Some (map vdata (opt_vals (pget i p)))
                else (case opt_vals (pget i p) of
                        [] \<Rightarrow> None
                      | v # _ \<Rightarrow> if vtype v = TUri then server_chain w (lookup w (vdata v)) ps else None)))"

end
