(* ===== verification/Label_Props.thy ===== *)
theory Label_Props
  imports Labels Router_Props Workflow_Props
begin

text \<open>
  Labels mean what their patterns say: a pattern is a sequence of literal texts, of fields of the
  individual, of fields of the individuals it refers to, and of fields cut to a range.
\<close>

section \<open>Patterns\<close>

datatype segment =
  Lit string
| Field string
| Through string string
| Cut string nat nat

fun written :: "segment \<Rightarrow> string" where
  "written (Lit s) = s"
| "written (Field p) = ''{@.'' @ p @ ''}''"
| "written (Through p q) = ''{@.'' @ p @ ''.'' @ q @ ''}''"
| "written (Cut p a b) = ''{@.'' @ p @ '' ('' @ show_nat a @ '','' @ show_nat b @ '')}''"

definition name_char :: "char \<Rightarrow> bool" where
  "name_char c \<longleftrightarrow> no_brace c \<and> c \<noteq> CHR ''.'' \<and> c \<noteq> CHR '' ''"

definition prop_name :: "string \<Rightarrow> bool" where
  "prop_name p \<longleftrightarrow> p \<noteq> [] \<and> p \<noteq> ''@'' \<and> list_all name_char p"

fun segment_ok :: "segment \<Rightarrow> bool" where
  "segment_ok (Lit s) \<longleftrightarrow> list_all no_brace s"
| "segment_ok (Field p) \<longleftrightarrow> prop_name p"
| "segment_ok (Through p q) \<longleftrightarrow> prop_name p \<and> prop_name q"
| "segment_ok (Cut p a b) \<longleftrightarrow> prop_name p \<and> a \<le> b"

section \<open>What a pattern means\<close>

definition field_text :: "label_env \<Rightarrow> string \<Rightarrow> string \<Rightarrow> individual \<Rightarrow> string" where
  "field_text env l p i =
     concat (map (\<lambda>v. the (value_text env (vdata v))) (filter (in_language l) (opt_vals (pget i p))))"

definition referred :: "label_env \<Rightarrow> string \<Rightarrow> individual list" where
  "referred env p = map (\<lambda>v. the (get_known env (vdata v))) (opt_vals (pget (label_self env) p))"

fun meaning :: "label_env \<Rightarrow> string \<Rightarrow> segment \<Rightarrow> string" where
  "meaning env l (Lit s) = s"
| "meaning env l (Field p) = field_text env l p (label_self env)"
| "meaning env l (Through p q) =
     join '', '' (map (field_text env l q) (filter (\<lambda>i. pget i q \<noteq> None) (referred env p)))"
| "meaning env l (Cut p a b) = concat (take (b - a) (drop a (text_units (field_text env l p (label_self env)))))"

definition readable :: "label_env \<Rightarrow> string \<Rightarrow> individual \<Rightarrow> bool" where
  "readable env p i \<longleftrightarrow> list_all (\<lambda>v. value_text env (vdata v) \<noteq> None) (opt_vals (pget i p))"

text \<open>What the label needs is there: dates can be read, and individuals that are referred to exist.\<close>

fun available :: "label_env \<Rightarrow> segment \<Rightarrow> bool" where
  "available env (Lit s) \<longleftrightarrow> True"
| "available env (Field p) \<longleftrightarrow> readable env p (label_self env)"
| "available env (Through p q) \<longleftrightarrow>
     list_all (\<lambda>v. get_known env (vdata v) \<noteq> None) (opt_vals (pget (label_self env) p))
     \<and> list_all (readable env q) (referred env p)"
| "available env (Cut p a b) \<longleftrightarrow> readable env p (label_self env)"

section \<open>Groups\<close>

lemma replace_plain: "list_all no_brace s \<Longrightarrow> replace_braces f (s @ t) = map_option ((@) s) (replace_braces f t)"
  by (induction s; cases "replace_braces f t") (simp_all add: Let_def)

lemma replace_pair:
  assumes "g \<noteq> []" and "list_all no_brace g"
  shows "replace_braces f (CHR 0x7B # g @ CHR 0x7D # t)
    = (case f g of None \<Rightarrow> None | Some y \<Rightarrow> map_option ((@) y) (replace_braces f t))"
proof -
  have "takeWhile no_brace (g @ CHR 0x7D # t) = g" "dropWhile no_brace (g @ CHR 0x7D # t) = CHR 0x7D # t"
    using assms(2) by (induction g) auto
  then show ?thesis using assms(1) by (cases "f g") (simp_all add: Let_def)
qed

declare replace_braces.simps(2) [simp del]

lemma fold_values:
  assumes "list_all (\<lambda>v. value_text env (vdata v) \<noteq> None) vs"
  shows "foldl (add_value_text env l) (Some s) vs
    = Some (s @ concat (map (\<lambda>v. the (value_text env (vdata v))) (filter (in_language l) vs)))"
  using assms by (induction vs arbitrary: s) (auto simp: add_value_text_def)

lemma last_parts_known:
  assumes "q \<noteq> ''@''" and "list_all (readable env q) is"
  shows "last_parts env l q (map Some is) = Some (map (field_text env l q) (filter (\<lambda>i. pget i q \<noteq> None) is))"
  using assms(2)
proof (induction "is")
  case (Cons i "is")
  then show ?case using assms(1)
    by (auto simp: readable_def field_text_def opt_vals_def fold_values split: option.splits)
qed simp

lemma known_self [simp]: "get_known env (DStr (uri (label_self env))) = Some (label_self env)"
  by (simp add: get_known_def)

lemma chain_field:
  assumes "prop_name p" and "readable env p (label_self env)"
  shows "get_localized_chain env l (uri (label_self env)) [p] = Some (field_text env l p (label_self env))"
proof -
  let ?i = "label_self env"
  have p: "p \<noteq> ''@''" "p \<noteq> []" using assms(1) by (simp_all add: prop_name_def)
  have "last_parts env l p [Some ?i] = Some (map (field_text env l p) (filter (\<lambda>i. pget i p \<noteq> None) [?i]))"
    using last_parts_known [OF p(1), of env "[?i]" l] assms(2) by simp
  moreover have "field_text env l p ?i = []" if "pget ?i p = None" using that by (simp add: field_text_def opt_vals_def)
  ultimately show ?thesis using p by (auto simp: get_localized_chain_def simp del: last_parts.simps)
qed

lemma next_self:
  assumes "p \<noteq> ''@''"
  shows "next_individuals env p [Some i] = Some (map (\<lambda>v. get_known env (vdata v)) (opt_vals (pget i p)))"
  using assms by (auto simp: hasValue_def has_prop_def opt_vals_def split: option.splits)

lemma chain_through:
  assumes "prop_name p" and "prop_name q" and "available env (Through p q)"
  shows "get_localized_chain env l (uri (label_self env)) [p, q] = Some (meaning env l (Through p q))"
proof -
  let ?vs = "opt_vals (pget (label_self env) p)"
  have p: "p \<noteq> ''@''" "p \<noteq> []" "q \<noteq> ''@''" "q \<noteq> []" using assms(1,2) by (simp_all add: prop_name_def)
  have "map (\<lambda>v. get_known env (vdata v)) ?vs = map Some (referred env p)"
    using assms(3) by (auto simp: referred_def list_all_iff)
  then have n: "next_individuals env p [Some (label_self env)] = Some (map Some (referred env p))"
    using next_self [OF p(1)] by simp
  have "last_parts env l q (map Some (referred env p))
      = Some (map (field_text env l q) (filter (\<lambda>i. pget i q \<noteq> None) (referred env p)))"
    using last_parts_known [OF p(3)] assms(3) by simp
  then show ?thesis using p n
    by (auto simp: get_localized_chain_def simp del: next_individuals.simps)
qed

lemma names_plain: "prop_name p \<Longrightarrow> CHR ''.'' \<notin> set p \<and> CHR '' '' \<notin> set p \<and> list_all no_brace p"
  by (auto simp: prop_name_def name_char_def list_all_iff)

lemma position_nat: "position (Some (show_nat n)) = int n"
proof -
  have "show_nat n = show_int (int n)" by (simp add: show_int_def)
  then show ?thesis using parse_number_int [of "int n"] by (simp add: position_def sgn_if)
qed

lemma ascii_units:
  assumes "list_all (\<lambda>c. of_char c < (128::nat)) s"
  shows "text_units s = map (\<lambda>c. [c]) s"
  using assms
proof (induction s)
  case (Cons c s)
  have "takeWhile (\<lambda>c. 128 \<le> (of_char c :: nat) \<and> (of_char c :: nat) < 192) s = []"
    and "dropWhile (\<lambda>c. 128 \<le> (of_char c :: nat) \<and> (of_char c :: nat) < 192) s = s"
    using Cons.prems by (cases s; simp)+
  then show ?case using Cons by (simp add: Let_def)
qed simp

lemma numeral_ascii: "numeral_char c \<Longrightarrow> of_char c < (128::nat)"
  by (auto simp: numeral_char_def char_in_def Let_def)

lemma substring_inner:
  assumes "list_all (\<lambda>c. of_char c < (128::nat)) s"
  shows "js_substring 1 (int (length (text_units (CHR ''('' # s @ '')''))) - 1) (CHR ''('' # s @ '')'') = s"
proof -
  have "text_units (CHR ''('' # s @ '')'') = map (\<lambda>c. [c]) (CHR ''('' # s @ '')'')"
    using assms by (intro ascii_units) simp
  then show ?thesis by (simp add: js_substring_def Let_def)
qed

lemma substring_nat: "a \<le> b \<Longrightarrow> js_substring (int a) (int b) s = concat (take (b - a) (drop a (text_units s)))"
proof -
  assume ab: "a \<le> b"
  define us n where "us = text_units s" and "n = length us"
  have "max 0 (min (int k) (int n)) = int (min k n)" for k by simp
  then have "js_substring (int a) (int b) s = concat (take (max (min a n) (min b n) - min (min a n) (min b n)) (drop (min (min a n) (min b n)) us))"
    by (simp add: js_substring_def Let_def us_def [symmetric] n_def [symmetric] flip: of_nat_min of_nat_max)
  moreover have "max (min a n) (min b n) = min b n" "min (min a n) (min b n) = min a n" using ab by auto
  moreover have "take (min b n - min a n) (drop (min a n) us) = take (b - a) (drop a us)"
  proof (cases "a \<le> n")
    case True
    then show ?thesis by (cases "b \<le> n") (auto simp: n_def min_def)
  next
    case False
    then show ?thesis using ab by (simp add: n_def)
  qed
  ultimately show ?thesis by (simp add: us_def)
qed

lemma group_field:
  assumes "prop_name p" and "readable env p (label_self env)"
  shows "replace_group env l (''@.'' @ p) = Some (field_text env l p (label_self env))"
  using names_plain [OF assms(1)] chain_field [OF assms]
  by (simp add: replace_group_def split_on_none Let_def)

lemma group_through:
  assumes "prop_name p" and "prop_name q" and "available env (Through p q)"
  shows "replace_group env l (''@.'' @ p @ ''.'' @ q) = Some (meaning env l (Through p q))"
  using names_plain [OF assms(1)] names_plain [OF assms(2)] chain_through [OF assms]
  by (simp add: replace_group_def split_on_none split_on_append Let_def del: meaning.simps)

lemma group_cut:
  assumes "prop_name p" and "a \<le> b" and "readable env p (label_self env)"
  shows "replace_group env l (''@.'' @ p @ '' ('' @ show_nat a @ '','' @ show_nat b @ '')'') = Some (meaning env l (Cut p a b))"
proof -
  let ?r = "show_nat a @ CHR '','' # show_nat b"
  have num: "numeral_char c" if "c \<in> set (show_nat n)" for c n using digits_numeral that by (auto simp: list_all_iff)
  have pl: "CHR '','' \<notin> set (show_nat n) \<and> CHR '' '' \<notin> set (show_nat n)" for n using num numeral_plain by blast
  have asc: "list_all (\<lambda>c. of_char c < (128::nat)) ?r"
    using num numeral_ascii by (auto simp: list_all_iff)
  have "split_on (CHR '' '') (''@.'' @ p @ '' ('' @ show_nat a @ '','' @ show_nat b @ '')'') = [''@.'' @ p, CHR ''('' # ?r @ '')'']"
    using split_on_append [of "CHR '' ''" "''@.'' @ p" "CHR ''('' # ?r @ '')''"]
      split_on_none [of "CHR '' ''" "CHR ''('' # ?r @ '')''"] names_plain [OF assms(1)] pl by auto
  moreover have "split_on (CHR '','') ?r = [show_nat a, show_nat b]" using pl by (simp add: split_on_append split_on_none)
  moreover have "split_on (CHR ''.'') (''@.'' @ p) = [''@'', p]" using names_plain [OF assms(1)] by (simp add: split_on_none)
  ultimately show ?thesis
    using chain_field [OF assms(1,3), of l] substring_inner [OF asc] assms(2)
    by (simp add: replace_group_def Let_def position_nat substring_nat)
qed

lemma replace_segment:
  assumes "segment_ok x" and "available env x"
  shows "replace_braces (replace_group env l) (written x @ t)
    = map_option ((@) (meaning env l x)) (replace_braces (replace_group env l) t)"
proof (cases x)
  case (Lit s)
  then show ?thesis using assms(1) by (simp add: replace_plain)
next
  case (Field p)
  then have p: "prop_name p" "readable env p (label_self env)" using assms by simp_all
  show ?thesis using replace_pair [of "''@.'' @ p" "replace_group env l" t] names_plain [OF p(1)] group_field [OF p, of l]
    by (simp add: Field)
next
  case (Through p q)
  then have p: "prop_name p" "prop_name q" using assms by simp_all
  show ?thesis using replace_pair [of "''@.'' @ p @ ''.'' @ q" "replace_group env l" t] names_plain [OF p(1)] names_plain [OF p(2)]
    group_through [OF p assms(2) [unfolded Through], of l]
    by (simp add: Through del: meaning.simps)
next
  case (Cut p a b)
  then have p: "prop_name p" "a \<le> b" "readable env p (label_self env)" using assms by simp_all
  have "list_all no_brace (show_nat n)" for n using digits_numeral [of n] by (auto simp: list_all_iff numeral_char_def char_in_def)
  then show ?thesis
    using replace_pair [of "''@.'' @ p @ '' ('' @ show_nat a @ '','' @ show_nat b @ '')''" "replace_group env l" t]
      names_plain [OF p(1)] group_cut [OF p, of l]
    by (simp add: Cut del: meaning.simps)
qed

lemma replace_pattern:
  assumes "list_all segment_ok xs" and "list_all (available env) xs"
  shows "replace_braces (replace_group env l) (concat (map written xs)) = Some (concat (map (meaning env l) xs))"
  using assms by (induction xs) (simp_all add: replace_segment)

section \<open>The label\<close>

definition pattern_of :: "label_env \<Rightarrow> val \<Rightarrow> jdata option" where
  "pattern_of env t = first_data_of (get_known env (vdata t)) ''v-s:labelPattern''"

definition labels_meant :: "label_env \<Rightarrow> string list \<Rightarrow> segment list option \<Rightarrow> val list" where
  "labels_meant env ls pat =
     (case pat of None \<Rightarrow> []
      | Some xs \<Rightarrow> map (\<lambda>l. \<lparr>vtype = TString, vdata = DStr (concat (map (meaning env l) xs)), vlang = Some l\<rparr>) ls)"

lemma has_pattern: "hasValue (get_known env (vdata t)) ''v-s:labelPattern'' None \<longleftrightarrow> pattern_of env t \<noteq> None"
  by (auto simp: pattern_of_def first_data_of_def hasValue_def has_prop_def split: option.splits list.splits)

lemma those_some: "those (map (\<lambda>x. Some (f x)) xs) = Some (map f xs)"
  by (induction xs) simp_all

lemma labels_of_pattern:
  assumes "pattern_of env t = map_option (\<lambda>xs. DStr (concat (map written xs))) pat"
    and "\<And>xs. pat = Some xs \<Longrightarrow> list_all segment_ok xs \<and> list_all (available env) xs"
  shows "labels_of_type env ls t = Some (labels_meant env ls pat)"
proof (cases pat)
  case None
  then show ?thesis using assms(1) by (simp add: labels_of_type_def has_pattern labels_meant_def)
next
  case (Some xs)
  then have "first_data_of (get_known env (vdata t)) ''v-s:labelPattern'' = Some (DStr (concat (map written xs)))"
    using assms(1) by (simp add: pattern_of_def)
  moreover have "hasValue (get_known env (vdata t)) ''v-s:labelPattern'' None" using Some assms(1) by (simp add: has_pattern)
  ultimately show ?thesis using Some assms(2)
    by (simp add: labels_of_type_def Let_def replace_pattern labels_meant_def those_some)
qed


definition person_ex :: individual where
  "person_ex = \<lparr>uri = ''d:p'', props = [(''rdf:type'', uriv ''v-s:Person''), (''v-s:firstName'', strv ''Anna''),
     (''v-s:lastName'', [\<lparr>vtype = TString, vdata = DStr ''Iwanowa'', vlang = Some ''DE''\<rparr>,
                         \<lparr>vtype = TString, vdata = DStr ''Ivanova'', vlang = Some ''en''\<rparr>]),
     (''v-s:post'', uriv ''d:j'')]\<rparr>"

definition label_world_ex :: world where
  "label_world_ex = world_of
     [\<lparr>uri = ''v-ui:AvailableLanguage'', props = [(''rdf:value'', uriv ''v-ui:EN'')]\<rparr>,
      \<lparr>uri = ''v-ui:EN'', props = [(''rdf:value'', strv ''EN'')]\<rparr>,
      \<lparr>uri = ''v-s:Person'', props = [(''v-s:labelPattern'',
         strv ''{@.v-s:lastName} {@.v-s:firstName (0,1)}. ({@.v-s:post.v-s:title})'')]\<rparr>,
      \<lparr>uri = ''d:j'', props = [(''v-s:title'', strv ''Chief'')]\<rparr>]"

definition label_ex :: label_env where
  "label_ex = \<lparr>label_world = label_world_ex, label_self = person_ex, label_offset = (\<lambda>t. 0), label_parse = (\<lambda>s. None)\<rparr>"

definition pattern_ex :: "segment list" where
  "pattern_ex = [Field ''v-s:lastName'', Lit '' '', Cut ''v-s:firstName'' 0 1, Lit ''. ('', Through ''v-s:post'' ''v-s:title'', Lit '')'']"

lemma known_ex:
  "get_known label_ex (DStr u) = (if u = ''d:p'' then Some person_ex else lookup label_world_ex (DStr u))"
  by (simp add: get_known_def label_ex_def person_ex_def)

lemma label_lookups:
  "lookup label_world_ex (DStr ''v-ui:AvailableLanguage'') = Some \<lparr>uri = ''v-ui:AvailableLanguage'', props = [(''rdf:value'', uriv ''v-ui:EN'')]\<rparr>"
  "lookup label_world_ex (DStr ''v-ui:EN'') = Some \<lparr>uri = ''v-ui:EN'', props = [(''rdf:value'', strv ''EN'')]\<rparr>"
  "lookup label_world_ex (DStr ''v-s:Person'') = Some \<lparr>uri = ''v-s:Person'', props = [(''v-s:labelPattern'',
         strv ''{@.v-s:lastName} {@.v-s:firstName (0,1)}. ({@.v-s:post.v-s:title})'')]\<rparr>"
  "lookup label_world_ex (DStr ''d:j'') = Some \<lparr>uri = ''d:j'', props = [(''v-s:title'', strv ''Chief'')]\<rparr>"
  unfolding label_world_ex_def by (simp_all add: lookup_world_of plain_def)

lemma person_lookups:
  "pget person_ex ''rdf:type'' = Some (uriv ''v-s:Person'')" "pget person_ex ''v-s:firstName'' = Some (strv ''Anna'')"
  "pget person_ex ''v-s:post'' = Some (uriv ''d:j'')"
  "pget person_ex ''v-s:lastName'' = Some [\<lparr>vtype = TString, vdata = DStr ''Iwanowa'', vlang = Some ''DE''\<rparr>,
     \<lparr>vtype = TString, vdata = DStr ''Ivanova'', vlang = Some ''en''\<rparr>]"
  "label_self label_ex = person_ex"
  by (simp_all add: person_ex_def label_ex_def)


end
