(* ===== verification/Search.thy ===== *)
theory Search
  imports Batch Client_Props Query_Builder
begin

text \<open>
  The full text search of the controls: \<open>ftQuery\<close> of \<^verbatim>\<open>public/js/browser/veda_controls.js\<close>. The server
  that answers a query, the cache of individuals and the server that gives individuals are arguments.
\<close>

section \<open>The query\<close>

definition ft_line :: "string \<Rightarrow> string" where
  "ft_line l =
     (if has_text ''=='' l \<and> \<not> starts_with ''=='' l then l
      else join '' && '' (map (\<lambda>w. quote @ ''*'' @ quote @ '' == '' @ quote @ w @ ''*'' @ quote) (filter (\<lambda>w. w \<noteq> []) (line_words l))))"

definition ft_input :: "string \<Rightarrow> string" where
  "ft_input input =
     (let t = strip input
      in if t = [] then []
         else join '' || '' (filter (\<lambda>q. q \<noteq> []) (map ft_line (filter (\<lambda>l. l \<noteq> []) (split_on (char_of (10 :: nat)) t)))))"

definition ft_string :: "string \<Rightarrow> string \<Rightarrow> string" where
  "ft_string prefix input =
     (let q = ft_input input
      in if prefix = [] then q
         else if q \<noteq> [] then ''('' @ prefix @ '') && ('' @ q @ '')'' else ''('' @ prefix @ '')'')"

definition ft_deleted :: "string \<Rightarrow> string" where
  "ft_deleted q = q @ '' && ('' @ quote @ ''v-s:deleted'' @ quote @ '' == true )''"

section \<open>The results\<close>

text \<open>Pages of results until there are \<open>limit\<close> of them or no more; a search without an end has no result.\<close>

partial_function (option) incrementalSearch :: "(int \<Rightarrow> 'a page_of) \<Rightarrow> int \<Rightarrow> nat \<Rightarrow> 'a list \<Rightarrow> 'a list option" where
  "incrementalSearch server cursor limit results =
     (let pg = server cursor; rs = results @ pg_result pg
      in if length rs \<ge> limit \<or> pg_cursor pg \<ge> pg_estimated pg then Some rs
         else incrementalSearch server (pg_cursor pg) limit rs)"

text \<open>What is cached stays in its place, the answers of the server go into the holes from left to right.\<close>

definition ft_results :: "(string \<Rightarrow> 'b option) \<Rightarrow> (string list \<Rightarrow> 'b list) \<Rightarrow> string list \<Rightarrow> 'b list" where
  "ft_results cached ask uris =
     (let us = unique uris; getList = filter (\<lambda>u. cached u = None) us
      in List.map_filter (\<lambda>x. x) (fill (map cached us) (if getList = [] then [] else ask getList)))"

definition ftQuery ::
  "(string \<Rightarrow> int \<Rightarrow> string page_of) \<Rightarrow> (string \<Rightarrow> 'b option) \<Rightarrow> (string list \<Rightarrow> 'b list)
   \<Rightarrow> string \<Rightarrow> string \<Rightarrow> bool \<Rightarrow> 'b list option" where
  "ftQuery server cached ask prefix input withDeleted =
     (let q = ft_string prefix input
      in case incrementalSearch (server q) 0 100 [] of
           None \<Rightarrow> None
         | Some rs \<Rightarrow>
             (case (if withDeleted then incrementalSearch (server (ft_deleted q)) 0 100 rs else Some rs) of
                None \<Rightarrow> None
              | Some rs2 \<Rightarrow> Some (ft_results cached ask rs2)))"

section \<open>What is found\<close>

lemma search_pages:
  assumes "pages server xs" and "n < length xs"
  shows "\<exists>k. n \<le> k \<and> k \<le> length xs \<and> (k = length xs \<or> 100 \<le> length ys + (k - n))
    \<and> incrementalSearch server (int n) 100 ys = Some (ys @ take (k - n) (drop n xs))"
  using assms(2)
proof (induction "length xs - n" arbitrary: n ys rule: less_induct)
  case less
  obtain k where k: "0 < k" "n + k \<le> length xs"
      "server (int n) = \<lparr>pg_result = take k (drop n xs), pg_cursor = int (n + k), pg_estimated = int (length xs)\<rparr>"
    using assms(1) less(2) unfolding pages_def by blast
  let ?zs = "ys @ take k (drop n xs)"
  have len: "length ?zs = length ys + k" using k(2) by simp
  show ?case
  proof (cases "100 \<le> length ?zs \<or> n + k = length xs")
    case True
    have "incrementalSearch server (int n) 100 ys = Some ?zs"
      using True k by (subst incrementalSearch.simps) auto
    then show ?thesis using True k(1,2) len by (intro exI [of _ "n + k"]) auto
  next
    case False
    then have lt: "n + k < length xs" using k(2) by simp
    have step: "incrementalSearch server (int n) 100 ys = incrementalSearch server (int (n + k)) 100 ?zs"
      using False lt k(3) by (subst incrementalSearch.simps) auto
    have "length xs - (n + k) < length xs - n" using k(1) less(2) by simp
    from less(1) [OF this lt, of ?zs] obtain j where j: "n + k \<le> j" "j \<le> length xs"
        "j = length xs \<or> 100 \<le> length ?zs + (j - (n + k))"
        "incrementalSearch server (int (n + k)) 100 ?zs = Some (?zs @ take (j - (n + k)) (drop (n + k) xs))"
      by blast
    have "take (j - n) (drop n xs) = take k (drop n xs) @ take (j - (n + k)) (drop (n + k) xs)"
      using j(1) take_add [of k "j - (n + k)" "drop n xs"] by (simp add: add.commute)
    then show ?thesis using j step len by (intro exI [of _ j]) auto
  qed
qed

lemma search_ends:
  assumes "pages server xs"
  shows "\<exists>k \<le> length xs. (k = length xs \<or> 100 \<le> length ys + k) \<and> incrementalSearch server 0 100 ys = Some (ys @ take k xs)"
proof (cases "xs = []")
  case True
  then have "server 0 = \<lparr>pg_result = [], pg_cursor = 0, pg_estimated = 0\<rparr>" using assms by (simp add: pages_def)
  then show ?thesis using True by (subst incrementalSearch.simps) simp
next
  case False
  then show ?thesis using search_pages [OF assms, of 0 ys] by auto
qed

lemma filled_results:
  assumes "\<And>us. ask us = map g us"
  shows "ft_results cached ask uris = map (\<lambda>u. case cached u of Some x \<Rightarrow> x | None \<Rightarrow> g u) (unique uris)"
proof -
  let ?us = "unique uris" and ?h = "\<lambda>u. case cached u of Some x \<Rightarrow> x | None \<Rightarrow> g u"
  have "fill (map cached ?us) (map g (filter (\<lambda>u. cached u = None) ?us)) = map (\<lambda>u. Some (?h u)) ?us"
    using fill_map [of "map g (filter (\<lambda>u. cached u = None) ?us)" cached ?us g] by simp
  moreover have "List.map_filter (\<lambda>x. x) (map (\<lambda>u. Some (?h u)) us) = map ?h us" for us
    by (induction us) (simp_all add: List.map_filter_simps)
  moreover have "(if filter (\<lambda>u. cached u = None) ?us = [] then [] else ask (filter (\<lambda>u. cached u = None) ?us))
      = map g (filter (\<lambda>u. cached u = None) ?us)" using assms by simp
  ultimately show ?thesis by (simp add: ft_results_def Let_def)
qed


definition server_ex :: "string \<Rightarrow> int \<Rightarrow> string page_of" where
  "server_ex q from =
     (let xs = (if q = ''(p) && ('' @ quote @ ''*'' @ quote @ '' == '' @ quote @ ''w*'' @ quote @ '')'' then [''d:a'', ''d:b'', ''d:a''] else [])
      in \<lparr>pg_result = take 1 (drop (nat from) xs), pg_cursor = (if from < int (length xs) then from + 1 else from), pg_estimated = int (length xs)\<rparr>)"


end
