(* ===== verification/Controls.thy ===== *)
theory Controls
  imports Router Client_Backend
begin

text \<open>
  The controls of forms, \<^verbatim>\<open>public/js/browser/veda_controls.js\<close>: what a control shows of a property
  and what its events do to the individual. What is drawn is jQuery; the events are the operations.
\<close>

section \<open>Parsers\<close>

text \<open>
  \<open>parseFloat\<close> reads the longest numeral at the start: digits with a point, and an exponent. (It also
  reads \<open>Infinity\<close>, which no value of the model is.)
\<close>

definition scaled :: "int \<Rightarrow> nat \<Rightarrow> int \<Rightarrow> int \<times> nat" where
  "scaled m e x = (if int e \<le> x then (m * 10 ^ nat (x - int e), 0) else (m, nat (int e - x)))"

definition read_exponent :: "string \<Rightarrow> int" where
  "read_exponent r =
     (case r of
        c # cs \<Rightarrow>
          if c = CHR ''e'' \<or> c = CHR ''E''
          then (let neg = cs \<noteq> [] \<and> hd cs = CHR ''-'';
                    ds = takeWhile is_digit (if cs \<noteq> [] \<and> (hd cs = CHR ''-'' \<or> hd cs = CHR ''+'') then tl cs else cs)
                in (if neg then -1 else 1) * int (read_digits 0 ds))
          else 0
      | [] \<Rightarrow> 0)"

definition parse_float :: "string \<Rightarrow> (int \<times> nat) option" where
  "parse_float s =
     (let t = dropWhile is_space s;
          neg = (t \<noteq> [] \<and> hd t = CHR ''-'');
          u = (if t \<noteq> [] \<and> (hd t = CHR ''-'' \<or> hd t = CHR ''+'') then tl t else t);
          whole = takeWhile is_digit u; r = dropWhile is_digit u;
          point = (r \<noteq> [] \<and> hd r = CHR ''.'');
          frac = (if point then takeWhile is_digit (tl r) else []);
          r2 = (if point then dropWhile is_digit (tl r) else r)
      in if whole @ frac = [] then None
         else Some (scaled ((if neg then -1 else 1) * int (read_digits 0 (whole @ frac))) (length frac) (read_exponent r2)))"

definition parse_integer :: "string \<Rightarrow> mval" where
  "parse_integer s = (case parse_int_str False (plain_numeral s) of None \<Rightarrow> MNull | Some n \<Rightarrow> MNum n)"

definition parse_numeration :: "string \<Rightarrow> mval" where
  "parse_numeration s = (case parse_int_str False (plain_numeral s) of None \<Rightarrow> MNull | Some n \<Rightarrow> MText (show_int n))"

definition parse_decimal :: "string \<Rightarrow> mval" where
  "parse_decimal s = (case parse_float (plain_numeral s) of None \<Rightarrow> MNull | Some x \<Rightarrow> mval_of_number x)"

definition parse_string :: "string \<Rightarrow> mval" where
  "parse_string s = (if s = [] then MNull else MTextObj s None)"

definition parse_literal :: "string \<Rightarrow> mval" where
  "parse_literal s = (if s = [] then MNull else MText s)"

text \<open>\<open>sha\<close> is the hash of a password; a text of 64 units counts as a hash already.\<close>

definition parse_password :: "(string \<Rightarrow> string) \<Rightarrow> string \<Rightarrow> mval" where
  "parse_password sha s =
     (if utf16_length s = 64 then MTextObj s None else if s \<noteq> [] then MTextObj (sha s) None else MNull)"

text \<open>\<open>read_date\<close> is the strict reading of the four formats by \<^verbatim>\<open>moment\<close>, \<open>known\<close> as in \<open>parse_value\<close>.\<close>

definition parse_generic :: "(string \<Rightarrow> int option) \<Rightarrow> (string \<Rightarrow> bool) \<Rightarrow> string \<Rightarrow> mval" where
  "parse_generic read_date known s =
     (if strip s = [] then MNull
      else (case read_date s of
              Some t \<Rightarrow> MDate t
            | None \<Rightarrow>
                (case parse_number (plain_numeral s) of
                   Some x \<Rightarrow> mval_of_number x
                 | None \<Rightarrow>
                     if s = ''true'' then MBool True
                     else if s = ''false'' then MBool False
                     else if known s then MRef s else MText s)))"

section \<open>Controls of literals\<close>

text \<open>
  What the controls share: the text of a Date and \<open>Date.parse\<close> of the model, the languages the user
  reads, the text of a Date and of an individual in a form, the property, its parser, and whether
  it shows a single value.
\<close>

record control =
  ct_str :: "int \<Rightarrow> string"
  ct_parse :: "string \<Rightarrow> int"
  ct_languages :: "string list"
  ct_date :: "int \<Rightarrow> string"
  ct_label :: "string \<Rightarrow> string"
  ct_prop :: string
  ct_parser :: "string \<Rightarrow> mval"
  ct_single :: bool

definition control_values :: "control \<Rightarrow> imodel \<Rightarrow> mval list" where
  "control_values c m = get_values (ct_str c) (ct_parse c) m (ct_prop c)"

definition control_set :: "control \<Rightarrow> mval list \<Rightarrow> imodel \<Rightarrow> imodel" where
  "control_set c vs m = set_value (ct_str c) (ct_prop c) vs False m"

definition shown_text :: "control \<Rightarrow> imodel \<Rightarrow> string" where
  "shown_text c m =
     (case control_values c m of
        [] \<Rightarrow> []
      | v # _ \<Rightarrow> (case formatValue (ct_languages c) (ct_date c) (ct_label c) v of None \<Rightarrow> [] | Some s \<Rightarrow> s))"

text \<open>The text of the field, and the individual.\<close>

type_synonym field = "string \<times> imodel"

definition propertyModifiedHandler :: "control \<Rightarrow> field \<Rightarrow> field" where
  "propertyModifiedHandler c st = (if ct_single c then (shown_text c (snd st), snd st) else st)"

text \<open>The handler runs if \<open>set\<close> announces a change, that is if the event was triggered.\<close>

definition changeHandler :: "control \<Rightarrow> field \<Rightarrow> field" where
  "changeHandler c st =
     (let v = ct_parser c (fst st); m = snd st;
          m1 = control_set c (if ct_single c then [v] else control_values c m @ [v]) m;
          st1 = (if events m1 = events m then (fst st, m1) else propertyModifiedHandler c (fst st, m1))
      in if ct_single c then st1 else ([], snd st1))"

definition opened :: "control \<Rightarrow> imodel \<Rightarrow> field" where
  "opened c m = propertyModifiedHandler c ([], m)"

section \<open>Working time\<close>

text \<open>
  Days of 480 minutes, hours and minutes. \<open>None\<close>: the fields hold NaN. An empty text leaves them.
\<close>

definition fillPseudoInput :: "string \<Rightarrow> (int \<times> int \<times> int) option \<Rightarrow> (int \<times> int \<times> int) option" where
  "fillPseudoInput s old =
     (if s = [] then old
      else map_option (\<lambda>t.
        let days = (if t \<noteq> 0 then t div 480 else 0); t1 = t - days * 480;
            hours = (if t1 \<noteq> 0 then t1 div 60 else 0)
        in (days, hours, t1 - hours * 60)) (parse_int_str False (plain_numeral s)))"

definition fillMainInput :: "int \<times> int \<times> int \<Rightarrow> string" where
  "fillMainInput x = (case x of (d, h, m) \<Rightarrow> show_int (d * 480 + h * 60 + m * 1))"

section \<open>Texts in several languages\<close>

text \<open>The language of a value as the controls read it; an empty one is none.\<close>

definition language_of :: "mval \<Rightarrow> string option" where
  "language_of v = (case v of MTextObj s (Some l) \<Rightarrow> if l = [] then None else Some l | _ \<Rightarrow> None)"

definition value_string :: "control \<Rightarrow> mval \<Rightarrow> string" where
  "value_string c v =
     (case v of
        MTextObj s l \<Rightarrow> s | MText s \<Rightarrow> s | MRef u \<Rightarrow> ct_label c u | MDate t \<Rightarrow> ct_str c t
      | MNum n \<Rightarrow> js_str (ct_str c) (DNum n) | MDec m e \<Rightarrow> js_str (ct_str c) (DDec m e) | MNaN \<Rightarrow> ''NaN''
      | MBool b \<Rightarrow> (if b then ''true'' else ''false'') | _ \<Rightarrow> [])"

text \<open>One field per language of the user, filled with the last value that fits.\<close>

definition fill_field :: "control \<Rightarrow> string \<Rightarrow> string \<Rightarrow> mval list \<Rightarrow> string" where
  "fill_field c l t vs =
     foldl (\<lambda>t v. if language_of v = Some l \<or> language_of v = None then value_string c v else t) t vs"

type_synonym fields = "(string \<times> string) list"

definition multilingual_opened :: "control \<Rightarrow> imodel \<Rightarrow> fields" where
  "multilingual_opened c m = map (\<lambda>l. (l, fill_field c l [] (control_values c m))) (ct_languages c)"

definition multilingual_modified :: "control \<Rightarrow> imodel \<Rightarrow> fields \<Rightarrow> fields" where
  "multilingual_modified c m fs = map (\<lambda>(l, t). (l, fill_field c l t (control_values c m))) fs"

definition multilingual_parser :: "string \<times> string \<Rightarrow> mval option" where
  "multilingual_parser f =
     (case f of (l, t) \<Rightarrow> if t = [] then None else Some (MTextObj t (if l = [] then None else Some l)))"

definition multilingual_change :: "control \<Rightarrow> fields \<times> imodel \<Rightarrow> fields \<times> imodel" where
  "multilingual_change c st =
     (let m1 = control_set c (List.map_filter multilingual_parser (fst st)) (snd st)
      in if events m1 = events (snd st) then (fst st, m1) else (multilingual_modified c m1 (fst st), m1))"

section \<open>Boxes and options\<close>

text \<open>The three states of a box; \<open>readonly\<close> and \<open>indeterminate\<close> always change together.\<close>

record box =
  bx_checked :: bool
  bx_readonly :: bool

definition boolean_handler :: "control \<Rightarrow> imodel \<Rightarrow> box \<Rightarrow> box" where
  "boolean_handler c m b =
     (case control_values c m of
        [] \<Rightarrow> b\<lparr>bx_readonly := True\<rparr>
      | v # _ \<Rightarrow> \<lparr>bx_checked = (v = MBool True), bx_readonly = False\<rparr>)"

text \<open>The browser has changed the box before the handler of the click runs.\<close>

definition boolean_click :: "control \<Rightarrow> box \<times> imodel \<Rightarrow> box \<times> imodel" where
  "boolean_click c st =
     (let b = (fst st)\<lparr>bx_checked := \<not> bx_checked (fst st)\<rparr>;
          m = control_set c (if bx_readonly b then [MBool False] else if \<not> bx_checked b then [] else [MBool True]) (snd st)
      in (if events m = events (snd st) then b else boolean_handler c m b, m))"

definition present_value :: "mval \<Rightarrow> mval list option" where
  "present_value v = (if v = MNull \<or> v = MUndef then None else Some [v])"

definition select_change :: "control \<Rightarrow> mval \<Rightarrow> imodel \<Rightarrow> imodel" where
  "select_change c v m =
     (if ct_single c then control_set c [v] m
      else if has_value m (ct_prop c) v then m else add_value (ct_prop c) (present_value v) False m)"

definition checkbox_change :: "control \<Rightarrow> bool \<Rightarrow> mval \<Rightarrow> imodel \<Rightarrow> imodel" where
  "checkbox_change c checked v m =
     (if checked then add_value (ct_prop c) (present_value v) False m
      else remove_value (ct_prop c) (present_value v) False m)"

definition radio_change :: "control \<Rightarrow> bool \<Rightarrow> mval \<Rightarrow> imodel \<Rightarrow> imodel" where
  "radio_change c checked v m =
     (if checked then control_set c [v] m else remove_value (ct_prop c) (present_value v) False m)"

definition booleanRadio_change :: "control \<Rightarrow> bool \<Rightarrow> bool \<Rightarrow> imodel \<Rightarrow> imodel" where
  "booleanRadio_change c checked b m =
     control_set c (if checked then [MBool b] else filter (\<lambda>v. v \<noteq> MBool b) (control_values c m)) m"

text \<open>The boxes of a group, drawn and redrawn from the property; at most 100 are drawn.\<close>

definition group_boxes :: "control \<Rightarrow> mval list \<Rightarrow> imodel \<Rightarrow> bool list" where
  "group_boxes c options m = map (has_value m (ct_prop c)) (take 100 options)"

section \<open>The control of links\<close>

text \<open>
  \<open>lk_marked\<close> are the suggestions of class \<open>selected\<close>, \<open>lk_selected\<close> the variable \<open>selected\<close>. A suggestion is
  the individual with its id, so it is found among the selected ones by its id.
\<close>

record link =
  lk_model :: imodel
  lk_selected :: "mval list"
  lk_suggestions :: "string list"
  lk_marked :: "string list"
  lk_menu :: bool

definition link_set :: "control \<Rightarrow> mval list \<Rightarrow> link \<Rightarrow> link" where
  "link_set c vs st = st\<lparr>lk_model := control_set c vs (lk_model st)\<rparr>"

definition link_select :: "control \<Rightarrow> mval list \<Rightarrow> imodel \<Rightarrow> imodel" where
  "link_select c sel m =
     (if ct_single c then control_set c (case sel of [] \<Rightarrow> [MUndef] | v # _ \<Rightarrow> [v]) m
      else (let old = control_values c m
            in control_set c (old @ filter (\<lambda>v. \<not> (is_MRef v \<and> v \<in> set old)) sel) m))"

definition renderResults :: "control \<Rightarrow> string list \<Rightarrow> link \<Rightarrow> link" where
  "renderResults c results st =
     st\<lparr>lk_suggestions := results, lk_selected := control_values c (lk_model st),
        lk_marked := filter (\<lambda>u. has_value (lk_model st) (ct_prop c) (MRef u)) results,
        lk_menu := (results \<noteq> [])\<rparr>"

definition toggle_mark :: "bool \<Rightarrow> string \<Rightarrow> string list \<Rightarrow> string list" where
  "toggle_mark single u marked =
     (let ms = (if u \<in> set marked then filter (\<lambda>x. x \<noteq> u) marked else marked @ [u])
      in if single then filter (\<lambda>x. x = u) ms else ms)"

definition clickHandler :: "control \<Rightarrow> string \<Rightarrow> link \<Rightarrow> link" where
  "clickHandler c u st =
     (let st1 = st\<lparr>lk_marked := toggle_mark (ct_single c) u (lk_marked st)\<rparr>
      in if MRef u \<in> set (lk_selected st)
         then (if ct_single c then link_set c [MRef u] (st1\<lparr>lk_menu := False\<rparr>)
               else st1\<lparr>lk_selected := filter (\<lambda>v. v \<noteq> MRef u) (lk_selected st)\<rparr>)
         else (if ct_single c then link_set c [MRef u] (st1\<lparr>lk_selected := [MRef u], lk_menu := False\<rparr>)
               else st1\<lparr>lk_selected := lk_selected st @ [MRef u]\<rparr>))"

definition close_menu :: "control \<Rightarrow> link \<Rightarrow> link" where
  "close_menu c st = (link_set c (lk_selected st) st)\<lparr>lk_menu := False\<rparr>"

definition dblclickHandler :: "control \<Rightarrow> string \<Rightarrow> link \<Rightarrow> link" where
  "dblclickHandler c u st = close_menu c (if u \<in> set (lk_marked st) then st else clickHandler c u st)"

definition clickOutsideMenuHandler :: "control \<Rightarrow> link \<Rightarrow> link" where
  "clickOutsideMenuHandler c st = (if lk_menu st then close_menu c st else st)"

text \<open>The buttons of the header click all suggestions, the selected or the other ones.\<close>

definition clicks :: "control \<Rightarrow> string list \<Rightarrow> link \<Rightarrow> link" where
  "clicks c us st = foldl (\<lambda>st u. clickHandler c u st) st us"

definition select_all :: "control \<Rightarrow> link \<Rightarrow> link" where
  "select_all c st = clicks c (filter (\<lambda>u. u \<notin> set (lk_marked st)) (lk_suggestions st)) st"

definition cancel_selection :: "control \<Rightarrow> link \<Rightarrow> link" where
  "cancel_selection c st = clicks c (filter (\<lambda>u. u \<in> set (lk_marked st)) (lk_suggestions st)) st"

definition invert_selection :: "control \<Rightarrow> link \<Rightarrow> link" where
  "invert_selection c st = clicks c (lk_suggestions st) st"

definition link_clear :: "control \<Rightarrow> link \<Rightarrow> link" where
  "link_clear c st =
     st\<lparr>lk_selected := [], lk_suggestions := [], lk_marked := [], lk_model := clear_value (ct_prop c) False (lk_model st)\<rparr>"

text \<open>The text of the field was deleted (the handler waits 750 ms).\<close>

definition link_emptied :: "control \<Rightarrow> link \<Rightarrow> link" where
  "link_emptied c st =
     st\<lparr>lk_suggestions := [], lk_marked := [], lk_menu := False,
        lk_model := (if ct_single c then clear_value (ct_prop c) False (lk_model st) else lk_model st)\<rparr>"

section \<open>The control of actors\<close>

datatype actor_type = Appointment | Person | Position | Department

fun actor_property :: "actor_type \<Rightarrow> string option" where
  "actor_property Appointment = None"
| "actor_property Person = Some ''v-s:employee''"
| "actor_property Position = Some ''v-s:occupation''"
| "actor_property Department = Some ''v-s:parentUnit''"

fun actor_class :: "actor_type \<Rightarrow> string" where
  "actor_class Appointment = ''v-s:Appointment''"
| "actor_class Person = ''v-s:Person''"
| "actor_class Position = ''v-s:Position''"
| "actor_class Department = ''v-s:Department''"

text \<open>
  The value an appointment is replaced by; \<open>None\<close> is the TypeError if it has none. A value that is neither an
  appointment nor of the chosen class is \<open>undefined\<close>. \<open>fetch\<close> is what an individual holds.
\<close>

definition actor_value :: "control \<Rightarrow> (string \<Rightarrow> imodel) \<Rightarrow> actor_type \<Rightarrow> mval \<Rightarrow> mval option" where
  "actor_value c fetch a v =
     (case actor_property a of
        None \<Rightarrow> Some v
      | Some p \<Rightarrow>
          (case v of
             MRef u \<Rightarrow>
               if has_value (fetch u) ''rdf:type'' (MText ''v-s:Appointment'')
               then (case get_values (ct_str c) (ct_parse c) (fetch u) p of x # _ \<Rightarrow> if is_MRef x then Some x else None | [] \<Rightarrow> None)
               else if has_value (fetch u) ''rdf:type'' (MText (actor_class a)) then Some v else Some MUndef
           | _ \<Rightarrow> None))"

definition actor_target :: "control \<Rightarrow> bool \<Rightarrow> actor_type \<Rightarrow> string" where
  "actor_target c complex a =
     (case actor_property a of
        None \<Rightarrow> ct_prop c | Some p \<Rightarrow> if complex then ct_prop c @ ''.'' @ p else ct_prop c)"

definition actor_cleared :: "control \<Rightarrow> bool \<Rightarrow> imodel \<Rightarrow> imodel" where
  "actor_cleared c complex m =
     (let m1 = clear_value (ct_prop c) False m
      in if complex
         then clear_value (ct_prop c @ ''.v-s:parentUnit'') False
               (clear_value (ct_prop c @ ''.v-s:occupation'') False
                 (clear_value (ct_prop c @ ''.v-s:employee'') False m1))
         else m1)"

text \<open>\<open>setValue\<close>: the properties are cleared first; after an exception they stay cleared.\<close>

definition actor_setValue :: "control \<Rightarrow> (string \<Rightarrow> imodel) \<Rightarrow> bool \<Rightarrow> actor_type \<Rightarrow> mval list \<Rightarrow> imodel \<Rightarrow> imodel" where
  "actor_setValue c fetch complex a vs m =
     (let m1 = actor_cleared c complex m
      in case those (map (actor_value c fetch a) vs) of
           None \<Rightarrow> m1
         | Some xs \<Rightarrow> set_value (ct_str c) (actor_target c complex a) xs False m1)"

end
