(* ===== verification/Control_Props.thy ===== *)
theory Control_Props
  imports Controls Router_Props Individual_Props
begin

text \<open>
  What controls do to the values they show: leaving one untouched, the three states of a box,
  groups of boxes, and the choice of links.
\<close>

section \<open>A control that is left untouched\<close>

lemma parse_show_int_plain: "parse_int_str False (show_int i) = Some i"
proof -
  have u: "parse_unsigned False (show_nat n) = Some n" for n
    using show_nat_nonempty [of n] show_nat_list_all [of n] read_show_nat [of n]
    by (cases "show_nat n") (auto simp: parse_unsigned_def)
  have s: "parse_int_str False (show_nat n) = Some (int n)" for n
  proof -
    obtain c cs where s: "show_nat n = c # cs" using show_nat_nonempty [of n] by (cases "show_nat n") auto
    have "48 \<le> (of_char c :: nat)" using digit_bounds [of c n] s by simp
    then have "\<not> is_space c" and "c \<noteq> CHR ''-''" and "c \<noteq> CHR ''+''" by (auto simp: is_space_def)
    then show ?thesis using u [of n] by (simp add: parse_int_str_def s)
  qed
  show ?thesis using s [of "nat i"] u [of "nat (- i)"] by (simp add: show_int_def parse_int_str_def is_space_def)
qed

lemma plain_int: "plain_numeral (formatNumber (DNum n)) = show_int n"
  using plain_group [of "show_int n"] digits_numeral by (simp add: formatNumber_def show_int_def numeral_char_def)

lemma parse_integer_shown: "parse_integer (formatNumber (DNum n)) = MNum n"
  by (simp add: parse_integer_def plain_int parse_show_int_plain)

lemma parse_decimal_shown:
  assumes r: "reduced m e"
  shows "parse_decimal (formatNumber (DDec m e)) = MDec m e"
proof -
  obtain w f where d: "dec_str m e = (if m < 0 then ''-'' else []) @ w @ CHR ''.'' # f" and wf: "w \<noteq> []" "length f = e"
    and wfd: "list_all (\<lambda>c. char_digit c \<noteq> None) w" "list_all (\<lambda>c. char_digit c \<noteq> None) f"
    and num: "read_digits 0 (w @ f) = nat \<bar>m\<bar>"
    using dec_str_parts [OF r] by metis
  note dg = wfd [simplified digit_is_digit]
  have dd: "dropWhile is_space (dec_str m e) = dec_str m e"
    using dec_numeral [OF r] numeral_plain by (cases "dec_str m e") auto
  have hw: "hd w \<noteq> CHR ''-''" "hd w \<noteq> CHR ''+''" using dg(1) wf(1) by (cases w; auto simp: char_in_def)+
  have dot: "\<not> is_digit CHR ''.''" by (simp add: char_in_def)
  have tw: "takeWhile is_digit (w @ CHR ''.'' # f) = w" "dropWhile is_digit (w @ CHR ''.'' # f) = CHR ''.'' # f"
    using dg(1) dot by (induction w) auto
  have tf: "takeWhile is_digit f = f" "dropWhile is_digit f = []" using dg(2) by (induction f) auto
  have sc: "scaled x e 0 = (x, e)" for x using r by (simp add: scaled_def reduced_def)
  have "parse_float (dec_str m e) = Some ((if m < 0 then -1 else 1) * int (nat \<bar>m\<bar>), e)"
    using hw wf num by (simp add: parse_float_def dd) (simp add: d Let_def tw tf sc read_exponent_def dot dg [unfolded list_all_iff])
  then show ?thesis
    using plain_group [OF dec_numeral [OF r]] r
    by (simp add: parse_decimal_def formatNumber_def mval_of_number_def reduced_def)
qed

text \<open>Texts that the model stores as texts\<close>

definition plain_words :: "string \<Rightarrow> bool" where
  "plain_words s \<longleftrightarrow> s \<noteq> [] \<and> \<not> reg_uri s \<and> \<not> reg_date s \<and> ml_split s = None"

lemma ser_plain: "plain_words s \<Longrightarrow> ser_text s l =
    \<lparr>vtype = TString, vdata = DStr s, vlang = Some (case l of None \<Rightarrow> ''NONE'' | Some x \<Rightarrow> if x = [] then ''NONE'' else x)\<rparr>"
  by (simp add: plain_words_def ser_text_def)

lemma control_set_vals: "mvals (control_set c vs m) (ct_prop c)
    = unique_vals (ct_str c) [] (List.map_filter serializer (filter kept_value vs))"
  by (simp add: control_set_def mvals_set_value)

lemma control_set_same:
  "unique_vals (ct_str c) [] (List.map_filter serializer (filter kept_value vs)) = mvals m (ct_prop c) \<Longrightarrow>
   control_set c vs m = m\<lparr>isSync := False\<rparr>"
  by (simp add: control_set_def set_value_def)

lemma changed_model: "ct_single c \<Longrightarrow> snd (changeHandler c (t, m)) = control_set c [ct_parser c t] m"
  by (simp add: changeHandler_def Let_def propertyModifiedHandler_def)

lemma opened_single: "ct_single c \<Longrightarrow> opened c m = (shown_text c m, m)"
  by (simp add: opened_def propertyModifiedHandler_def)

definition readable_lang :: "control \<Rightarrow> string option \<Rightarrow> bool" where
  "readable_lang c l \<longleftrightarrow> (case l of None \<Rightarrow> True | Some x \<Rightarrow> x = [] \<or> x = ''NONE'' \<or> x \<in> set (ct_languages c))"

text \<open>C32: A control for a single value that is opened and left without a change keeps an integer and a
  decimal fraction (of an integer and a decimal control), and announces nothing. A control for texts does
  not keep a text: it takes away its language, every further value of the property, and the
  text itself if its language is none of those the user reads.\<close>

theorem untouched_control:
  fixes c :: control and m :: imodel
  assumes "ct_single c"
  defines "left \<equiv> snd (changeHandler c (opened c m))"
  shows "(ct_parser c = parse_integer \<and> mvals m (ct_prop c) = [mkv TInteger (DNum n)] \<longrightarrow> left = m\<lparr>isSync := False\<rparr>)
    \<and> (ct_parser c = parse_decimal \<and> mvals m (ct_prop c) = [mkv TDecimal (DDec a e)] \<and> reduced a e \<longrightarrow> left = m\<lparr>isSync := False\<rparr>)
    \<and> (ct_parser c = parse_string \<and> mvals m (ct_prop c) = \<lparr>vtype = TString, vdata = DStr s, vlang = l\<rparr> # vs \<and> plain_words s \<longrightarrow>
        mvals left (ct_prop c) = (if readable_lang c l then [\<lparr>vtype = TString, vdata = DStr s, vlang = Some ''NONE''\<rparr>] else []))"
proof (intro conjI impI; (elim conjE)?)
  have left: "left = control_set c [ct_parser c (shown_text c m)] m"
    by (simp add: left_def opened_single [OF assms(1)] changed_model [OF assms(1)])
  { assume p: "ct_parser c = parse_integer" and v: "mvals m (ct_prop c) = [mkv TInteger (DNum n)]"
    have "shown_text c m = formatNumber (DNum n)"
      using v by (simp add: shown_text_def control_values_def get_values_def parser_def formatValue_def)
    then show "left = m\<lparr>isSync := False\<rparr>" using p v unfolding left
      by (intro control_set_same) (simp add: parse_integer_shown kept_value_def List.map_filter_simps) }
  { assume p: "ct_parser c = parse_decimal" and v: "mvals m (ct_prop c) = [mkv TDecimal (DDec a e)]" and r: "reduced a e"
    have "shown_text c m = formatNumber (DDec a e)"
      using v by (simp add: shown_text_def control_values_def get_values_def parser_def formatValue_def)
    moreover have "a mod 10 ^ e \<noteq> 0"
    proof
      assume "a mod 10 ^ e = 0"
      then have "10 ^ e dvd a" by (simp add: mod_eq_0_iff_dvd)
      moreover have "(10 :: int) dvd 10 ^ e" using r by (cases e) (simp_all add: reduced_def)
      ultimately have "10 dvd a" using dvd_trans by blast
      then show False using r by (simp add: reduced_def mod_eq_0_iff_dvd)
    qed
    ultimately show "left = m\<lparr>isSync := False\<rparr>" using p v r unfolding left
      by (intro control_set_same) (simp add: parse_decimal_shown kept_value_def List.map_filter_simps) }
  { assume p: "ct_parser c = parse_string" and v: "mvals m (ct_prop c) = \<lparr>vtype = TString, vdata = DStr s, vlang = l\<rparr> # vs"
      and s: "plain_words s"
    have "shown_text c m = (if readable_lang c l then s else [])"
      using v by (auto simp: shown_text_def control_values_def get_values_def parser_def formatValue_def formatString_def
          readable_lang_def split: option.splits)
    moreover have "s \<noteq> []" using s by (simp add: plain_words_def)
    ultimately show "mvals left (ct_prop c)
        = (if readable_lang c l then [\<lparr>vtype = TString, vdata = DStr s, vlang = Some ''NONE''\<rparr>] else [])"
      using p s unfolding left control_set_vals
      by (simp add: parse_string_def kept_value_def List.map_filter_simps ser_plain) }
qed

definition control_ex :: control where
  "control_ex = \<lparr>ct_str = (\<lambda>_. []), ct_parse = (\<lambda>_. 0), ct_languages = [''RU''], ct_date = (\<lambda>_. []), ct_label = (\<lambda>u. u),
     ct_prop = ''rdfs:label'', ct_parser = parse_string, ct_single = True\<rparr>"

definition labelled_ex :: "string \<Rightarrow> imodel" where
  "labelled_ex l = model_of_json \<lparr>uri = ''d:x'', props = [(''rdfs:label'', [\<lparr>vtype = TString, vdata = DStr ''Report'', vlang = Some l\<rparr>])]\<rparr>"

theorem untouched_control_witness:
  "mvals (snd (changeHandler control_ex (opened control_ex (labelled_ex ''EN'')))) ''rdfs:label'' = []
   \<and> mvals (snd (changeHandler control_ex (opened control_ex (labelled_ex ''RU'')))) ''rdfs:label''
       = [\<lparr>vtype = TString, vdata = DStr ''Report'', vlang = Some ''NONE''\<rparr>]"
proof -
  have s: "ct_single control_ex" "ct_parser control_ex = parse_string" "ct_prop control_ex = ''rdfs:label''" by (simp_all add: control_ex_def)
  have v: "mvals (labelled_ex l) ''rdfs:label'' = [\<lparr>vtype = TString, vdata = DStr ''Report'', vlang = Some l\<rparr>]" for l
    by (simp add: labelled_ex_def model_of_json_def mvals_def)
  have w: "plain_words ''Report''" by code_simp
  have "readable_lang control_ex (Some ''RU'') \<and> \<not> readable_lang control_ex (Some ''EN'')" by (simp add: readable_lang_def control_ex_def)
  with untouched_control [OF s(1), of "labelled_ex ''EN''" 0 0 0 "''Report''" "Some ''EN''" "[]"]
    untouched_control [OF s(1), of "labelled_ex ''RU''" 0 0 0 "''Report''" "Some ''RU''" "[]"] v w s
  show ?thesis by simp
qed

section \<open>Texts in several languages\<close>

definition speaks :: "string \<Rightarrow> val \<Rightarrow> bool" where
  "speaks l v \<longleftrightarrow> (case vlang v of None \<Rightarrow> True | Some x \<Rightarrow> x = [] \<or> x = ''NONE'' \<or> x = l)"

text \<open>The last text in a language or in none\<close>

definition last_text :: "control \<Rightarrow> string \<Rightarrow> val list \<Rightarrow> string" where
  "last_text c l vs = (case rev (filter (speaks l) vs) of [] \<Rightarrow> [] | v # _ \<Rightarrow> js_str (ct_str c) (vdata v))"

lemma fill_texts:
  assumes "l \<noteq> []" and "l \<noteq> ''NONE''" and "\<And>v. v \<in> set vs \<Longrightarrow> vtype v = TString"
  shows "fill_field c l [] (map (parser (ct_str c) (ct_parse c)) vs) = last_text c l vs"
  using assms(3)
proof (induction vs rule: rev_induct)
  case (snoc v vs)
  then show ?case using assms(1,2)
    by (auto simp: fill_field_def last_text_def speaks_def parser_def language_of_def value_string_def split: option.splits)
qed (simp add: fill_field_def last_text_def)

text \<open>C33: A control for texts in several languages that is opened and left without a change stores one
  text for every language the user reads: the last one in that language or in no language. Texts in
  other languages are gone, and a text without a language is there once per language.\<close>

theorem multilingual_focusout:
  fixes c :: control and m :: imodel
  assumes "\<And>v. v \<in> set (mvals m (ct_prop c)) \<Longrightarrow> vtype v = TString"
    and "distinct (ct_languages c)" and "\<And>l. l \<in> set (ct_languages c) \<Longrightarrow> length l = 2"
  defines "t \<equiv> (\<lambda>l. last_text c l (mvals m (ct_prop c)))"
  assumes "\<And>l. l \<in> set (ct_languages c) \<Longrightarrow> t l \<noteq> [] \<Longrightarrow> plain_words (t l)"
  shows "mvals (snd (multilingual_change c (multilingual_opened c m, m))) (ct_prop c)
    = map (\<lambda>l. \<lparr>vtype = TString, vdata = DStr (t l), vlang = Some l\<rparr>) (filter (\<lambda>l. t l \<noteq> []) (ct_languages c))"
proof -
  let ?ls = "filter (\<lambda>l. t l \<noteq> []) (ct_languages c)"
  have ne: "l \<noteq> []" "l \<noteq> ''NONE''" if "l \<in> set (ct_languages c)" for l using assms(3) [OF that] by auto
  have fs: "multilingual_opened c m = map (\<lambda>l. (l, t l)) (ct_languages c)"
    using fill_texts [OF ne assms(1)] by (simp add: multilingual_opened_def control_values_def get_values_def t_def)
  have "List.map_filter multilingual_parser (map (\<lambda>l. (l, t l)) ls) = map (\<lambda>l. MTextObj (t l) (Some l)) (filter (\<lambda>l. t l \<noteq> []) ls)"
    if "set ls \<subseteq> set (ct_languages c)" for ls
    using that ne by (induction ls) (auto simp: multilingual_parser_def List.map_filter_simps)
  then have ps: "List.map_filter multilingual_parser (multilingual_opened c m) = map (\<lambda>l. MTextObj (t l) (Some l)) ?ls"
    by (simp add: fs)
  have kept: "filter kept_value (map (\<lambda>l. MTextObj (t l) (Some l)) ls) = map (\<lambda>l. MTextObj (t l) (Some l)) ls" for ls
    by (induction ls) (simp_all add: kept_value_def)
  have ser: "List.map_filter serializer (map (\<lambda>l. MTextObj (t l) (Some l)) ls)
      = map (\<lambda>l. \<lparr>vtype = TString, vdata = DStr (t l), vlang = Some l\<rparr>) ls" if "set ls \<subseteq> set ?ls" for ls
    using that ne assms(5) by (induction ls) (auto simp: List.map_filter_simps ser_plain)
  have "inj_on (\<lambda>l. type_name TString @ t l @ l) (set ?ls)"
  proof (rule inj_onI)
    fix x y assume xy: "x \<in> set ?ls" "y \<in> set ?ls" "type_name TString @ t x @ x = type_name TString @ t y @ y"
    then have "length x = length y" using assms(3) by simp
    with xy(3) show "x = y" by simp
  qed
  then have "distinct (map (val_key (ct_str c)) (map (\<lambda>l. \<lparr>vtype = TString, vdata = DStr (t l), vlang = Some l\<rparr>) ?ls))"
    using assms(2) by (simp add: distinct_map val_key_def comp_def)
  then have "unique_vals (ct_str c) [] (map (\<lambda>l. \<lparr>vtype = TString, vdata = DStr (t l), vlang = Some l\<rparr>) ?ls)
      = map (\<lambda>l. \<lparr>vtype = TString, vdata = DStr (t l), vlang = Some l\<rparr>) ?ls"
    by (intro unique_vals_id) simp_all
  then show ?thesis
    using ser [of ?ls] by (simp add: multilingual_change_def Let_def control_set_vals ps kept)
qed

theorem multilingual_focusout_witness:
  "mvals (snd (multilingual_change (control_ex\<lparr>ct_languages := [''RU'', ''DE'']\<rparr>)
      (multilingual_opened (control_ex\<lparr>ct_languages := [''RU'', ''DE'']\<rparr>) (labelled_ex ''NONE''), labelled_ex ''NONE''))) ''rdfs:label''
    = [\<lparr>vtype = TString, vdata = DStr ''Report'', vlang = Some ''RU''\<rparr>, \<lparr>vtype = TString, vdata = DStr ''Report'', vlang = Some ''DE''\<rparr>]"
proof -
  let ?c = "control_ex\<lparr>ct_languages := [''RU'', ''DE'']\<rparr>"
  have c: "ct_prop ?c = ''rdfs:label''" "ct_languages ?c = [''RU'', ''DE'']" by (simp_all add: control_ex_def)
  have v: "mvals (labelled_ex ''NONE'') ''rdfs:label'' = [\<lparr>vtype = TString, vdata = DStr ''Report'', vlang = Some ''NONE''\<rparr>]"
    by (simp add: labelled_ex_def model_of_json_def mvals_def)
  have w: "plain_words ''Report''" by code_simp
  have t: "last_text ?c l (mvals (labelled_ex ''NONE'') ''rdfs:label'') = ''Report''" for l
    unfolding v by (simp add: last_text_def speaks_def)
  have "mvals (snd (multilingual_change ?c (multilingual_opened ?c (labelled_ex ''NONE''), labelled_ex ''NONE''))) (ct_prop ?c)
      = map (\<lambda>l. \<lparr>vtype = TString, vdata = DStr (last_text ?c l (mvals (labelled_ex ''NONE'') (ct_prop ?c))), vlang = Some l\<rparr>)
          (filter (\<lambda>l. last_text ?c l (mvals (labelled_ex ''NONE'') (ct_prop ?c)) \<noteq> []) (ct_languages ?c))"
    by (rule multilingual_focusout) (auto simp: c v t [unfolded v] w)
  then show ?thesis by (simp only: c t) simp
qed

section \<open>Working time\<close>

text \<open>The fields of the working time show any number of minutes, and give it back.\<close>

lemma worktime_roundtrip:
  "\<exists>x. fillPseudoInput (formatNumber (DNum n)) old = Some x \<and> fillMainInput x = show_int n
    \<and> (case x of (d, h, k) \<Rightarrow> 0 \<le> h \<and> h < 8 \<and> 0 \<le> k \<and> k < 60)"
proof -
  have "show_int n \<noteq> []" using show_nat_nonempty by (simp add: show_int_def)
  then have "formatNumber (DNum n) \<noteq> []" using plain_int [of n] by (auto simp: plain_numeral_def)
  moreover have "n - n div 480 * 480 = n mod 480" by (simp add: minus_div_mult_eq_mod)
  moreover have e: "n mod 480 - n mod 480 div 60 * 60 = n mod 480 mod 60" by (rule minus_div_mult_eq_mod)
  moreover have "n mod 480 div 60 < 8" "0 \<le> n mod 480 div 60" using pos_mod_bound [of 480 n] pos_mod_sign [of 480 n] by (simp_all add: div_less_iff_less_mult)
  moreover have "0 \<le> n mod 480 mod 60" "n mod 480 mod 60 < 60" by simp_all
  ultimately show ?thesis
    by (simp add: fillPseudoInput_def plain_int parse_show_int_plain fillMainInput_def Let_def)
      (use e pos_mod_sign [of 60 "n mod 480"] in linarith)
qed

section \<open>Selections\<close>

text \<open>
  What clicks do to a selection: a click changes whether its element is a member and nothing else, as long
  as the state is sound. Boxes of a group and suggestions of links keep this contract.
\<close>

locale toggling =
  fixes sound :: "'s \<Rightarrow> bool" and toggle :: "'u \<Rightarrow> 's \<Rightarrow> 's" and members :: "'s \<Rightarrow> 'u set" and offered :: "'u set"
  assumes sound_toggle: "sound s \<Longrightarrow> u \<in> offered \<Longrightarrow> sound (toggle u s)"
    and members_toggle: "sound s \<Longrightarrow> u \<in> offered \<Longrightarrow> x \<in> members (toggle u s) \<longleftrightarrow> (x \<in> members s) \<noteq> (x = u)"
begin

lemma run_toggles:
  assumes "sound s" and "set us \<subseteq> offered"
  shows "sound (foldl (\<lambda>s u. toggle u s) s us)
    \<and> (\<forall>x. x \<in> members (foldl (\<lambda>s u. toggle u s) s us) \<longleftrightarrow> (x \<in> members s) \<noteq> odd (count_list us x))"
  using assms
proof (induction us arbitrary: s)
  case (Cons u us)
  then have "sound (toggle u s)" and "\<And>x. x \<in> members (toggle u s) \<longleftrightarrow> (x \<in> members s) \<noteq> (x = u)"
    using sound_toggle members_toggle by auto
  with Cons.IH [of "toggle u s"] Cons.prems(2) show ?case by auto
qed simp

lemma run_closed: "sound s \<Longrightarrow> set us \<subseteq> offered \<Longrightarrow> members s \<subseteq> offered \<Longrightarrow> members (foldl (\<lambda>s u. toggle u s) s us) \<subseteq> offered"
proof
  fix x assume "sound s" "set us \<subseteq> offered" "members s \<subseteq> offered" and x: "x \<in> members (foldl (\<lambda>s u. toggle u s) s us)"
  then have "x \<in> members s \<or> count_list us x \<noteq> 0" using run_toggles [of s us] by auto
  then show "x \<in> offered" using \<open>members s \<subseteq> offered\<close> \<open>set us \<subseteq> offered\<close> by (auto simp: count_list_0_iff)
qed

end

section \<open>Boxes\<close>

text \<open>Three clicks bring a box through its three states, and the property with it.\<close>

lemma boolean_cycle:
  assumes "mvals m (ct_prop c) = (case t of None \<Rightarrow> [] | Some x \<Rightarrow> [mkv TBoolean (DBool x)])"
    and "b = boolean_handler c m b0"
  defines "t' \<equiv> (case t of None \<Rightarrow> Some False | Some False \<Rightarrow> Some True | Some True \<Rightarrow> None)"
  defines "r \<equiv> boolean_click c (b, m)"
  shows "mvals (snd r) (ct_prop c) = (case t' of None \<Rightarrow> [] | Some x \<Rightarrow> [mkv TBoolean (DBool x)])
    \<and> fst r = boolean_handler c (snd r) (fst r)"
proof -
  have ev: "events (control_set c vs m) \<noteq> events m"
    if "unique_vals (ct_str c) [] (List.map_filter serializer (filter kept_value vs)) \<noteq> mvals m (ct_prop c)" for vs
    using that by (simp add: control_set_def set_value_def Let_def trigger_def)
  have cv: "control_values c m = (case t of None \<Rightarrow> [] | Some x \<Rightarrow> [MBool x])"
    using assms(1) by (simp add: control_values_def get_values_def parser_def split: option.splits)
  have b: "bx_readonly b = (t = None)" "t \<noteq> None \<Longrightarrow> bx_checked b = (t = Some True)"
    by (cases t; simp add: assms(2) boolean_handler_def cv)+
  have cv': "control_values c (control_set c vs m) = map (parser (ct_str c) (ct_parse c)) (unique_vals (ct_str c) [] (List.map_filter serializer (filter kept_value vs)))" for vs
    by (simp add: control_values_def get_values_def control_set_vals)
  let ?set = "\<lambda>vs. control_set c vs m" and ?nb = "b\<lparr>bx_checked := \<not> bx_checked b\<rparr>"
  have r: "r = (boolean_handler c (?set vs) ?nb, ?set vs)"
    if "vs = (if bx_readonly b then [MBool False] else if bx_checked b then [] else [MBool True])"
      "unique_vals (ct_str c) [] (List.map_filter serializer (filter kept_value vs)) \<noteq> mvals m (ct_prop c)" for vs
    using ev [OF that(2)] that(1) by (cases "bx_readonly b"; cases "bx_checked b"; simp add: r_def boolean_click_def Let_def)
  note ev = control_set_vals cv' kept_value_def List.map_filter_simps boolean_handler_def parser_def
  consider "t = None" | "t = Some True" | "t = Some False" by (cases t) auto
  then show ?thesis
  proof cases
    case 1
    then have "r = (boolean_handler c (?set [MBool False]) ?nb, ?set [MBool False])" using b assms(1) by (intro r) (simp_all add: ev)
    then show ?thesis using 1 by (simp add: ev t'_def)
  next
    case 2
    then have "r = (boolean_handler c (?set []) ?nb, ?set [])" using b assms(1) by (intro r) (simp_all add: ev)
    then show ?thesis using 2 by (simp add: ev t'_def)
  next
    case 3
    then have "r = (boolean_handler c (?set [MBool True]) ?nb, ?set [MBool True])" using b assms(1) by (intro r) (simp_all add: ev)
    then show ?thesis using 3 by (simp add: ev t'_def)
  qed
qed

text \<open>
  A box of a group that is clicked changes whether the individual has its option, and no other box: the
  options are told apart by the comparison of the model.
\<close>

lemma has_after_add: "has_value (add_value p (Some [v]) q m) p w \<longleftrightarrow>
    (case serializer v of None \<Rightarrow> has_value m p w
     | Some s \<Rightarrow> has_value m p w \<or> (case serializer w of None \<Rightarrow> True | Some s2 \<Rightarrow> same_item s2 s))"
  by (auto simp: has_value_def add_value_def add_single_def mvals_def modified_def ensure_prop_def Let_def trigger_def split: option.splits)

lemma has_after_remove:
  assumes "serializer v = Some s" and "serializer w = Some s2"
  shows "has_value (remove_value p (Some [v]) q m) p w \<longleftrightarrow> list_ex (\<lambda>x. same_item s2 x \<and> \<not> same_item s x) (mvals m p)"
  using assms by (auto simp: has_value_def remove_value_def remove_single_def mvals_def modified_def Let_def trigger_def list_ex_iff split: option.splits)

definition told_apart :: "control \<Rightarrow> mval list \<Rightarrow> imodel \<Rightarrow> bool" where
  "told_apart c options m \<longleftrightarrow>
     (\<forall>v \<in> set options. \<exists>s. serializer v = Some s \<and> same_item s s
        \<and> (\<forall>w \<in> set options. w \<noteq> v \<longrightarrow> (\<forall>s2. serializer w = Some s2 \<longrightarrow> \<not> same_item s2 s
            \<and> (\<forall>x \<in> set (mvals m (ct_prop c)). \<not> (same_item s x \<and> same_item s2 x)))))"

definition box_click :: "control \<Rightarrow> mval \<Rightarrow> imodel \<Rightarrow> imodel" where
  "box_click c v m = checkbox_change c (\<not> has_value m (ct_prop c) v) v m"

lemma box_toggles:
  assumes "told_apart c options m" and "v \<in> set options" and "w \<in> set options"
  shows "has_value (box_click c v m) (ct_prop c) w \<longleftrightarrow> has_value m (ct_prop c) w \<noteq> (w = v)"
proof -
  obtain s where s: "serializer v = Some s" "same_item s s" using assms(1,2) by (auto simp: told_apart_def)
  obtain s2 where s2: "serializer w = Some s2" using assms(1,3) unfolding told_apart_def by blast
  have v: "present_value v = Some [v]" using s(1) by (cases v) (auto simp: present_value_def)
  have hw: "has_value m (ct_prop c) w \<longleftrightarrow> list_ex (same_item s2) (mvals m (ct_prop c))" by (simp add: has_value_def s2)
  show ?thesis
  proof (cases "w = v")
    case True
    then show ?thesis using s by (auto simp: box_click_def checkbox_change_def v has_after_add has_after_remove [OF s(1,1)] list_ex_iff)
  next
    case False
    then have "\<not> same_item s2 s \<and> (\<forall>x \<in> set (mvals m (ct_prop c)). \<not> (same_item s x \<and> same_item s2 x))"
      using assms s(1) s2 unfolding told_apart_def by fastforce
    then show ?thesis using s s2 False
      by (auto simp: box_click_def checkbox_change_def v has_after_add has_after_remove [OF s(1) s2] list_ex_iff hw)
  qed
qed

lemma told_after:
  assumes "told_apart c options m" and "v \<in> set options"
  shows "told_apart c options (box_click c v m)"
proof -
  obtain s where s: "serializer v = Some s" using assms by (auto simp: told_apart_def)
  have v: "present_value v = Some [v]" using s by (cases v) (auto simp: present_value_def)
  have "set (mvals (box_click c v m) (ct_prop c)) \<subseteq> insert s (set (mvals m (ct_prop c)))"
    by (auto simp: box_click_def checkbox_change_def v s add_value_def remove_value_def add_single_def remove_single_def
        mvals_def modified_def ensure_prop_def Let_def trigger_def split: option.splits if_splits)
  moreover have "\<not> (same_item a s \<and> same_item b s)"
    if "w \<in> set options" "u \<in> set options" "u \<noteq> w" "serializer w = Some a" "serializer u = Some b" for w u a b
  proof (cases "w = v")
    case True
    then have "\<not> same_item b s" using assms that s unfolding told_apart_def by fastforce
    then show ?thesis by simp
  next
    case False
    then have "\<not> same_item a s" using assms that s unfolding told_apart_def by fastforce
    then show ?thesis by simp
  qed
  ultimately show ?thesis using assms(1) unfolding told_apart_def by (smt (verit) insert_iff subset_eq)
qed

interpretation boxes: toggling "told_apart c options" "box_click c" "\<lambda>m. {v \<in> set options. has_value m (ct_prop c) v}" "set options" for c options
  by unfold_locales (auto simp: told_after box_toggles)

section \<open>Links\<close>

text \<open>The individuals a property refers to\<close>

definition chosen :: "control \<Rightarrow> imodel \<Rightarrow> string set" where
  "chosen c m = {u. MRef u \<in> set (control_values c m)}"

definition only_links :: "control \<Rightarrow> imodel \<Rightarrow> bool" where
  "only_links c m \<longleftrightarrow> (\<forall>v \<in> set (mvals m (ct_prop c)). \<exists>u. v = mkv TUri (DStr u))"

abbreviation link_val :: "string \<Rightarrow> val" where
  "link_val u \<equiv> mkv TUri (DStr u)"

lemma links_of: "only_links c m \<Longrightarrow> \<exists>us. mvals m (ct_prop c) = map link_val us"
proof -
  have "(\<forall>v \<in> set vs. \<exists>u. v = link_val u) \<Longrightarrow> \<exists>us. vs = map link_val us" for vs
  proof (induction vs)
    case (Cons v vs)
    then obtain u us where "v = link_val u" "vs = map link_val us" by auto
    then show ?case by (intro exI [of _ "u # us"]) simp
  qed simp
  then show "only_links c m \<Longrightarrow> ?thesis" by (simp add: only_links_def)
qed

lemma values_links: "mvals m (ct_prop c) = map link_val us \<Longrightarrow> control_values c m = map MRef us"
  by (simp add: control_values_def get_values_def parser_def)

lemma has_link: "mvals m (ct_prop c) = map link_val us \<Longrightarrow> has_value m (ct_prop c) (MRef u) \<longleftrightarrow> u \<in> set us"
  by (auto simp: has_value_def same_item_def list_ex_iff)

lemma set_links:
  "set (mvals (control_set c (map MRef us) m) (ct_prop c)) = link_val ` set us
   \<and> distinct (mvals (control_set c (map MRef us) m) (ct_prop c))"
proof -
  have f: "filter kept_value (map MRef us) = map MRef us" for us by (induction us) (simp_all add: kept_value_def)
  have s: "List.map_filter serializer (map MRef us) = map link_val us" for us by (induction us) (simp_all add: List.map_filter_simps)
  have k: "val_key (ct_str c) (link_val u) = ''Uri'' @ u" for u by (simp add: val_key_def type_name_def)
  have u: "set (unique_vals (ct_str c) seen vs) \<subseteq> set vs" for seen vs by (induction vs arbitrary: seen) auto
  let ?xs = "unique_vals (ct_str c) [] (map link_val us)"
  have key: "(\<lambda>u. ''Uri'' @ u) ` set us = val_key (ct_str c) ` set ?xs"
    using unique_vals_keys [of "ct_str c" "[]" "map link_val us"] by (simp add: image_image k)
  have "set ?xs = link_val ` set us"
  proof
    show "set ?xs \<subseteq> link_val ` set us" using u [of "[]" "map link_val us"] by simp
    show "link_val ` set us \<subseteq> set ?xs"
    proof
      fix v assume "v \<in> link_val ` set us"
      then obtain x where x: "x \<in> set us" "v = link_val x" by blast
      then have "''Uri'' @ x \<in> val_key (ct_str c) ` set ?xs" unfolding key [symmetric] by (intro image_eqI [where x = x]) simp_all
      then obtain y where y: "y \<in> set ?xs" "val_key (ct_str c) y = ''Uri'' @ x" by force
      then obtain z where "y = link_val z" using u [of "[]" "map link_val us"] by auto
      then show "v \<in> set ?xs" using x y k by simp
    qed
  qed
  moreover have "distinct ?xs" using unique_vals_distinct [of "ct_str c" "[]" "map link_val us"] by (simp add: distinct_map)
  ultimately show ?thesis by (simp add: control_set_vals f s)
qed

lemma chosen_set: "chosen c (control_set c (map MRef us) m) = set us"
  using set_links [of c us m] by (auto simp: chosen_def control_values_def get_values_def parser_def image_image)

text \<open>What the clicks on suggestions do, if several values can be chosen: the selected individuals and the marks.\<close>

definition selects :: "control \<Rightarrow> string list \<Rightarrow> link \<Rightarrow> string list \<Rightarrow> bool" where
  "selects c rs st us \<longleftrightarrow> lk_selected st = map MRef us \<and> (\<forall>u \<in> set rs. u \<in> set (lk_marked st) \<longleftrightarrow> u \<in> set us)"

lemma click_model: "\<not> ct_single c \<Longrightarrow> lk_model (clickHandler c u st) = lk_model st"
  by (simp add: clickHandler_def Let_def)

definition picked :: "link \<Rightarrow> string set" where
  "picked st = {u. MRef u \<in> set (lk_selected st)}"

definition choosing :: "control \<Rightarrow> string list \<Rightarrow> link \<Rightarrow> bool" where
  "choosing c rs st \<longleftrightarrow> \<not> ct_single c \<and> (\<exists>us. selects c rs st us)"

lemma click_selects:
  assumes "\<not> ct_single c" and "selects c rs st us" and "u \<in> set rs"
  shows "selects c rs (clickHandler c u st) (if u \<in> set us then filter (\<lambda>x. x \<noteq> u) us else us @ [u])"
proof -
  have f: "filter (\<lambda>v. v \<noteq> MRef u) (map MRef us) = map MRef (filter (\<lambda>x. x \<noteq> u) us)" by (induction us) auto
  have "MRef u \<in> set (lk_selected st) \<longleftrightarrow> u \<in> set us" using assms(2) by (auto simp: selects_def)
  then show ?thesis using assms f by (auto simp: selects_def clickHandler_def toggle_mark_def Let_def)
qed

lemma picked_selects: "selects c rs st us \<Longrightarrow> picked st = set us"
  by (auto simp: selects_def picked_def)

interpretation links: toggling "choosing c rs" "clickHandler c" picked "set rs" for c rs
proof unfold_locales
  fix st u x assume "choosing c rs st" and u: "u \<in> set rs"
  then obtain us where us: "\<not> ct_single c" "selects c rs st us" by (auto simp: choosing_def)
  note cs = click_selects [OF us u]
  show "choosing c rs (clickHandler c u st)" unfolding choosing_def using us(1) cs by blast
  show "x \<in> picked (clickHandler c u st) \<longleftrightarrow> (x \<in> picked st) \<noteq> (x = u)"
    using picked_selects [OF cs] picked_selects [OF us(2)] by auto
qed

lemma clicks_model: "\<not> ct_single c \<Longrightarrow> lk_model (clicks c us st) = lk_model st"
  by (induction us arbitrary: st) (simp_all add: clicks_def click_model)

lemma close_chosen: "lk_selected st = map MRef us \<Longrightarrow> chosen c (lk_model (close_menu c st)) = set us"
  by (simp add: close_menu_def link_set_def chosen_set)

lemma results_select: "mvals (lk_model st) (ct_prop c) = map link_val us \<Longrightarrow> selects c rs (renderResults c rs st) us"
  by (auto simp: selects_def renderResults_def values_links has_link)

text \<open>C34: In a control of links for several values, clicks on suggestions toggle the individuals: until the
  menu is closed the property stays as it is, then it refers to an individual exactly if it did before and
  its suggestion was clicked an even number of times, or it did not and the number is odd; for the
  suggestions these are the marked ones, and no value is there twice. A double click always
  chooses its individual.\<close>

theorem link_selection:
  assumes "\<not> ct_single c" and "only_links c (lk_model st)" and "set xs \<subseteq> set results"
  shows "lk_model (clicks c xs (renderResults c results st)) = lk_model st
    \<and> chosen c (lk_model (close_menu c (clicks c xs (renderResults c results st))))
        = {u. (u \<in> chosen c (lk_model st)) \<noteq> odd (count_list xs u)}
    \<and> (\<forall>u \<in> set results. u \<in> set (lk_marked (clicks c xs (renderResults c results st)))
        \<longleftrightarrow> u \<in> chosen c (lk_model (close_menu c (clicks c xs (renderResults c results st)))))
    \<and> distinct (mvals (lk_model (close_menu c (clicks c xs (renderResults c results st)))) (ct_prop c))
    \<and> (\<forall>u \<in> set results. u \<in> chosen c (lk_model
        (dblclickHandler c u (clickHandler c u (clicks c xs (renderResults c results st))))))"
proof -
  let ?r = "renderResults c results st" and ?s = "clicks c xs (renderResults c results st)"
  obtain us where us: "mvals (lk_model st) (ct_prop c) = map link_val us" using links_of [OF assms(2)] by blast
  have old: "chosen c (lk_model st) = set us" using values_links [OF us] by (auto simp: chosen_def)
  have s0: "choosing c results ?r" "picked ?r = set us"
    using assms(1) results_select [OF us, of results] picked_selects [OF results_select [OF us, of results]]
    by (auto simp: choosing_def)
  note run = links.run_toggles [OF s0(1) assms(3), folded clicks_def]
  obtain vs where vs: "selects c results ?s vs" using run by (auto simp: choosing_def)
  have sel: "lk_selected ?s = map MRef vs" and marks: "\<forall>u \<in> set results. u \<in> set (lk_marked ?s) \<longleftrightarrow> u \<in> set vs"
    using vs by (simp_all add: selects_def)
  have ch: "chosen c (lk_model (close_menu c ?s)) = set vs" by (rule close_chosen [OF sel])
  have par: "x \<in> set vs \<longleftrightarrow> (x \<in> set us) \<noteq> odd (count_list xs x)" for x
    using run s0(2) picked_selects [OF vs] by auto
  have "u \<in> chosen c (lk_model (dblclickHandler c u (clickHandler c u ?s)))" if u: "u \<in> set results" for u
  proof -
    obtain ws where ws: "selects c results (clickHandler c u ?s) ws" using click_selects [OF assms(1) vs u] by blast
    show ?thesis
    proof (cases "u \<in> set (lk_marked (clickHandler c u ?s))")
      case True
      then have "u \<in> set ws" using ws u by (simp add: selects_def)
      then show ?thesis using True close_chosen [of "clickHandler c u ?s" ws c] ws by (simp add: dblclickHandler_def selects_def)
    next
      case False
      then have "u \<notin> set ws" using ws u by (simp add: selects_def)
      then have "selects c results (clickHandler c u (clickHandler c u ?s)) (ws @ [u])" using click_selects [OF assms(1) ws u] by simp
      then show ?thesis using False close_chosen [of "clickHandler c u (clickHandler c u ?s)" "ws @ [u]" c]
        by (simp add: dblclickHandler_def selects_def)
    qed
  qed
  moreover have "distinct (mvals (lk_model (close_menu c ?s)) (ct_prop c))"
    using set_links [of c vs "lk_model ?s"] by (simp add: close_menu_def link_set_def sel)
  moreover have "lk_model ?s = lk_model st" using clicks_model [OF assms(1)] by (simp add: renderResults_def)
  moreover have "set vs = {u. (u \<in> chosen c (lk_model st)) \<noteq> odd (count_list xs u)}" using par old by auto
  ultimately show ?thesis using ch marks by simp
qed

definition linked_ex :: link where
  "linked_ex = \<lparr>lk_model = model_of_json \<lparr>uri = ''d:x'', props = [(''v-s:to'', [link_val ''d:a'', link_val ''d:b''])]\<rparr>,
     lk_selected = [], lk_suggestions = [], lk_marked = [], lk_menu = False\<rparr>"

theorem link_selection_witness:
  "chosen (control_ex\<lparr>ct_prop := ''v-s:to'', ct_single := False\<rparr>) (lk_model (close_menu (control_ex\<lparr>ct_prop := ''v-s:to'', ct_single := False\<rparr>)
     (clicks (control_ex\<lparr>ct_prop := ''v-s:to'', ct_single := False\<rparr>) [''d:c'', ''d:a'']
       (renderResults (control_ex\<lparr>ct_prop := ''v-s:to'', ct_single := False\<rparr>) [''d:a'', ''d:c''] linked_ex)))) = {''d:b'', ''d:c''}"
proof -
  let ?c = "control_ex\<lparr>ct_prop := ''v-s:to'', ct_single := False\<rparr>"
  have c: "\<not> ct_single ?c" "ct_prop ?c = ''v-s:to''" by simp_all
  have v: "mvals (lk_model linked_ex) (ct_prop ?c) = map link_val [''d:a'', ''d:b'']"
    by (simp add: linked_ex_def model_of_json_def mvals_def)
  have o': "only_links ?c (lk_model linked_ex)" unfolding only_links_def v by simp
  have ch: "chosen ?c (lk_model linked_ex) = {''d:a'', ''d:b''}" using values_links [OF v] by (auto simp: chosen_def)
  have "set [''d:c'', ''d:a''] \<subseteq> set [''d:a'', ''d:c'']" by simp
  from link_selection [OF c(1) o' this] ch show ?thesis by auto
qed

end
