(* ===== verification/Actor_Control.thy ===== *)
theory Actor_Control
  imports Controls Query_Builder
begin

text \<open>
  The control of actors, \<open>veda_actor\<close> of \<^verbatim>\<open>public/js/browser/veda_controls.js\<close>: persons, positions and
  departments are searched among the appointments, and the chosen appointments are replaced by what the
  user asked for. \<open>setValue\<close> is in \<open>Controls\<close>.
\<close>

section \<open>The search\<close>

text \<open>\<open>replace (/\s+/g, ' ')\<close>\<close>

fun white_runs :: "bool \<Rightarrow> string \<Rightarrow> string" where
  "white_runs inside [] = []"
| "white_runs inside (c # cs) =
     (if is_space c then (if inside then white_runs True cs else CHR '' '' # white_runs True cs)
      else c # white_runs False cs)"

definition full_name_props :: "string list" where
  "full_name_props = [''v-s:employee.v-s:lastName'', ''v-s:employee.v-s:firstName'', ''v-s:employee.v-s:middleName'']"

definition full_name_line :: "string \<Rightarrow> string" where
  "full_name_line l =
     join '' && '' (map (\<lambda>(p, w). quote @ p @ quote @ ''=='' @ quote @ w @ ''*'' @ quote)
       (filter (\<lambda>(p, w). w \<noteq> []) (zip full_name_props (split_on (CHR '' '') (white_runs False (strip l))))))"

definition actor_prefix :: "string \<Rightarrow> actor_type \<Rightarrow> string" where
  "actor_prefix spec_prefix a =
     (if spec_prefix \<noteq> [] then spec_prefix
      else if a = Department
      then quote @ ''rdf:type'' @ quote @ '' === '' @ quote @ ''v-s:Appointment'' @ quote @ '' || ''
           @ quote @ ''rdf:type'' @ quote @ '' === '' @ quote @ ''v-s:Department'' @ quote
      else quote @ ''rdf:type'' @ quote @ '' === '' @ quote @ ''v-s:Appointment'' @ quote)"

text \<open>\<open>performSearch\<close>: the prefix and the text that go to \<open>ftQuery\<close>.\<close>

definition performSearch :: "string \<Rightarrow> actor_type \<Rightarrow> bool \<Rightarrow> bool \<Rightarrow> string \<Rightarrow> string \<times> string" where
  "performSearch spec_prefix a full_name only_deleted value' =
     (let prefix = actor_prefix spec_prefix a; nl = char_of (10 :: nat)
      in (if only_deleted then prefix @ '' && '' @ quote @ ''v-s:deleted'' @ quote @ ''=='' @ quote @ ''true'' @ quote else prefix,
          if a \<noteq> Department \<and> full_name then join [nl] (map full_name_line (split_on nl (strip value'))) else value'))"

section \<open>The suggestions\<close>

text \<open>
  The values of the four properties, in the order of the code. \<open>label\<close> is the text of a suggestion, drawn
  by its template.
\<close>

definition actor_properties :: "control \<Rightarrow> string list" where
  "actor_properties c =
     [ct_prop c, ct_prop c @ ''.v-s:employee'', ct_prop c @ ''.v-s:occupation'', ct_prop c @ ''.v-s:parentUnit'']"

definition actor_values :: "control \<Rightarrow> imodel \<Rightarrow> mval list" where
  "actor_values c m = concat (map (get_values (ct_str c) (ct_parse c) m) (actor_properties c))"

definition actor_has :: "control \<Rightarrow> imodel \<Rightarrow> string \<Rightarrow> bool" where
  "actor_has c m u \<longleftrightarrow> list_ex (\<lambda>p. has_value m p (MRef u)) (actor_properties c)"

text \<open>Sorted by label; of neighbours with the same label the first one stays.\<close>

fun drop_same :: "('a \<Rightarrow> string) \<Rightarrow> 'a list \<Rightarrow> 'a list \<Rightarrow> 'a list" where
  "drop_same f acc [] = acc"
| "drop_same f acc (x # xs) =
     (if acc = [] \<or> f (last acc) \<noteq> f x then drop_same f (acc @ [x]) xs else drop_same f acc xs)"

definition actor_suggestions :: "(string \<Rightarrow> string) \<Rightarrow> string list \<Rightarrow> string list" where
  "actor_suggestions label results = drop_same label [] (js_sort (\<lambda>a b. \<not> text_less (label a) (label b)) results)"

definition actor_render :: "control \<Rightarrow> (string \<Rightarrow> string) \<Rightarrow> string list \<Rightarrow> link \<Rightarrow> link" where
  "actor_render c label results st =
     (let st1 = st\<lparr>lk_selected := actor_values c (lk_model st)\<rparr>
      in if results = [] then st1\<lparr>lk_suggestions := [], lk_marked := [], lk_menu := False\<rparr>
         else (let shown = actor_suggestions label results
               in st1\<lparr>lk_suggestions := shown, lk_marked := filter (actor_has c (lk_model st)) shown, lk_menu := True\<rparr>))"

section \<open>The events\<close>

text \<open>\<open>fetch\<close>, \<open>complex\<close> and \<open>a\<close> as in \<open>actor_setValue\<close>.\<close>

definition actor_store ::
  "control \<Rightarrow> (string \<Rightarrow> imodel) \<Rightarrow> bool \<Rightarrow> actor_type \<Rightarrow> link \<Rightarrow> link" where
  "actor_store c fetch complex a st =
     st\<lparr>lk_model := actor_setValue c fetch complex a (lk_selected st) (lk_model st)\<rparr>"

definition actor_click ::
  "control \<Rightarrow> (string \<Rightarrow> imodel) \<Rightarrow> bool \<Rightarrow> actor_type \<Rightarrow> string \<Rightarrow> link \<Rightarrow> link" where
  "actor_click c fetch complex a u st =
     (let st1 = st\<lparr>lk_marked := toggle_mark (ct_single c) u (lk_marked st)\<rparr>
      in if ct_single c then (actor_store c fetch complex a (st1\<lparr>lk_selected := [MRef u]\<rparr>))\<lparr>lk_menu := False\<rparr>
         else if MRef u \<in> set (lk_selected st) then st1\<lparr>lk_selected := filter (\<lambda>v. v \<noteq> MRef u) (lk_selected st)\<rparr>
         else st1\<lparr>lk_selected := lk_selected st @ [MRef u]\<rparr>)"

text \<open>
  The second click of a double click. \<open>label\<close> says that it hit the label inside the suggestion: the class
  \<open>selected\<close> is looked for at the element that was hit.
\<close>

definition actor_dblclick ::
  "control \<Rightarrow> (string \<Rightarrow> imodel) \<Rightarrow> bool \<Rightarrow> actor_type \<Rightarrow> bool \<Rightarrow> string \<Rightarrow> link \<Rightarrow> link" where
  "actor_dblclick c fetch complex a label u st =
     (let st1 = (if \<not> label \<and> u \<in> set (lk_marked st) then st else actor_click c fetch complex a u st)
      in (actor_store c fetch complex a st1)\<lparr>lk_menu := False\<rparr>)"

definition actor_outside ::
  "control \<Rightarrow> (string \<Rightarrow> imodel) \<Rightarrow> bool \<Rightarrow> actor_type \<Rightarrow> link \<Rightarrow> link" where
  "actor_outside c fetch complex a st =
     (if lk_menu st
      then (if lk_selected st \<noteq> [] then actor_store c fetch complex a st else st)\<lparr>lk_menu := False\<rparr> else st)"

text \<open>The button of the header stores the selected values as they are.\<close>

definition actor_ok :: "control \<Rightarrow> link \<Rightarrow> link" where
  "actor_ok c st = (link_set c (lk_selected st) st)\<lparr>lk_menu := False\<rparr>"

definition actor_clear :: "control \<Rightarrow> bool \<Rightarrow> link \<Rightarrow> link" where
  "actor_clear c complex st =
     (let m = lk_model st; m1 = clear_value (ct_prop c) False m
      in st\<lparr>lk_menu := False,
           lk_model := (if \<not> ct_single c then m
                        else if complex
                        then clear_value (ct_prop c @ ''.v-s:occupation'') False (clear_value (ct_prop c @ ''.v-s:employee'') False m1)
                        else m1)\<rparr>)"

text \<open>\<open>arrowHandler\<close>: the suggestion that is active, among \<open>n\<close>.\<close>

definition arrow_down :: "nat \<Rightarrow> nat option \<Rightarrow> nat option" where
  "arrow_down n active =
     (case active of
        Some i \<Rightarrow> if Suc i < n then Some (Suc i) else if n = 0 then None else Some 0
      | None \<Rightarrow> if n = 0 then None else Some 0)"

definition arrow_up :: "nat \<Rightarrow> nat option \<Rightarrow> nat option" where
  "arrow_up n active =
     (case active of
        Some (Suc i) \<Rightarrow> Some i
      | _ \<Rightarrow> if n = 0 then None else Some (n - 1))"

text \<open>\<open>inputHandler\<close>, after the wait: what the text in the field leads to.\<close>

datatype input_result = Searches string | Empties | Nothing

definition input_result_of :: "string \<Rightarrow> input_result" where
  "input_result_of t = (if 3 \<le> utf16_length t then Searches t else if t = [] then Empties else Nothing)"

text \<open>\<open>propertyModifiedHandler\<close>: the value whose text the field shows.\<close>

definition actor_shown :: "control \<Rightarrow> imodel \<Rightarrow> mval option" where
  "actor_shown c m = (if ct_single c then (case actor_values c m of [] \<Rightarrow> None | v # _ \<Rightarrow> Some v) else None)"

end
