(* ===== verification/User_Model.thy ===== *)
theory User_Model
  imports Individual_Props
begin

text \<open>
  The user of the application: \<^verbatim>\<open>public/js/common/user_model.js\<close>. \<open>_init\<close> brings the user with aspect,
  appointment, preferences and languages. \<open>load\<close> is what an individual holds once it is loaded, \<open>refused\<close> says
  whose save the server refuses. A promise that is rejected is \<open>None\<close>.
\<close>

section \<open>The state\<close>

record user_state =
  us_user :: imodel
  us_aspect :: imodel
  us_appointment :: "string option"
  us_prefs :: imodel
  us_language :: "string obj"
  us_displayed :: mval
  us_sent :: "(string \<times> request list) list"

text \<open>An individual by its id that is neither loaded nor new\<close>

definition unloaded :: "string \<Rightarrow> imodel" where
  "unloaded u =
     \<lparr>properties = \<lparr>uri = u, props = []\<rparr>, original = None, isNew = False, isSync = False, isLoaded = False, events = []\<rparr>"

abbreviation model_id :: "imodel \<Rightarrow> string" where
  "model_id m \<equiv> uri (properties m)"

abbreviation has_any :: "imodel \<Rightarrow> string \<Rightarrow> bool" where
  "has_any m p \<equiv> has_value m p MUndef"

text \<open>The clock and the texts of the environment; who saves is the appointment, once there is one, or the user.\<close>

definition saver :: "save_env \<Rightarrow> user_state \<Rightarrow> save_env" where
  "saver env st =
     (let u = model_id (us_user st)
      in env\<lparr>se_user := u, se_actor := (case us_appointment st of None \<Rightarrow> u | Some a \<Rightarrow> a)\<rparr>)"

text \<open>A save with its answer: the model afterwards and the requests; a refused one leaves the model as it was sent.\<close>

definition saved :: "save_env \<Rightarrow> bool \<Rightarrow> imodel \<Rightarrow> imodel \<times> request list" where
  "saved env refused m =
     (case save env m of
        (m1, SaveSends rs) \<Rightarrow> (if refused then m1 else save_answered m1, rs)
      | (m1, _) \<Rightarrow> (m1, []))"

definition first_ref :: "save_env \<Rightarrow> imodel \<Rightarrow> string \<Rightarrow> string option" where
  "first_ref env m p = (case get_values (se_str env) (se_parse env) m p of MRef u # _ \<Rightarrow> Some u | _ \<Rightarrow> None)"

definition put_prop :: "save_env \<Rightarrow> string \<Rightarrow> mval \<Rightarrow> imodel \<Rightarrow> imodel" where
  "put_prop env p v m = set_value (se_str env) p [v] False m"

section \<open>The steps\<close>

definition initAspect ::
  "save_env \<Rightarrow> (string \<Rightarrow> imodel) \<Rightarrow> (string \<Rightarrow> bool) \<Rightarrow> user_state \<Rightarrow> user_state option" where
  "initAspect env load refused st =
     (let user = us_user st; u = model_id user; aid = u @ ''_aspect''; la = load aid
      in if has_any user ''v-s:hasAspect''
         then map_option (\<lambda>a. st\<lparr>us_aspect := load a\<rparr>) (first_ref env user ''v-s:hasAspect'')
         else (let st1 = st\<lparr>us_user := put_prop env ''v-s:hasAspect'' (MRef aid) user\<rparr>
               in if has_value la ''rdf:type'' (MText ''rdfs:Resource'')
                  then (let a = put_prop env ''rdfs:label'' (MText (''PersonalAspect_'' @ u))
                                  (put_prop env ''v-s:owner'' (MRef u) (put_prop env ''rdf:type'' (MRef ''v-s:PersonalAspect'') la));
                            (a1, rs) = saved (saver env st) (refused aid) a
                        in if rs \<noteq> [] \<and> refused aid then None
                           else Some (st1\<lparr>us_aspect := a1, us_sent := us_sent st1 @ [(aid, rs)]\<rparr>))
                  else Some (st1\<lparr>us_aspect := la\<rparr>)))"

definition initAppointment :: "save_env \<Rightarrow> user_state \<Rightarrow> user_state option" where
  "initAppointment env st =
     (let user = us_user st; fr = first_ref env user
      in if has_any user ''v-s:defaultAppointment''
         then map_option (\<lambda>a. st\<lparr>us_appointment := Some a\<rparr>) (fr ''v-s:defaultAppointment'')
         else if has_any user ''v-s:hasAppointment''
         then map_option (\<lambda>a. st\<lparr>us_user := put_prop env ''v-s:defaultAppointment'' (MRef a) user, us_appointment := Some a\<rparr>)
                (fr ''v-s:hasAppointment'')
         else Some (st\<lparr>us_appointment := None\<rparr>))"

definition initPreferences :: "save_env \<Rightarrow> (string \<Rightarrow> imodel) \<Rightarrow> user_state \<Rightarrow> user_state option" where
  "initPreferences env load st =
     (let user = us_user st; u = model_id user; pid = u @ ''_pref''
      in if has_any user ''v-ui:hasPreferences''
         then map_option (\<lambda>p. st\<lparr>us_prefs := load p\<rparr>) (first_ref env user ''v-ui:hasPreferences'')
         else Some (st\<lparr>us_prefs := put_prop env ''rdfs:label'' (MText (''Preferences_'' @ u))
                         (put_prop env ''rdf:type'' (MRef ''v-ui:Preferences'') (put_prop env ''v-s:owner'' (MRef u) (unloaded pid))),
                      us_user := put_prop env ''v-ui:hasPreferences'' (MRef pid) user\<rparr>))"

text \<open>\<open>setLanguage\<close>: the languages by the part of their id behind the colon.\<close>

definition after_colon :: "string \<Rightarrow> string" where
  "after_colon u = (if CHR '':'' \<in> set u then tl (dropWhile (\<lambda>c. c \<noteq> CHR '':'') u) else u)"

definition add_language :: "string obj option \<Rightarrow> mval \<Rightarrow> string obj option" where
  "add_language acc v =
     (case (acc, v) of (Some ob, MRef u) \<Rightarrow> Some (oset (after_colon u) u ob) | _ \<Rightarrow> None)"

definition setLanguage :: "save_env \<Rightarrow> user_state \<Rightarrow> user_state option" where
  "setLanguage env st =
     map_option (\<lambda>ob. st\<lparr>us_language := ob\<rparr>)
       (foldl add_language (Some []) (get_values (se_str env) (se_parse env) (us_prefs st) ''v-ui:preferredLanguage''))"

definition falsy :: "mval \<Rightarrow> bool" where
  "falsy v \<longleftrightarrow>
     (case v of MUndef \<Rightarrow> True | MNull \<Rightarrow> True | MBool b \<Rightarrow> \<not> b | MNum n \<Rightarrow> n = 0 | MNaN \<Rightarrow> True | MText t \<Rightarrow> t = []
      | MDec m e \<Rightarrow> m = 0 | _ \<Rightarrow> False)"

definition setDisplayedElements :: "save_env \<Rightarrow> user_state \<Rightarrow> user_state" where
  "setDisplayedElements env st =
     st\<lparr>us_displayed := (case get_values (se_str env) (se_parse env) (us_prefs st) ''v-ui:displayedElements'' of
          [] \<Rightarrow> MNum 10 | v # _ \<Rightarrow> if falsy v then MNum 10 else v)\<rparr>"

text \<open>The save of the preferences is not waited for: whether it is refused makes no difference here.\<close>

definition initLanguage :: "save_env \<Rightarrow> (string \<Rightarrow> bool) \<Rightarrow> user_state \<Rightarrow> user_state option" where
  "initLanguage env refused st =
     (let p = us_prefs st;
          st1 = (if \<not> has_any p ''v-ui:preferredLanguage'' \<or> \<not> has_any p ''v-ui:displayedElements''
                 then (let (p1, rs) = saved (saver env st) (refused (model_id p))
                             (put_prop env ''v-ui:displayedElements'' (MNum 10) (put_prop env ''v-ui:preferredLanguage'' (MRef ''v-ui:RU'') p))
                       in st\<lparr>us_prefs := p1, us_sent := us_sent st @ [(model_id p, rs)]\<rparr>)
                 else st)
      in map_option (setDisplayedElements env) (setLanguage env st1))"

definition init_user ::
  "save_env \<Rightarrow> (string \<Rightarrow> imodel) \<Rightarrow> (string \<Rightarrow> bool) \<Rightarrow> user_state \<Rightarrow> user_state option" where
  "init_user env load refused st =
     Option.bind (initAspect env load refused st) (\<lambda>st.
       Option.bind (initAppointment env st) (\<lambda>st.
         Option.bind (initPreferences env load st) (\<lambda>st.
           Option.bind (initLanguage env refused st) (\<lambda>st.
             let u = model_id (us_user st); (m, rs) = saved (saver env st) (refused u) (us_user st)
             in if rs \<noteq> [] \<and> refused u then None
                else Some (st\<lparr>us_user := m, us_sent := us_sent st @ (if rs = [] then [] else [(u, rs)])\<rparr>)))))"

text \<open>\<open>updatePreferences\<close>, when the preferences are changed later: only a guest's are not saved.\<close>

definition updatePreferences :: "save_env \<Rightarrow> bool \<Rightarrow> user_state \<Rightarrow> user_state" where
  "updatePreferences env refused st =
     (if model_id (us_user st) = ''cfg:Guest'' then st
      else (let (p1, rs) = saved (saver env st) refused (us_prefs st)
            in st\<lparr>us_prefs := p1, us_sent := us_sent st @ [(model_id (us_prefs st), rs)]\<rparr>))"

end
