(* ===== verification/User_Props.thy ===== *)
theory User_Props
  imports User_Model
begin

text \<open>
  A user whose values are individuals gets an aspect, preferences and languages, also on the first visit.
\<close>

lemma has_any_iff: "has_any m p \<longleftrightarrow> mvals m p \<noteq> []"
  by (simp add: has_value_def)

lemma mvals_put: "mvals (put_prop env p (MRef u) m) k = (if p = k then [mkv TUri (DStr u)] else mvals m k)"
  by (auto simp: put_prop_def mvals_set_value mvals_set_other kept_value_def List.map_filter_simps)

lemma mvals_put_other: "p \<noteq> k \<Longrightarrow> mvals (put_prop env p v m) k = mvals m k"
  by (simp add: put_prop_def mvals_set_other)

lemma model_id_put [simp]: "model_id (put_prop env p v m) = model_id m"
  by (simp add: put_prop_def)

section \<open>What a save keeps\<close>

lemma drop_empty_keeps:
  assumes "list_all has_data vs" and "vs \<noteq> []" and "oget ps k = Some vs"
  shows "oget (List.map_filter (\<lambda>(p, vs). case filter has_data vs of [] \<Rightarrow> None | xs \<Rightarrow> Some (p, xs)) ps) k = Some vs"
  using assms(3)
proof (induction ps)
  case (Cons x ps)
  have f: "filter has_data vs = vs" using assms(1) by (simp add: list_all_iff filter_id_conv)
  show ?case
  proof (cases "fst x = k")
    case True
    then have "snd x = vs" using Cons.prems by (cases x) simp
    then show ?thesis using True f assms(2) by (cases x) (auto simp: List.map_filter_simps split: list.splits)
  next
    case False
    then have "oget ps k = Some vs" using Cons.prems by (cases x) simp
    with Cons.IH False show ?thesis by (cases x) (auto simp: List.map_filter_simps split: list.splits)
  qed
qed simp

definition stamps :: "string list" where
  "stamps = [''v-s:creator'', ''v-s:created'', ''v-s:edited'', ''v-s:lastEditor'']"

lemma mvals_before_save: "k \<notin> set stamps \<Longrightarrow> mvals (before_save env m) k = mvals m k"
  by (auto simp: before_save_def Let_def mvals_set_other stamps_def)

lemma mvals_saved:
  assumes "k \<notin> set stamps" and "list_all has_data (mvals m k)" and "mvals m k \<noteq> []"
  shows "mvals (fst (saved env r m)) k = mvals m k"
proof -
  let ?m1 = "before_save env (trigger [''beforeSave''] m)"
  let ?m2 = "?m1\<lparr>properties := drop_empty (properties ?m1)\<rparr>"
  have "mvals (trigger [''beforeSave''] m) k = mvals m k" by (simp add: mvals_def trigger_def)
  then have 1: "mvals ?m1 k = mvals m k" using mvals_before_save [OF assms(1)] by simp
  then obtain vs where vs: "pget (properties ?m1) k = Some vs" "vs = mvals m k"
    using assms(3) by (auto simp: mvals_def split: option.splits)
  have "pget (drop_empty (properties ?m1)) k = Some vs"
    using drop_empty_keeps [of vs "props (properties ?m1)" k] assms(2,3) vs by (simp add: drop_empty_def)
  then have 2: "mvals ?m2 k = mvals m k" using vs(2) by (simp add: mvals_def)
  have "fst (saved env r m) = m \<or> fst (saved env r m) = ?m2 \<or> fst (saved env r m) = save_answered ?m2"
    by (auto simp: saved_def save_def Let_def)
  moreover have "mvals (save_answered ?m2) k = mvals m k" using 2 by (simp add: mvals_def save_answered_def trigger_def)
  ultimately show ?thesis using 2 by metis
qed

section \<open>The steps\<close>

definition goes_to :: "save_env \<Rightarrow> imodel \<Rightarrow> string \<Rightarrow> bool" where
  "goes_to env m p \<longleftrightarrow> (has_any m p \<longrightarrow> first_ref env m p \<noteq> None)"

lemma first_ref_same: "mvals m p = mvals m2 p \<Longrightarrow> first_ref env m p = first_ref env m2 p"
  by (simp add: first_ref_def get_values_def)

lemma aspect_step:
  assumes "goes_to env (us_user st) ''v-s:hasAspect''" and "\<And>u. \<not> refused u"
  shows "\<exists>st2. initAspect env load refused st = Some st2 \<and> model_id (us_user st2) = model_id (us_user st)
    \<and> (\<forall>k. k \<noteq> ''v-s:hasAspect'' \<longrightarrow> mvals (us_user st2) k = mvals (us_user st) k)"
proof (cases "has_any (us_user st) ''v-s:hasAspect''")
  case True
  then show ?thesis using assms(1) by (auto simp: initAspect_def goes_to_def Let_def)
next
  case False
  then show ?thesis using assms(2) by (auto simp: initAspect_def Let_def mvals_put_other split: prod.splits)
qed

definition appointment_of :: "save_env \<Rightarrow> imodel \<Rightarrow> string option" where
  "appointment_of env m =
     (if has_any m ''v-s:defaultAppointment'' then first_ref env m ''v-s:defaultAppointment''
      else if has_any m ''v-s:hasAppointment'' then first_ref env m ''v-s:hasAppointment'' else None)"

lemma appointment_step:
  assumes "goes_to env (us_user st) ''v-s:defaultAppointment''" and "goes_to env (us_user st) ''v-s:hasAppointment''"
  shows "\<exists>st2. initAppointment env st = Some st2 \<and> us_appointment st2 = appointment_of env (us_user st)
    \<and> model_id (us_user st2) = model_id (us_user st)
    \<and> (\<forall>k. k \<noteq> ''v-s:defaultAppointment'' \<longrightarrow> mvals (us_user st2) k = mvals (us_user st) k)"
  using assms by (auto simp: initAppointment_def appointment_of_def goes_to_def mvals_put_other Let_def)

definition own_prefs :: "save_env \<Rightarrow> string \<Rightarrow> imodel" where
  "own_prefs env u =
     put_prop env ''rdfs:label'' (MText (''Preferences_'' @ u))
       (put_prop env ''rdf:type'' (MRef ''v-ui:Preferences'') (put_prop env ''v-s:owner'' (MRef u) (unloaded (u @ ''_pref''))))"

definition prefs_of :: "save_env \<Rightarrow> (string \<Rightarrow> imodel) \<Rightarrow> imodel \<Rightarrow> imodel" where
  "prefs_of env load m =
     (case first_ref env m ''v-ui:hasPreferences'' of Some p \<Rightarrow> load p | None \<Rightarrow> own_prefs env (model_id m))"

lemma prefs_step:
  assumes "goes_to env (us_user st) ''v-ui:hasPreferences''"
  shows "\<exists>st2. initPreferences env load st = Some st2 \<and> us_prefs st2 = prefs_of env load (us_user st)
    \<and> us_appointment st2 = us_appointment st \<and> model_id (us_user st2) = model_id (us_user st)"
proof (cases "has_any (us_user st) ''v-ui:hasPreferences''")
  case True
  then show ?thesis using assms by (auto simp: initPreferences_def prefs_of_def goes_to_def Let_def)
next
  case False
  then have "first_ref env (us_user st) ''v-ui:hasPreferences'' = None"
    by (simp add: has_any_iff first_ref_def get_values_def)
  then show ?thesis using False by (simp add: initPreferences_def prefs_of_def own_prefs_def Let_def)
qed

lemma add_languages: "foldl add_language (Some ob) (map MRef us) = Some (foldl (\<lambda>ob u. oset (after_colon u) u ob) ob us)"
  by (induction us arbitrary: ob) (simp_all add: add_language_def)

lemma languages_there: "us \<noteq> [] \<Longrightarrow> foldl (\<lambda>ob u. oset (after_colon u) u ob) ob us \<noteq> []"
proof (induction us arbitrary: ob rule: rev_induct)
  case (snoc u us)
  then show ?case by (cases "foldl (\<lambda>ob u. oset (after_colon u) u ob) ob us") auto
qed simp

lemma language_kept:
  assumes "mvals p ''v-ui:preferredLanguage'' = map (\<lambda>u. mkv TUri (DStr u)) ls" and "ls \<noteq> []"
    and "has_any p ''v-ui:displayedElements''" and "us_prefs st = p"
  shows "\<exists>st2. initLanguage env refused st = Some st2 \<and> us_prefs st2 = p \<and> us_sent st2 = us_sent st
    \<and> us_language st2 = foldl (\<lambda>ob u. oset (after_colon u) u ob) [] ls \<and> us_language st2 \<noteq> [] \<and> \<not> falsy (us_displayed st2)
    \<and> us_user st2 = us_user st \<and> us_appointment st2 = us_appointment st"
proof -
  have g: "get_values (se_str env) (se_parse env) p ''v-ui:preferredLanguage'' = map MRef ls"
    using assms(1) by (simp add: get_values_def parser_def)
  have "\<not> falsy (MNum 10)" by (simp add: falsy_def)
  then show ?thesis
    using assms(1-4) g languages_there [OF assms(2), of "[]"]
    by (auto simp: initLanguage_def setLanguage_def setDisplayedElements_def has_any_iff add_languages Let_def split: list.splits)
qed

lemma language_default:
  assumes "\<not> has_any p ''v-ui:preferredLanguage'' \<or> \<not> has_any p ''v-ui:displayedElements''" and "us_prefs st = p"
  shows "\<exists>st2. initLanguage env refused st = Some st2
    \<and> us_language st2 = [(''RU'', ''v-ui:RU'')] \<and> us_displayed st2 = MNum 10
    \<and> us_user st2 = us_user st \<and> us_appointment st2 = us_appointment st"
proof -
  let ?p = "put_prop env ''v-ui:displayedElements'' (MNum 10) (put_prop env ''v-ui:preferredLanguage'' (MRef ''v-ui:RU'') p)"
  let ?q = "fst (saved (saver env st) (refused (model_id p)) ?p)"
  have l: "mvals ?p ''v-ui:preferredLanguage'' = [mkv TUri (DStr ''v-ui:RU'')]" by (simp add: mvals_put_other mvals_put)
  have d: "mvals ?p ''v-ui:displayedElements'' = [mkv TInteger (DNum 10)]"
    by (simp add: put_prop_def mvals_set_value kept_value_def List.map_filter_simps)
  have "mvals ?q ''v-ui:preferredLanguage'' = [mkv TUri (DStr ''v-ui:RU'')]"
    using mvals_saved [of "''v-ui:preferredLanguage''" ?p "saver env st" "refused (model_id p)"] by (simp add: l stamps_def has_data_def)
  moreover have "mvals ?q ''v-ui:displayedElements'' = [mkv TInteger (DNum 10)]"
    using mvals_saved [of "''v-ui:displayedElements''" ?p "saver env st" "refused (model_id p)"] by (simp add: d stamps_def has_data_def)
  moreover have "after_colon ''v-ui:RU'' = ''RU''" by (simp add: after_colon_def)
  ultimately show ?thesis
    using assms
    by (auto simp: initLanguage_def setLanguage_def setDisplayedElements_def get_values_def parser_def add_language_def falsy_def Let_def
        split: prod.splits)
qed

text \<open>C36: If the aspect, the appointments and the preferences of the user are individuals and no save is refused, the
  initialisation succeeds: the appointment is the default one or else the first one, there is a
  language, and a number of displayed elements that is not 0. Preferences with a language and a number
  are taken as they are and not written; if either of the two is missing both are set anew, so that
  a user who has only chosen a language reads Russian afterwards.\<close>

theorem user_ready:
  fixes env :: save_env and st :: user_state and load :: "string \<Rightarrow> imodel"
  assumes "\<And>p. p \<in> {''v-s:hasAspect'', ''v-s:defaultAppointment'', ''v-s:hasAppointment'', ''v-ui:hasPreferences''} \<Longrightarrow> goes_to env (us_user st) p"
    and "\<And>u. \<not> refused u"
  defines "p \<equiv> prefs_of env load (us_user st)"
  assumes "mvals p ''v-ui:preferredLanguage'' = map (\<lambda>u. mkv TUri (DStr u)) ls"
  shows "\<exists>st2. init_user env load refused st = Some st2
    \<and> us_appointment st2 = appointment_of env (us_user st) \<and> us_language st2 \<noteq> [] \<and> \<not> falsy (us_displayed st2)
    \<and> (if ls \<noteq> [] \<and> has_any p ''v-ui:displayedElements''
        then us_prefs st2 = p \<and> us_language st2 = foldl (\<lambda>ob u. oset (after_colon u) u ob) [] ls
        else us_language st2 = [(''RU'', ''v-ui:RU'')] \<and> us_displayed st2 = MNum 10)"
proof -
  obtain st1 where s1: "initAspect env load refused st = Some st1" "model_id (us_user st1) = model_id (us_user st)"
      "\<forall>k. k \<noteq> ''v-s:hasAspect'' \<longrightarrow> mvals (us_user st1) k = mvals (us_user st) k"
    using aspect_step [of env st refused load] assms(1,2) by auto
  have g1: "goes_to env (us_user st1) q" if "q \<in> {''v-s:defaultAppointment'', ''v-s:hasAppointment'', ''v-ui:hasPreferences''}" for q
    using that assms(1) [of q] s1(3) first_ref_same [of "us_user st1" q "us_user st" env] by (auto simp: goes_to_def has_any_iff)
  have a1: "appointment_of env (us_user st1) = appointment_of env (us_user st)"
    using s1(3) first_ref_same [of "us_user st1" _ "us_user st" env] by (simp add: appointment_of_def has_any_iff)
  obtain st2 where s2: "initAppointment env st1 = Some st2" "us_appointment st2 = appointment_of env (us_user st)"
      "model_id (us_user st2) = model_id (us_user st1)"
      "\<forall>k. k \<noteq> ''v-s:defaultAppointment'' \<longrightarrow> mvals (us_user st2) k = mvals (us_user st1) k"
    using appointment_step [of env st1] g1 a1 by auto
  have mv: "mvals (us_user st2) ''v-ui:hasPreferences'' = mvals (us_user st) ''v-ui:hasPreferences''" using s1(3) s2(4) by simp
  then have g2: "goes_to env (us_user st2) ''v-ui:hasPreferences''" "prefs_of env load (us_user st2) = p"
    using assms(1) [of "''v-ui:hasPreferences''"] first_ref_same [OF mv, of env] s1(2) s2(3)
    by (simp_all add: goes_to_def has_any_iff prefs_of_def p_def split: option.splits)
  obtain st3 where s3: "initPreferences env load st2 = Some st3" "us_prefs st3 = p" "us_appointment st3 = us_appointment st2"
    using prefs_step [OF g2(1), of load] g2(2) by auto
  have "\<exists>st4. initLanguage env refused st3 = Some st4 \<and> us_appointment st4 = us_appointment st3
      \<and> us_language st4 \<noteq> [] \<and> \<not> falsy (us_displayed st4)
      \<and> (if ls \<noteq> [] \<and> has_any p ''v-ui:displayedElements''
          then us_prefs st4 = p \<and> us_language st4 = foldl (\<lambda>ob u. oset (after_colon u) u ob) [] ls
          else us_language st4 = [(''RU'', ''v-ui:RU'')] \<and> us_displayed st4 = MNum 10)"
  proof (cases "ls \<noteq> [] \<and> has_any p ''v-ui:displayedElements''")
    case True
    then show ?thesis using language_kept [OF assms(4) _ _ s3(2), of env refused] by auto
  next
    case False
    then have "\<not> has_any p ''v-ui:preferredLanguage'' \<or> \<not> has_any p ''v-ui:displayedElements''"
      using assms(4) by (auto simp: has_any_iff)
    from language_default [OF this s3(2), of env refused] show ?thesis using False by (auto simp: falsy_def)
  qed
  then obtain st4 where s4: "initLanguage env refused st3 = Some st4" "us_appointment st4 = us_appointment st3"
      "us_language st4 \<noteq> []" "\<not> falsy (us_displayed st4)"
      "if ls \<noteq> [] \<and> has_any p ''v-ui:displayedElements''
        then us_prefs st4 = p \<and> us_language st4 = foldl (\<lambda>ob u. oset (after_colon u) u ob) [] ls
        else us_language st4 = [(''RU'', ''v-ui:RU'')] \<and> us_displayed st4 = MNum 10" by blast
  obtain m rs where sv: "saved (saver env st4) False (us_user st4) = (m, rs)" by fastforce
  have "init_user env load refused st = Some (st4\<lparr>us_user := m, us_sent := us_sent st4 @ (if rs = [] then [] else [(model_id (us_user st4), rs)])\<rparr>)"
    using assms(2) by (simp add: init_user_def s1(1) s2(1) s3(1) s4(1) Let_def sv)
  then show ?thesis using s4 s2(2) s3(3) by simp
qed

definition anna_ex :: user_state where
  "anna_ex = \<lparr>us_user = model_of_json \<lparr>uri = ''d:anna'', props = [(''v-ui:hasPreferences'', [mkv TUri (DStr ''d:prefs'')]),
       (''v-s:hasAppointment'', [mkv TUri (DStr ''d:chief'')])]\<rparr>,
     us_aspect = unloaded [], us_appointment = None, us_prefs = unloaded [], us_language = [], us_displayed = MUndef, us_sent = []\<rparr>"

definition english_ex :: "string \<Rightarrow> imodel" where
  "english_ex u = model_of_json \<lparr>uri = u, props = [(''v-ui:preferredLanguage'', [mkv TUri (DStr ''v-ui:EN'')])]\<rparr>"

theorem user_ready_witness:
  "\<exists>st2. init_user env_ex english_ex (\<lambda>_. False) anna_ex = Some st2 \<and> us_appointment st2 = Some ''d:chief''
     \<and> us_language st2 = [(''RU'', ''v-ui:RU'')]"
proof -
  let ?u = "us_user anna_ex"
  have v: "mvals ?u ''v-ui:hasPreferences'' = [mkv TUri (DStr ''d:prefs'')]" "mvals ?u ''v-s:hasAppointment'' = [mkv TUri (DStr ''d:chief'')]"
    "mvals ?u ''v-s:hasAspect'' = []" "mvals ?u ''v-s:defaultAppointment'' = []"
    by (simp_all add: anna_ex_def model_of_json_def mvals_def)
  have fr: "first_ref env_ex ?u ''v-ui:hasPreferences'' = Some ''d:prefs''" "first_ref env_ex ?u ''v-s:hasAppointment'' = Some ''d:chief''"
    by (simp_all add: first_ref_def get_values_def v parser_def)
  have g: "goes_to env_ex ?u p" if "p \<in> {''v-s:hasAspect'', ''v-s:defaultAppointment'', ''v-s:hasAppointment'', ''v-ui:hasPreferences''}" for p
    using that by (auto simp: goes_to_def has_any_iff v fr)
  have p: "prefs_of env_ex english_ex ?u = english_ex ''d:prefs''" by (simp add: prefs_of_def fr)
  have l: "mvals (english_ex ''d:prefs'') ''v-ui:preferredLanguage'' = map (\<lambda>u. mkv TUri (DStr u)) [''v-ui:EN'']"
    "mvals (english_ex ''d:prefs'') ''v-ui:displayedElements'' = []"
    by (simp_all add: english_ex_def model_of_json_def mvals_def)
  have "appointment_of env_ex ?u = Some ''d:chief''" by (simp add: appointment_of_def has_any_iff v fr)
  with user_ready [OF g, of "\<lambda>_. False" english_ex "[''v-ui:EN'']"] show ?thesis
    by (auto simp: p l has_any_iff)
qed

end
