(* ===== verification/Template.thy ===== *)
theory Template
  imports Individual_Model
begin

text \<open>
  How an individual is presented, \<^verbatim>\<open>public/js/browser/individual_presenter.js\<close>: which template it gets, the
  scripts in the template, and the values of a relation with the individuals embedded there. What is drawn
  is jQuery.
\<close>

section \<open>The template\<close>

text \<open>The UTF-16 units of a text given by its UTF-8 bytes\<close>

fun utf16_codes :: "nat list \<Rightarrow> nat list" where
  "utf16_codes [] = []"
| "utf16_codes (a # b # c # d # bs) =
     (if a < 128 then a # utf16_codes (b # c # d # bs)
      else if a < 224 then ((a mod 32) * 64 + b mod 64) # utf16_codes (c # d # bs)
      else if a < 240 then ((a mod 16) * 4096 + (b mod 64) * 64 + c mod 64) # utf16_codes (d # bs)
      else (let u = (a mod 8) * 262144 + (b mod 64) * 4096 + (c mod 64) * 64 + d mod 64 - 65536
            in (55296 + u div 1024) # (56320 + u mod 1024) # utf16_codes bs))"
| "utf16_codes [a, b, c] =
     (if a < 128 then a # utf16_codes [b, c]
      else if a < 224 then ((a mod 32) * 64 + b mod 64) # utf16_codes [c]
      else [(a mod 16) * 4096 + (b mod 64) * 64 + c mod 64])"
| "utf16_codes [a, b] = (if a < 128 then a # utf16_codes [b] else [(a mod 32) * 64 + b mod 64])"
| "utf16_codes [a] = [a]"

definition inline_id :: "string \<Rightarrow> string" where
  "inline_id s = show_int (simpleHash (map int (utf16_codes (map of_char s))))"

definition offlineTemplate :: "string" where
  "offlineTemplate =
     ''<h5 class='' @ [CHR 0x27] @ ''container sheet text-center text-muted'' @ [CHR 0x27] @ ''>''
     @ (map char_of [208::nat, 157, 208, 181, 209, 130, 32, 209, 129, 208, 178, 209, 143, 208, 183, 208, 184, 32, 209,
      129, 32, 209, 129, 208, 181, 209, 128, 208, 178, 208, 181, 209, 128, 208, 190, 208, 188, 46, 32, 208, 173, 209,
      130, 208, 190, 209, 130, 32, 208, 190, 208, 177, 209, 138, 208, 181, 208, 186, 209, 130, 32, 209, 129, 208, 181,
      208, 185, 209, 135, 208, 176, 209, 129, 32, 208, 189, 208, 181, 208, 180, 208, 190, 209, 129, 209, 130, 209, 131,
      208, 191, 208, 181, 208, 189, 32, 47, 32, 83, 101, 114, 118, 101, 114, 32, 100, 105, 115, 99, 111, 110, 110, 101,
      99, 116, 101, 100, 46, 32, 84, 104, 105, 115, 32, 111, 98, 106, 101, 99, 116, 32, 105, 115, 32, 110, 111, 116,
      32, 97, 118, 97, 105, 108, 97, 98, 108, 101, 32, 110, 111, 119]) @ ''</h5>''"

text \<open>
  What is there: the individuals as they are loaded, the inline templates in the cache, and the
  ontology's template of a class. \<open>pr_str\<close>, \<open>pr_parse\<close> and \<open>pr_label\<close> as in \<open>parser\<close>.
\<close>

record present_world =
  pr_fetch :: "string \<Rightarrow> imodel"
  pr_cached :: "string \<Rightarrow> string option"
  pr_class :: "string \<Rightarrow> string option"
  pr_str :: "int \<Rightarrow> string"
  pr_parse :: "string \<Rightarrow> int"
  pr_text :: "mval \<Rightarrow> string"

definition pr_values :: "present_world \<Rightarrow> imodel \<Rightarrow> string \<Rightarrow> mval list" where
  "pr_values w m p = get_values (pr_str w) (pr_parse w) m p"

definition template_of :: "present_world \<Rightarrow> imodel \<Rightarrow> string" where
  "template_of w t =
     (case pr_values w t ''v-ui:template'' of [] \<Rightarrow> offlineTemplate | v # _ \<Rightarrow> pr_text w v)"

definition first_id :: "mval list \<Rightarrow> string option" where
  "first_id vs = (case vs of MRef u # _ \<Rightarrow> Some u | _ \<Rightarrow> None)"

text \<open>
  A template that is handed over: an id, or a text; a text is looked up by its hash, and an earlier one with
  the same hash is taken.
\<close>

definition given_template :: "present_world \<Rightarrow> string \<Rightarrow> string" where
  "given_template w s =
     (if reg_uri s then template_of w (pr_fetch w s)
      else (case pr_cached w (inline_id s) of Some t \<Rightarrow> t | None \<Rightarrow> s))"

definition type_template :: "present_world \<Rightarrow> mval \<Rightarrow> string option" where
  "type_template w v =
     (case v of
        MRef t \<Rightarrow>
          (case pr_class w t of
             Some d \<Rightarrow> Some (template_of w (pr_fetch w d))
           | None \<Rightarrow>
               (let m = pr_fetch w t
                in if has_value m ''v-ui:hasTemplate'' MUndef
                   then map_option (\<lambda>d. template_of w (pr_fetch w d)) (first_id (pr_values w m ''v-ui:hasTemplate''))
                   else Some (template_of w (pr_fetch w ''v-ui:generic''))))
      | _ \<Rightarrow> None)"

text \<open>\<open>present\<close>: the templates an individual is shown with; \<open>None\<close> is an error, which is only printed.\<close>

definition present_templates :: "present_world \<Rightarrow> imodel \<Rightarrow> string \<Rightarrow> string list option" where
  "present_templates w m template =
     (if template \<noteq> [] then Some [given_template w template]
      else if has_value m ''v-ui:hasTemplate'' MUndef
              \<and> \<not> (has_value m ''rdf:type'' (MText ''owl:Class'') \<or> has_value m ''rdf:type'' (MText ''rdfs:Class''))
      then (case first_id (pr_values w m ''v-ui:hasTemplate'') of
              None \<Rightarrow> None
            | Some d \<Rightarrow>
                if has_value (pr_fetch w d) ''rdf:type'' (MText ''v-ui:ClassTemplate'')
                then Some [template_of w (pr_fetch w d)] else None)
      else those (map (type_template w) (pr_values w m ''rdf:type'')))"

section \<open>Scripts in a template\<close>

text \<open>
  The regular expression of \<open>renderTemplate\<close>: a script at the start, up to the first closing tag; then the
  shortest text that is followed by a last script up to the end, or by nothing.
\<close>

definition starts_ci :: "string \<Rightarrow> string \<Rightarrow> bool" where
  "starts_ci p s \<longleftrightarrow> length p \<le> length s \<and> map lower_char (take (length p) s) = p"

text \<open>\<^verbatim>\<open><script[^>]*>\<close>: what is behind the tag\<close>

definition open_tag :: "string \<Rightarrow> string option" where
  "open_tag s =
     (if starts_ci ''<script'' s
      then (case dropWhile (\<lambda>c. c \<noteq> CHR ''>'') (drop 7 s) of [] \<Rightarrow> None | _ # r \<Rightarrow> Some r) else None)"

fun has_open :: "string \<Rightarrow> bool" where
  "has_open [] = False"
| "has_open (c # s) = (open_tag (c # s) \<noteq> None \<or> has_open s)"

fun first_close :: "string \<Rightarrow> (string \<times> string) option" where
  "first_close [] = None"
| "first_close (c # s) =
     (if starts_ci ''</script>'' (c # s) then Some ([], drop 8 s)
      else map_option (\<lambda>(a, b). (c # a, b)) (first_close s))"

definition last_close :: "string \<Rightarrow> string option" where
  "last_close s =
     (let n = length s in if 9 \<le> n \<and> starts_ci ''</script>'' (drop (n - 9) s) then Some (take (n - 9) s) else None)"

definition last_script :: "string \<Rightarrow> string option" where
  "last_script s = (case open_tag s of None \<Rightarrow> None | Some r \<Rightarrow> if has_open r then None else last_close r)"

fun body_and_last :: "string \<Rightarrow> string \<times> string option" where
  "body_and_last [] = ([], None)"
| "body_and_last (c # s) =
     (case last_script (c # s) of
        Some p \<Rightarrow> ([], Some p)
      | None \<Rightarrow> (case body_and_last s of (b, p) \<Rightarrow> (c # b, p)))"

definition template_parts :: "string \<Rightarrow> string option \<times> string \<times> string option" where
  "template_parts s =
     (case Option.bind (open_tag s) first_close of
        Some (pre, r) \<Rightarrow> (Some pre, body_and_last r)
      | None \<Rightarrow> (None, body_and_last s))"

section \<open>The values of a relation\<close>

definition truthy_mval :: "mval \<Rightarrow> bool" where
  "truthy_mval v =
     (case v of MUndef \<Rightarrow> False | MNull \<Rightarrow> False | MNaN \<Rightarrow> False | MBool b \<Rightarrow> b | MNum n \<Rightarrow> n \<noteq> 0 | MDec m e \<Rightarrow> m \<noteq> 0
      | MText s \<Rightarrow> s \<noteq> [] | _ \<Rightarrow> True)"

text \<open>Without a limit all are drawn; the second component is the number on the badge.\<close>

definition drawn_values :: "nat option \<Rightarrow> bool \<Rightarrow> mval list \<Rightarrow> mval list \<times> nat option" where
  "drawn_values limit badge vs =
     (takeWhile truthy_mval (case limit of None \<Rightarrow> vs | Some n \<Rightarrow> take n vs),
      case limit of None \<Rightarrow> None | Some n \<Rightarrow> if n < length vs \<and> badge then Some (length vs - n) else None)"

text \<open>
  \<open>embeddedHandler\<close>: in edit mode every embedded individual without a parent gets the shown one; \<open>ms\<close> are the
  models by their ids.
\<close>

definition embeddedHandler ::
  "present_world \<Rightarrow> string \<Rightarrow> string \<Rightarrow> string list \<Rightarrow> (string \<Rightarrow> imodel) \<Rightarrow> string \<Rightarrow> imodel" where
  "embeddedHandler w about rel vs ms0 =
     foldl (\<lambda>ms v. if v \<noteq> about \<and> rel \<noteq> ''v-s:parent'' \<and> \<not> has_value (ms v) ''v-s:parent'' MUndef
                   then ms(v := set_value (pr_str w) ''v-s:parent'' [MRef about] False (ms v)) else ms) ms0 vs"

text \<open>
  The button that removes a value. \<open>value.is ("v-s:Embedded")\<close> is a promise and so always true: the
  individual is deleted if its parent is the shown one. The result says whether \<open>delete\<close> is called.
\<close>

definition remove_value_button :: "string \<Rightarrow> string \<Rightarrow> string \<Rightarrow> (string \<Rightarrow> imodel) \<Rightarrow> (string \<Rightarrow> imodel) \<times> bool" where
  "remove_value_button about rel v ms =
     (ms(about := remove_value rel (Some [MRef v]) False (ms about)), has_value (ms v) ''v-s:parent'' (MRef about))"

text \<open>
  Entering edit mode: a new individual for an embedded relation that must have a value and has none. The types are
  the restriction of the specification or the range of the property.
\<close>

definition wants_empty_value :: "present_world \<Rightarrow> bool \<Rightarrow> imodel option \<Rightarrow> imodel \<Rightarrow> imodel \<Rightarrow> string \<Rightarrow> bool" where
  "wants_empty_value w embedded spec property m rel \<longleftrightarrow>
     embedded
     \<and> (case spec of
          None \<Rightarrow> False
        | Some sp \<Rightarrow>
            (case pr_values w sp ''v-ui:minCardinality'' of
               v # _ \<Rightarrow> (case mval_number v of None \<Rightarrow> False | Some x \<Rightarrow> num_le (1, 0) x) | [] \<Rightarrow> False))
     \<and> \<not> has_value m rel MUndef
     \<and> \<not> (case pr_values w property ''rdfs:range'' of MRef r # _ \<Rightarrow> r = ''v-s:File'' | _ \<Rightarrow> False)"

definition empty_value_types :: "present_world \<Rightarrow> imodel option \<Rightarrow> imodel \<Rightarrow> mval list" where
  "empty_value_types w spec property =
     (case spec of
        Some sp \<Rightarrow> if has_value sp ''v-ui:rangeRestriction'' MUndef then pr_values w sp ''v-ui:rangeRestriction''
                   else pr_values w property ''rdfs:range''
      | None \<Rightarrow> pr_values w property ''rdfs:range'')"

definition empty_value_added ::
  "present_world \<Rightarrow> bool \<Rightarrow> imodel option \<Rightarrow> imodel \<Rightarrow> string \<Rightarrow> string \<Rightarrow> imodel \<Rightarrow> imodel \<times> imodel option" where
  "empty_value_added w embedded spec property fresh rel m =
     (if wants_empty_value w embedded spec property m rel
      then (let types = empty_value_types w spec property; n = new_model fresh
            in (set_value (pr_str w) rel [MRef fresh] False m,
                Some (if types = [] then n else set_value (pr_str w) ''rdf:type'' types False n)))
      else (m, None))"

end
