(* ===== verification/Template_Props.thy ===== *)
theory Template_Props
  imports Template
begin

text \<open>The scripts of a template are found again, and what is drawn of a relation.\<close>

section \<open>Scripts\<close>

text \<open>No suffix of the text starts with \<open>p\<close>.\<close>

fun free_of :: "string \<Rightarrow> string \<Rightarrow> bool" where
  "free_of p [] = True"
| "free_of p (c # s) = (\<not> starts_ci p (c # s) \<and> free_of p s)"

definition script_text :: "string option \<Rightarrow> string" where
  "script_text s = (case s of None \<Rightarrow> [] | Some t \<Rightarrow> ''<script>'' @ t @ ''</script>'')"

lemma starts_ci_append:
  assumes "s \<noteq> []" "CHR ''<'' \<notin> set (tl p)"
  shows "starts_ci p (s @ CHR ''<'' # q) \<longleftrightarrow> starts_ci p s"
proof (cases "length p \<le> length s")
  case True
  then show ?thesis by (simp add: starts_ci_def)
next
  case False
  have "\<not> starts_ci p (s @ CHR ''<'' # q)"
  proof
    assume "starts_ci p (s @ CHR ''<'' # q)"
    then have m: "map lower_char (take (length p) (s @ CHR ''<'' # q)) = p" by (simp add: starts_ci_def)
    have "map lower_char (take (length p) (s @ CHR ''<'' # q)) ! length s = CHR ''<''"
      using False by (simp add: nth_append lower_char_def)
    then have "p ! length s = CHR ''<''" using m by simp
    moreover have "p ! length s \<in> set (tl p)"
      using assms(1) False by (cases p; cases s) (auto simp: nth_Cons)
    ultimately show False using assms(2) by simp
  qed
  with False show ?thesis by (simp add: starts_ci_def)
qed

lemma no_open_tag:
  "\<not> starts_ci ''<script'' s \<Longrightarrow> open_tag s = None"
  by (simp add: open_tag_def)

lemma free_open [simp]:
  "free_of ''<script'' (c # s) \<Longrightarrow> open_tag (c # s @ CHR ''<'' # q) = None"
  using starts_ci_append [of "c # s" "''<script''" q] by (simp add: no_open_tag)

lemma first_close_found:
  "free_of ''</script>'' pre \<Longrightarrow> first_close (pre @ ''</script>'' @ r) = Some (pre, r)"
proof (induction pre)
  case Nil
  then show ?case by (simp add: starts_ci_def lower_char_def)
next
  case (Cons c s)
  have "\<not> starts_ci ''</script>'' (c # s @ ''</script>'' @ r)"
    using starts_ci_append [of "c # s" "''</script>''" "''/script>'' @ r"] Cons.prems by simp
  with Cons show ?case by simp
qed

lemma no_open:
  "free_of ''<script'' s \<Longrightarrow> \<not> has_open (s @ ''</script>'')"
proof (induction s)
  case Nil
  show ?case by (simp add: open_tag_def starts_ci_def lower_char_def)
next
  case (Cons c s)
  then show ?case using free_open [of c s "''/script>''"] by simp
qed

lemma no_last:
  "free_of ''<script'' s \<Longrightarrow> body_and_last s = (s, None)"
  by (induction s) (simp_all add: last_script_def no_open_tag)

lemma last_script_found:
  "free_of ''<script'' post \<Longrightarrow> last_script (''<script>'' @ post @ ''</script>'') = Some post"
  using no_open [of post]
  by (simp add: last_script_def last_close_def open_tag_def starts_ci_def lower_char_def)

lemma body_found:
  "free_of ''<script'' body \<Longrightarrow> free_of ''<script'' post
   \<Longrightarrow> body_and_last (body @ ''<script>'' @ post @ ''</script>'') = (body, Some post)"
proof (induction body)
  case Nil
  then show ?case using last_script_found [of post] by simp
next
  case (Cons c s)
  have "last_script (c # s @ ''<script>'' @ post @ ''</script>'') = None"
    using free_open [of c s "''script>'' @ post @ ''</script>''"] Cons.prems by (simp add: last_script_def)
  with Cons show ?case by simp
qed

text \<open>
  C37: a template put together from a first script, a body and a last script, either of which may
  be missing, is taken apart into exactly these: the regular expression of \<open>renderTemplate\<close> neither cuts
  a script short nor gives the body a part of it, as long as the first script has no closing tag, and the body
  and the last script open no script. The body must not be empty: with nothing between, a last script alone is
  taken for the first one, which the second part states.
\<close>

theorem template_roundtrip:
  assumes "case pre of None \<Rightarrow> body \<noteq> [] | Some s \<Rightarrow> free_of ''</script>'' s"
    and "free_of ''<script'' body"
    and "case post of None \<Rightarrow> True | Some s \<Rightarrow> free_of ''<script'' s \<and> free_of ''</script>'' s"
  shows "template_parts (script_text pre @ body @ script_text post) = (pre, body, post)
    \<and> template_parts (script_text post) = (post, [], None)"
proof -
  have b: "body_and_last (body @ script_text post) = (body, post)"
    using assms(2,3) body_found [of body] no_last [of body] by (cases post) (simp_all add: script_text_def)
  have s: "Option.bind (open_tag (script_text (Some t) @ r)) first_close = Some (t, r)"
    if "free_of ''</script>'' t" for t r
    using first_close_found [OF that, of r]
    by (simp add: script_text_def open_tag_def starts_ci_def lower_char_def)
  have n: "template_parts (body @ script_text post) = (None, body, post)" if ne: "body \<noteq> []"
  proof -
    obtain c r where "body = c # r" using ne by (cases body) auto
    then have "open_tag (body @ script_text post) = None"
      using assms(2) free_open [of c r]
      by (cases post) (simp_all add: script_text_def no_open_tag)
    then show ?thesis by (simp add: template_parts_def b)
  qed
  have "template_parts (script_text pre @ body @ script_text post) = (pre, body, post)"
  proof (cases pre)
    case None
    then show ?thesis using assms(1) n by (simp add: script_text_def)
  next
    case (Some t)
    then show ?thesis using assms(1) s [of t "body @ script_text post"] by (simp add: template_parts_def b)
  qed
  moreover have "template_parts (script_text post) = (post, [], None)"
  proof (cases post)
    case None
    then show ?thesis by (simp add: script_text_def template_parts_def open_tag_def starts_ci_def)
  next
    case (Some t)
    then show ?thesis using assms(3) s [of t "[]"] by (simp add: template_parts_def)
  qed
  ultimately show ?thesis by blast
qed

theorem template_roundtrip_witness:
  "template_parts (script_text (Some ''a<b'') @ ''<p/>'' @ script_text (Some ''c'')) = (Some ''a<b'', ''<p/>'', Some ''c'')
    \<and> template_parts (script_text (Some ''c'')) = (Some ''c'', [], None)"
  by (rule template_roundtrip) (simp_all add: starts_ci_def lower_char_def)

end
