(* ===== verification/Local_Db.thy ===== *)
theory Local_Db
  imports Common_Util
begin

text \<open>
  The local database of individuals, \<^verbatim>\<open>public/js/browser/local_db.js\<close> (the service worker has a copy
  of the same code): a store of the browser's IndexedDB, or an object in memory where that is not to be had. A method of the
  object is one of its properties. A call that is a TypeError is \<open>None\<close>.
\<close>

section \<open>The database\<close>

datatype 'v entry = Method | Datum 'v

text \<open>What is read: nothing, a value, or a function of the object or its prototype.\<close>

datatype 'v found = Absent | Found 'v | Foreign

datatype 'v ldb = Indexed "'v obj" | Memory "'v entry obj"

definition fallback :: "'v entry obj" where
  "fallback = [(''get'', Method), (''put'', Method), (''remove'', Method)]"

text \<open>A method of the fallback can be called as long as it is there and has not been overwritten.\<close>

definition callable :: "string \<Rightarrow> 'v entry obj \<Rightarrow> bool" where
  "callable f ob \<longleftrightarrow> (case oget ob f of Some Method \<Rightarrow> True | _ \<Rightarrow> False)"

definition db_get :: "string \<Rightarrow> 'v ldb \<Rightarrow> 'v found option" where
  "db_get key db =
     (case db of
        Indexed ob \<Rightarrow> Some (case oget ob key of None \<Rightarrow> Absent | Some v \<Rightarrow> Found v)
      | Memory ob \<Rightarrow>
          if \<not> callable ''get'' ob then None
          else Some (case oget ob key of
                 Some (Datum v) \<Rightarrow> Found v
               | Some Method \<Rightarrow> Foreign
               | None \<Rightarrow> if key \<in> set proto_names then Foreign else Absent))"

definition db_put :: "string \<Rightarrow> 'v \<Rightarrow> 'v ldb \<Rightarrow> 'v ldb option" where
  "db_put key v db =
     (case db of
        Indexed ob \<Rightarrow> Some (Indexed (oset key v ob))
      | Memory ob \<Rightarrow> if callable ''put'' ob then Some (Memory (oset key (Datum v) ob)) else None)"

definition db_remove :: "string \<Rightarrow> 'v ldb \<Rightarrow> 'v ldb option" where
  "db_remove key db =
     (case db of
        Indexed ob \<Rightarrow> Some (Indexed (odel key ob))
      | Memory ob \<Rightarrow> if callable ''remove'' ob then Some (Memory (odel key ob)) else None)"

text \<open>
  \<open>initDB\<close>: the browser may refuse; a store of an earlier version of the application is emptied, one of a
  later version is not opened, and neither is version 0.
\<close>

definition initDB :: "bool \<Rightarrow> nat \<Rightarrow> (nat \<times> 'v obj) option \<Rightarrow> 'v ldb" where
  "initDB works version stored =
     (if \<not> works \<or> version = 0 then Memory fallback
      else (case stored of
              None \<Rightarrow> Indexed []
            | Some (v, ob) \<Rightarrow>
                if v < version then Indexed [] else if v = version then Indexed ob else Memory fallback))"

text \<open>The constructor gives the database that was opened first, also if that is the fallback.\<close>

definition LocalDB :: "bool \<Rightarrow> nat \<Rightarrow> (nat \<times> 'v obj) option \<Rightarrow> 'v ldb option \<Rightarrow> 'v ldb" where
  "LocalDB works version stored singleton =
     (case singleton of Some db \<Rightarrow> db | None \<Rightarrow> initDB works version stored)"

section \<open>A store of values by key\<close>

text \<open>
  What the clients of a database rely on: a value that was put is read until it is replaced or removed, and
  no other key sees the change.
\<close>

datatype 'v db_op = Puts string 'v | Removes string

fun op_key :: "'v db_op \<Rightarrow> string" where
  "op_key (Puts k v) = k"
| "op_key (Removes k) = k"

fun on_object :: "'v db_op \<Rightarrow> 'v obj \<Rightarrow> 'v obj" where
  "on_object (Puts k v) ob = oset k v ob"
| "on_object (Removes k) ob = odel k ob"

locale key_value =
  fixes get :: "string \<Rightarrow> 's \<Rightarrow> 'v found option"
    and put :: "string \<Rightarrow> 'v \<Rightarrow> 's \<Rightarrow> 's option"
    and remove :: "string \<Rightarrow> 's \<Rightarrow> 's option"
    and plain :: "string \<Rightarrow> bool"
    and usable :: "'s \<Rightarrow> bool"
  assumes get_some: "usable s \<Longrightarrow> plain k \<Longrightarrow> get k s = Some Absent \<or> (\<exists>v. get k s = Some (Found v))"
    and put_ok: "usable s \<Longrightarrow> plain k \<Longrightarrow> \<exists>s'. put k v s = Some s' \<and> usable s'
      \<and> (\<forall>k'. plain k' \<longrightarrow> get k' s' = (if k' = k then Some (Found v) else get k' s))"
    and remove_ok: "usable s \<Longrightarrow> plain k \<Longrightarrow> \<exists>s'. remove k s = Some s' \<and> usable s'
      \<and> (\<forall>k'. plain k' \<longrightarrow> get k' s' = (if k' = k then Some Absent else get k' s))"
begin

definition apply_op :: "'v db_op \<Rightarrow> 's \<Rightarrow> 's option" where
  "apply_op x s = (case x of Puts k v \<Rightarrow> put k v s | Removes k \<Rightarrow> remove k s)"

fun apply_ops :: "'v db_op list \<Rightarrow> 's \<Rightarrow> 's option" where
  "apply_ops [] s = Some s"
| "apply_ops (x # xs) s = (case apply_op x s of None \<Rightarrow> None | Some s' \<Rightarrow> apply_ops xs s')"

definition shows_object :: "'s \<Rightarrow> 'v obj \<Rightarrow> bool" where
  "shows_object s ob \<longleftrightarrow>
     usable s \<and> (\<forall>k. plain k \<longrightarrow> get k s = Some (case oget ob k of None \<Rightarrow> Absent | Some v \<Rightarrow> Found v))"

lemma op_shows:
  assumes "shows_object s ob" and "plain (op_key x)"
  shows "\<exists>s'. apply_op x s = Some s' \<and> shows_object s' (on_object x ob)"
proof (cases x)
  case (Puts k v)
  obtain s' where "put k v s = Some s'" "usable s'" "\<forall>k'. plain k' \<longrightarrow> get k' s' = (if k' = k then Some (Found v) else get k' s)"
    using put_ok [of s k v] assms Puts by (auto simp: shows_object_def)
  then show ?thesis using assms(1) by (auto simp: Puts apply_op_def shows_object_def)
next
  case (Removes k)
  obtain s' where "remove k s = Some s'" "usable s'" "\<forall>k'. plain k' \<longrightarrow> get k' s' = (if k' = k then Some Absent else get k' s)"
    using remove_ok [of s k] assms Removes by (auto simp: shows_object_def)
  then show ?thesis using assms(1) by (auto simp: Removes apply_op_def shows_object_def)
qed

lemma ops_show:
  assumes "shows_object s ob" and "list_all (\<lambda>x. plain (op_key x)) xs"
  shows "\<exists>s'. apply_ops xs s = Some s' \<and> shows_object s' (foldl (\<lambda>ob x. on_object x ob) ob xs)"
  using assms
proof (induction xs arbitrary: s ob)
  case (Cons x xs)
  obtain s1 where 1: "apply_op x s = Some s1" "shows_object s1 (on_object x ob)"
    using op_shows [OF Cons.prems(1)] Cons.prems(2) by auto
  show ?case using Cons.IH [OF 1(2)] 1(1) Cons.prems(2) by auto
qed simp

end

section \<open>The database is one\<close>

definition plain_key :: "string \<Rightarrow> bool" where
  "plain_key k \<longleftrightarrow> k \<notin> {''get'', ''put'', ''remove''} \<and> k \<notin> set proto_names"

definition db_usable :: "'v ldb \<Rightarrow> bool" where
  "db_usable db \<longleftrightarrow>
     (case db of Indexed ob \<Rightarrow> True
      | Memory ob \<Rightarrow> callable ''get'' ob \<and> callable ''put'' ob \<and> callable ''remove'' ob
                     \<and> (\<forall>k. plain_key k \<longrightarrow> oget ob k \<noteq> Some Method))"

lemma callable_change:
  "plain_key k \<Longrightarrow> f \<in> {''get'', ''put'', ''remove''} \<Longrightarrow> callable f (oset k v ob) = callable f ob"
  "plain_key k \<Longrightarrow> f \<in> {''get'', ''put'', ''remove''} \<Longrightarrow> callable f (odel k ob) = callable f ob"
  by (auto simp: callable_def plain_key_def)

interpretation ldb: key_value db_get db_put db_remove plain_key db_usable
proof
  fix s :: "'v ldb" and k assume u: "db_usable s" "plain_key k"
  then show "db_get k s = Some Absent \<or> (\<exists>v. db_get k s = Some (Found v))"
    by (auto simp: db_get_def db_usable_def plain_key_def split: ldb.splits option.splits entry.splits)
next
  fix s :: "'v ldb" and k v assume u: "db_usable s" "plain_key k"
  show "\<exists>s'. db_put k v s = Some s' \<and> db_usable s'
      \<and> (\<forall>k'. plain_key k' \<longrightarrow> db_get k' s' = (if k' = k then Some (Found v) else db_get k' s))"
    using u by (cases s) (auto simp: db_put_def db_get_def db_usable_def callable_change)
next
  fix s :: "'v ldb" and k assume u: "db_usable s" "plain_key k"
  show "\<exists>s'. db_remove k s = Some s' \<and> db_usable s'
      \<and> (\<forall>k'. plain_key k' \<longrightarrow> db_get k' s' = (if k' = k then Some Absent else db_get k' s))"
    using u by (cases s) (auto simp: db_remove_def db_get_def db_usable_def callable_change plain_key_def)
qed

lemma fresh_shows: "ldb.shows_object (Indexed ob) ob" "ldb.shows_object (Memory fallback) []"
  by (auto simp: ldb.shows_object_def db_get_def db_usable_def callable_def fallback_def plain_key_def)

text \<open>
  Over keys that are not the name of a function, the object in memory answers as a new store does, after any
  operations.
\<close>

lemma fallback_agrees:
  assumes "list_all (\<lambda>x. plain_key (op_key x)) xs" and "plain_key k"
  shows "\<exists>s t. ldb.apply_ops xs (initDB True 1 None) = Some s \<and> ldb.apply_ops xs (initDB False 1 None) = Some t
    \<and> db_get k s = db_get k t"
proof -
  obtain s where s: "ldb.apply_ops xs (Indexed []) = Some s" "ldb.shows_object s (foldl (\<lambda>ob x. on_object x ob) [] xs)"
    using ldb.ops_show [OF fresh_shows(1) assms(1)] by blast
  obtain t where t: "ldb.apply_ops xs (Memory fallback) = Some t" "ldb.shows_object t (foldl (\<lambda>ob x. on_object x ob) [] xs)"
    using ldb.ops_show [OF fresh_shows(2) assms(1)] by blast
  from s t assms(2) show ?thesis by (auto simp: initDB_def ldb.shows_object_def)
qed

text \<open>A key \<open>get\<close> breaks the object in memory: its value takes the place of the method.\<close>

lemma fallback_broken: "Option.bind (db_put ''get'' v (Memory fallback)) (db_get k) = None"
  by (simp add: db_put_def db_get_def callable_def fallback_def)

end
