(* ===== verification/Service_Worker.thy ===== *)
theory Service_Worker
  imports Local_Db
begin

text \<open>
  The service workers between the application and the server: \<^verbatim>\<open>public/sw.js\<close>, which answers the
  interface of the server from caches and queues writes while the server cannot be reached, and
  \<^verbatim>\<open>public/sw-simple.js\<close>, which caches files only. An event is a step; between a request and the answer of the
  network other events happen. What the network answers is an argument, \<open>None\<close> where it cannot be reached.
\<close>

section \<open>Requests and answers\<close>

datatype verb = GET | POST | PUT | OtherVerb

record req =
  rq_verb :: verb
  rq_url :: string
  rq_body :: string

text \<open>\<open>pathname\<close> of an absolute URL\<close>

definition rq_path :: "req \<Rightarrow> string" where
  "rq_path r =
     (let host = drop 3 (dropWhile (\<lambda>c. c \<noteq> CHR '':'') (rq_url r));
          p = takeWhile (\<lambda>c. c \<noteq> CHR ''?'' \<and> c \<noteq> CHR ''#'') (dropWhile (\<lambda>c. c \<notin> {CHR ''/'', CHR ''?'', CHR ''#''}) host)
      in if p = [] then ''/'' else p)"

record resp =
  rs_status :: int
  rs_text :: string

definition resp_ok :: "resp \<Rightarrow> bool" where
  "resp_ok r \<longleftrightarrow> 200 \<le> rs_status r \<and> rs_status r < 300"

text \<open>
  The caches by name, in the order of their creation; the database of the worker with the answers by their request
  (the text of a request determines it) and the queue of writes; the requests the network has not answered yet; the
  flushes under way with what they have still to send. \<open>wk_sent\<close> are the writes the server accepted.
\<close>

record worker =
  wk_caches :: "resp obj obj"
  wk_answers :: "(req \<times> resp) list"
  wk_queue :: "req list option"
  wk_pending :: "req list"
  wk_flights :: "req list list"
  wk_sent :: "req list"

definition whitelist :: "string list" where
  "whitelist = [''api-0'', ''files-0'', ''static-0'']"

definition activate :: "worker \<Rightarrow> worker" where
  "activate w = w\<lparr>wk_caches := filter (\<lambda>(n, c). n \<in> set whitelist) (wk_caches w)\<rparr>"

section \<open>Caches\<close>

fun first_hit :: "string \<Rightarrow> resp obj obj \<Rightarrow> resp option" where
  "first_hit u [] = None"
| "first_hit u ((n, c) # cs) = (case oget c u of Some r \<Rightarrow> Some r | None \<Rightarrow> first_hit u cs)"

definition cache_match :: "req \<Rightarrow> worker \<Rightarrow> resp option" where
  "cache_match r w = (if rq_verb r = GET then first_hit (rq_url r) (wk_caches w) else None)"

text \<open>A partial answer (206) is refused by the cache; nobody waits for the result.\<close>

definition cache_put :: "string \<Rightarrow> req \<Rightarrow> resp \<Rightarrow> worker \<Rightarrow> worker" where
  "cache_put n r a w =
     (let c = (case oget (wk_caches w) n of None \<Rightarrow> [] | Some c \<Rightarrow> c);
          c1 = (if rs_status a = 206 then c else oset (rq_url r) a c)
      in w\<lparr>wk_caches := oset n c1 (wk_caches w)\<rparr>)"

section \<open>The kinds of requests\<close>

datatype kind = Ping | Api | Files | Static

definition kind_of :: "req \<Rightarrow> kind" where
  "kind_of r =
     (if starts_with ''/ping'' (rq_path r) then Ping
      else if starts_with ''/api'' (rq_path r) then Api
      else if starts_with ''/files'' (rq_path r) then Files else Static)"

definition api_fn :: "req \<Rightarrow> string" where
  "api_fn r = (case split_on (CHR ''/'') (rq_path r) of _ # _ # f # _ \<Rightarrow> f | _ \<Rightarrow> [])"

text \<open>What is answered in place of the server. \<open>now\<close> is the time when the worker was started.\<close>

definition done_text :: "string" where
  "done_text = ''{\"op_id\":0,\"result\":200}''"

definition api_fns :: "int \<Rightarrow> string obj" where
  "api_fns now =
     [(''authenticate'', ''{\"end_time\":'' @ show_int (now + 12 * 3600 * 1000) @ '',\"id\":\"\",\"result\":200,\"user_uri\":\"\"}''),
      (''get_ticket_trusted'', []),
      (''is_ticket_valid'', ''true''),
      (''get_rights'', ''{\"@\":\"_\",\"rdf:type\":[{\"data\":\"v-s:PermissionStatement\",\"type\":\"Uri\"}],''
          @ ''\"v-s:canCreate\":[{\"data\":true,\"type\":\"Boolean\"}],\"v-s:canDelete\":[{\"data\":false,\"type\":\"Boolean\"}],''
          @ ''\"v-s:canRead\":[{\"data\":true,\"type\":\"Boolean\"}],\"v-s:canUpdate\":[{\"data\":true,\"type\":\"Boolean\"}]}''),
      (''get_rights_origin'', []),
      (''get_membership'', ''{\"@\":\"_\",\"rdf:type\":[{\"data\":\"v-s:Membership\",\"type\":\"Uri\"}],''
          @ ''\"v-s:memberOf\":[{\"data\":\"v-s:AllResourcesGroup\",\"type\":\"Uri\"}]}''),
      (''query'', ''{\"result\":[],\"count\":0,\"estimated\":0,\"processed\":0,\"cursor\":0,\"result_code\":200}''),
      (''get_individuals'', ''[]''),
      (''remove_individual'', done_text), (''put_individual'', done_text), (''add_to_individual'', done_text),
      (''set_in_individual'', done_text), (''remove_from_individual'', done_text), (''put_individuals'', done_text)]"

definition api_default :: "int \<Rightarrow> req \<Rightarrow> resp" where
  "api_default now r =
     \<lparr>rs_status = 200, rs_text = (case oget (api_fns now) (api_fn r) of None \<Rightarrow> [] | Some t \<Rightarrow> t)\<rparr>"

section \<open>A request\<close>

text \<open>
  \<open>Now\<close> is an answer at once, \<open>Asks\<close> goes to the network, \<open>Leaves\<close> is not handled and goes to the
  network past the worker, \<open>Breaks\<close> gives the browser no response, which is a failure.
\<close>

datatype decision = Now resp | Asks | Leaves | Breaks

definition cache_first :: "req \<Rightarrow> worker \<Rightarrow> decision" where
  "cache_first r w = (case cache_match r w of Some a \<Rightarrow> Now a | None \<Rightarrow> Asks)"

definition on_fetch :: "req \<Rightarrow> worker \<Rightarrow> decision" where
  "on_fetch r w =
     (case kind_of r of
        Ping \<Rightarrow> Asks
      | Api \<Rightarrow>
          (case rq_verb r of
             GET \<Rightarrow> if api_fn r = ''reset_individual'' then Asks else cache_first r w
           | POST \<Rightarrow> Asks
           | PUT \<Rightarrow> Asks
           | OtherVerb \<Rightarrow> Breaks)
      | _ \<Rightarrow> if rq_verb r = GET then cache_first r w else Leaves)"

text \<open>The answer of the network; the first component is the response, \<open>None\<close> a failure.\<close>

definition handleSTATIC :: "string \<Rightarrow> req \<Rightarrow> resp option \<Rightarrow> worker \<Rightarrow> resp option \<times> worker" where
  "handleSTATIC n r net w = (case net of None \<Rightarrow> (None, w) | Some a \<Rightarrow> (Some a, cache_put n r a w))"

definition enqueueRequest :: "req \<Rightarrow> worker \<Rightarrow> worker" where
  "enqueueRequest r w = w\<lparr>wk_queue := Some ((case wk_queue w of None \<Rightarrow> [] | Some q \<Rightarrow> q) @ [r])\<rparr>"

definition handleError :: "resp option \<Rightarrow> resp option" where
  "handleError net = (case net of Some a \<Rightarrow> if resp_ok a then Some a else None | None \<Rightarrow> None)"

definition api_get :: "int \<Rightarrow> req \<Rightarrow> resp option \<Rightarrow> worker \<Rightarrow> resp option \<times> worker" where
  "api_get now r net w =
     (case handleError net of
        Some a \<Rightarrow> (Some a, cache_put ''api-0'' r a w)
      | None \<Rightarrow>
          if api_fn r = ''reset_individual'' then (None, w)
          else if api_fn r = ''get_individual'' then (net, w)
          else (Some (api_default now r), w))"

definition api_post :: "int \<Rightarrow> req \<Rightarrow> resp option \<Rightarrow> worker \<Rightarrow> resp option \<times> worker" where
  "api_post now r net w =
     (case handleError net of
        Some a \<Rightarrow> (Some a, w\<lparr>wk_answers := AList.update r a (wk_answers w)\<rparr>)
      | None \<Rightarrow> (Some (case map_of (wk_answers w) r of Some a \<Rightarrow> a | None \<Rightarrow> api_default now r), w))"

definition api_put :: "int \<Rightarrow> req \<Rightarrow> resp option \<Rightarrow> worker \<Rightarrow> resp option \<times> worker" where
  "api_put now r net w =
     (case handleError net of
        Some a \<Rightarrow> (Some a, w\<lparr>wk_sent := wk_sent w @ [r]\<rparr>)
      | None \<Rightarrow> (Some (api_default now r), enqueueRequest r w))"

definition on_answer :: "int \<Rightarrow> req \<Rightarrow> resp option \<Rightarrow> worker \<Rightarrow> resp option \<times> worker" where
  "on_answer now r net w =
     (case kind_of r of
        Ping \<Rightarrow> (net, w)
      | Api \<Rightarrow>
          (case rq_verb r of
             GET \<Rightarrow> api_get now r net w
           | POST \<Rightarrow> api_post now r net w
           | PUT \<Rightarrow> api_put now r net w
           | OtherVerb \<Rightarrow> (None, w))
      | Files \<Rightarrow> handleSTATIC ''files-0'' r net w
      | Static \<Rightarrow> handleSTATIC ''static-0'' r net w)"

section \<open>The queue\<close>

text \<open>A flush sends what the queue holds when it starts, one after the other; only a network that fails ends it early.\<close>

definition flushQueue :: "worker \<Rightarrow> worker" where
  "flushQueue w =
     (case wk_queue w of Some (r # q) \<Rightarrow> w\<lparr>wk_flights := wk_flights w @ [r # q]\<rparr> | _ \<Rightarrow> w)"

definition flush_answer :: "nat \<Rightarrow> resp option \<Rightarrow> worker \<Rightarrow> worker" where
  "flush_answer i net w =
     (if i < length (wk_flights w)
      then (case (wk_flights w ! i, net) of
              (r # q, Some a) \<Rightarrow>
                (let w1 = (if resp_ok a then w\<lparr>wk_sent := wk_sent w @ [r]\<rparr> else w)
                 in if q = [] then w1\<lparr>wk_flights := (wk_flights w)[i := []], wk_queue := None\<rparr>
                    else w1\<lparr>wk_flights := (wk_flights w)[i := q]\<rparr>)
            | _ \<Rightarrow> w\<lparr>wk_flights := (wk_flights w)[i := []]\<rparr>)
      else w)"

section \<open>Events\<close>

datatype event = Fetches req | Answers nat "resp option" | Online | Flushed nat "resp option" | Activates

text \<open>\<open>Answers i\<close> is the answer to the pending request number \<open>i\<close>.\<close>

fun step :: "int \<Rightarrow> event \<Rightarrow> worker \<Rightarrow> worker" where
  "step now (Fetches r) w = (if on_fetch r w = Asks then w\<lparr>wk_pending := wk_pending w @ [r]\<rparr> else w)"
| "step now (Answers i net) w =
     (if i < length (wk_pending w)
      then snd (on_answer now (wk_pending w ! i) net
             (w\<lparr>wk_pending := take i (wk_pending w) @ drop (Suc i) (wk_pending w)\<rparr>))
      else w)"
| "step now Online w = flushQueue w"
| "step now (Flushed i net) w = flush_answer i net w"
| "step now Activates w = activate w"

definition steps :: "int \<Rightarrow> event list \<Rightarrow> worker \<Rightarrow> worker" where
  "steps now es w = foldl (\<lambda>w e. step now e w) w es"

definition fresh_worker :: worker where
  "fresh_worker = \<lparr>wk_caches = [], wk_answers = [], wk_queue = None, wk_pending = [], wk_flights = [], wk_sent = []\<rparr>"

section \<open>The simple worker\<close>

definition simple_api :: "string list" where
  "simple_api =
     [''/ping'', ''/get_rights'', ''/get_rights_origin'', ''/get_membership'', ''/authenticate'', ''/get_ticket_trusted'',
      ''/is_ticket_valid'', ''/get_operation_state'', ''/wait_module'', ''/query'', ''/get_individual'', ''/get_individuals'',
      ''/remove_individual'', ''/put_individual'', ''/add_to_individual'', ''/set_in_individual'', ''/remove_from_individual'',
      ''/put_individuals'']"

definition simple_cache :: "req \<Rightarrow> string option" where
  "simple_cache r =
     (if rq_verb r \<noteq> GET then None
      else if rq_path r \<in> set simple_api then (if starts_with ''/files'' (rq_path r) then Some ''files'' else None)
      else if starts_with ''/files'' (rq_path r) then Some ''files'' else Some ''static'')"

definition simple_fetch :: "req \<Rightarrow> worker \<Rightarrow> decision" where
  "simple_fetch r w = (if simple_cache r = None then Leaves else cache_first r w)"

definition handleFetch :: "string \<Rightarrow> req \<Rightarrow> resp option \<Rightarrow> worker \<Rightarrow> resp option \<times> worker" where
  "handleFetch n r net w =
     (case handleError net of None \<Rightarrow> (None, w) | Some a \<Rightarrow> (Some a, cache_put n r a w))"

definition simple_answer :: "req \<Rightarrow> resp option \<Rightarrow> worker \<Rightarrow> resp option \<times> worker" where
  "simple_answer r net w = (case simple_cache r of None \<Rightarrow> (net, w) | Some n \<Rightarrow> handleFetch n r net w)"

definition simple_activate :: "worker \<Rightarrow> worker" where
  "simple_activate w = w\<lparr>wk_caches := []\<rparr>"

end
