(* ===== verification/Worker_Props.thy ===== *)
theory Worker_Props
  imports Service_Worker
begin

text \<open>
  What the service worker does to reads and writes: what it has cached it never reads again, every write is
  confirmed, and what a flush makes of the queue.
\<close>

section \<open>Caches\<close>

lemma first_hit_oset:
  assumes "oget c u = (case oget cs n of None \<Rightarrow> None | Some c0 \<Rightarrow> oget c0 u)"
  shows "first_hit u (oset n c cs) = first_hit u cs"
  using assms
proof (induction cs)
  case (Cons x cs)
  then show ?case by (cases x) (auto split: option.splits if_splits)
qed simp

lemma put_elsewhere: "rq_url p \<noteq> u \<Longrightarrow> first_hit u (wk_caches (cache_put n p a w)) = first_hit u (wk_caches w)"
  by (auto simp: cache_put_def Let_def intro!: first_hit_oset split: option.splits)

lemma put_simps [simp]:
  "wk_pending (cache_put n r a w) = wk_pending w" "wk_queue (cache_put n r a w) = wk_queue w"
  "wk_sent (cache_put n r a w) = wk_sent w" "wk_flights (cache_put n r a w) = wk_flights w"
  by (simp_all add: cache_put_def Let_def)

text \<open>The names of the caches are known to the worker, so an activation deletes none of them.\<close>

definition listed :: "worker \<Rightarrow> bool" where
  "listed w \<longleftrightarrow> fst ` set (wk_caches w) \<subseteq> set whitelist"

lemma listed_upd [simp]:
  "listed (w\<lparr>wk_answers := x\<rparr>) = listed w" "listed (w\<lparr>wk_queue := q\<rparr>) = listed w" "listed (w\<lparr>wk_sent := rs\<rparr>) = listed w"
  "listed (w\<lparr>wk_pending := rs\<rparr>) = listed w"
  by (simp_all add: listed_def)

lemma cache_names [simp]:
  "''api-0'' \<in> set whitelist" "''files-0'' \<in> set whitelist" "''static-0'' \<in> set whitelist"
  by (simp_all add: whitelist_def)

lemma cache_listed_put: "listed w \<Longrightarrow> n \<in> set whitelist \<Longrightarrow> listed (cache_put n r a w)"
  by (auto simp: listed_def cache_put_def Let_def dom_update)

lemma activate_listed: "listed w \<Longrightarrow> activate w = w"
proof -
  assume "listed w"
  then have "filter (\<lambda>(n, c). n \<in> set whitelist) (wk_caches w) = wk_caches w"
    by (force simp: listed_def filter_id_conv)
  then show ?thesis by (simp add: activate_def)
qed

lemma rq_path_url: "rq_url p = rq_url r \<Longrightarrow> rq_path p = rq_path r"
  by (simp add: rq_path_def)

section \<open>What is cached stays\<close>

text \<open>What holds of every worker that was started and had any events\<close>

definition sound :: "worker \<Rightarrow> bool" where
  "sound w \<longleftrightarrow> listed w \<and> (\<forall>p \<in> set (wk_pending w). kind_of p \<in> {Files, Static} \<longrightarrow> rq_verb p = GET)"

text \<open>A read that is answered from the caches, and nothing under way that would be cached under the same URL\<close>

definition settled :: "req \<Rightarrow> resp \<Rightarrow> worker \<Rightarrow> bool" where
  "settled r a w \<longleftrightarrow> first_hit (rq_url r) (wk_caches w) = Some a
     \<and> (\<forall>p \<in> set (wk_pending w). rq_url p = rq_url r \<longrightarrow> rq_verb p \<noteq> GET)"

lemma answer_pending [simp]: "wk_pending (snd (on_answer now p net w)) = wk_pending w"
  by (auto simp: on_answer_def api_get_def api_post_def api_put_def handleSTATIC_def enqueueRequest_def
      split: kind.splits verb.splits option.splits)

lemma answer_listed: "listed w \<Longrightarrow> listed (snd (on_answer now p net w))"
  by (auto simp: on_answer_def api_get_def api_post_def api_put_def handleSTATIC_def enqueueRequest_def
      cache_listed_put
      split: kind.splits verb.splits option.splits)

lemma answer_hit:
  assumes "rq_url p = rq_url r \<Longrightarrow> rq_verb p \<noteq> GET" "kind_of p \<in> {Files, Static} \<Longrightarrow> rq_verb p = GET"
  shows "first_hit (rq_url r) (wk_caches (snd (on_answer now p net w))) = first_hit (rq_url r) (wk_caches w)"
proof (cases "rq_verb p = GET")
  case True
  then have "rq_url p \<noteq> rq_url r" using assms(1) by blast
  then show ?thesis
    by (auto simp: on_answer_def api_get_def api_post_def api_put_def handleSTATIC_def enqueueRequest_def put_elsewhere
        split: kind.splits verb.splits option.splits)
next
  case False
  then have "kind_of p \<notin> {Files, Static}" using assms(2) by blast
  with False show ?thesis
    by (auto simp: on_answer_def api_post_def api_put_def enqueueRequest_def split: kind.splits verb.splits option.splits)
qed

lemma flush_caches [simp]:
  "wk_caches (flushQueue w) = wk_caches w" "wk_caches (flush_answer i net w) = wk_caches w"
  "wk_pending (flushQueue w) = wk_pending w" "wk_pending (flush_answer i net w) = wk_pending w"
  by (auto simp: flushQueue_def flush_answer_def Let_def split: option.splits list.splits)

lemma asks_cached: "on_fetch r w = Asks \<Longrightarrow> kind_of r \<in> {Files, Static} \<Longrightarrow> rq_verb r = GET"
  by (auto simp: on_fetch_def split: if_splits)

lemma step_sound:
  assumes "sound w"
  shows "sound (step now e w)"
proof (cases e)
  case (Answers i net)
  let ?w = "w\<lparr>wk_pending := take i (wk_pending w) @ drop (Suc i) (wk_pending w)\<rparr>"
  have "listed ?w" using assms by (simp add: sound_def listed_def)
  then show ?thesis using assms by (auto simp: Answers sound_def intro!: answer_listed dest!: in_set_takeD in_set_dropD)
next
  case Activates
  then show ?thesis using assms by (simp add: sound_def activate_listed)
qed (use assms asks_cached in \<open>auto simp: sound_def listed_def\<close>)

lemma on_fetch_hit:
  assumes "on_fetch r w = Now a"
  shows "rq_verb r = GET" "first_hit (rq_url r) (wk_caches w) = Some a"
    and "first_hit (rq_url r) (wk_caches w') = Some b \<Longrightarrow> on_fetch r w' = Now b"
  using assms by (auto simp: on_fetch_def cache_first_def cache_match_def split: kind.splits verb.splits if_splits option.splits)

lemma hit_now:
  assumes "rq_verb q = GET" "rq_url q = rq_url r" "on_fetch r w = Now a"
  shows "on_fetch q w = Now a"
proof -
  have p: "rq_path q = rq_path r" using assms(2) by (rule rq_path_url)
  then have "kind_of q = kind_of r" "api_fn q = api_fn r" by (simp_all add: kind_of_def api_fn_def)
  with assms on_fetch_hit(1) [OF assms(3)] show ?thesis
    by (cases "kind_of r") (simp_all add: on_fetch_def cache_first_def cache_match_def split: if_splits)
qed

lemma step_settled:
  assumes "sound w" "settled r a w" "on_fetch r w = Now a"
  shows "settled r a (step now e w)"
proof (cases e)
  case (Fetches q)
  show ?thesis using assms(2,3) hit_now [of q r w a] by (auto simp: Fetches settled_def)
next
  case (Answers i net)
  show ?thesis
  proof (cases "i < length (wk_pending w)")
    case True
    then have p: "wk_pending w ! i \<in> set (wk_pending w)" by simp
    have "first_hit (rq_url r) (wk_caches (snd (on_answer now (wk_pending w ! i) net w'))) = first_hit (rq_url r) (wk_caches w')" for w'
      by (rule answer_hit) (use assms(1,2) p in \<open>auto simp: sound_def settled_def\<close>)
    then show ?thesis using assms(2) True by (auto simp: Answers settled_def dest!: in_set_takeD in_set_dropD)
  qed (use assms(2) in \<open>simp add: Answers\<close>)
next
  case Activates
  then show ?thesis using assms(1,2) by (simp add: sound_def activate_listed)
qed (use assms(2) in \<open>auto simp: settled_def\<close>)

lemma steps_sound: "sound w \<Longrightarrow> sound (steps now es w)"
  unfolding steps_def by (induction es arbitrary: w) (simp_all add: step_sound)

lemma steps_settled:
  assumes "sound w" "settled r a w" "on_fetch r w = Now a"
  shows "on_fetch r (steps now es w) = Now a"
  using assms
proof (induction es arbitrary: w)
  case (Cons e es)
  have "on_fetch r (step now e w) = Now a"
    using on_fetch_hit(3) [OF Cons.prems(3)] step_settled [OF Cons.prems, of now e] by (simp add: settled_def)
  then show ?case using Cons.IH [OF step_sound [OF Cons.prems(1)] step_settled [OF Cons.prems]] by (simp add: steps_def)
qed (simp add: steps_def)

text \<open>
  C38: once a worker answers a read from its caches, and no other read of the same URL is under way, it
  gives that same answer for ever: after any further events, be they accepted writes to the very individual that was
  read, answers of the network, flushes or a new activation. Nothing the worker does refreshes or drops what it has cached.
\<close>

theorem stale_reads:
  assumes "w = steps now es fresh_worker" and "on_fetch r w = Now a"
    and "\<And>p. p \<in> set (wk_pending w) \<Longrightarrow> rq_url p = rq_url r \<Longrightarrow> rq_verb p \<noteq> GET"
  shows "on_fetch r (steps now' es' w) = Now a"
proof -
  have "sound fresh_worker" by (simp add: sound_def listed_def fresh_worker_def)
  then have "sound w" using steps_sound assms(1) by simp
  moreover have "settled r a w" using assms(3) on_fetch_hit(2) [OF assms(2)] by (auto simp: settled_def)
  ultimately show ?thesis using steps_settled assms(2) by blast
qed

definition read_ex :: req where
  "read_ex = \<lparr>rq_verb = GET, rq_url = ''https://veda/api/get_individual?uri=d:x'', rq_body = []\<rparr>"

definition write_ex :: req where
  "write_ex = \<lparr>rq_verb = PUT, rq_url = ''https://veda/api/put_individual'', rq_body = ''d:x''\<rparr>"

theorem stale_reads_witness:
  "on_fetch read_ex (steps 0 [Fetches write_ex, Answers 0 (Some \<lparr>rs_status = 200, rs_text = ''done''\<rparr>)]
     (steps 0 [Fetches read_ex, Answers 0 (Some \<lparr>rs_status = 200, rs_text = ''old''\<rparr>)] fresh_worker))
   = Now \<lparr>rs_status = 200, rs_text = ''old''\<rparr>"
proof -
  let ?w = "steps 0 [Fetches read_ex, Answers 0 (Some \<lparr>rs_status = 200, rs_text = ''old''\<rparr>)] fresh_worker"
  have 1: "on_fetch read_ex ?w = Now \<lparr>rs_status = 200, rs_text = ''old''\<rparr>" by code_simp
  have 2: "wk_pending ?w = []" by code_simp
  show ?thesis by (rule stale_reads [OF refl 1]) (simp add: 2)
qed

section \<open>Writes\<close>

definition queued :: "worker \<Rightarrow> req list" where
  "queued w = (case wk_queue w of None \<Rightarrow> [] | Some q \<Rightarrow> q)"

lemma default_ok: "resp_ok (api_default now r)"
  by (simp add: resp_ok_def api_default_def)

text \<open>
  every write is confirmed to the application, whatever the network answers. If the server
  accepts it, the answer is the server's; otherwise, also if the server refuses it (for want of a right, say),
  the answer is one of success, and the write goes to the end of the queue. With no network a request to the
  interface fails only if it is the reset or the read of an individual, or not one of GET, POST and PUT.
\<close>

lemma writes_confirmed:
  fixes now :: int and r :: req and net :: "resp option" and w :: worker
  assumes "kind_of r = Api"
  defines "result \<equiv> on_answer now r net w"
  shows "(rq_verb r = PUT \<longrightarrow> (\<exists>a. fst result = Some a \<and> resp_ok a)
      \<and> (if \<exists>a. net = Some a \<and> resp_ok a
         then fst result = net \<and> wk_sent (snd result) = wk_sent w @ [r] \<and> queued (snd result) = queued w
         else wk_sent (snd result) = wk_sent w \<and> queued (snd result) = queued w @ [r]))
    \<and> (net = None \<longrightarrow>
        (fst result = None \<longleftrightarrow> rq_verb r = OtherVerb \<or> (rq_verb r = GET \<and> api_fn r \<in> {''reset_individual'', ''get_individual''})))"
  by (auto simp: result_def on_answer_def assms(1) api_get_def api_post_def api_put_def handleError_def enqueueRequest_def
      queued_def default_ok split: option.splits verb.splits)

lemma writes_confirmed_witness:
  "queued (snd (on_answer 0 write_ex (Some \<lparr>rs_status = 472, rs_text = ''not authorized''\<rparr>) fresh_worker)) = [write_ex]
   \<and> (\<exists>a. fst (on_answer 0 write_ex (Some \<lparr>rs_status = 472, rs_text = ''not authorized''\<rparr>) fresh_worker) = Some a \<and> resp_ok a)"
proof -
  have k: "kind_of write_ex = Api" by code_simp
  have q: "queued fresh_worker = []" by (simp add: queued_def fresh_worker_def)
  show ?thesis
    using writes_confirmed [OF k, of 0 "Some \<lparr>rs_status = 472, rs_text = ''not authorized''\<rparr>" fresh_worker] q
    by (simp add: write_ex_def resp_ok_def)
qed

section \<open>The flush\<close>

definition answered :: "nat \<Rightarrow> resp list \<Rightarrow> event list" where
  "answered i as = map (\<lambda>a. Flushed i (Some a)) as"

definition accepted :: "req list \<Rightarrow> resp list \<Rightarrow> req list" where
  "accepted q as = map fst (filter (\<lambda>(r, a). resp_ok a) (zip q as))"

lemma flush_one:
  assumes "i < length (wk_flights w)" "wk_flights w ! i = r # q"
  shows "flush_answer i (Some a) w = w\<lparr>wk_sent := wk_sent w @ (if resp_ok a then [r] else []), wk_flights := (wk_flights w)[i := q],
      wk_queue := (if q = [] then None else wk_queue w)\<rparr>"
  using assms by (simp add: flush_answer_def Let_def)

lemma flush_some:
  assumes "i < length (wk_flights w)" "wk_flights w ! i = q" "length as \<le> length q"
  shows "steps now (answered i as) w = w\<lparr>wk_sent := wk_sent w @ accepted q as, wk_flights := (wk_flights w)[i := drop (length as) q],
      wk_queue := (if as \<noteq> [] \<and> length as = length q then None else wk_queue w)\<rparr>"
  using assms
proof (induction as arbitrary: w q)
  case Nil
  then show ?case by (simp add: answered_def steps_def accepted_def list_update_id flip: Nil.prems(2))
next
  case (Cons a as)
  obtain r q' where q: "q = r # q'" using Cons.prems(3) by (cases q) auto
  let ?w = "flush_answer i (Some a) w"
  have w: "?w = w\<lparr>wk_sent := wk_sent w @ (if resp_ok a then [r] else []), wk_flights := (wk_flights w)[i := q'],
      wk_queue := (if q' = [] then None else wk_queue w)\<rparr>"
    using flush_one [OF Cons.prems(1)] Cons.prems(2) q by simp
  have "steps now (answered i (a # as)) w = steps now (answered i as) ?w" by (simp add: answered_def steps_def)
  also have "\<dots> = ?w\<lparr>wk_sent := wk_sent ?w @ accepted q' as, wk_flights := (wk_flights ?w)[i := drop (length as) q'],
      wk_queue := (if as \<noteq> [] \<and> length as = length q' then None else wk_queue ?w)\<rparr>"
    using Cons.prems q by (intro Cons.IH) (simp_all add: w)
  finally show ?case using Cons.prems q by (auto simp: w accepted_def)
qed

lemma enqueue_more: "ps \<noteq> [] \<Longrightarrow> foldl (\<lambda>w r. enqueueRequest r w) w ps = w\<lparr>wk_queue := Some (queued w @ ps)\<rparr>"
proof (induction ps rule: rev_induct)
  case (snoc p ps)
  then show ?case by (cases "ps = []") (simp_all add: enqueueRequest_def queued_def)
qed simp

text \<open>
  C39: what a flush of the queue \<open>q\<close> does when the writes \<open>ps\<close> are queued while it is under way. If
  the network answers every request, the queue is gone afterwards, with the writes of \<open>ps\<close>, which nobody has
  sent, and with those of \<open>q\<close> the server refused; sent are those it accepted, in their order. If the network fails
  after the answers \<open>as\<close>, the queue is what it was with \<open>ps\<close> behind: the next flush begins from the start
  and sends again what the server has accepted already.
\<close>

theorem flush_outcome:
  fixes w :: worker and ps :: "req list"
  assumes "wk_queue w = Some q" and "q \<noteq> []" and "length as \<le> length q"
  defines "i \<equiv> length (wk_flights w)" and "w1 \<equiv> foldl (\<lambda>w r. enqueueRequest r w) (flushQueue w) ps"
  shows "queued (steps now (answered i as) w1) = (if length as = length q then [] else q @ ps)
    \<and> wk_sent (steps now (answered i as) w1) = wk_sent w @ accepted q as
    \<and> (length as < length q \<longrightarrow>
        queued (steps now (answered i as @ [Flushed i None, Online]) w1) = q @ ps
        \<and> last (wk_flights (steps now (answered i as @ [Flushed i None, Online]) w1)) = q @ ps)"
proof -
  have f: "flushQueue w = w\<lparr>wk_flights := wk_flights w @ [q]\<rparr>"
    using assms(1,2) by (cases q) (simp_all add: flushQueue_def)
  have w1: "wk_flights w1 = wk_flights w @ [q]" "wk_sent w1 = wk_sent w" "wk_queue w1 = Some (q @ ps)"
    using assms(1) enqueue_more [of ps "flushQueue w"] by (cases "ps = []"; simp add: w1_def f queued_def)+
  let ?v = "steps now (answered i as) w1"
  have v: "?v = w1\<lparr>wk_sent := wk_sent w @ accepted q as, wk_flights := wk_flights w @ [drop (length as) q],
      wk_queue := (if as \<noteq> [] \<and> length as = length q then None else Some (q @ ps))\<rparr>"
    using flush_some [of i w1 q as now] assms(3) w1 by (simp add: i_def)
  have "steps now (answered i as @ [Flushed i None, Online]) w1 = flushQueue (flush_answer i None ?v)"
    by (simp add: steps_def)
  moreover have "flush_answer i None ?v = ?v\<lparr>wk_flights := wk_flights w @ [[]]\<rparr>"
    unfolding v by (simp add: flush_answer_def i_def split: list.splits)
  ultimately show ?thesis
    using assms(2,3) by (auto simp: v queued_def flushQueue_def split: list.splits)
qed

theorem flush_outcome_witness:
  "queued (steps 0 (answered 0 [\<lparr>rs_status = 472, rs_text = []\<rparr>]) (foldl (\<lambda>w r. enqueueRequest r w)
     (flushQueue (enqueueRequest write_ex fresh_worker)) [read_ex])) = []"
  using flush_outcome [of "enqueueRequest write_ex fresh_worker" "[write_ex]" "[\<lparr>rs_status = 472, rs_text = []\<rparr>]" 0 "[read_ex]"]
  by (simp add: enqueueRequest_def fresh_worker_def)

end
