(* ===== verification/Server_Backend.thy ===== *)
theory Server_Backend
  imports Js_Host
begin

text \<open>
  Two small modules of \<^verbatim>\<open>public/js/server\<close>: \<^verbatim>\<open>backend.js\<close>, which gives the host functions the
  interface of the browser's backend, and the decision of \<^verbatim>\<open>nano_bpmn.js\<close>.
\<close>

section \<open>The host functions as promises\<close>

datatype 'a settled = Resolved 'a | Rejected js_error

definition settle :: "'a js \<Rightarrow> 'a settled js" where
  "settle m = js_handle (js_bind (m) (\<lambda>x. js_ret (Resolved x))) (\<lambda>e. js_ret (Rejected e))"

text \<open>
  The arguments: a ticket and what to work on, or one object with both. A first argument that is \<open>null\<close> is
  of type object, and its members are read before the \<open>try\<close>: that is a TypeError and not a rejection.
\<close>

datatype 'a arguments = Positional string 'a | Fields string 'a | Null_First

definition given :: "'a arguments \<Rightarrow> 'a js" where
  "given a = (case a of Positional t x \<Rightarrow> js_ret x | Fields t x \<Rightarrow> js_ret x | Null_First \<Rightarrow> js_throw TypeError)"

definition backend_get_individual :: "jdata arguments \<Rightarrow> individual option settled js" where
  "backend_get_individual a = (js_bind (given a) (\<lambda>u. settle (get_individual u)))"

definition backend_remove_individual :: "string arguments \<Rightarrow> unit settled js" where
  "backend_remove_individual a = (js_bind (given a) (\<lambda>u. settle (remove_individual u)))"

definition backend_put_individual :: "individual arguments \<Rightarrow> unit settled js" where
  "backend_put_individual a = (js_bind (given a) (\<lambda>i. settle (put_individual i)))"

definition backend_add_to_individual :: "individual arguments \<Rightarrow> unit settled js" where
  "backend_add_to_individual a = (js_bind (given a) (\<lambda>i. settle (add_to_individual i)))"

definition backend_set_in_individual :: "individual arguments \<Rightarrow> unit settled js" where
  "backend_set_in_individual a = (js_bind (given a) (\<lambda>i. settle (set_in_individual i)))"

definition backend_remove_from_individual :: "individual arguments \<Rightarrow> unit settled js" where
  "backend_remove_from_individual a = (js_bind (given a) (\<lambda>i. settle (remove_from_individual i)))"

lemma settle_settles: "fst (m w) = Throw e \<Longrightarrow> settle m w = (Val (Rejected e), snd (m w))"
  by (cases "m w") (simp add: settle_def js_handle_def js_bind_def js_ret_def)

lemma backend_put_is_put:
  "backend_put_individual (Fields t i) w = (Val (Resolved ()), do_put i w)"
  "backend_put_individual (Positional t i) w = (Val (Resolved ()), do_put i w)"
  "backend_put_individual Null_First w = (Throw TypeError, w)"
  by (simp_all add: backend_put_individual_def given_def settle_def js_defs)

section \<open>The decision of the executors\<close>

text \<open>\<open>is_all_executors_taken_decision\<close> of the token the script runs for\<close>

definition taken_decision :: "val \<Rightarrow> jdata js" where
  "taken_decision v = (js_bind (get_individual (getUri (Some [v]))) (\<lambda>work_order.
     js_bind (js_some work_order) (\<lambda>wo.
     js_bind (get_individual (getUri (pget wo ''bpmn:hasDecisionForm''))) (\<lambda>decision_form.
     js_bind (js_some decision_form) (\<lambda>df.
     js_ret (getUri (pget df ''bpmn:hasDecisionForm'')))))))"

definition is_all_executors_taken_decision :: "string \<Rightarrow> bool js" where
  "is_all_executors_taken_decision wanted =
     (if wanted = [] then js_ret False
      else (js_bind (get_individual (DStr ''$token'')) (\<lambda>tk.
        js_bind (js_some tk) (\<lambda>token.
        let orders = (case pget token ''bpmn:hasWorkOrder'' of None \<Rightarrow> [] | Some vs \<Rightarrow> vs) in
        js_bind (js_fold (\<lambda>n v. (js_bind (taken_decision v) (\<lambda>d. js_ret (if loose_eq d (DStr wanted) then Suc n else n)))) 0 orders) (\<lambda>agreed.
        js_ret (agreed = length orders))))))"

lemma count_agreed:
  assumes "\<And>v. v \<in> set vs \<Longrightarrow> taken_decision v w = (Val (d v), w)"
  shows "js_fold (\<lambda>n v. (js_bind (taken_decision v) (\<lambda>x. js_ret (if loose_eq x (DStr s) then Suc n else n)))) n vs w
    = (Val (n + length (filter (\<lambda>v. loose_eq (d v) (DStr s)) vs)), w)"
  using assms by (induction vs arbitrary: n) (simp_all add: js_bind_def js_ret_def)

lemma all_agree: "length (filter P xs) = length xs \<longleftrightarrow> (\<forall>x \<in> set xs. P x)"
  by (induction xs) (auto, metis Suc_n_not_le_n length_filter_le)

text \<open>The decision is taken if every order has it; a token without orders has taken any decision.\<close>

lemma decision_unanimous:
  assumes "lookup w (DStr ''$token'') = Some token" and "s \<noteq> []"
    and "\<And>v. v \<in> set (case pget token ''bpmn:hasWorkOrder'' of None \<Rightarrow> [] | Some vs \<Rightarrow> vs) \<Longrightarrow> taken_decision v w = (Val (d v), w)"
  shows "is_all_executors_taken_decision s w
    = (Val (\<forall>v \<in> set (case pget token ''bpmn:hasWorkOrder'' of None \<Rightarrow> [] | Some vs \<Rightarrow> vs). loose_eq (d v) (DStr s)), w)"
proof -
  let ?vs = "case pget token ''bpmn:hasWorkOrder'' of None \<Rightarrow> [] | Some vs \<Rightarrow> vs"
  have f: "js_fold (\<lambda>n v. (js_bind (taken_decision v) (\<lambda>x. js_ret (if loose_eq x (DStr s) then Suc n else n)))) 0 ?vs w
      = (Val (length (filter (\<lambda>v. loose_eq (d v) (DStr s)) ?vs)), w)"
    using count_agreed [of ?vs w d s 0] assms(3) by simp
  show ?thesis
    using assms(1,2) f
    by (simp add: is_all_executors_taken_decision_def js_bind_def js_some_def get_individual_def js_ret_def all_agree Let_def)
qed

end
