(* ===== verification/Prefetch.thy ===== *)
theory Prefetch
  imports Common_Util
begin

text \<open>
  \<open>prefetch\<close> of \<^verbatim>\<open>public/js/common/individual_model.js\<close>: the individuals linked to one, level by level, with one
  request for each level. The cache of the application keeps one object per id, so a result is a list of ids.
\<close>

section \<open>The levels\<close>

text \<open>What the cache holds, the result so far, and the requests that were sent\<close>

record fetched =
  pf_cache :: "string \<Rightarrow> individual option"
  pf_result :: "string list"
  pf_asked :: "string list list"

definition push_new :: "string list \<Rightarrow> string list \<Rightarrow> string list" where
  "push_new r us = foldl (\<lambda>r u. if u \<in> set r then r else r @ [u]) r us"

text \<open>The links of an individual, of all properties or of those that are allowed\<close>

definition links_of_ind :: "string list \<Rightarrow> individual \<Rightarrow> string list" where
  "links_of_ind allowed i =
     concat (map (\<lambda>(k, vs). if allowed \<noteq> [] \<and> k \<notin> set allowed then []
         else List.map_filter (\<lambda>v. case (vtype v, vdata v) of (TUri, DStr u) \<Rightarrow> Some u | _ \<Rightarrow> None) vs) (props i))"

definition pf_fetch :: "(string \<Rightarrow> individual option) \<Rightarrow> string list \<Rightarrow> fetched \<Rightarrow> fetched" where
  "pf_fetch server uris s =
     (let us = unique uris; c = pf_cache s;
          toGet = filter (\<lambda>u. c u = None) us; got = List.map_filter server toGet
      in s\<lparr>pf_result := push_new (pf_result s) (filter (\<lambda>u. c u \<noteq> None) us @ map uri got),
           pf_cache := foldl (\<lambda>c i. c(uri i := Some i)) c got,
           pf_asked := pf_asked s @ (if toGet = [] then [] else [toGet])\<rparr>)"

text \<open>\<open>new veda.IndividualModel (uri)\<close>: an individual the server does not have enters the cache without properties.\<close>

definition pf_known :: "string list \<Rightarrow> fetched \<Rightarrow> fetched" where
  "pf_known uris s =
     s\<lparr>pf_cache := (\<lambda>u. if u \<in> set (unique uris) \<and> pf_cache s u = None then Some \<lparr>uri = u, props = []\<rparr> else pf_cache s u)\<rparr>"

definition next_links :: "string list \<Rightarrow> string list \<Rightarrow> fetched \<Rightarrow> string list" where
  "next_links allowed uris s =
     concat (map (\<lambda>u. case pf_cache s u of None \<Rightarrow> [] | Some i \<Rightarrow> links_of_ind allowed i) (unique uris))"

text \<open>The depth \<open>None\<close> is \<open>Infinity\<close>. A descent that does not end has no result.\<close>

partial_function (option) prefetch_loop ::
  "(string \<Rightarrow> individual option) \<Rightarrow> string list \<Rightarrow> nat option \<Rightarrow> string list \<Rightarrow> fetched \<Rightarrow> fetched option" where
  "prefetch_loop server allowed depth uris s =
     (let s1 = pf_fetch server uris s
      in if depth = Some 1 then Some s1
         else (let s2 = pf_known uris s1; nxt = next_links allowed uris s2
               in if nxt = [] then Some s2
                  else prefetch_loop server allowed (map_option (\<lambda>d. d - 1) depth) nxt s2))"

definition prefetch ::
  "(string \<Rightarrow> individual option) \<Rightarrow> string list \<Rightarrow> nat option \<Rightarrow> string \<Rightarrow> fetched \<Rightarrow> fetched option" where
  "prefetch server allowed depth root s =
     prefetch_loop server allowed (if depth = Some 0 then Some 1 else depth) [root] (s\<lparr>pf_result := [], pf_asked := []\<rparr>)"

section \<open>One level\<close>

lemma push_new_set: "set (push_new r us) = set r \<union> set us"
  unfolding push_new_def by (induction us arbitrary: r) auto

lemma push_new_distinct: "distinct r \<Longrightarrow> distinct (push_new r us)"
  unfolding push_new_def by (induction us arbitrary: r) auto

text \<open>The server answers an id with the individual of that id.\<close>

definition own_ids :: "(string \<Rightarrow> individual option) \<Rightarrow> bool" where
  "own_ids server \<longleftrightarrow> (\<forall>u i. server u = Some i \<longrightarrow> uri i = u)"

text \<open>The data of an individual: the cached one, or else the server's\<close>

definition data_of :: "(string \<Rightarrow> individual option) \<Rightarrow> (string \<Rightarrow> individual option) \<Rightarrow> string \<Rightarrow> individual option" where
  "data_of server c u = (case c u of Some i \<Rightarrow> Some i | None \<Rightarrow> server u)"

definition linked :: "(string \<Rightarrow> individual option) \<Rightarrow> string list \<Rightarrow> (string \<times> string) set" where
  "linked d allowed = {(u, v). \<exists>i. d u = Some i \<and> v \<in> set (links_of_ind allowed i)}"

lemma fetched_cache:
  assumes "own_ids server"
  shows "foldl (\<lambda>c i. c(uri i := Some i)) c (List.map_filter server us) u
    = (if u \<in> set us \<and> server u \<noteq> None then server u else c u)"
  using assms
proof (induction us arbitrary: c)
  case (Cons x us)
  show ?case
    using Cons.IH [of "case server x of None \<Rightarrow> c | Some i \<Rightarrow> c(x := Some i)"] Cons.prems
    by (cases "server x") (auto simp: own_ids_def List.map_filter_simps)
qed (simp add: List.map_filter_simps)

lemma map_uri_got:
  assumes "own_ids server"
  shows "map uri (List.map_filter server us) = filter (\<lambda>u. server u \<noteq> None) us"
  using assms by (induction us) (auto simp: own_ids_def List.map_filter_simps split: option.splits)

text \<open>A level over individuals that are all there\<close>

lemma level_facts:
  assumes law: "own_ids server"
    and there: "\<And>u. u \<in> set us \<Longrightarrow> data_of server (pf_cache s) u \<noteq> None \<and> u \<notin> set proto_names"
  defines "s1 \<equiv> pf_fetch server us s"
  shows "set (pf_result s1) = set (pf_result s) \<union> set us"
    and "distinct (pf_result s) \<Longrightarrow> distinct (pf_result s1)"
    and "data_of server (pf_cache s1) = data_of server (pf_cache s)"
    and "pf_known us s1 = s1"
    and "set (next_links allowed us s1) = linked (data_of server (pf_cache s)) allowed `` set us"
proof -
  have U: "set (unique us) = set us" using there by (auto simp: unique_def unique_loop_set)
  let ?c = "pf_cache s" and ?toGet = "filter (\<lambda>u. pf_cache s u = None) (unique us)"
  have c1: "pf_cache s1 u = (if u \<in> set us then data_of server ?c u else ?c u)" for u
    using fetched_cache [OF law, where c = ?c and us = ?toGet and u = u] there [of u] U
    by (auto simp: s1_def pf_fetch_def Let_def data_of_def split: option.splits)
  have on_server: "server u \<noteq> None" if "u \<in> set us" "?c u = None" for u using there [OF that(1)] that(2) by (simp add: data_of_def)
  show "set (pf_result s1) = set (pf_result s) \<union> set us"
    using on_server U by (force simp: s1_def pf_fetch_def Let_def push_new_set map_uri_got [OF law])
  show "distinct (pf_result s) \<Longrightarrow> distinct (pf_result s1)"
    by (simp add: s1_def pf_fetch_def Let_def push_new_distinct)
  show "data_of server (pf_cache s1) = data_of server ?c"
    by (rule ext) (auto simp: data_of_def c1 split: option.splits)
  have "pf_cache s1 u \<noteq> None" if "u \<in> set us" for u using that there [of u] by (simp add: c1)
  then have "(\<lambda>u. if u \<in> set (unique us) \<and> pf_cache s1 u = None then Some \<lparr>uri = u, props = []\<rparr> else pf_cache s1 u) = pf_cache s1"
    using U by (intro ext) auto
  then show "pf_known us s1 = s1" by (simp add: pf_known_def)
  show "set (next_links allowed us s1) = linked (data_of server ?c) allowed `` set us"
    using c1 by (auto simp: next_links_def U linked_def Image_def split: option.splits if_splits) (metis option.inject)+
qed

section \<open>All levels\<close>

text \<open>What is reached from the individuals of a level is there.\<close>

definition all_there :: "(string \<Rightarrow> individual option) \<Rightarrow> string list \<Rightarrow> string list \<Rightarrow> bool" where
  "all_there d allowed us \<longleftrightarrow> (\<forall>u \<in> (linked d allowed)\<^sup>* `` set us. d u \<noteq> None \<and> u \<notin> set proto_names)"

lemma all_there_next:
  assumes "all_there d allowed us" "set vs = linked d allowed `` set us"
  shows "all_there d allowed vs"
  using assms unfolding all_there_def by (auto intro: converse_rtrancl_into_rtrancl)

lemma all_there_level: "all_there d allowed us \<Longrightarrow> u \<in> set us \<Longrightarrow> d u \<noteq> None \<and> u \<notin> set proto_names"
  unfolding all_there_def by blast

definition within :: "(string \<times> string) set \<Rightarrow> nat \<Rightarrow> string set \<Rightarrow> string set" where
  "within L d U = (\<Union>k<d. (L ^^ k) `` U)"

lemma pow_image: "(L ^^ Suc k) `` U = (L ^^ k) `` (L `` U)"
  by (simp add: relpow_commute [symmetric] relcomp_Image)

lemma within_Suc: "within L (Suc d) U = U \<union> within L d (L `` U)"
proof -
  have "within L (Suc d) U = (\<Union>k \<in> insert 0 (Suc ` {..<d}). (L ^^ k) `` U)"
    by (simp add: within_def lessThan_Suc_eq_insert_0)
  also have "\<dots> = U \<union> within L d (L `` U)" by (simp add: within_def pow_image del: relpow.simps(2))
  finally show ?thesis .
qed

lemma within_empty [simp]: "within L d {} = {}"
  by (simp add: within_def)

lemma loop_level:
  assumes "own_ids server"
    and "data_of server (pf_cache s) = d" "all_there d allowed us"
  shows "prefetch_loop server allowed depth us s =
      (let s1 = pf_fetch server us s; vs = next_links allowed us s1
       in if depth = Some 1 \<or> vs = [] then Some s1
          else prefetch_loop server allowed (map_option (\<lambda>d. d - 1) depth) vs s1)"
proof -
  have "pf_known us (pf_fetch server us s) = pf_fetch server us s"
    by (rule level_facts(4)) (use assms all_there_level in auto)
  then show ?thesis by (subst prefetch_loop.simps) (simp add: Let_def)
qed

text \<open>After a level the loop is where it was, with the next individuals.\<close>

lemma level_state:
  assumes "own_ids server"
    and "data_of server (pf_cache s) = d" "all_there d allowed us"
  shows "data_of server (pf_cache (pf_fetch server us s)) = d"
    and "all_there d allowed (next_links allowed us (pf_fetch server us s))"
    and "set (next_links allowed us (pf_fetch server us s)) = linked d allowed `` set us"
    and "set (pf_result (pf_fetch server us s)) = set (pf_result s) \<union> set us"
    and "distinct (pf_result s) \<Longrightarrow> distinct (pf_result (pf_fetch server us s))"
proof -
  have there: "data_of server (pf_cache s) u \<noteq> None \<and> u \<notin> set proto_names" if "u \<in> set us" for u
    using all_there_level [OF assms(3) that] assms(2) by simp
  note f = level_facts [where server = server and us = us and s = s, OF assms(1) there]
  show "data_of server (pf_cache (pf_fetch server us s)) = d" using f(3) assms(2) by simp
  show n: "set (next_links allowed us (pf_fetch server us s)) = linked d allowed `` set us" using f(5) assms(2) by simp
  show "all_there d allowed (next_links allowed us (pf_fetch server us s))" by (rule all_there_next [OF assms(3) n])
  show "set (pf_result (pf_fetch server us s)) = set (pf_result s) \<union> set us" by (rule f(1))
  show "distinct (pf_result s) \<Longrightarrow> distinct (pf_result (pf_fetch server us s))" by (rule f(2))
qed

lemma loop_depth:
  assumes "own_ids server"
    and "data_of server (pf_cache s) = d" "all_there d allowed us" "distinct (pf_result s)"
  shows "\<exists>s'. prefetch_loop server allowed (Some (Suc n)) us s = Some s' \<and> distinct (pf_result s')
    \<and> set (pf_result s') = set (pf_result s) \<union> within (linked d allowed) (Suc n) (set us)"
  using assms(2-4)
proof (induction n arbitrary: us s)
  case 0
  note f = level_state [where server = server, OF assms(1) 0(1,2)]
  show ?case using f 0(3) by (simp add: loop_level [OF assms(1) 0(1,2)] Let_def within_Suc) (simp add: within_def)
next
  case (Suc n)
  let ?s = "pf_fetch server us s" and ?vs = "next_links allowed us (pf_fetch server us s)"
  note f = level_state [where server = server, OF assms(1) Suc.prems(1,2)]
  show ?case
  proof (cases "?vs = []")
    case True
    then have "linked d allowed `` set us = {}" using f(3) by simp
    then show ?thesis using f(4,5) Suc.prems(3) True
      by (simp add: loop_level [OF assms(1) Suc.prems(1,2)] Let_def within_Suc [of _ "Suc n"])
  next
    case False
    have "prefetch_loop server allowed (Some (Suc (Suc n))) us s = prefetch_loop server allowed (Some (Suc n)) ?vs ?s"
      using False by (simp add: loop_level [OF assms(1) Suc.prems(1,2)] Let_def)
    then show ?thesis
      using Suc.IH [OF f(1,2) f(5) [OF Suc.prems(3)]] f(3,4) by (auto simp: within_Suc [of _ "Suc n"])
  qed
qed

section \<open>Without a limit\<close>

lemma reach_step: "L\<^sup>* `` U = U \<union> L\<^sup>* `` (L `` U)"
  by (auto intro: converse_rtrancl_into_rtrancl elim: converse_rtranclE)

lemma loop_unlimited:
  assumes "own_ids server"
    and "data_of server (pf_cache s) = d" "all_there d allowed us" "distinct (pf_result s)"
    and "(linked d allowed ^^ n) `` set us = {}"
  shows "\<exists>s'. prefetch_loop server allowed None us s = Some s' \<and> distinct (pf_result s')
    \<and> set (pf_result s') = set (pf_result s) \<union> (linked d allowed)\<^sup>* `` set us"
  using assms(2-5)
proof (induction n arbitrary: us s)
  case 0
  note f = level_state [where server = server, OF assms(1) 0(1,2)]
  have "us = []" using 0(4) by simp
  then show ?case using loop_level [OF assms(1) 0(1,2), of None] f 0(3) by (simp add: Let_def)
next
  case (Suc n)
  let ?s = "pf_fetch server us s" and ?vs = "next_links allowed us (pf_fetch server us s)"
  note f = level_state [where server = server, OF assms(1) Suc.prems(1,2)]
  have r: "(linked d allowed)\<^sup>* `` set us = set us \<union> (linked d allowed)\<^sup>* `` set ?vs" using f(3) reach_step by metis
  show ?case
  proof (cases "?vs = []")
    case True
    then show ?thesis using f(4,5) Suc.prems(3) r
      by (simp add: loop_level [OF assms(1) Suc.prems(1,2)] Let_def)
  next
    case False
    have "(linked d allowed ^^ n) `` set ?vs = {}" using Suc.prems(4) f(3) by (simp only: pow_image)
    moreover have "prefetch_loop server allowed None us s = prefetch_loop server allowed None ?vs ?s"
      using False by (simp add: loop_level [OF assms(1) Suc.prems(1,2)] Let_def)
    ultimately show ?thesis
      using Suc.IH [OF f(1,2) f(5) [OF Suc.prems(3)]] f(4) r by auto
  qed
qed

lemma loop_ends_only:
  assumes "prefetch_loop server allowed depth us s = Some s'"
  shows "depth = None \<longrightarrow> own_ids server \<longrightarrow> data_of server (pf_cache s) = d \<longrightarrow> all_there d allowed us
    \<longrightarrow> (\<exists>n. (linked d allowed ^^ n) `` set us = {})"
proof (rule prefetch_loop.raw_induct [OF _ assms])
  fix loop server allowed depth us s s'
  assume IH: "\<And>server allowed depth us s s'. loop server allowed depth us s = Some s' \<Longrightarrow>
      depth = None \<longrightarrow> own_ids server \<longrightarrow> data_of server (pf_cache s) = d \<longrightarrow> all_there d allowed us
      \<longrightarrow> (\<exists>n. (linked d allowed ^^ n) `` set us = {})"
    and eq: "(let s1 = pf_fetch server us s
        in if depth = Some 1 then Some s1
           else (let s2 = pf_known us s1; nxt = next_links allowed us s2
                 in if nxt = [] then Some s2 else loop server allowed (map_option (\<lambda>d. d - 1) depth) nxt s2)) = Some s'"
  show "depth = None \<longrightarrow> own_ids server \<longrightarrow> data_of server (pf_cache s) = d \<longrightarrow> all_there d allowed us
      \<longrightarrow> (\<exists>n. (linked d allowed ^^ n) `` set us = {})"
  proof (intro impI)
    assume a: "depth = None" "own_ids server" "data_of server (pf_cache s) = d" "all_there d allowed us"
    let ?s = "pf_fetch server us s" and ?vs = "next_links allowed us (pf_fetch server us s)"
    have k: "pf_known us ?s = ?s"
      by (rule level_facts(4)) (use a all_there_level in auto)
    note f = level_state [OF a(2,3,4)]
    show "\<exists>n. (linked d allowed ^^ n) `` set us = {}"
    proof (cases "?vs = []")
      case True
      then have "(linked d allowed ^^ 1) `` set us = {}" using f(3) by simp
      then show ?thesis by blast
    next
      case False
      then have "loop server allowed None ?vs ?s = Some s'" using eq a(1) k by (simp add: Let_def)
      then obtain n where "(linked d allowed ^^ n) `` set ?vs = {}" using IH a(2) f(1,2) by blast
      then have "(linked d allowed ^^ Suc n) `` set us = {}" using f(3) by (simp only: pow_image)
      then show ?thesis by blast
    qed
  qed
qed

text \<open>
  C40: \<open>prefetch\<close> with a depth collects, each once, exactly the individuals that are at most
  that many links less one away along the allowed properties, if what is linked exists. With the depth \<open>Infinity\<close>, as
  the editor of nets calls it, it ends if and only if the links do: nothing marks what was visited, so with any cycle
  of links it goes on for ever; when it ends, it has all that can be reached.
\<close>

theorem prefetch_spec:
  fixes server :: "string \<Rightarrow> individual option" and s :: fetched and allowed :: "string list"
  defines "L \<equiv> linked (data_of server (pf_cache s)) allowed"
  assumes "own_ids server" and "all_there (data_of server (pf_cache s)) allowed [root]"
  shows "(\<exists>s'. prefetch server allowed (Some (Suc n)) root s = Some s' \<and> distinct (pf_result s')
      \<and> set (pf_result s') = {v. \<exists>k \<le> n. (root, v) \<in> L ^^ k})
    \<and> (prefetch server allowed None root s \<noteq> None \<longleftrightarrow> (\<exists>n. \<forall>v. (root, v) \<notin> L ^^ n))
    \<and> (\<forall>s'. prefetch server allowed None root s = Some s' \<longrightarrow>
        distinct (pf_result s') \<and> set (pf_result s') = {v. (root, v) \<in> L\<^sup>*})"
proof -
  let ?s = "s\<lparr>pf_result := [], pf_asked := []\<rparr>"
  have d: "data_of server (pf_cache ?s) = data_of server (pf_cache s)" by simp
  have w: "within L (Suc n) {root} = {v. \<exists>k \<le> n. (root, v) \<in> L ^^ k}"
    by (auto simp: within_def less_Suc_eq_le)
  have e: "(\<exists>n. \<forall>v. (root, v) \<notin> L ^^ n) \<longleftrightarrow> (\<exists>n. (L ^^ n) `` {root} = {})" by (auto simp: Image_def)
  have ends: "\<exists>s'. prefetch server allowed None root s = Some s' \<and> distinct (pf_result s')
      \<and> set (pf_result s') = {v. (root, v) \<in> L\<^sup>*}" if "(L ^^ m) `` {root} = {}" for m
    using loop_unlimited [OF assms(2) d assms(3), of m] that by (auto simp: prefetch_def L_def)
  have only: "\<exists>m. (L ^^ m) `` {root} = {}" if "prefetch server allowed None root s = Some s'" for s'
    using loop_ends_only [of server allowed None "[root]" ?s s' "data_of server (pf_cache s)"] that assms(2,3)
    by (simp add: prefetch_def L_def)
  have "\<exists>s'. prefetch server allowed (Some (Suc n)) root s = Some s' \<and> distinct (pf_result s')
      \<and> set (pf_result s') = {v. \<exists>k \<le> n. (root, v) \<in> L ^^ k}"
    using loop_depth [OF assms(2) d assms(3), of n] w by (simp add: prefetch_def L_def)
  moreover have "prefetch server allowed None root s \<noteq> None \<longleftrightarrow> (\<exists>m. (L ^^ m) `` {root} = {})"
    using ends only by blast
  moreover have "distinct (pf_result s') \<and> set (pf_result s') = {v. (root, v) \<in> L\<^sup>*}"
    if "prefetch server allowed None root s = Some s'" for s'
    using ends only [OF that] that by auto
  ultimately show ?thesis unfolding e by blast
qed

definition class_ex :: "string \<Rightarrow> individual option" where
  "class_ex u =
     (if u = ''d:a'' then Some \<lparr>uri = u, props = [(''rdfs:subClassOf'', [mkv TUri (DStr ''d:b'')])]\<rparr>
      else if u = ''d:b'' then Some \<lparr>uri = u, props = [(''rdfs:subClassOf'', [mkv TUri (DStr ''d:a'')])]\<rparr>
      else None)"

definition none_fetched :: fetched where
  "none_fetched = \<lparr>pf_cache = (\<lambda>u. None), pf_result = [], pf_asked = []\<rparr>"

theorem prefetch_spec_witness:
  "(\<exists>s'. prefetch class_ex [''rdfs:subClassOf''] (Some 2) ''d:a'' none_fetched = Some s' \<and> set (pf_result s') = {''d:a'', ''d:b''})
   \<and> prefetch class_ex [''rdfs:subClassOf''] None ''d:a'' none_fetched = None"
proof -
  let ?al = "[''rdfs:subClassOf'']" and ?d = "data_of class_ex (pf_cache none_fetched)"
  have L: "linked ?d ?al = {(''d:a'', ''d:b''), (''d:b'', ''d:a'')}"
    by (auto simp: linked_def data_of_def none_fetched_def class_ex_def links_of_ind_def List.map_filter_simps mkv_def split: if_splits)
  have own: "own_ids class_ex" by (simp add: own_ids_def class_ex_def)
  have "(linked ?d ?al)\<^sup>* `` {''d:a'', ''d:b''} = {''d:a'', ''d:b''}" by (rule Image_closed_trancl) (auto simp: L)
  then have "(linked ?d ?al)\<^sup>* `` {''d:a''} \<subseteq> {''d:a'', ''d:b''}" by blast
  then have there: "all_there ?d ?al [''d:a'']"
    by (force simp: all_there_def data_of_def none_fetched_def class_ex_def proto_names_def)
  have c: "(\<exists>v. (''d:a'', v) \<in> linked ?d ?al ^^ n) \<and> (\<exists>v. (''d:b'', v) \<in> linked ?d ?al ^^ n)" for n
  proof (induction n)
    case (Suc n)
    have "(''d:a'', ''d:b'') \<in> linked ?d ?al" "(''d:b'', ''d:a'') \<in> linked ?d ?al" by (simp_all add: L)
    with Suc show ?case by (blast intro: relpow_Suc_I2)
  qed simp
  have two: "{v. \<exists>k \<le> 1. (''d:a'', v) \<in> linked ?d ?al ^^ k} = {''d:a'', ''d:b''}"
    by (auto simp: L le_Suc_eq)
  show ?thesis
    using prefetch_spec [OF own there, of 1] two c by (metis (no_types, lifting) Suc_1 One_nat_def)
qed

end
