(* ===== verification/Access.thy ===== *)
theory Access
  imports Individual_Props
begin

text \<open>
  Rights, groups, the start of loading and the class scripts of an individual in the browser, the rest of
  \<^verbatim>\<open>public/js/common/individual_model.js\<close>. The answers of the server are arguments, \<open>None\<close> an error.
\<close>

section \<open>Rights and groups\<close>

text \<open>An individual outside of the cache, without an id\<close>

definition loose_model :: imodel where
  "loose_model = new_model []"

definition granted :: "(int \<Rightarrow> string) \<Rightarrow> imodel" where
  "granted ds =
     foldl (\<lambda>m p. set_value ds p [MBool True] False m) loose_model
       [''v-s:canCreate'', ''v-s:canRead'', ''v-s:canUpdate'', ''v-s:canDelete'']"

definition rights :: "(int \<Rightarrow> string) \<Rightarrow> individual option \<Rightarrow> imodel \<Rightarrow> imodel" where
  "rights ds reply_of m =
     (if isNew m then granted ds else (case reply_of of Some i \<Rightarrow> model_of_json i | None \<Rightarrow> loose_model))"

definition capital :: "string \<Rightarrow> string" where
  "capital s = (case s of [] \<Rightarrow> [] | c # cs \<Rightarrow> upper_char c # map lower_char cs)"

definition can :: "(int \<Rightarrow> string) \<Rightarrow> string \<Rightarrow> individual option \<Rightarrow> imodel \<Rightarrow> bool" where
  "can ds action reply_of m \<longleftrightarrow> has_value (rights ds reply_of m) (''v-s:can'' @ capital action) (MBool True)"

text \<open>
  \<open>load\<close> of what the server answers only adopts it; with no reply_of it is an individual without groups.
\<close>

definition membership :: "individual option \<Rightarrow> imodel \<Rightarrow> imodel" where
  "membership reply_of m =
     (if isNew m then loose_model else (case reply_of of Some i \<Rightarrow> model_of_json i | None \<Rightarrow> loose_model))"

definition memberOf :: "individual option \<Rightarrow> imodel \<Rightarrow> jdata list" where
  "memberOf reply_of m = map vdata (mvals (membership reply_of m) ''v-s:memberOf'')"

definition isMemberOf :: "string \<Rightarrow> individual option \<Rightarrow> imodel \<Rightarrow> bool" where
  "isMemberOf g reply_of m \<longleftrightarrow> has_value (membership reply_of m) ''v-s:memberOf'' (MText g)"

section \<open>The start of loading\<close>

text \<open>
  \<open>load\<close>: a load that is under way is waited for; what is loaded is taken as it is, unless the updates are not
  received (\<open>limited\<close>): then it is reset, in a window only if it is a user thing. Otherwise the server is asked,
  or what the constructor got is taken.
\<close>

datatype given_as = By_Id string | By_Json individual | By_Nothing

datatype load_start = Waits | Is_Loaded | Resets | Resets_User_Things | Asks_Server string | Adopts imodel

definition load_start_of :: "bool \<Rightarrow> string \<Rightarrow> bool \<Rightarrow> given_as \<Rightarrow> imodel \<Rightarrow> load_start" where
  "load_start_of window status loading g m =
     (if loading \<and> window then Waits
      else if isLoaded m \<and> (status = ''online'' \<or> status = ''offline'') then Is_Loaded
      else if isLoaded m \<and> status = ''limited'' then (if window then Resets_User_Things else Resets)
      else (case g of
              By_Id u \<Rightarrow> Asks_Server u
            | By_Json i \<Rightarrow> Adopts (m\<lparr>isNew := False, isSync := True, isLoaded := True, properties := i\<rparr>)
            | By_Nothing \<Rightarrow> Adopts (m\<lparr>isNew := True, isSync := False, isLoaded := False\<rparr>)))"

section \<open>Class scripts\<close>

text \<open>
  \<open>init\<close>: the individuals whose scripts are run, in their order. \<open>fetch\<close> is what an id holds once it is loaded.
  A value that is no individual has no \<open>load\<close>: \<open>None\<close>.
\<close>

definition first_ref_of :: "mval list \<Rightarrow> string option" where
  "first_ref_of vs = (case vs of MRef u # _ \<Rightarrow> Some u | _ \<Rightarrow> None)"

definition init_models ::
  "(int \<Rightarrow> string) \<Rightarrow> (string \<Rightarrow> int) \<Rightarrow> (string \<Rightarrow> imodel) \<Rightarrow> imodel \<Rightarrow> string list option" where
  "init_models ds dp fetch m =
     (let isClass = has_value m ''rdf:type'' (MText ''owl:Class'') \<or> has_value m ''rdf:type'' (MText ''rdfs:Class'')
      in if has_value m ''v-ui:hasModel'' MUndef \<and> \<not> isClass
         then map_option (\<lambda>u. [u]) (first_ref_of (get_values ds dp m ''v-ui:hasModel''))
         else (case as_refs (get_values ds dp m ''rdf:type'') of
                 None \<Rightarrow> None
               | Some types \<Rightarrow>
                   those (map (\<lambda>t. first_ref_of (get_values ds dp (fetch t) ''v-ui:hasModel''))
                     (filter (\<lambda>t. has_value (fetch t) ''v-ui:hasModel'' MUndef) types))))"

section \<open>What can be done\<close>

lemma granted_vals:
  "p \<in> {''v-s:canCreate'', ''v-s:canRead'', ''v-s:canUpdate'', ''v-s:canDelete''} \<Longrightarrow> mvals (granted ds) p = [mkv TBoolean (DBool True)]"
  by (auto simp: granted_def mvals_set_value mvals_set_other kept_value_def List.map_filter_simps)

lemma capitals:
  "capital ''create'' = ''Create''" "capital ''Read'' = ''Read''" "capital ''UPDATE'' = ''Update''" "capital ''delete'' = ''Delete''"
  by code_simp+

lemma true_is_true: "loose_eq (DBool True) (DBool True)"
  by code_simp

text \<open>Everything is allowed on a new individual, in any spelling of the action, and nothing if the rights cannot be read.\<close>

lemma new_is_granted:
  "isNew m \<Longrightarrow> a \<in> {''create'', ''Read'', ''UPDATE'', ''delete''} \<Longrightarrow> can ds a reply_of m"
  using granted_vals capitals by (auto simp: can_def rights_def has_value_def same_item_def true_is_true simp del: loose_eq.simps)

lemma unknown_is_refused: "\<not> isNew m \<Longrightarrow> \<not> can ds a None m \<and> memberOf None m = []"
  by (simp add: can_def rights_def has_value_def memberOf_def membership_def loose_model_def new_model_def mvals_def)

end
