(* ===== verification/Spec2Isabelle.thy ===== *)
theory Spec2Isabelle
  imports Handler_Props Workflow_Props Util_Props Numerator_Props Versions Codelets Common_Util
    Individual_Props App_Props Ontology_Props Client_Props Update_Props Query_Props
    Browser_Props Order_Props Editor_Run Presenter_Props Session_Props
    Batch Router_Props Label_Props Search Control_Props Actor_Props User_Props Template_Props Worker_Props
    Server_Backend Prefetch Access
begin

text \<open>
  A verification development for Veda, a platform of documents and business processes over a
  store of individuals (RDF-like objects: a URI and arrays of typed values under property names).

  \<^bold>\<open>The program.\<close> The scripts of \<^verbatim>\<open>public/js/common\<close>, \<^verbatim>\<open>public/js/server\<close> and
  \<^verbatim>\<open>public/modules/docflow/js/server\<close> run inside a V8 host (\<^verbatim>\<open>source/v-v8\<close>). The
  host calls an event script for every individual that was stored; the script reads with
  \<^verbatim>\<open>get_individual\<close> and writes with \<^verbatim>\<open>put_individual\<close>, \<^verbatim>\<open>add_to_individual\<close>,
  \<^verbatim>\<open>set_in_individual\<close> and \<^verbatim>\<open>remove_from_individual\<close> into a transaction. The workflow
  module interprets nets: a start form creates a process, a process creates the work item of the
  input condition, a work item of a task creates one work order per executor, a finished work
  order completes the work item, which follows the flows of the net to new work items.

  \<^bold>\<open>The model, theory by theory.\<close>
  \<^item> \<^verbatim>\<open>Veda_Prelude\<close>: objects as association lists in the order of insertion, decimal
    text, the collections of rules the proofs share.
  \<^item> \<^verbatim>\<open>Js_Data\<close>: the values of the scripts, coercions and loose equality, the constructors
    and accessors of \<^verbatim>\<open>common/util.js\<close>.
  \<^item> \<^verbatim>\<open>Js_Host\<close>: the world (what \<open>get_individual\<close> returns, the queue of writes, the
    environment), what the host makes of a stored value, and the scripts as programs of a monad
    whose results are a value, an early return, an exception or a script that does not end. The
    locale \<open>host_rel\<close> is the interface between host and handlers: a preorder on worlds that
    every host call respects is respected by every handler; it is interpreted with \<open>writes\<close>
    (only puts, and the store is the old one overwritten by them) and \<open>same_env\<close>.
  \<^item> \<^verbatim>\<open>Js_Json\<close>: \<open>JSON.stringify\<close> as the traces use it.
  \<^item> \<^verbatim>\<open>Journal\<close>, \<^verbatim>\<open>Work_Result\<close>, \<^verbatim>\<open>Variables\<close>, \<^verbatim>\<open>Messages\<close>:
    \<^verbatim>\<open>docflow-util.js\<close> with the journal functions of \<^verbatim>\<open>server/util.js\<close> and the
    permission functions of \<^verbatim>\<open>common/util.js\<close>.
  \<^item> \<^verbatim>\<open>Transformation\<close>: the rule interpreter of \<^verbatim>\<open>server/util.js\<close>.
  \<^item> \<^verbatim>\<open>Browser_Transform\<close>: the copy of that interpreter in \<^verbatim>\<open>browser/util.js\<close>, which builds
    start forms.
  \<^item> \<^verbatim>\<open>Work_Order\<close>, \<^verbatim>\<open>Work_Item\<close>, \<^verbatim>\<open>Process_Start\<close>: the handlers of
    \<^verbatim>\<open>docflow.js\<close> and the event scripts of \<^verbatim>\<open>veda-workflow.ttl\<close> that call them.
  \<^item> \<^verbatim>\<open>Versions\<close>, \<^verbatim>\<open>Numerator\<close>, \<^verbatim>\<open>Codelets\<close>, \<^verbatim>\<open>Common_Util\<close>: the rest of
    \<^verbatim>\<open>server/util.js\<close>, \<^verbatim>\<open>numerator.js\<close>, \<^verbatim>\<open>codelets.js\<close>, and the pure
    functions of \<^verbatim>\<open>common/util.js\<close>.
  \<^item> \<^verbatim>\<open>Individual_Model\<close>: \<^verbatim>\<open>public/js/common/individual_model.js\<close>, an
    individual in the browser. A promise is two steps: the operation gives the requests it sends,
    \<open>save_answered\<close>, \<open>load_answered\<close>, \<open>load_failed\<close> and \<open>reset_answered\<close> are what the
    answers do.
  \<^item> \<^verbatim>\<open>Prefetch\<close>, \<^verbatim>\<open>Access\<close>: the rest of \<^verbatim>\<open>individual_model.js\<close>, the linked
    individuals that are fetched level by level, with the proof of what they are and when this ends, rights and groups,
    the start of a load and the choice of class scripts.
  \<^item> \<^verbatim>\<open>App_Model\<close>, \<^verbatim>\<open>Ontology_Model\<close>: the cache of \<^verbatim>\<open>app_model.js\<close> with its clients
    (the constructor of individuals is one of the locale \<open>registry\<close>, which the cache interprets), and
    the tree of classes of \<^verbatim>\<open>ontology_model.js\<close>.
  \<^item> \<^verbatim>\<open>Client_Backend\<close>, \<^verbatim>\<open>Update_Service\<close>: \<^verbatim>\<open>public/js/browser/backend.js\<close> (status, local
    database, offline queue) and \<^verbatim>\<open>update_service.js\<close> with the commands of the server it talks to
    (\<^verbatim>\<open>source/veda-ccus/src/server.rs\<close>). The answers of a server are arguments.
  \<^item> \<^verbatim>\<open>Query_Builder\<close>: the queries that \<^verbatim>\<open>common/util.js\<close> builds from an individual whose
    values are search criteria. The recursion over nested criteria carries a bound, the first argument.
  \<^item> \<^verbatim>\<open>Net_Editor\<close>: \<^verbatim>\<open>veda_workflow_editor.js\<close>, what the editor of nets does to the
    individuals of a net, and the view of a process. The library that draws is left out; its events are
    the operations.
  \<^item> \<^verbatim>\<open>Presenter\<close>: \<^verbatim>\<open>individual_presenter.js\<close>, the validation of templates and what save and
    the like do over embedded templates; a template is a node of a tree.
  \<^item> \<^verbatim>\<open>Session\<close>: \<^verbatim>\<open>auth.js\<close>, the session in storage, cookie and application, with the
    panels of the login form.
  \<^item> \<^verbatim>\<open>Router\<close>: \<^verbatim>\<open>app_presenter.js\<close>, the route of a hash and the notifications, with the
    formats of values of \<^verbatim>\<open>common/util.js\<close>. \<^verbatim>\<open>Labels\<close> and \<^verbatim>\<open>Batch\<close>: the composed labels and
    the queries in portions of the same file.
  \<^item> \<^verbatim>\<open>Controls\<close>, \<^verbatim>\<open>Search\<close>, \<^verbatim>\<open>Actor_Control\<close>: \<^verbatim>\<open>veda_controls.js\<close>. A control
    is the record of its options, the property it edits is in the model of the individual, and an event is a function
    on both: the fields of literals with their parsers, working time, multilingual texts, boxes and lists of options, the
    link and actor controls with their suggestions, and \<open>ftQuery\<close>, the query of a typed text. The locale
    \<open>toggling\<close> states what a click on a suggestion does to a set of choices; boxes, links and actors interpret it.
  \<^item> \<^verbatim>\<open>Template\<close>: \<^verbatim>\<open>individual_presenter.js\<close>, which template an individual gets, the
    scripts in it, and the values of a relation that are drawn, embedded, removed or added.
  \<^item> \<^verbatim>\<open>Local_Db\<close>, \<^verbatim>\<open>Service_Worker\<close>: \<^verbatim>\<open>local_db.js\<close>, whose locale
    \<open>key_value\<close> the database interprets, be it in the browser's store or in memory, and the workers of \<^verbatim>\<open>public/sw.js\<close> and
    \<^verbatim>\<open>public/sw-simple.js\<close>, whose events are steps. \<^verbatim>\<open>Server_Backend\<close>: the host functions as promises.
  \<^item> \<^verbatim>\<open>User_Model\<close>: \<^verbatim>\<open>user_model.js\<close>, the initialisation of the user of the application.
  \<^item> \<^verbatim>\<open>Run_Facts\<close>: rules that run a program in a world.

  \<^bold>\<open>What the theorems show.\<close> \<^verbatim>\<open>Handler_Props\<close>: what every handler keeps, and that errors
  are contained. \<^verbatim>\<open>Workflow_Props\<close>: guards and joins. \<^verbatim>\<open>Order_Props\<close>: one order per
  executor, waiting for all of them, following the flows. \<^verbatim>\<open>Browser_Props\<close>: the browser's transformation
  refines the server's. \<^verbatim>\<open>Numerator_Props\<close>: the
  intervals of a scope refine a finite set of numbers, with insertion, deletion and a fresh next
  number. \<^verbatim>\<open>Util_Props\<close>: difference, merge, flattening, uniqueness, hashing and comparison
  against reference definitions. \<^verbatim>\<open>Individual_Props\<close>: what goes in comes out, a save brings
  the server to the state of the browser, a reset the browser to that of the server, with the
  cases where the code does not. \<^verbatim>\<open>App_Props\<close>: the invariant of the cache, one object per id,
  the limit. \<^verbatim>\<open>Ontology_Props\<close>: the tree of classes and the inheritance along it.
  \<^verbatim>\<open>Client_Props\<close>: offline writes arrive in order, and when they do not; reads over the local
  database. \<^verbatim>\<open>Update_Props\<close>: client and server agree on what is watched, and changes arrive.
  \<^verbatim>\<open>Query_Props\<close>: when a searched text stays inside its literal, and that nested queries end.
  \<^verbatim>\<open>Editor_Props\<close>: editing keeps a net well formed, shown on the graph of the net;
  \<^verbatim>\<open>Editor_Run\<close>: the deletion that does not, with the AND join of the server that then waits
  for ever. \<^verbatim>\<open>Presenter_Props\<close>: the state of a template is the validity of all it embeds.
  \<^verbatim>\<open>Session_Props\<close>: the parts of a session agree, how long it lasts, and the way on after
  an error. \<^verbatim>\<open>Router_Props\<close>: numbers survive their text, and which notifications are due.
  \<^verbatim>\<open>Label_Props\<close>: a label means what its pattern says. \<^verbatim>\<open>Batch\<close>: a query processes the first
  results up to its limit. \<^verbatim>\<open>Search\<close>: the search page by page ends with all results, or with a hundred.
  \<^verbatim>\<open>Control_Props\<close>, \<^verbatim>\<open>Actor_Props\<close>: what leaving a field unchanged does to the value, and
  that the clicks on suggestions keep the chosen set. \<^verbatim>\<open>User_Props\<close>: the user after the initialisation.
  \<^verbatim>\<open>Worker_Props\<close>: what the service worker makes of writes and of what it has cached.
  \<^verbatim>\<open>Template_Props\<close>: the scripts of a template are cut out where they were put in.
  \<^verbatim>\<open>Prefetch\<close>: the linked individuals within a depth, and that the descent without one ends unless the links have a cycle.

  \<^bold>\<open>Bounds and termination.\<close> A recursion that a cyclic store would not end is bounded by the depth
  of calls of the engine (\<open>stack_max\<close>), after which the model raises the RangeError the code would
  see; a loop without such a bound is a \<open>partial_function\<close>, and a world in which it does not end
  gives \<open>Hang\<close>. \<open>isSubUnitOf\<close> carries its own bound. Numbers with an integral value are
  unbounded integers; the 32 bit arithmetic of \<open>simpleHash\<close> is written out.

  \<^bold>\<open>Parameters.\<close> The expressions of the nets, the scripts of transformation and numeration rules and
  the template engine are data or libraries: they are arguments (\<open>hooks\<close>, \<open>num_scripts\<close>), and
  a theorem about them states what it asks of them. The clock, the guid, the text of a Date and
  the parsers of the storage are fields of the world.

  \<^bold>\<open>Not modelled.\<close> The browser: what class scripts of models do; what the templates and
  controls draw through jQuery (menus, popovers, trees, the date picker, the source editor), and the upload and
  cropping of files, which is the work of the browser; the drawing of nets; the HTTP requests; the export to
  Turtle and the reports; vendored and generated libraries; console output. The tickets: the
  host ignores them when it reads and only stores them with a write.
\<close>

end
